(* ===== verification/Prelude.thy ===== *)
theory Prelude
  imports Complex_Main "HOL-Library.AList" "HOL-Library.List_Lexorder" "HOL-Library.Char_ord"
begin

text \<open>
  Shared vocabulary of the development.

  \<^item> Python dictionaries keep insertion order, and several operations of the engine depend on it
    (listing, lease order, tie breaks).  They are association lists here: \<open>od_get\<close>, \<open>od_put\<close>
    (overwrite in place, else append) and \<open>od_del\<close>.  The laws a client relies on are the locale
    \<open>dict_store\<close>, interpreted once on these three functions (qualifier \<open>od\<close>).
  \<^item> A method of a service is a function \<open>state \<Rightarrow> (error + result) \<times> state\<close>: a raised
    exception is \<open>Inl\<close>, and the state that comes back with it is the one the method had reached
    when it raised.
  \<^item> \<open>keeps P m\<close> says that \<open>m\<close> preserves \<open>P\<close>, also when it raises; \<open>related R m\<close>
    is the two-state version.
\<close>

named_theorems svc_simps "unfolding rules for service methods"
named_theorems keeps_intro "introduction rules for invariant preservation"

section \<open>Insertion-ordered dictionaries\<close>

type_synonym ('k, 'v) odict = "('k \<times> 'v) list"

abbreviation od_get :: "('k, 'v) odict \<Rightarrow> 'k \<Rightarrow> 'v option" where
  "od_get \<equiv> map_of"

abbreviation od_put :: "'k \<Rightarrow> 'v \<Rightarrow> ('k, 'v) odict \<Rightarrow> ('k, 'v) odict" where
  "od_put \<equiv> AList.update"

abbreviation od_del :: "'k \<Rightarrow> ('k, 'v) odict \<Rightarrow> ('k, 'v) odict" where
  "od_del \<equiv> AList.delete"

definition od_keys :: "('k, 'v) odict \<Rightarrow> 'k list" where
  "od_keys d = List.map fst d"

definition od_vals :: "('k, 'v) odict \<Rightarrow> 'v list" where
  "od_vals d = List.map snd d"

definition od_wf :: "('k, 'v) odict \<Rightarrow> bool" where
  "od_wf d = distinct (od_keys d)"

locale dict_store =
  fixes get :: "'d \<Rightarrow> 'k \<Rightarrow> 'v option"
    and put :: "'k \<Rightarrow> 'v \<Rightarrow> 'd \<Rightarrow> 'd"
    and del :: "'k \<Rightarrow> 'd \<Rightarrow> 'd"
    and keys :: "'d \<Rightarrow> 'k list"
    and wf :: "'d \<Rightarrow> bool"
  assumes get_put: "get (put k v d) j = (if j = k then Some v else get d j)"
    and get_del: "get (del k d) j = (if j = k then None else get d j)"
    and key_iff: "k \<in> set (keys d) \<longleftrightarrow> get d k \<noteq> None"
    and keys_put: "keys (put k v d) = (if k \<in> set (keys d) then keys d else keys d @ [k])"
    and keys_del: "keys (del k d) = List.filter (\<lambda>j. j \<noteq> k) (keys d)"
    and wf_put: "wf d \<Longrightarrow> wf (put k v d)"
    and wf_del: "wf d \<Longrightarrow> wf (del k d)"
begin

lemma get_put_same [simp]: "get (put k v d) k = Some v"
  by (simp add: get_put)

lemma get_put_other [simp]: "j \<noteq> k \<Longrightarrow> get (put k v d) j = get d j"
  by (simp add: get_put)

lemma get_del_same [simp]: "get (del k d) k = None"
  by (simp add: get_del)

text \<open>Overwriting a present key neither adds nor reorders keys.\<close>

lemma keys_overwrite: "get d k \<noteq> None \<Longrightarrow> keys (put k v d) = keys d"
  by (simp add: keys_put key_iff)

lemma keys_fresh: "get d k = None \<Longrightarrow> keys (put k v d) = keys d @ [k]"
  by (simp add: keys_put key_iff)

text \<open>A value-preserving update changes what is observable at one key only.\<close>

lemma get_update_at: "get d k = Some v \<Longrightarrow> get (put k (f v) d) j = (if j = k then Some (f v) else get d j)"
  by (simp add: get_put)

end

interpretation od: dict_store od_get od_put od_del od_keys od_wf
proof (unfold_locales, goal_cases)
  case (1 k v d j)
  show ?case by (simp add: update_conv')
next
  case (2 k d j)
  show ?case by (simp add: delete_conv')
next
  case (3 k d)
  show ?case by (force simp: od_keys_def map_of_eq_None_iff)
next
  case (4 k v d)
  show ?case by (simp add: od_keys_def update_keys)
next
  case (5 k d)
  show ?case by (induction d) (auto simp: od_keys_def)
next
  case (6 d k v)
  then show ?case by (simp add: od_wf_def od_keys_def update_keys)
next
  case (7 d k)
  then show ?case by (simp add: od_wf_def od_keys_def distinct_delete)
qed

lemma od_vals_mem: "od_get d k = Some v \<Longrightarrow> v \<in> set (od_vals d)"
  by (force simp: od_vals_def dest: map_of_SomeD)

lemma od_vals_conv: "od_wf d \<Longrightarrow> v \<in> set (od_vals d) \<longleftrightarrow> (\<exists>k. od_get d k = Some v)"
  by (force simp: od_wf_def od_keys_def od_vals_def)

section \<open>Service methods: state, result and exception\<close>

type_synonym ('s, 'e, 'a) svc = "'s \<Rightarrow> ('e + 'a) \<times> 's"

definition sv_return :: "'a \<Rightarrow> ('s, 'e, 'a) svc" where
  "sv_return a s = (Inr a, s)"

definition sv_raise :: "'e \<Rightarrow> ('s, 'e, 'a) svc" where
  "sv_raise e s = (Inl e, s)"

definition sv_bind :: "('s, 'e, 'a) svc \<Rightarrow> ('a \<Rightarrow> ('s, 'e, 'b) svc) \<Rightarrow> ('s, 'e, 'b) svc" where
  "sv_bind m f s = (case m s of (Inl e, s') \<Rightarrow> (Inl e, s') | (Inr a, s') \<Rightarrow> f a s')"

definition sv_get :: "('s, 'e, 's) svc" where
  "sv_get s = (Inr s, s)"

definition sv_modify :: "('s \<Rightarrow> 's) \<Rightarrow> ('s, 'e, unit) svc" where
  "sv_modify f s = (Inr (), f s)"

definition sv_lift :: "('e + 'a) \<Rightarrow> ('s, 'e, 'a) svc" where
  "sv_lift r s = (r, s)"

declare sv_return_def [svc_simps] sv_raise_def [svc_simps] sv_bind_def [svc_simps]
  sv_get_def [svc_simps] sv_modify_def [svc_simps] sv_lift_def [svc_simps]

lemma sv_bind_ok_iff:
  "sv_bind m f s = (Inr b, s') \<longleftrightarrow> (\<exists>a s1. m s = (Inr a, s1) \<and> f a s1 = (Inr b, s'))"
  by (auto simp: sv_bind_def split: prod.splits sum.splits)

lemma sv_bind_assoc: "sv_bind (sv_bind m f) g = sv_bind m (\<lambda>a. sv_bind (f a) g)"
  by (rule ext) (simp add: sv_bind_def split: prod.splits sum.splits)

text \<open>Forget the result, keep the exception.\<close>

definition sv_void :: "('s, 'e, 'a) svc \<Rightarrow> ('s, 'e, unit) svc" where
  "sv_void m = sv_bind m (\<lambda>_. sv_return ())"

lemma snd_sv_void [simp]: "snd (sv_void m s) = snd (m s)"
  by (simp add: sv_void_def sv_bind_def sv_return_def split: prod.splits sum.splits)

lemma sv_void_raise: "sv_void m s = (Inl e, s') \<longleftrightarrow> m s = (Inl e, s')"
  by (auto simp: sv_void_def sv_bind_def sv_return_def split: prod.splits sum.splits)

text \<open>\<open>try: m except ...\<close>, where the handler catches every exception the method raises\<close>

definition sv_attempt :: "('s, 'e, 'a) svc \<Rightarrow> ('s, 'e, 'e + 'a) svc" where
  "sv_attempt m s = (case m s of (r, s') \<Rightarrow> (Inr r, s'))"

section \<open>Invariants and two-state relations of methods\<close>

definition keeps :: "('s \<Rightarrow> bool) \<Rightarrow> ('s, 'e, 'a) svc \<Rightarrow> bool" where
  "keeps P m \<longleftrightarrow> (\<forall>s. P s \<longrightarrow> P (snd (m s)))"

definition related :: "('s \<Rightarrow> 's \<Rightarrow> bool) \<Rightarrow> ('s, 'e, 'a) svc \<Rightarrow> bool" where
  "related R m \<longleftrightarrow> (\<forall>s. R s (snd (m s)))"

lemma keepsD: "keeps P m \<Longrightarrow> P s \<Longrightarrow> P (snd (m s))"
  by (simp add: keeps_def)

lemma keeps_return [keeps_intro]: "keeps P (sv_return a)"
  by (simp add: keeps_def sv_return_def)

lemma keeps_raise [keeps_intro]: "keeps P (sv_raise e)"
  by (simp add: keeps_def sv_raise_def)

lemma keeps_lift [keeps_intro]: "keeps P (sv_lift r)"
  by (simp add: keeps_def sv_lift_def)

lemma keeps_get [keeps_intro]: "keeps P sv_get"
  by (simp add: keeps_def sv_get_def)

lemma keeps_modify [keeps_intro]: "(\<And>s. P s \<Longrightarrow> P (f s)) \<Longrightarrow> keeps P (sv_modify f)"
  by (simp add: keeps_def sv_modify_def)

lemma keeps_bind [keeps_intro]: "keeps P m \<Longrightarrow> (\<And>a. keeps P (f a)) \<Longrightarrow> keeps P (sv_bind m f)"
  unfolding keeps_def sv_bind_def by (fastforce split: prod.splits sum.splits)

lemma keeps_if [keeps_intro]: "keeps P m \<Longrightarrow> keeps P n \<Longrightarrow> keeps P (if b then m else n)"
  by simp

lemma keeps_void [keeps_intro]: "keeps P m \<Longrightarrow> keeps P (sv_void m)"
  by (simp add: keeps_def)

lemma keeps_attempt [keeps_intro]: "keeps P m \<Longrightarrow> keeps P (sv_attempt m)"
  by (simp add: keeps_def sv_attempt_def split: prod.split) (metis snd_conv)

lemma keeps_case_option: "keeps P a \<Longrightarrow> (\<And>x. keeps P (b x)) \<Longrightarrow> keeps P (case v of None \<Rightarrow> a | Some x \<Rightarrow> b x)"
  by (simp split: option.split)

lemma keeps_case_sum: "(\<And>x. keeps P (a x)) \<Longrightarrow> (\<And>x. keeps P (b x)) \<Longrightarrow> keeps P (case v of Inl x \<Rightarrow> a x | Inr x \<Rightarrow> b x)"
  by (simp split: sum.split)

lemma keeps_case_prod: "(\<And>x y. keeps P (a x y)) \<Longrightarrow> keeps P (case v of (x, y) \<Rightarrow> a x y)"
  by (simp split: prod.split)

lemma keeps_case_list: "keeps P a \<Longrightarrow> (\<And>x xs. keeps P (b x xs)) \<Longrightarrow> keeps P (case v of [] \<Rightarrow> a | x # xs \<Rightarrow> b x xs)"
  by (simp split: list.split)

lemmas keeps_cases = keeps_case_option keeps_case_sum keeps_case_prod keeps_case_list

lemma related_bind:
  assumes "\<And>s t u. R s t \<Longrightarrow> R t u \<Longrightarrow> R s u" and "related R m" and "\<And>a. related R (f a)"
  shows "related R (sv_bind m f)"
  unfolding related_def
proof
  fix s
  obtain r s1 where m: "m s = (r, s1)" by (cases "m s")
  with assms(2) have "R s s1" unfolding related_def by (metis snd_conv)
  with assms(1,3) m show "R s (snd (sv_bind m f s))"
    unfolding related_def sv_bind_def by (auto split: sum.split)
qed

lemma related_modify: "(\<And>s. R s (f s)) \<Longrightarrow> related R (sv_modify f)"
  by (simp add: related_def sv_modify_def)

lemma related_pure:
  assumes "\<And>s. R s s"
  shows "related R (sv_return a)" "related R (sv_raise e)" "related R sv_get" "related R (sv_lift r)"
  using assms by (simp_all add: related_def sv_return_def sv_raise_def sv_get_def sv_lift_def)

section \<open>Weakest preconditions\<close>

text \<open>\<open>sv_wp m Q E s\<close>: \<open>m\<close> from \<open>s\<close> ends in \<open>Q\<close> when it returns and in \<open>E\<close> when it raises.\<close>

definition sv_wp :: "('s, 'e, 'a) svc \<Rightarrow> ('a \<Rightarrow> 's \<Rightarrow> bool) \<Rightarrow> ('e \<Rightarrow> 's \<Rightarrow> bool) \<Rightarrow> 's \<Rightarrow> bool" where
  "sv_wp m Q E s = (case m s of (Inl e, s') \<Rightarrow> E e s' | (Inr a, s') \<Rightarrow> Q a s')"

named_theorems wp_simps "computation rules for weakest preconditions"

lemma wp_return [wp_simps]: "sv_wp (sv_return a) Q E = Q a"
  by (rule ext) (simp add: sv_wp_def sv_return_def)

lemma wp_raise [wp_simps]: "sv_wp (sv_raise e) Q E = E e"
  by (rule ext) (simp add: sv_wp_def sv_raise_def)

lemma wp_bind [wp_simps]: "sv_wp (sv_bind m f) Q E = sv_wp m (\<lambda>a. sv_wp (f a) Q E) E"
  by (rule ext) (simp add: sv_wp_def sv_bind_def split: prod.splits sum.splits)

lemma wp_get [wp_simps]: "sv_wp sv_get Q E = (\<lambda>s. Q s s)"
  by (rule ext) (simp add: sv_wp_def sv_get_def)

lemma wp_modify [wp_simps]: "sv_wp (sv_modify f) Q E = (\<lambda>s. Q () (f s))"
  by (rule ext) (simp add: sv_wp_def sv_modify_def)

lemma wp_lift [wp_simps]: "sv_wp (sv_lift r) Q E = (case r of Inl e \<Rightarrow> E e | Inr a \<Rightarrow> Q a)"
  by (rule ext) (simp add: sv_wp_def sv_lift_def split: sum.splits)

lemma wp_if [wp_simps]: "sv_wp (if b then m else n) Q E = (if b then sv_wp m Q E else sv_wp n Q E)"
  by simp

lemma wp_mono:
  assumes "sv_wp m Q E s" and "\<And>a s'. Q a s' \<Longrightarrow> Q' a s'" and "\<And>e s'. E e s' \<Longrightarrow> E' e s'"
  shows "sv_wp m Q' E' s"
  using assms by (auto simp: sv_wp_def split: prod.splits sum.splits)

lemma wp_ok: "sv_wp m Q E s \<Longrightarrow> m s = (Inr a, s') \<Longrightarrow> Q a s'"
  by (simp add: sv_wp_def)

lemma wp_error: "sv_wp m Q E s \<Longrightarrow> m s = (Inl e, s') \<Longrightarrow> E e s'"
  by (simp add: sv_wp_def)

lemma wp_conj: "sv_wp m Q E s \<Longrightarrow> sv_wp m Q' E' s \<Longrightarrow> sv_wp m (\<lambda>a s. Q a s \<and> Q' a s) (\<lambda>e s. E e s \<and> E' e s) s"
  by (simp add: sv_wp_def split: prod.splits sum.splits)

section \<open>Python slices and sorting\<close>

text \<open>\<open>xs[:n]\<close> for an \<open>int\<close>: a negative bound counts from the end.\<close>

definition py_take :: "int \<Rightarrow> 'a list \<Rightarrow> 'a list" where
  "py_take n xs = (if 0 \<le> n then take (nat n) xs else take (length xs - nat (- n)) xs)"

lemma set_py_take: "set (py_take n xs) \<subseteq> set xs"
  by (auto simp: py_take_def dest: in_set_takeD)

lemma length_py_take: "0 \<le> n \<Longrightarrow> int (length (py_take n xs)) \<le> n"
  by (simp add: py_take_def)

text \<open>\<open>xs.sort(key=f, reverse=True)\<close> is stable: equal keys keep their order.\<close>

definition sort_desc :: "('a \<Rightarrow> int) \<Rightarrow> 'a list \<Rightarrow> 'a list" where
  "sort_desc f xs = sort_key (\<lambda>x. - f x) xs"

lemma set_sort_desc [simp]: "set (sort_desc f xs) = set xs"
  by (simp add: sort_desc_def)

lemma sorted_sort_desc: "sorted_wrt (\<lambda>a b. f b \<le> f a) (sort_desc f xs)"
proof -
  have "sorted (List.map (\<lambda>x. - f x) (sort_desc f xs))"
    unfolding sort_desc_def by (rule sorted_sort_key)
  then show ?thesis by (simp add: sorted_wrt_map)
qed

section \<open>Metered calls\<close>

text \<open>
  A client that is told for every call whether it is granted.  The law of a meter: a granted call of the
  metered kind moves the counter by its weight, to a value within the limit, and no call moves it back.
\<close>

fun granted_weight :: "('c \<Rightarrow> 's \<Rightarrow> bool \<times> 's) \<Rightarrow> ('c \<Rightarrow> int) \<Rightarrow> 'c list \<Rightarrow> 's \<Rightarrow> int" where
  "granted_weight step weight [] s = 0"
| "granted_weight step weight (c # cs) s =
     (if fst (step c s) then weight c else 0) + granted_weight step weight cs (snd (step c s))"

locale meter =
  fixes step :: "'c \<Rightarrow> 's \<Rightarrow> bool \<times> 's"
    and valid :: "'c \<Rightarrow> bool"
    and weight :: "'c \<Rightarrow> int"
    and counter :: "'s \<Rightarrow> int"
    and limit :: int
  assumes counter_mono: "valid c \<Longrightarrow> counter s \<le> counter (snd (step c s))"
    and granted: "valid c \<Longrightarrow> fst (step c s) \<Longrightarrow> weight c \<noteq> 0 \<Longrightarrow>
      counter s + weight c \<le> counter (snd (step c s)) \<and> counter (snd (step c s)) \<le> limit"
begin

lemma granted_bound: "list_all valid cs \<Longrightarrow>
    granted_weight step weight cs s = 0 \<or> counter s + granted_weight step weight cs s \<le> limit"
proof (induction cs arbitrary: s)
  case (Cons c cs)
  let ?t = "snd (step c s)"
  from Cons.prems have valid: "valid c" "list_all valid cs" by simp_all
  from Cons.IH [OF valid(2), of ?t] counter_mono [OF valid(1), of s] granted [OF valid(1), of s]
  show ?case by (cases "fst (step c s) \<and> weight c \<noteq> 0") auto
qed simp

lemma granted_at_most: "list_all valid cs \<Longrightarrow> 0 \<le> counter s \<Longrightarrow> granted_weight step weight cs s \<le> max 0 limit"
  using granted_bound [of cs s] by auto

end

end
