(* ===== verification/Lifecycle.thy ===== *)
theory Lifecycle
  imports Prelude
begin

text \<open>
  Two interfaces that several services of the engine share.

  \<^item> \<open>transition_table\<close>: a status type with a table of allowed successors and a guarded move that
    either takes the requested edge or raises.  \<open>lifecycle_service\<close> adds a service whose operations
    change the status of a stored record, and whose law is that one operation moves a record along the
    table.  What follows for whole histories is proved once, here.
  \<^item> \<open>write_through\<close>: a service that mirrors its memory into a durable namespace
    (\<open>agent33/services/orchestration_state.py\<close>) at the end of its operations.  Its law is that an
    operation started with both copies equal ends with both copies equal; what follows is that a
    restart loses nothing.

  A durable namespace holds the last payload written.  The payload is a model dump of every record, and
  reading it back validates it into equal records; that round trip through JSON is not modelled, the
  payload is the memory content itself.  \<open>saved = None\<close> means that no state store is configured.
\<close>

section \<open>Status tables\<close>

definition edge :: "('s \<Rightarrow> 's list) \<Rightarrow> 's \<Rightarrow> 's \<Rightarrow> bool" where
  "edge table s t \<longleftrightarrow> t \<in> set (table s)"

definition reach :: "('s \<Rightarrow> 's list) \<Rightarrow> 's \<Rightarrow> 's \<Rightarrow> bool" where
  "reach table = (edge table)\<^sup>*\<^sup>*"

lemma reach_refl [simp, intro]: "reach table s s"
  by (simp add: reach_def)

lemma reach_trans: "reach table s t \<Longrightarrow> reach table t u \<Longrightarrow> reach table s u"
  by (simp add: reach_def)

lemma reach_edge: "t \<in> set (table s) \<Longrightarrow> reach table s t"
  by (auto simp: reach_def edge_def)

lemma reach_step: "t \<in> set (table s) \<Longrightarrow> reach table t u \<Longrightarrow> reach table s u"
  by (meson reach_edge reach_trans)

lemma reach_closed:
  assumes "reach table s t" and "s \<in> A" and "\<And>x. x \<in> A \<Longrightarrow> set (table x) \<subseteq> A"
  shows "t \<in> A"
  using assms(1) unfolding reach_def
  by (induction rule: rtranclp_induct) (use assms(2,3) in \<open>auto simp: edge_def\<close>)

text \<open>A predicate that holds all along a run, the start and the end included.\<close>

fun along :: "('op \<Rightarrow> 'st \<Rightarrow> 'st) \<Rightarrow> ('st \<Rightarrow> bool) \<Rightarrow> 'op list \<Rightarrow> 'st \<Rightarrow> bool" where
  "along run P [] st = P st"
| "along run P (x # xs) st = (P st \<and> along run P xs (run x st))"

lemma along_start: "along run P xs st \<Longrightarrow> P st"
  by (cases xs) auto

lemma along_end: "along run P xs st \<Longrightarrow> P (fold run xs st)"
  by (induction xs arbitrary: st) auto

text \<open>Every operation of a history meets a side condition in the state it is applied to.\<close>

fun allowed :: "('op \<Rightarrow> 'st \<Rightarrow> bool) \<Rightarrow> ('op \<Rightarrow> 'st \<Rightarrow> 'st) \<Rightarrow> 'op list \<Rightarrow> 'st \<Rightarrow> bool" where
  "allowed ok run [] st = True"
| "allowed ok run (x # xs) st = (ok x st \<and> allowed ok run xs (run x st))"

lemma fold_invariant:
  assumes "P st" and "\<And>x s. x \<in> set xs \<Longrightarrow> P s \<Longrightarrow> P (run x s)"
  shows "P (fold run xs st)"
  using assms by (induction xs arbitrary: st) auto

locale transition_table =
  fixes table :: "'s \<Rightarrow> 's list"
    and move :: "'s \<Rightarrow> 's \<Rightarrow> 'e + 's"
  assumes move_ok: "t \<in> set (table s) \<Longrightarrow> move s t = Inr t"
    and move_bad: "t \<notin> set (table s) \<Longrightarrow> \<exists>e. move s t = Inl e"
begin

lemma move_iff: "move s t = Inr u \<longleftrightarrow> u = t \<and> t \<in> set (table s)"
  using move_ok move_bad by (metis Inl_Inr_False Inr_inject)

lemma move_reach: "move s t = Inr u \<Longrightarrow> reach table s u"
  by (auto simp: move_iff intro: reach_edge)

lemma terminal_no_move: "table s = [] \<Longrightarrow> \<exists>e. move s t = Inl e"
  using move_bad by simp

lemma terminal_reach: "table s = [] \<Longrightarrow> reach table s t \<Longrightarrow> t = s"
  using reach_closed [where A = "{s}"] by force

end

locale lifecycle_service = transition_table table move
  for table :: "'s \<Rightarrow> 's list" and move :: "'s \<Rightarrow> 's \<Rightarrow> 'e + 's" +
  fixes run :: "'op \<Rightarrow> 'st \<Rightarrow> 'st"
    and status :: "'st \<Rightarrow> 'k \<Rightarrow> 's option"
  assumes run_status:
    "status st k = Some s \<Longrightarrow> status (run op st) k = Some t \<Longrightarrow> reach table s t"
begin

lemma history_reach:
  "along run (\<lambda>st. status st k \<noteq> None) ops st \<Longrightarrow> status st k = Some s \<Longrightarrow>
   \<exists>t. status (fold run ops st) k = Some t \<and> reach table s t"
proof (induction ops arbitrary: st s)
  case Nil
  then show ?case by auto
next
  case (Cons op ops)
  from Cons.prems have rest: "along run (\<lambda>st. status st k \<noteq> None) ops (run op st)" by simp
  then obtain u where u: "status (run op st) k = Some u"
    by (auto dest: along_start)
  with Cons.prems(2) have "reach table s u" by (rule run_status)
  moreover obtain t where "status (fold run ops (run op st)) k = Some t" "reach table u t"
    using Cons.IH [OF rest u] by auto
  ultimately show ?case by (auto intro: reach_trans)
qed

lemma history_terminal:
  assumes "along run (\<lambda>st. status st k \<noteq> None) ops st" and "status st k = Some s" and "table s = []"
  shows "status (fold run ops st) k = Some s"
  using history_reach [OF assms(1,2)] terminal_reach [OF assms(3)] by auto

lemma history_closed:
  assumes "along run (\<lambda>st. status st k \<noteq> None) ops st" and "status st k = Some s"
    and "s \<in> A" and "\<And>x. x \<in> A \<Longrightarrow> set (table x) \<subseteq> A"
  shows "\<exists>t \<in> A. status (fold run ops st) k = Some t"
proof -
  obtain t where t: "status (fold run ops st) k = Some t" "reach table s t"
    using history_reach [OF assms(1,2)] by blast
  from t(2) assms(3,4) have "t \<in> A" by (rule reach_closed)
  with t(1) show ?thesis by blast
qed

end

section \<open>Durable copies\<close>

record 'm durable =
  live :: 'm
  saved :: "'m option"

definition persist :: "'m durable \<Rightarrow> 'm durable" where
  "persist d = (case saved d of None \<Rightarrow> d | Some _ \<Rightarrow> d\<lparr>saved := Some (live d)\<rparr>)"

text \<open>A new process: the constructor loads the namespace, or starts from \<open>blank\<close>.\<close>

definition restart :: "'m \<Rightarrow> 'm durable \<Rightarrow> 'm durable" where
  "restart blank d = (case saved d of None \<Rightarrow> d\<lparr>live := blank\<rparr> | Some m \<Rightarrow> d\<lparr>live := m\<rparr>)"

definition synced :: "'m durable \<Rightarrow> bool" where
  "synced d \<longleftrightarrow> saved d = None \<or> saved d = Some (live d)"

lemma synced_persist [simp]: "synced (persist d)"
  by (simp add: synced_def persist_def split: option.splits)

lemma live_persist [simp]: "live (persist d) = live d"
  by (simp add: persist_def split: option.splits)

lemma saved_persist_None [simp]: "saved (persist d) = None \<longleftrightarrow> saved d = None"
  by (simp add: persist_def split: option.splits)

lemma restart_synced: "synced d \<Longrightarrow> saved d \<noteq> None \<Longrightarrow> restart blank d = d"
  by (auto simp: synced_def restart_def)

locale write_through =
  fixes run :: "'op \<Rightarrow> 'm durable \<Rightarrow> 'm durable"
    and writes :: "'op \<Rightarrow> bool"
  assumes run_synced: "writes op \<Longrightarrow> synced d \<Longrightarrow> synced (run op d)"
    and run_saved: "saved (run op d) = None \<longleftrightarrow> saved d = None"
begin

lemma history_synced: "list_all writes ops \<Longrightarrow> synced d \<Longrightarrow> synced (fold run ops d)"
  by (rule fold_invariant) (auto simp: list_all_iff run_synced)

lemma history_saved: "saved (fold run ops d) = None \<longleftrightarrow> saved d = None"
  by (induction ops arbitrary: d) (auto simp: run_saved)

lemma restart_after_history:
  "list_all writes ops \<Longrightarrow> synced d \<Longrightarrow> saved d \<noteq> None \<Longrightarrow>
   restart blank (fold run ops d) = fold run ops d"
  by (rule restart_synced) (simp_all add: history_synced history_saved)

end

section \<open>Methods on one stored record\<close>

text \<open>
  The services look a record up by id, raise if it is absent, and then mutate the object they found.
  \<open>sv_at\<close> runs a method of the record and stores the object back, in whatever state the method left
  it, also when it raised.
\<close>

definition sv_at :: "('k \<Rightarrow> 'e) \<Rightarrow> 'k \<Rightarrow> ('v, 'e, 'a) svc \<Rightarrow> (('k, 'v) odict durable, 'e, 'a) svc" where
  "sv_at missing k m d =
     (case od_get (live d) k of
        None \<Rightarrow> (Inl (missing k), d)
      | Some r \<Rightarrow> (case m r of (res, r') \<Rightarrow> (res, d\<lparr>live := od_put k r' (live d)\<rparr>)))"

text \<open>The common shape of a mutating method: look up, mutate, persist, return the record.\<close>

definition sv_persist :: "('m durable, 'e, unit) svc" where
  "sv_persist = sv_modify persist"

definition sv_update :: "('k \<Rightarrow> 'e) \<Rightarrow> 'k \<Rightarrow> ('v, 'e, unit) svc \<Rightarrow> (('k, 'v) odict durable, 'e, 'v) svc" where
  "sv_update missing k m =
     sv_bind (sv_at missing k (sv_bind m (\<lambda>_. sv_get)))
       (\<lambda>r. sv_bind sv_persist (\<lambda>_. sv_return r))"

lemma sv_update_eq:
  "sv_update missing k m d =
     (case od_get (live d) k of
        None \<Rightarrow> (Inl (missing k), d)
      | Some r \<Rightarrow> (case m r of
            (Inl e, r') \<Rightarrow> (Inl e, d\<lparr>live := od_put k r' (live d)\<rparr>)
          | (Inr _, r') \<Rightarrow> (Inr r', persist (d\<lparr>live := od_put k r' (live d)\<rparr>))))"
  by (simp add: sv_update_def sv_at_def sv_persist_def svc_simps
      split: option.splits prod.splits sum.splits)

lemma od_put_same: "od_get d k = Some v \<Longrightarrow> od_put k v d = d"
  by (induction d) auto

lemma live_put_same: "od_get (live d) k = Some r \<Longrightarrow> d\<lparr>live := od_put k r (live d)\<rparr> = d"
  by (simp add: od_put_same)

text \<open>A record method that leaves the record alone when it raises makes the service do so too.\<close>

lemma sv_update_raise_unchanged:
  assumes "\<And>r e r'. m r = (Inl e, r') \<Longrightarrow> r' = r" and "sv_update missing k m d = (Inl e, d')"
  shows "d' = d"
proof (cases "od_get (live d) k")
  case None
  with assms(2) show ?thesis by (simp add: sv_update_eq)
next
  case (Some r)
  with assms(2) obtain r' where "m r = (Inl e, r')" and d': "d' = d\<lparr>live := od_put k r' (live d)\<rparr>"
    by (auto simp: sv_update_eq split: prod.splits sum.splits)
  then have "r' = r" by (blast intro: assms(1))
  with d' Some show ?thesis by (simp add: od_put_same)
qed

lemma sv_update_ok:
  "sv_update missing k m d = (Inr r', d') \<longleftrightarrow>
   (\<exists>r u. od_get (live d) k = Some r \<and> m r = (Inr u, r') \<and>
          d' = persist (d\<lparr>live := od_put k r' (live d)\<rparr>))"
  by (auto simp: sv_update_eq split: option.splits prod.splits sum.splits)

text \<open>What a step does to the record under \<open>j\<close>: nothing, or what the record method did.\<close>

lemma sv_update_get:
  "od_get (live (snd (sv_update missing k m d))) j =
   (if j = k then map_option (\<lambda>r. snd (m r)) (od_get (live d) k) else od_get (live d) j)"
  by (auto simp: sv_update_eq od.get_put split: option.splits prod.splits sum.splits)

lemma sv_update_saved: "saved (snd (sv_update missing k m d)) = None \<longleftrightarrow> saved d = None"
  by (auto simp: sv_update_eq split: option.splits prod.splits sum.splits)

lemma sv_update_synced:
  assumes "\<And>r e r'. m r = (Inl e, r') \<Longrightarrow> r' = r" and "synced d"
  shows "synced (snd (sv_update missing k m d))"
proof (cases "sv_update missing k m d")
  case (Pair res d')
  show ?thesis
  proof (cases res)
    case (Inl e)
    with Pair have "d' = d" using sv_update_raise_unchanged [OF assms(1)] by simp
    with Pair assms(2) show ?thesis by simp
  next
    case (Inr r')
    with Pair have "\<exists>x. d' = persist x" by (auto simp: sv_update_ok)
    with Pair show ?thesis by auto
  qed
qed

section \<open>Methods that write through\<close>

text \<open>
  \<open>writes_through\<close>: from equal copies to equal copies.  \<open>cleans\<close>: to equal copies from any state.
  Mutations come in runs that cannot raise and that persisting ends.
\<close>

definition writes_through :: "('m durable, 'e, 'a) svc \<Rightarrow> bool" where
  "writes_through m \<longleftrightarrow> (\<forall>d. synced d \<longrightarrow> synced (snd (m d)))"

definition cleans :: "('m durable, 'e, 'a) svc \<Rightarrow> bool" where
  "cleans m \<longleftrightarrow> (\<forall>d. synced (snd (m d)))"

definition never_raises :: "('s, 'e, 'a) svc \<Rightarrow> bool" where
  "never_raises m \<longleftrightarrow> (\<forall>s. \<exists>a s'. m s = (Inr a, s'))"

lemma wt_bind:
  fixes m :: "('m durable, 'e, 'a) svc"
  assumes "writes_through m" and "\<And>a. writes_through (f a)"
  shows "writes_through (sv_bind m f)"
  unfolding writes_through_def
proof (intro allI impI)
  fix d :: "'m durable"
  assume "synced d"
  obtain r d1 where m: "m d = (r, d1)" by (cases "m d")
  with \<open>synced d\<close> assms(1) have "synced d1" unfolding writes_through_def by (metis snd_conv)
  with m assms(2) show "synced (snd (sv_bind m f d))"
    by (cases r) (simp_all add: sv_bind_def writes_through_def)
qed

lemma wt_pure: "writes_through (sv_return a)" "writes_through (sv_raise e)" "writes_through sv_get" "writes_through (sv_lift r)"
  by (simp_all add: writes_through_def sv_return_def sv_raise_def sv_get_def sv_lift_def)

lemma wt_void: "writes_through m \<Longrightarrow> writes_through (sv_void m)"
  by (simp add: writes_through_def)

lemma cleans_wt: "cleans m \<Longrightarrow> writes_through m"
  by (simp add: cleans_def writes_through_def)

lemma cleans_persist: "cleans sv_persist"
  by (simp add: cleans_def sv_persist_def sv_modify_def)

lemma cleans_first:
  fixes m :: "('m durable, 'e, 'a) svc"
  assumes "cleans m" and "\<And>a. writes_through (f a)"
  shows "cleans (sv_bind m f)"
  unfolding cleans_def
proof
  fix d :: "'m durable"
  obtain r d1 where m: "m d = (r, d1)" by (cases "m d")
  with assms(1) have "synced d1" unfolding cleans_def by (metis snd_conv)
  with m assms(2) show "synced (snd (sv_bind m f d))"
    by (cases r) (simp_all add: sv_bind_def writes_through_def)
qed

lemma cleans_later:
  fixes m :: "('m durable, 'e, 'a) svc"
  assumes "never_raises m" and "\<And>a. cleans (f a)"
  shows "cleans (sv_bind m f)"
  unfolding cleans_def
proof
  fix d :: "'m durable"
  obtain a d1 where "m d = (Inr a, d1)" using assms(1) unfolding never_raises_def by blast
  with assms(2) show "synced (snd (sv_bind m f d))" by (simp add: sv_bind_def cleans_def)
qed

lemma wt_later: "never_raises m \<Longrightarrow> (\<And>a. cleans (f a)) \<Longrightarrow> writes_through (sv_bind m f)"
  by (rule cleans_wt) (rule cleans_later)

end
