(* ===== verification/Review.thy ===== *)
theory Review
  imports Lifecycle
begin

text \<open>
  The two-layer review workflow (\<open>agent33/review/\<close>): risk assessment (\<open>risk.py\<close>), reviewer
  assignment (\<open>assignment.py\<close>), the signoff state machine (\<open>state_machine.py\<close>) and the service
  that drives a record through it (\<open>service.py\<close>).  Enum members are constructors with a prefix per
  enum.  Record ids and clock readings, which the code draws from \<open>uuid4\<close> and \<open>datetime.now\<close>, are
  arguments; one call of a method uses one reading.
\<close>

section \<open>Data\<close>

datatype risk_level = RL_None | RL_Low | RL_Medium | RL_High | RL_Critical

datatype risk_trigger = RT_Documentation | RT_Config | RT_CodeIsolated | RT_ApiInternal | RT_ApiPublic
  | RT_Security | RT_Schema | RT_Infrastructure | RT_PromptAgent | RT_Secrets | RT_ProductionData
  | RT_PromptInjection | RT_SandboxEscape | RT_SupplyChain

datatype signoff_state = SS_Draft | SS_Ready | SS_L1Review | SS_L1ChangesRequested | SS_L1Approved
  | SS_L2Review | SS_L2ChangesRequested | SS_L2Approved | SS_Approved | SS_ChangesRequested
  | SS_Deferred | SS_Merged

datatype review_decision = RD_Approved | RD_ChangesRequested | RD_Escalated

record risk_assessment =
  ra_level :: risk_level
  ra_triggers :: "risk_trigger list"
  ra_l1_required :: bool
  ra_l2_required :: bool

record layer_review =
  lr_reviewer_id :: string
  lr_reviewer_role :: string
  lr_assigned_at :: "int option"
  lr_completed_at :: "int option"
  lr_decision :: "review_decision option"
  lr_checklist :: "(string, string) odict"
  lr_issues :: "string list"
  lr_comments :: string

record final_signoff =
  fs_approved_by :: string
  fs_approved_at :: "int option"
  fs_approval_type :: string
  fs_conditions :: "string list"
  fs_rationale :: string
  fs_modification_summary :: string
  fs_linked_intake_id :: "string option"

record artifact_link =
  al_kind :: string
  al_artifact_id :: string
  al_label :: string
  al_mode :: string

record review_evidence =
  re_verification_log_ref :: string
  re_evidence_capture_ref :: string

record review_record =
  rv_id :: string
  rv_task_id :: string
  rv_branch :: string
  rv_pr_number :: "int option"
  rv_tenant_id :: string
  rv_state :: signoff_state
  rv_risk :: risk_assessment
  rv_l1 :: layer_review
  rv_l2 :: layer_review
  rv_final :: final_signoff
  rv_evidence :: review_evidence
  rv_artifacts :: "artifact_link list"
  rv_created_at :: int
  rv_updated_at :: int

definition no_risk :: risk_assessment where
  "no_risk = \<lparr>ra_level = RL_None, ra_triggers = [], ra_l1_required = False, ra_l2_required = False\<rparr>"

definition blank_layer :: layer_review where
  "blank_layer = \<lparr>lr_reviewer_id = [], lr_reviewer_role = [], lr_assigned_at = None,
     lr_completed_at = None, lr_decision = None, lr_checklist = [], lr_issues = [], lr_comments = []\<rparr>"

definition blank_signoff :: final_signoff where
  "blank_signoff = \<lparr>fs_approved_by = [], fs_approved_at = None, fs_approval_type = [],
     fs_conditions = [], fs_rationale = [], fs_modification_summary = [], fs_linked_intake_id = None\<rparr>"

section \<open>Risk assessment\<close>

fun trigger_risk :: "risk_trigger \<Rightarrow> risk_level" where
  "trigger_risk RT_Documentation = RL_None"
| "trigger_risk RT_Config = RL_Low"
| "trigger_risk RT_CodeIsolated = RL_Low"
| "trigger_risk RT_ApiInternal = RL_Medium"
| "trigger_risk RT_ApiPublic = RL_High"
| "trigger_risk RT_Security = RL_High"
| "trigger_risk RT_Schema = RL_High"
| "trigger_risk RT_Infrastructure = RL_High"
| "trigger_risk RT_PromptAgent = RL_High"
| "trigger_risk RT_Secrets = RL_Critical"
| "trigger_risk RT_ProductionData = RL_Critical"
| "trigger_risk RT_PromptInjection = RL_High"
| "trigger_risk RT_SandboxEscape = RL_High"
| "trigger_risk RT_SupplyChain = RL_High"

fun risk_ord :: "risk_level \<Rightarrow> nat" where
  "risk_ord RL_None = 0"
| "risk_ord RL_Low = 1"
| "risk_ord RL_Medium = 2"
| "risk_ord RL_High = 3"
| "risk_ord RL_Critical = 4"

fun max_level_loop :: "risk_level \<Rightarrow> risk_trigger list \<Rightarrow> risk_level" where
  "max_level_loop m [] = m"
| "max_level_loop m (t # ts) =
     max_level_loop (if risk_ord m < risk_ord (trigger_risk t) then trigger_risk t else m) ts"

definition assess :: "risk_trigger list \<Rightarrow> risk_assessment" where
  "assess triggers =
     (if triggers = [] then no_risk
      else let max_level = max_level_loop RL_None triggers in
        \<lparr>ra_level = max_level, ra_triggers = triggers,
         ra_l1_required = (risk_ord RL_Low \<le> risk_ord max_level),
         ra_l2_required = (risk_ord RL_Medium \<le> risk_ord max_level)\<rparr>)"

section \<open>Reviewer assignment\<close>

record reviewer_assignment =
  as_role :: string
  as_agent_id :: string
  as_human_required :: bool

definition reviewer :: "string \<Rightarrow> string \<Rightarrow> bool \<Rightarrow> reviewer_assignment" where
  "reviewer role agent human = \<lparr>as_role = role, as_agent_id = agent, as_human_required = human\<rparr>"

definition default_l1 :: reviewer_assignment where
  "default_l1 = reviewer ''implementer'' ''AGT-006'' False"

definition default_l2 :: reviewer_assignment where
  "default_l2 = reviewer ''architect'' ''AGT-003'' False"

fun assignment_matrix :: "risk_trigger \<Rightarrow> reviewer_assignment \<times> reviewer_assignment" where
  "assignment_matrix RT_CodeIsolated =
     (reviewer ''implementer'' ''AGT-006'' False, reviewer ''architect'' ''AGT-003'' False)"
| "assignment_matrix RT_Security =
     (reviewer ''security'' ''AGT-004'' False, reviewer ''security-human'' ''HUMAN'' True)"
| "assignment_matrix RT_PromptInjection =
     (reviewer ''security'' ''AGT-004'' False, reviewer ''security-human'' ''HUMAN'' True)"
| "assignment_matrix RT_SandboxEscape =
     (reviewer ''security'' ''AGT-004'' False, reviewer ''security-human'' ''HUMAN'' True)"
| "assignment_matrix RT_Schema =
     (reviewer ''implementer'' ''AGT-006'' False, reviewer ''architect'' ''AGT-003'' False)"
| "assignment_matrix RT_ApiInternal =
     (reviewer ''implementer'' ''AGT-006'' False, reviewer ''architect'' ''AGT-003'' False)"
| "assignment_matrix RT_ApiPublic =
     (reviewer ''implementer'' ''AGT-006'' False, reviewer ''architect-human'' ''HUMAN'' True)"
| "assignment_matrix RT_Infrastructure =
     (reviewer ''implementer'' ''AGT-006'' False, reviewer ''architect-human'' ''HUMAN'' True)"
| "assignment_matrix RT_PromptAgent =
     (reviewer ''qa'' ''AGT-005'' False, reviewer ''orchestrator'' ''AGT-001'' False)"
| "assignment_matrix RT_Documentation =
     (reviewer ''documentation'' ''AGT-007'' False, reviewer ''orchestrator'' ''AGT-001'' False)"
| "assignment_matrix RT_Config =
     (reviewer ''implementer'' ''AGT-006'' False, reviewer ''architect'' ''AGT-003'' False)"
| "assignment_matrix RT_Secrets =
     (reviewer ''security'' ''AGT-004'' False, reviewer ''security-human'' ''HUMAN'' True)"
| "assignment_matrix RT_ProductionData =
     (reviewer ''security'' ''AGT-004'' False, reviewer ''security-human'' ''HUMAN'' True)"
| "assignment_matrix RT_SupplyChain =
     (reviewer ''security'' ''AGT-004'' False, reviewer ''architect'' ''AGT-003'' False)"

fun highest_loop :: "risk_trigger \<Rightarrow> risk_trigger list \<Rightarrow> risk_trigger" where
  "highest_loop h [] = h"
| "highest_loop h (t # ts) =
     highest_loop (if risk_ord (trigger_risk h) < risk_ord (trigger_risk t) then t else h) ts"

definition assign :: "risk_trigger list \<Rightarrow> reviewer_assignment \<times> reviewer_assignment" where
  "assign triggers = (case triggers of
      [] \<Rightarrow> (default_l1, default_l2)
    | t # ts \<Rightarrow> assignment_matrix (highest_loop t ts))"

section \<open>The signoff state machine\<close>

fun signoff_table :: "signoff_state \<Rightarrow> signoff_state list" where
  "signoff_table SS_Draft = [SS_Ready]"
| "signoff_table SS_Ready = [SS_L1Review]"
| "signoff_table SS_L1Review = [SS_L1Approved, SS_L1ChangesRequested]"
| "signoff_table SS_L1ChangesRequested = [SS_Draft]"
| "signoff_table SS_L1Approved = [SS_L2Review, SS_Approved]"
| "signoff_table SS_L2Review = [SS_L2Approved, SS_L2ChangesRequested]"
| "signoff_table SS_L2ChangesRequested = [SS_Draft]"
| "signoff_table SS_L2Approved = [SS_Approved]"
| "signoff_table SS_Approved = [SS_Merged, SS_ChangesRequested, SS_Deferred]"
| "signoff_table SS_ChangesRequested = [SS_Ready]"
| "signoff_table SS_Deferred = [SS_Ready]"
| "signoff_table SS_Merged = []"

datatype review_error =
    ReviewNotFound string
  | InvalidSignoff signoff_state signoff_state
  | CannotSubmitL1 signoff_state
  | CannotSubmitL2 signoff_state
  | CannotApprove signoff_state
  | CannotApproveWithRationale signoff_state

definition can_transition :: "signoff_state \<Rightarrow> signoff_state \<Rightarrow> bool" where
  "can_transition s t = (t \<in> set (signoff_table s))"

definition signoff_transition :: "signoff_state \<Rightarrow> signoff_state \<Rightarrow> review_error + signoff_state" where
  "signoff_transition s t = (if \<not> can_transition s t then Inl (InvalidSignoff s t) else Inr t)"

section \<open>Methods on one record\<close>

type_synonym 'a review_m = "(review_record, review_error, 'a) svc"

definition rv_transition :: "signoff_state \<Rightarrow> int \<Rightarrow> unit review_m" where
  "rv_transition to now =
     sv_bind sv_get (\<lambda>r. sv_bind (sv_lift (signoff_transition (rv_state r) to)) (\<lambda>new_state.
       sv_modify (\<lambda>r. r\<lparr>rv_state := new_state, rv_updated_at := now\<rparr>)))"

definition assess_risk_m :: "risk_trigger list \<Rightarrow> int \<Rightarrow> unit review_m" where
  "assess_risk_m triggers now = sv_modify (\<lambda>r. r\<lparr>rv_risk := assess triggers, rv_updated_at := now\<rparr>)"

definition assign_l1_m :: "int \<Rightarrow> unit review_m" where
  "assign_l1_m now = sv_bind (rv_transition SS_L1Review now) (\<lambda>_. sv_modify (\<lambda>r.
     let l1 = fst (assign (ra_triggers (rv_risk r))) in
     r\<lparr>rv_l1 := (rv_l1 r)\<lparr>lr_reviewer_id := as_agent_id l1, lr_reviewer_role := as_role l1,
         lr_assigned_at := Some now\<rparr>, rv_updated_at := now\<rparr>))"

definition assign_l2_m :: "int \<Rightarrow> unit review_m" where
  "assign_l2_m now = sv_bind (rv_transition SS_L2Review now) (\<lambda>_. sv_modify (\<lambda>r.
     let l2 = snd (assign (ra_triggers (rv_risk r))) in
     r\<lparr>rv_l2 := (rv_l2 r)\<lparr>lr_reviewer_id := as_agent_id l2, lr_reviewer_role := as_role l2,
         lr_assigned_at := Some now\<rparr>, rv_updated_at := now\<rparr>))"

text \<open>The fields a submission fills in, for either layer.\<close>

definition record_submission ::
  "review_decision \<Rightarrow> (string, string) odict option \<Rightarrow> string list option \<Rightarrow> string \<Rightarrow> int \<Rightarrow>
   layer_review \<Rightarrow> layer_review" where
  "record_submission decision checklist issues comments now l =
     (let l = l\<lparr>lr_decision := Some decision, lr_completed_at := Some now, lr_comments := comments\<rparr>;
          l = (case issues of None \<Rightarrow> l | Some [] \<Rightarrow> l | Some is \<Rightarrow> l\<lparr>lr_issues := is\<rparr>)
      in case checklist of None \<Rightarrow> l | Some c \<Rightarrow> l\<lparr>lr_checklist := c\<rparr>)"

definition submit_l1_m ::
  "review_decision \<Rightarrow> (string, string) odict option \<Rightarrow> string list option \<Rightarrow> string \<Rightarrow> int \<Rightarrow> unit review_m" where
  "submit_l1_m decision checklist issues comments now =
     sv_bind sv_get (\<lambda>r.
       if rv_state r \<noteq> SS_L1Review then sv_raise (CannotSubmitL1 (rv_state r))
       else sv_bind (sv_modify (\<lambda>r. r\<lparr>rv_l1 := record_submission decision checklist issues comments now (rv_l1 r)\<rparr>))
         (\<lambda>_. case decision of
             RD_Approved \<Rightarrow>
               if ra_l2_required (rv_risk r) then rv_transition SS_L1Approved now
               else sv_bind (rv_transition SS_L1Approved now) (\<lambda>_. rv_transition SS_Approved now)
           | RD_ChangesRequested \<Rightarrow> rv_transition SS_L1ChangesRequested now
           | RD_Escalated \<Rightarrow>
               sv_bind (sv_modify (\<lambda>r. r\<lparr>rv_risk := (rv_risk r)\<lparr>ra_l2_required := True\<rparr>\<rparr>))
                 (\<lambda>_. rv_transition SS_L1Approved now)))"

definition submit_l2_m ::
  "review_decision \<Rightarrow> (string, string) odict option \<Rightarrow> string list option \<Rightarrow> string \<Rightarrow> int \<Rightarrow> unit review_m" where
  "submit_l2_m decision checklist issues comments now =
     sv_bind sv_get (\<lambda>r.
       if rv_state r \<noteq> SS_L2Review then sv_raise (CannotSubmitL2 (rv_state r))
       else sv_bind (sv_modify (\<lambda>r. r\<lparr>rv_l2 := record_submission decision checklist issues comments now (rv_l2 r)\<rparr>))
         (\<lambda>_. case decision of
             RD_Approved \<Rightarrow> sv_bind (rv_transition SS_L2Approved now) (\<lambda>_. rv_transition SS_Approved now)
           | RD_ChangesRequested \<Rightarrow> rv_transition SS_L2ChangesRequested now
           | RD_Escalated \<Rightarrow> rv_transition SS_L2ChangesRequested now))"

definition approval_type :: "review_record \<Rightarrow> string" where
  "approval_type r =
     (if lr_decision (rv_l2 r) \<noteq> None then
        (if lr_reviewer_id (rv_l2 r) = ''HUMAN'' then ''l1_l2_human'' else ''l1_l2_agent'')
      else ''l1_only'')"

definition approve_m :: "string \<Rightarrow> string list option \<Rightarrow> int \<Rightarrow> unit review_m" where
  "approve_m approver conditions now = sv_bind sv_get (\<lambda>r.
     if rv_state r \<noteq> SS_Approved then sv_raise (CannotApprove (rv_state r))
     else sv_modify (\<lambda>r. r\<lparr>rv_final :=
         blank_signoff\<lparr>fs_approved_by := approver, fs_approved_at := Some now,
           fs_approval_type := approval_type r,
           fs_conditions := (case conditions of None \<Rightarrow> [] | Some c \<Rightarrow> c)\<rparr>,
         rv_updated_at := now\<rparr>))"

definition approve_with_rationale_m ::
  "string \<Rightarrow> string \<Rightarrow> string \<Rightarrow> string \<Rightarrow> string list option \<Rightarrow> string option \<Rightarrow> int \<Rightarrow> unit review_m" where
  "approve_with_rationale_m approver decision rationale modification conditions intake now =
     sv_bind sv_get (\<lambda>r.
       if rv_state r \<noteq> SS_Approved then sv_raise (CannotApproveWithRationale (rv_state r))
       else sv_bind (sv_modify (\<lambda>r. r\<lparr>rv_final :=
           \<lparr>fs_approved_by = approver, fs_approved_at = Some now, fs_approval_type = approval_type r,
            fs_conditions = (case conditions of None \<Rightarrow> [] | Some c \<Rightarrow> c), fs_rationale = rationale,
            fs_modification_summary = modification, fs_linked_intake_id = intake\<rparr>\<rparr>))
         (\<lambda>_. if decision = ''changes_requested'' then rv_transition SS_ChangesRequested now
              else if decision = ''deferred'' then rv_transition SS_Deferred now
              else sv_modify (\<lambda>r. r\<lparr>rv_updated_at := now\<rparr>)))"

section \<open>The service\<close>

type_synonym review_st = "(string, review_record) odict durable"
type_synonym 'a review_svc = "(review_st, review_error, 'a) svc"

definition review_create ::
  "string \<Rightarrow> int \<Rightarrow> string \<Rightarrow> string \<Rightarrow> int option \<Rightarrow> string \<Rightarrow> artifact_link list option \<Rightarrow>
   review_record review_svc" where
  "review_create new_id now task branch pr tenant artifacts =
     (let r = \<lparr>rv_id = new_id, rv_task_id = task, rv_branch = branch, rv_pr_number = pr,
               rv_tenant_id = tenant, rv_state = SS_Draft, rv_risk = no_risk, rv_l1 = blank_layer,
               rv_l2 = blank_layer, rv_final = blank_signoff,
               rv_evidence = \<lparr>re_verification_log_ref = [], re_evidence_capture_ref = []\<rparr>,
               rv_artifacts = (case artifacts of None \<Rightarrow> [] | Some a \<Rightarrow> a),
               rv_created_at = now, rv_updated_at = now\<rparr>
      in sv_bind (sv_modify (\<lambda>d. d\<lparr>live := od_put new_id r (live d)\<rparr>))
           (\<lambda>_. sv_bind sv_persist (\<lambda>_. sv_return r)))"

definition review_get :: "string \<Rightarrow> review_record review_svc" where
  "review_get i = sv_at ReviewNotFound i sv_get"

definition review_list_all :: "string option \<Rightarrow> review_record list review_svc" where
  "review_list_all tenant = sv_bind sv_get (\<lambda>d. sv_return (case tenant of
       None \<Rightarrow> od_vals (live d)
     | Some t \<Rightarrow> filter (\<lambda>r. rv_tenant_id r = t) (od_vals (live d))))"

definition review_delete :: "string \<Rightarrow> unit review_svc" where
  "review_delete i = sv_bind sv_get (\<lambda>d.
     if od_get (live d) i = None then sv_raise (ReviewNotFound i)
     else sv_bind (sv_modify (\<lambda>d. d\<lparr>live := od_del i (live d)\<rparr>)) (\<lambda>_. sv_persist))"

definition review_assess_risk :: "string \<Rightarrow> risk_trigger list \<Rightarrow> int \<Rightarrow> review_record review_svc" where
  "review_assess_risk i triggers now = sv_update ReviewNotFound i (assess_risk_m triggers now)"

definition review_mark_ready :: "string \<Rightarrow> int \<Rightarrow> review_record review_svc" where
  "review_mark_ready i now = sv_update ReviewNotFound i (rv_transition SS_Ready now)"

definition review_assign_l1 :: "string \<Rightarrow> int \<Rightarrow> review_record review_svc" where
  "review_assign_l1 i now = sv_update ReviewNotFound i (assign_l1_m now)"

definition review_submit_l1 ::
  "string \<Rightarrow> review_decision \<Rightarrow> (string, string) odict option \<Rightarrow> string list option \<Rightarrow> string \<Rightarrow> int \<Rightarrow>
   review_record review_svc" where
  "review_submit_l1 i decision checklist issues comments now =
     sv_update ReviewNotFound i (submit_l1_m decision checklist issues comments now)"

definition review_assign_l2 :: "string \<Rightarrow> int \<Rightarrow> review_record review_svc" where
  "review_assign_l2 i now = sv_update ReviewNotFound i (assign_l2_m now)"

definition review_submit_l2 ::
  "string \<Rightarrow> review_decision \<Rightarrow> (string, string) odict option \<Rightarrow> string list option \<Rightarrow> string \<Rightarrow> int \<Rightarrow>
   review_record review_svc" where
  "review_submit_l2 i decision checklist issues comments now =
     sv_update ReviewNotFound i (submit_l2_m decision checklist issues comments now)"

definition review_approve :: "string \<Rightarrow> string \<Rightarrow> string list option \<Rightarrow> int \<Rightarrow> review_record review_svc" where
  "review_approve i approver conditions now = sv_update ReviewNotFound i (approve_m approver conditions now)"

definition review_approve_with_rationale ::
  "string \<Rightarrow> string \<Rightarrow> string \<Rightarrow> string \<Rightarrow> string \<Rightarrow> string list option \<Rightarrow> string option \<Rightarrow> int \<Rightarrow>
   review_record review_svc" where
  "review_approve_with_rationale i approver decision rationale modification conditions intake now =
     sv_update ReviewNotFound i
       (approve_with_rationale_m approver decision rationale modification conditions intake now)"

definition review_merge :: "string \<Rightarrow> int \<Rightarrow> review_record review_svc" where
  "review_merge i now = sv_update ReviewNotFound i (rv_transition SS_Merged now)"

end
