(* ===== verification/Review_Correct.thy ===== *)
theory Review_Correct
  imports Review
begin

text \<open>
  What the review workflow guarantees: risk levels and reviewer choice, error atomicity, the signoff
  lifecycle over whole histories, what a merged record went through, where a record gets stuck, and
  that the durable copy follows the memory.
\<close>

section \<open>Histories of service calls\<close>

datatype review_op =
    OpCreate string int string string "int option" string "artifact_link list option"
  | OpDelete string
  | OpAssess string "risk_trigger list" int
  | OpReady string int
  | OpAssignL1 string int
  | OpSubmitL1 string review_decision "(string, string) odict option" "string list option" string int
  | OpAssignL2 string int
  | OpSubmitL2 string review_decision "(string, string) odict option" "string list option" string int
  | OpApprove string string "string list option" int
  | OpRationale string string string string string "string list option" "string option" int
  | OpMerge string int

fun review_exec :: "review_op \<Rightarrow> unit review_svc" where
  "review_exec (OpCreate i now task branch pr tenant arts) =
     sv_void (review_create i now task branch pr tenant arts)"
| "review_exec (OpDelete i) = review_delete i"
| "review_exec (OpAssess i ts now) = sv_void (review_assess_risk i ts now)"
| "review_exec (OpReady i now) = sv_void (review_mark_ready i now)"
| "review_exec (OpAssignL1 i now) = sv_void (review_assign_l1 i now)"
| "review_exec (OpSubmitL1 i dec ck iss com now) = sv_void (review_submit_l1 i dec ck iss com now)"
| "review_exec (OpAssignL2 i now) = sv_void (review_assign_l2 i now)"
| "review_exec (OpSubmitL2 i dec ck iss com now) = sv_void (review_submit_l2 i dec ck iss com now)"
| "review_exec (OpApprove i who conds now) = sv_void (review_approve i who conds now)"
| "review_exec (OpRationale i who dec rat md conds intake now) =
     sv_void (review_approve_with_rationale i who dec rat md conds intake now)"
| "review_exec (OpMerge i now) = sv_void (review_merge i now)"

definition review_run :: "review_op \<Rightarrow> review_st \<Rightarrow> review_st" where
  "review_run op d = snd (review_exec op d)"

definition review_status :: "review_st \<Rightarrow> string \<Rightarrow> signoff_state option" where
  "review_status d i = map_option rv_state (od_get (live d) i)"

text \<open>Ids come from \<open>uuid4\<close>: a creation does not reuse the id of a stored record.\<close>

definition fresh_create :: "review_op \<Rightarrow> review_st \<Rightarrow> bool" where
  "fresh_create op d = (case op of
      OpCreate i _ _ _ _ _ _ \<Rightarrow> od_get (live d) i = None | _ \<Rightarrow> True)"

definition review_step :: "review_op \<Rightarrow> review_st \<Rightarrow> review_st" where
  "review_step op d = (if fresh_create op d then review_run op d else d)"

text \<open>The record method behind an operation that works on one record.\<close>

fun review_method :: "review_op \<Rightarrow> (string \<times> unit review_m) option" where
  "review_method (OpAssess i ts now) = Some (i, assess_risk_m ts now)"
| "review_method (OpReady i now) = Some (i, rv_transition SS_Ready now)"
| "review_method (OpAssignL1 i now) = Some (i, assign_l1_m now)"
| "review_method (OpSubmitL1 i dec ck iss com now) = Some (i, submit_l1_m dec ck iss com now)"
| "review_method (OpAssignL2 i now) = Some (i, assign_l2_m now)"
| "review_method (OpSubmitL2 i dec ck iss com now) = Some (i, submit_l2_m dec ck iss com now)"
| "review_method (OpApprove i who conds now) = Some (i, approve_m who conds now)"
| "review_method (OpRationale i who dec rat md conds intake now) =
     Some (i, approve_with_rationale_m who dec rat md conds intake now)"
| "review_method (OpMerge i now) = Some (i, rv_transition SS_Merged now)"
| "review_method _ = None"

lemmas review_op_defs = review_assess_risk_def review_mark_ready_def review_assign_l1_def
  review_submit_l1_def review_assign_l2_def review_submit_l2_def review_approve_def
  review_approve_with_rationale_def review_merge_def

lemma review_run_method:
  "review_method op = Some (i, m) \<Longrightarrow> review_run op d = snd (sv_update ReviewNotFound i m d)"
  unfolding review_run_def by (cases op) (auto simp: review_op_defs)

lemma review_run_create:
  "review_run (OpCreate i now task branch pr tenant arts) d =
     persist (d\<lparr>live := od_put i \<lparr>rv_id = i, rv_task_id = task, rv_branch = branch, rv_pr_number = pr,
       rv_tenant_id = tenant, rv_state = SS_Draft, rv_risk = no_risk, rv_l1 = blank_layer,
       rv_l2 = blank_layer, rv_final = blank_signoff,
       rv_evidence = \<lparr>re_verification_log_ref = [], re_evidence_capture_ref = []\<rparr>,
       rv_artifacts = (case arts of None \<Rightarrow> [] | Some a \<Rightarrow> a),
       rv_created_at = now, rv_updated_at = now\<rparr> (live d)\<rparr>)"
  by (simp add: review_run_def sv_void_def review_create_def Let_def svc_simps sv_persist_def)

lemma review_run_delete:
  "review_run (OpDelete i) d =
     (if od_get (live d) i = None then d else persist (d\<lparr>live := od_del i (live d)\<rparr>))"
  by (simp add: review_run_def review_delete_def svc_simps sv_persist_def)

lemma review_op_cases:
  obtains (create) i now task branch pr tenant arts where "op = OpCreate i now task branch pr tenant arts"
    | (delete) i where "op = OpDelete i"
    | (call) i m where "review_method op = Some (i, m)"
  by (cases op) auto

section \<open>Record methods: every branch written out\<close>

interpretation signoff: transition_table signoff_table signoff_transition
  by unfold_locales (auto simp: signoff_transition_def can_transition_def)

lemma rv_transition_eq:
  "rv_transition to now r =
     (if to \<in> set (signoff_table (rv_state r)) then (Inr (), r\<lparr>rv_state := to, rv_updated_at := now\<rparr>)
      else (Inl (InvalidSignoff (rv_state r) to), r))"
  by (simp add: rv_transition_def signoff_transition_def can_transition_def svc_simps)

lemma assign_l1_eq:
  "assign_l1_m now r =
     (if rv_state r = SS_Ready then
        (Inr (), r\<lparr>rv_state := SS_L1Review,
           rv_l1 := (rv_l1 r)\<lparr>lr_reviewer_id := as_agent_id (fst (assign (ra_triggers (rv_risk r)))),
              lr_reviewer_role := as_role (fst (assign (ra_triggers (rv_risk r)))),
              lr_assigned_at := Some now\<rparr>, rv_updated_at := now\<rparr>)
      else (Inl (InvalidSignoff (rv_state r) SS_L1Review), r))"
  by (cases "rv_state r") (simp_all add: assign_l1_m_def svc_simps rv_transition_eq Let_def)

lemma assign_l2_eq:
  "assign_l2_m now r =
     (if rv_state r = SS_L1Approved then
        (Inr (), r\<lparr>rv_state := SS_L2Review,
           rv_l2 := (rv_l2 r)\<lparr>lr_reviewer_id := as_agent_id (snd (assign (ra_triggers (rv_risk r)))),
              lr_reviewer_role := as_role (snd (assign (ra_triggers (rv_risk r)))),
              lr_assigned_at := Some now\<rparr>, rv_updated_at := now\<rparr>)
      else (Inl (InvalidSignoff (rv_state r) SS_L2Review), r))"
  by (cases "rv_state r") (simp_all add: assign_l2_m_def svc_simps rv_transition_eq Let_def)

lemma submit_l1_eq:
  "submit_l1_m dec ck iss com now r =
     (if rv_state r \<noteq> SS_L1Review then (Inl (CannotSubmitL1 (rv_state r)), r)
      else let r1 = r\<lparr>rv_l1 := record_submission dec ck iss com now (rv_l1 r)\<rparr> in
        (Inr (), case dec of
            RD_Approved \<Rightarrow> r1\<lparr>rv_state := (if ra_l2_required (rv_risk r) then SS_L1Approved else SS_Approved),
                             rv_updated_at := now\<rparr>
          | RD_ChangesRequested \<Rightarrow> r1\<lparr>rv_state := SS_L1ChangesRequested, rv_updated_at := now\<rparr>
          | RD_Escalated \<Rightarrow> r1\<lparr>rv_risk := (rv_risk r)\<lparr>ra_l2_required := True\<rparr>,
                              rv_state := SS_L1Approved, rv_updated_at := now\<rparr>))"
  by (cases dec) (simp_all add: submit_l1_m_def svc_simps rv_transition_eq Let_def)

lemma submit_l2_eq:
  "submit_l2_m dec ck iss com now r =
     (if rv_state r \<noteq> SS_L2Review then (Inl (CannotSubmitL2 (rv_state r)), r)
      else (Inr (), r\<lparr>rv_l2 := record_submission dec ck iss com now (rv_l2 r),
             rv_state := (if dec = RD_Approved then SS_Approved else SS_L2ChangesRequested),
             rv_updated_at := now\<rparr>))"
  by (cases dec) (simp_all add: submit_l2_m_def svc_simps rv_transition_eq Let_def)

lemma rationale_eq:
  "approve_with_rationale_m who dec rat md conds intake now r =
     (if rv_state r \<noteq> SS_Approved then (Inl (CannotApproveWithRationale (rv_state r)), r)
      else (Inr (), r\<lparr>rv_final :=
           \<lparr>fs_approved_by = who, fs_approved_at = Some now, fs_approval_type = approval_type r,
            fs_conditions = (case conds of None \<Rightarrow> [] | Some c \<Rightarrow> c), fs_rationale = rat,
            fs_modification_summary = md, fs_linked_intake_id = intake\<rparr>,
           rv_state := (if dec = ''changes_requested'' then SS_ChangesRequested
                        else if dec = ''deferred'' then SS_Deferred else SS_Approved),
           rv_updated_at := now\<rparr>))"
  by (simp add: approve_with_rationale_m_def svc_simps rv_transition_eq Let_def)

lemma approve_eq:
  "approve_m who conds now r =
     (if rv_state r \<noteq> SS_Approved then (Inl (CannotApprove (rv_state r)), r)
      else (Inr (), r\<lparr>rv_final := blank_signoff\<lparr>fs_approved_by := who, fs_approved_at := Some now,
             fs_approval_type := approval_type r,
             fs_conditions := (case conds of None \<Rightarrow> [] | Some c \<Rightarrow> c)\<rparr>, rv_updated_at := now\<rparr>))"
  by (simp add: approve_m_def svc_simps)

lemma assess_eq: "assess_risk_m ts now r = (Inr (), r\<lparr>rv_risk := assess ts, rv_updated_at := now\<rparr>)"
  by (simp add: assess_risk_m_def svc_simps)

lemmas review_m_eqs = rv_transition_eq assign_l1_eq assign_l2_eq submit_l1_eq submit_l2_eq
  rationale_eq approve_eq assess_eq

lemma into_ready: "SS_Ready \<in> set (signoff_table s) \<longleftrightarrow> s \<in> {SS_Draft, SS_ChangesRequested, SS_Deferred}"
  by (cases s) auto

lemma into_merged: "SS_Merged \<in> set (signoff_table s) \<longleftrightarrow> s = SS_Approved"
  by (cases s) auto

lemma method_raise_unchanged:
  "review_method op = Some (i, m) \<Longrightarrow> m r = (Inl e, r') \<Longrightarrow> r' = r"
  by (cases op) (auto simp: review_m_eqs Let_def split: if_splits)

lemmas signoff_edge = reach_edge [where table = signoff_table]

lemma reach_l1_approved: "reach signoff_table SS_L1Review SS_Approved"
  by (rule reach_step [where t = SS_L1Approved]) (auto intro: signoff_edge)

lemma reach_l2_approved: "reach signoff_table SS_L2Review SS_Approved"
  by (rule reach_step [where t = SS_L2Approved]) (auto intro: signoff_edge)

lemma method_reach:
  "review_method op = Some (i, m) \<Longrightarrow> reach signoff_table (rv_state r) (rv_state (snd (m r)))"
  by (cases op)
    (auto simp: review_m_eqs Let_def reach_l1_approved reach_l2_approved signoff_edge
      split: review_decision.splits)

lemma review_step_get:
  assumes "review_method op = Some (i, m)"
  shows "od_get (live (review_step op d)) j =
    (if j = i then map_option (\<lambda>r. snd (m r)) (od_get (live d) i) else od_get (live d) j)"
proof -
  from assms have "fresh_create op d" by (cases op) (auto simp: fresh_create_def)
  then show ?thesis
    by (simp add: review_step_def review_run_method [OF assms] sv_update_get)
qed

lemma review_step_other:
  assumes "od_get (live d) j = Some r" and "od_get (live (review_step op d)) j = Some r'"
    and "review_method op = None"
  shows "r' = r"
proof (cases op rule: review_op_cases)
  case (create i now task branch pr tenant arts)
  with assms show ?thesis
    by (auto simp: review_step_def fresh_create_def review_run_create od.get_put split: if_splits)
next
  case (delete i)
  with assms show ?thesis
    by (auto simp: review_step_def fresh_create_def review_run_delete od.get_del split: if_splits)
next
  case (call i m)
  with assms(3) show ?thesis by simp
qed

text \<open>One step of a history, seen at one stored record: either nothing, or its method.\<close>

lemma review_step_record:
  assumes "od_get (live d) j = Some r" and "od_get (live (review_step op d)) j = Some r'"
  shows "r' = r \<or> (\<exists>m. review_method op = Some (j, m) \<and> r' = snd (m r))"
proof (cases "review_method op")
  case None
  with assms show ?thesis by (blast dest: review_step_other)
next
  case (Some im)
  then obtain i m where im: "review_method op = Some (i, m)" by (cases im) auto
  show ?thesis
  proof (cases "j = i")
    case True
    with assms(1,2) im show ?thesis by (simp add: review_step_get [OF im])
  next
    case False
    with assms im show ?thesis by (simp add: review_step_get [OF im])
  qed
qed

interpretation review: lifecycle_service signoff_table signoff_transition review_step review_status
proof unfold_locales
  fix d i s op t
  assume s: "review_status d i = Some s" and t: "review_status (review_step op d) i = Some t"
  then obtain r r' where r: "od_get (live d) i = Some r" "rv_state r = s"
    and r': "od_get (live (review_step op d)) i = Some r'" "rv_state r' = t"
    by (auto simp: review_status_def)
  from review_step_record [OF r(1) r'(1)] show "reach signoff_table s t"
    using method_reach r(2) r'(2) by auto
qed


interpretation review_store: write_through review_run "\<lambda>_. True"
proof unfold_locales
  fix op :: review_op and d :: review_st
  assume "synced d"
  then show "synced (review_run op d)"
  proof (cases op rule: review_op_cases)
    case (create i now task branch pr tenant arts)
    then show ?thesis by (simp only: review_run_create synced_persist)
  next
    case (delete i)
    with \<open>synced d\<close> show ?thesis by (simp add: review_run_delete)
  next
    case (call i m)
    show ?thesis
      unfolding review_run_method [OF call]
      by (rule sv_update_synced) (use method_raise_unchanged [OF call] \<open>synced d\<close> in blast)+
  qed
next
  fix op :: review_op and d :: review_st
  show "saved (review_run op d) = None \<longleftrightarrow> saved d = None"
  proof (cases op rule: review_op_cases)
    case (create i now task branch pr tenant arts)
    then show ?thesis by (simp add: review_run_create)
  next
    case (delete i)
    then show ?thesis by (simp add: review_run_delete)
  next
    case (call i m)
    then show ?thesis by (simp add: review_run_method sv_update_saved)
  qed
qed

section \<open>Invariants of stored records\<close>

text \<open>
  A property of records that holds of a new record and that every method keeps holds of every record
  of every history.  \<open>ok\<close> restricts which operations may be applied to which record.
\<close>

definition all_records :: "(review_record \<Rightarrow> bool) \<Rightarrow> review_st \<Rightarrow> bool" where
  "all_records P d \<longleftrightarrow> (\<forall>i r. od_get (live d) i = Some r \<longrightarrow> P r)"

lemma review_step_all_records:
  assumes inv: "all_records P d"
    and new: "\<And>r. rv_state r = SS_Draft \<Longrightarrow> rv_risk r = no_risk \<Longrightarrow> P r"
    and keep: "\<And>i m r. review_method op = Some (i, m) \<Longrightarrow> od_get (live d) i = Some r \<Longrightarrow> P r \<Longrightarrow> P (snd (m r))"
  shows "all_records P (review_step op d)"
  unfolding all_records_def
proof (intro allI impI)
  fix j r'
  assume r': "od_get (live (review_step op d)) j = Some r'"
  show "P r'"
  proof (cases "od_get (live d) j")
    case (Some r)
    with inv have P: "P r" by (simp add: all_records_def)
    from review_step_record [OF Some r'] show ?thesis using P keep Some by auto
  next
    case None
    have "\<exists>i now task branch pr tenant arts. op = OpCreate i now task branch pr tenant arts"
    proof (cases op rule: review_op_cases)
      case (create i now task branch pr tenant arts)
      then show ?thesis by blast
    next
      case (delete i)
      with r' None show ?thesis
        by (auto simp: review_step_def fresh_create_def review_run_delete od.get_del split: if_splits)
    next
      case (call i m)
      with r' None show ?thesis by (auto simp: review_step_get [OF call] split: if_splits)
    qed
    then obtain i now task branch pr tenant arts where c: "op = OpCreate i now task branch pr tenant arts"
      by blast
    from r' None have "rv_state r' = SS_Draft \<and> rv_risk r' = no_risk"
      unfolding c by (auto simp: review_step_def fresh_create_def review_run_create od.get_put
          split: if_splits)
    then show ?thesis by (simp add: new)
  qed
qed

definition signed_off :: "review_record \<Rightarrow> bool" where
  "signed_off r \<longleftrightarrow>
     lr_decision (rv_l1 r) = Some RD_Approved \<or>
     (lr_decision (rv_l1 r) = Some RD_Escalated \<and> lr_decision (rv_l2 r) = Some RD_Approved)"

definition signed_states :: "signoff_state set" where
  "signed_states = {SS_L2Approved, SS_Approved, SS_ChangesRequested, SS_Deferred, SS_Merged}"

definition signoff_inv :: "review_record \<Rightarrow> bool" where
  "signoff_inv r \<longleftrightarrow>
     (rv_state r \<in> {SS_L1Approved, SS_L2Review, SS_L2ChangesRequested} \<longrightarrow>
        lr_decision (rv_l1 r) \<in> {Some RD_Approved, Some RD_Escalated}) \<and>
     (rv_state r \<in> signed_states \<longrightarrow> signed_off r)"

definition l2_gated :: "review_record \<Rightarrow> bool" where
  "l2_gated r \<longleftrightarrow> (rv_state r \<in> signed_states \<and> ra_l2_required (rv_risk r) \<longrightarrow>
     lr_decision (rv_l2 r) = Some RD_Approved)"

lemma decision_record_submission [simp]:
  "lr_decision (record_submission dec ck iss com now l) = Some dec"
  by (simp add: record_submission_def Let_def split: option.splits list.splits)

lemmas signoff_inv_defs = signoff_inv_def signed_states_def signed_off_def

text \<open>
  A method either returns the record as it was or one of finitely many updates of it.  The branches are
  split first, the invariant is unfolded in each of them afterwards.
\<close>

lemma signoff_inv_method:
  assumes "review_method op = Some (i, m)" and "signoff_inv r"
  shows "signoff_inv (snd (m r))"
proof (cases op)
  case (OpSubmitL1 i dec ck iss com now)
  with assms(1) have m: "m = submit_l1_m dec ck iss com now" by simp
  show ?thesis using assms(2) unfolding m
    by (cases "rv_state r = SS_L1Review"; cases dec; cases "ra_l2_required (rv_risk r)") (simp_all add: submit_l1_eq signoff_inv_defs)
next
  case (OpSubmitL2 i dec ck iss com now)
  with assms(1) have m: "m = submit_l2_m dec ck iss com now" by simp
  show ?thesis using assms(2) unfolding m
    by (cases "rv_state r = SS_L2Review"; cases dec) (simp_all add: submit_l2_eq signoff_inv_defs)
next
  case (OpAssess i ts now)
  with assms(1) have m: "m = assess_risk_m ts now" by simp
  show ?thesis using assms(2) unfolding m
    by (simp add: assess_eq signoff_inv_defs)
next
  case (OpReady i now)
  with assms(1) have m: "m = rv_transition SS_Ready now" by simp
  show ?thesis using assms(2) unfolding m
    by (cases "rv_state r") (simp_all add: rv_transition_eq signoff_inv_defs)
next
  case (OpMerge i now)
  with assms(1) have m: "m = rv_transition SS_Merged now" by simp
  show ?thesis using assms(2) unfolding m
    by (cases "rv_state r") (simp_all add: rv_transition_eq signoff_inv_defs)
next
  case (OpAssignL1 i now)
  with assms(1) have m: "m = assign_l1_m now" by simp
  show ?thesis using assms(2) unfolding m
    by (cases "rv_state r = SS_Ready") (simp_all add: assign_l1_eq signoff_inv_defs)
next
  case (OpAssignL2 i now)
  with assms(1) have m: "m = assign_l2_m now" by simp
  show ?thesis using assms(2) unfolding m
    by (cases "rv_state r = SS_L1Approved") (simp_all add: assign_l2_eq signoff_inv_defs)
next
  case (OpRationale i who dec rat md conds intake now)
  with assms(1) have m: "m = approve_with_rationale_m who dec rat md conds intake now" by simp
  show ?thesis using assms(2) unfolding m
    by (cases "rv_state r = SS_Approved") (simp_all add: rationale_eq signoff_inv_defs)
next
  case (OpApprove i who conds now)
  with assms(1) have m: "m = approve_m who conds now" by simp
  show ?thesis using assms(2) unfolding m
    by (cases "rv_state r = SS_Approved") (simp_all add: approve_eq signoff_inv_defs)
qed (use assms(1) in simp_all)

lemma l2_gated_method:
  assumes "review_method op = Some (i, m)" and "l2_gated r"
    and "\<And>j ts now. op = OpAssess j ts now \<Longrightarrow> rv_state r \<notin> signed_states"
  shows "l2_gated (snd (m r))"
proof (cases op)
  case (OpSubmitL1 i dec ck iss com now)
  with assms(1) have m: "m = submit_l1_m dec ck iss com now" by simp
  show ?thesis using assms(2) unfolding m
    by (cases "rv_state r = SS_L1Review"; cases dec; cases "ra_l2_required (rv_risk r)") (simp_all add: submit_l1_eq l2_gated_def signed_states_def)
next
  case (OpSubmitL2 i dec ck iss com now)
  with assms(1) have m: "m = submit_l2_m dec ck iss com now" by simp
  show ?thesis using assms(2) unfolding m
    by (cases "rv_state r = SS_L2Review"; cases dec) (simp_all add: submit_l2_eq l2_gated_def signed_states_def)
next
  case (OpAssess i ts now)
  with assms(1) have m: "m = assess_risk_m ts now" by simp
  show ?thesis using assms(2) assms(3) [OF OpAssess] unfolding m
    by (simp add: assess_eq l2_gated_def)
next
  case (OpReady i now)
  with assms(1) have m: "m = rv_transition SS_Ready now" by simp
  show ?thesis using assms(2) unfolding m
    by (cases "rv_state r") (simp_all add: rv_transition_eq l2_gated_def signed_states_def)
next
  case (OpMerge i now)
  with assms(1) have m: "m = rv_transition SS_Merged now" by simp
  show ?thesis using assms(2) unfolding m
    by (cases "rv_state r") (simp_all add: rv_transition_eq l2_gated_def signed_states_def)
next
  case (OpAssignL1 i now)
  with assms(1) have m: "m = assign_l1_m now" by simp
  show ?thesis using assms(2) unfolding m
    by (cases "rv_state r = SS_Ready") (simp_all add: assign_l1_eq l2_gated_def signed_states_def)
next
  case (OpAssignL2 i now)
  with assms(1) have m: "m = assign_l2_m now" by simp
  show ?thesis using assms(2) unfolding m
    by (cases "rv_state r = SS_L1Approved") (simp_all add: assign_l2_eq l2_gated_def signed_states_def)
next
  case (OpRationale i who dec rat md conds intake now)
  with assms(1) have m: "m = approve_with_rationale_m who dec rat md conds intake now" by simp
  show ?thesis using assms(2) unfolding m
    by (cases "rv_state r = SS_Approved") (simp_all add: rationale_eq l2_gated_def signed_states_def)
next
  case (OpApprove i who conds now)
  with assms(1) have m: "m = approve_m who conds now" by simp
  show ?thesis using assms(2) unfolding m
    by (cases "rv_state r = SS_Approved") (simp_all add: approve_eq l2_gated_def signed_states_def)
qed (use assms(1) in simp_all)

lemma stuck_method:
  assumes "review_method op = Some (i, m)"
    and "rv_state r \<in> {SS_L1ChangesRequested, SS_L2ChangesRequested}"
  shows "rv_state (snd (m r)) = rv_state r"
  using assms by (cases op) (auto simp: review_m_eqs)

lemma risk_ord_loop:
  "risk_ord (max_level_loop m ts) = Max (insert (risk_ord m) ((\<lambda>t. risk_ord (trigger_risk t)) ` set ts))"
proof (induction ts arbitrary: m)
  case Nil
  then show ?case by simp
next
  case (Cons t ts)
  let ?f = "\<lambda>t. risk_ord (trigger_risk t)" and ?n = "if risk_ord m < risk_ord (trigger_risk t) then trigger_risk t else m"
  have "risk_ord (max_level_loop m (t # ts)) = Max (insert (risk_ord ?n) (?f ` set ts))"
    by (simp add: Cons.IH)
  also have "risk_ord ?n = max (risk_ord m) (?f t)" by simp
  also have "Max (insert (max (risk_ord m) (?f t)) (?f ` set ts)) = Max (insert (risk_ord m) (?f ` set (t # ts)))"
    by (cases "set ts = {}") (simp_all add: Max_insert ac_simps)
  finally show ?case .
qed

definition no_late_assessment :: "review_op \<Rightarrow> review_st \<Rightarrow> bool" where
  "no_late_assessment op d = (case op of
      OpAssess i _ _ \<Rightarrow> (case od_get (live d) i of None \<Rightarrow> True | Some r \<Rightarrow> rv_state r \<notin> signed_states)
    | _ \<Rightarrow> True)"

lemma all_records_history:
  assumes "all_records P d" and "\<And>r. rv_state r = SS_Draft \<Longrightarrow> rv_risk r = no_risk \<Longrightarrow> P r"
    and "\<And>op i m r. review_method op = Some (i, m) \<Longrightarrow> P r \<Longrightarrow> P (snd (m r))"
  shows "all_records P (fold review_step ops d)"
proof (rule fold_invariant [where P = "all_records P"])
  show "all_records P d" by (rule assms(1))
next
  fix op d
  assume "all_records P d"
  then show "all_records P (review_step op d)"
    by (rule review_step_all_records) (use assms(2,3) in blast)+
qed

definition review_empty :: "(string, review_record) odict option \<Rightarrow> review_st" where
  "review_empty store = \<lparr>live = [], saved = store\<rparr>"

lemma all_records_empty [simp]: "all_records P (review_empty store)"
  by (simp add: all_records_def review_empty_def)

lemma l2_gated_history:
  "allowed no_late_assessment review_step ops d \<Longrightarrow> all_records l2_gated d \<Longrightarrow>
   all_records l2_gated (fold review_step ops d)"
proof (induction ops arbitrary: d)
  case Nil
  then show ?case by simp
next
  case (Cons op ops)
  have "all_records l2_gated (review_step op d)"
  proof (rule review_step_all_records [OF Cons.prems(2)])
    fix r :: review_record
    assume "rv_state r = SS_Draft"
    then show "l2_gated r" by (simp add: l2_gated_def signed_states_def)
  next
    fix i m r
    assume "review_method op = Some (i, m)" and "od_get (live d) i = Some r" and "l2_gated r"
    then show "l2_gated (snd (m r))"
      using Cons.prems(1) by (auto intro!: l2_gated_method simp: no_late_assessment_def)
  qed
  with Cons show ?case by simp
qed

section \<open>Properties\<close>


definition demo_id :: string where
  "demo_id = ''rev-1''"

definition demo_start :: review_st where
  "demo_start = review_step (OpCreate demo_id 0 ''T1'' [] None ''t'' None) (review_empty (Some []))"

definition demo_low :: "review_op list" where
  "demo_low = [OpAssess demo_id [RT_Config] 1, OpReady demo_id 2, OpAssignL1 demo_id 3,
     OpSubmitL1 demo_id RD_Approved None None [] 4]"

lemmas demo_defs = demo_id_def demo_start_def demo_low_def review_empty_def review_status_def
  review_step_def fresh_create_def review_run_def review_create_def review_op_defs
  sv_void_def sv_update_eq sv_persist_def persist_def svc_simps Let_def
  review_m_eqs assess_def no_risk_def assign_def reviewer_def default_l1_def default_l2_def
  record_submission_def blank_layer_def blank_signoff_def signed_states_def


text \<open>C1: A record that reached MERGED was approved at level 1, or escalated at level 1 and approved at
  level 2, whatever calls were made in between and on other records.\<close>

theorem merged_was_signed_off:
  assumes "od_get (live (fold review_step ops (review_empty store))) i = Some r"
    and "rv_state r = SS_Merged"
  shows "lr_decision (rv_l1 r) = Some RD_Approved \<or>
    (lr_decision (rv_l1 r) = Some RD_Escalated \<and> lr_decision (rv_l2 r) = Some RD_Approved)"
proof -
  have "all_records signoff_inv (fold review_step ops (review_empty store))"
  proof (rule all_records_history)
    show "signoff_inv r" if "rv_state r = SS_Draft" for r
      using that by (simp add: signoff_inv_defs)
  qed (simp, rule signoff_inv_method)
  with assms(1) have "signoff_inv r" by (simp add: all_records_def)
  with assms(2) show ?thesis by (simp add: signoff_inv_defs)
qed

theorem merged_was_signed_off_witness:
  "\<exists>r. od_get (live (fold review_step
      (OpCreate demo_id 0 ''T1'' [] None ''t'' None # demo_low @ [OpMerge demo_id 5])
      (review_empty None))) demo_id = Some r \<and> rv_state r = SS_Merged \<and>
     (lr_decision (rv_l1 r) = Some RD_Approved \<or>
      (lr_decision (rv_l1 r) = Some RD_Escalated \<and> lr_decision (rv_l2 r) = Some RD_Approved))"
proof -
  obtain r where r: "od_get (live (fold review_step
      (OpCreate demo_id 0 ''T1'' [] None ''t'' None # demo_low @ [OpMerge demo_id 5])
      (review_empty None))) demo_id = Some r" and m: "rv_state r = SS_Merged"
    by (simp add: demo_defs)
  from merged_was_signed_off [OF r m] r m show ?thesis by blast
qed

text \<open>C2: As long as no record is re-assessed after it has been signed off, a record in a signed-off state
  whose risk requires level 2 carries a level 2 approval: the level 1 path cannot skip it.\<close>

theorem l2_requirement_enforced:
  assumes "allowed no_late_assessment review_step ops (review_empty store)"
    and "od_get (live (fold review_step ops (review_empty store))) i = Some r"
    and "rv_state r \<in> {SS_Approved, SS_ChangesRequested, SS_Deferred, SS_Merged}"
    and "ra_l2_required (rv_risk r)"
  shows "lr_decision (rv_l2 r) = Some RD_Approved"
proof -
  from assms(1) have "all_records l2_gated (fold review_step ops (review_empty store))"
    by (rule l2_gated_history) simp
  with assms(2) have "l2_gated r" by (simp add: all_records_def)
  with assms(3,4) show ?thesis by (auto simp: l2_gated_def signed_states_def)
qed

definition demo_high :: "review_op list" where
  "demo_high = [OpCreate demo_id 0 ''T1'' [] None ''t'' None, OpAssess demo_id [RT_Security] 1,
     OpReady demo_id 2, OpAssignL1 demo_id 3, OpSubmitL1 demo_id RD_Approved None None [] 4,
     OpAssignL2 demo_id 5, OpSubmitL2 demo_id RD_Approved None None [] 6, OpMerge demo_id 7]"

theorem l2_requirement_enforced_witness:
  "\<exists>r. od_get (live (fold review_step demo_high (review_empty None))) demo_id = Some r \<and>
     ra_l2_required (rv_risk r) \<and> lr_decision (rv_l2 r) = Some RD_Approved"
proof -
  have a: "allowed no_late_assessment review_step demo_high (review_empty None)"
    by (simp add: demo_high_def demo_defs no_late_assessment_def)
  obtain r where r: "od_get (live (fold review_step demo_high (review_empty None))) demo_id = Some r"
    and m: "rv_state r \<in> {SS_Approved, SS_ChangesRequested, SS_Deferred, SS_Merged}"
    and q: "ra_l2_required (rv_risk r)"
    by (simp add: demo_high_def demo_defs)
  from l2_requirement_enforced [OF a r m q] r q show ?thesis by blast
qed

text \<open>
  Without the restriction on re-assessment the guarantee fails: an approved low-risk record can be
  re-assessed as critical and merged with no level 2 decision.
\<close>

definition demo_late :: "review_op list" where
  "demo_late = OpCreate demo_id 0 ''T1'' [] None ''t'' None # demo_low @
     [OpAssess demo_id [RT_Secrets] 5, OpMerge demo_id 6]"

lemma late_assessment_merges_without_l2:
  "\<exists>r. od_get (live (fold review_step demo_late (review_empty None))) demo_id = Some r \<and>
     rv_state r = SS_Merged \<and> ra_l2_required (rv_risk r) \<and> lr_decision (rv_l2 r) = None"
  by (simp add: demo_late_def demo_defs)

text \<open>A record sent back for changes by a level 1 or level 2 reviewer stays where it is for ever: no
  sequence of service calls moves it, although the table has an edge back to DRAFT.\<close>

theorem changes_requested_is_stuck:
  assumes "along review_step (\<lambda>d. review_status d i \<noteq> None) ops d"
    and "review_status d i = Some s" and "s \<in> {SS_L1ChangesRequested, SS_L2ChangesRequested}"
  shows "review_status (fold review_step ops d) i = Some s"
  using assms
proof (induction ops arbitrary: d)
  case (Cons op ops)
  from Cons.prems(1) have rest: "along review_step (\<lambda>d. review_status d i \<noteq> None) ops (review_step op d)"
    by simp
  then obtain r' where r': "od_get (live (review_step op d)) i = Some r'"
    by (auto simp: review_status_def dest: along_start)
  from Cons.prems(2) obtain r where r: "od_get (live d) i = Some r" "rv_state r = s"
    by (auto simp: review_status_def)
  from review_step_record [OF r(1) r'] have "rv_state r' = s"
    using r(2) Cons.prems(3) stuck_method by auto
  with r' have "review_status (review_step op d) i = Some s" by (simp add: review_status_def)
  with Cons.IH [OF rest _ Cons.prems(3)] show ?case by simp
qed simp

definition demo_rejected :: review_st where
  "demo_rejected = fold review_step [OpReady demo_id 1, OpAssignL1 demo_id 2,
     OpSubmitL1 demo_id RD_ChangesRequested None None [] 3] demo_start"

theorem changes_requested_is_stuck_witness:
  "review_status (fold review_step [OpReady demo_id 4, OpAssignL1 demo_id 5, OpMerge demo_id 6] demo_rejected)
     demo_id = Some SS_L1ChangesRequested"
  by (rule changes_requested_is_stuck) (simp_all add: demo_rejected_def demo_defs)

text \<open>C11: A review call that raises changes nothing, in memory or in the durable namespace.\<close>

theorem review_errors_are_atomic:
  assumes "review_exec op d = (Inl e, d')"
  shows "d' = d"
proof (cases op rule: review_op_cases)
  case (create i now task branch pr tenant arts)
  with assms show ?thesis
    by (simp add: sv_void_def review_create_def Let_def svc_simps sv_persist_def)
next
  case (delete i)
  with assms show ?thesis
    by (auto simp: review_delete_def svc_simps sv_persist_def split: if_splits)
next
  case (call i m)
  then have "sv_update ReviewNotFound i m d = (Inl e, d')"
    using assms by (cases op) (auto simp: review_op_defs sv_void_raise)
  with method_raise_unchanged [OF call] show ?thesis by (rule sv_update_raise_unchanged)
qed

theorem review_errors_are_atomic_witness:
  "review_exec (OpMerge demo_id 9) demo_start = (Inl (InvalidSignoff SS_Draft SS_Merged), demo_start)"
proof -
  obtain e d' where e: "review_exec (OpMerge demo_id 9) demo_start = (Inl e, d')"
    and m: "e = InvalidSignoff SS_Draft SS_Merged"
    by (simp add: demo_defs)
  from review_errors_are_atomic [OF e] e m show ?thesis by simp
qed

text \<open>With a state store configured, a restart at any point of any history gives back exactly the
  records the service held.\<close>

theorem review_restart_loses_nothing:
  assumes "saved d \<noteq> None" and "synced d"
  shows "restart [] (fold review_run ops d) = fold review_run ops d"
  using review_store.restart_after_history [of ops d "[]"] assms by (simp add: list_all_iff)

theorem review_restart_loses_nothing_witness:
  "restart [] (fold review_run demo_low (review_empty (Some []))) = fold review_run demo_low (review_empty (Some []))"
  by (rule review_restart_loses_nothing) (simp_all add: review_empty_def synced_def)

text \<open>Risk assessment takes the highest level over all triggers, whatever their order, and derives
  the two review requirements from it.\<close>

theorem assess_is_maximum:
  "risk_ord (ra_level (assess ts)) = Max (insert 0 ((\<lambda>t. risk_ord (trigger_risk t)) ` set ts)) \<and>
   (ra_l1_required (assess ts) \<longleftrightarrow> ra_level (assess ts) \<noteq> RL_None) \<and>
   (ra_l2_required (assess ts) \<longleftrightarrow> (\<exists>t \<in> set ts. 2 \<le> risk_ord (trigger_risk t)))"
proof -
  have loop: "risk_ord (max_level_loop m ts) = Max (insert (risk_ord m) ((\<lambda>t. risk_ord (trigger_risk t)) ` set ts))"
    for m by (rule risk_ord_loop)
  have none: "ra_level (assess ts) \<noteq> RL_None \<longleftrightarrow> 1 \<le> risk_ord (ra_level (assess ts))"
    by (cases "ra_level (assess ts)") auto
  show ?thesis
    unfolding none by (cases "ts = []") (simp_all add: assess_def no_risk_def Let_def loop Max_ge_iff)
qed

text \<open>
  Two facts on reviewer choice that the role matrix in the documentation does not have: among triggers of
  equal risk the first listed one decides, so the order of the list decides whether level 2 is a human;
  and some high-risk triggers never get a human.
\<close>

lemma human_l2_depends_on_order:
  "as_human_required (snd (assign [RT_Security, RT_PromptAgent])) \<and>
   \<not> as_human_required (snd (assign [RT_PromptAgent, RT_Security]))"
  by (simp add: assign_def reviewer_def)

lemma high_risk_without_human:
  "ra_level (assess [RT_Schema]) = RL_High \<and> \<not> as_human_required (snd (assign [RT_Schema]))"
  by (simp add: assess_def assign_def reviewer_def Let_def)

end
