(* ===== verification/Workflow_Def.thy ===== *)
theory Workflow_Def
  imports Prelude
begin

text \<open>
  Workflow definitions (\<open>agent33/workflows/definition.py\<close>): the values a workflow passes around, the
  step and its nested sub-steps, the execution settings, and the two validators that every definition
  has passed before an executor or a DAG builder sees it.  The pattern, length and range checks that
  Pydantic runs on single fields are not modelled.
\<close>

text \<open>The Python values that inputs, outputs and workflow state are made of.\<close>

datatype pyval =
    PNone
  | PBool bool
  | PInt int
  | PFloat rat
  | PStr string
  | PList "pyval list"
  | PDict "(string \<times> pyval) list"

type_synonym pydict = "(string, pyval) odict"

datatype step_action = SA_InvokeAgent | SA_RunCommand | SA_Validate | SA_Transform | SA_Conditional
  | SA_ParallelGroup | SA_Wait | SA_ExecuteCode | SA_HttpRequest | SA_SubWorkflow | SA_Route | SA_GroupChat

datatype execution_mode = EM_Sequential | EM_Parallel | EM_DependencyAware

record step_retry =
  rt_max_attempts :: nat
  rt_delay_seconds :: nat

definition default_retry :: step_retry where
  "default_retry = \<lparr>rt_max_attempts = 1, rt_delay_seconds = 1\<rparr>"

text \<open>
  A step.  The fields that only one action's handler reads (\<open>agent\<close>, \<open>command\<close>, \<open>url\<close> and their
  like) are passed to the handler as a whole and form \<open>st_params\<close>.
\<close>

datatype wf_step = WfStep
  (st_id: string)
  (st_action: step_action)
  (st_inputs: "(string \<times> pyval) list")
  (st_condition: "string option")
  (st_depends_on: "string list")
  (st_retry: step_retry)
  (st_timeout: "nat option")
  (st_steps: "wf_step list")
  (st_then: "wf_step list")
  (st_else: "wf_step list")
  (st_params: "(string \<times> pyval) list")

record wf_execution =
  ex_mode :: execution_mode
  ex_parallel_limit :: nat
  ex_continue_on_error :: bool
  ex_fail_fast :: bool
  ex_dry_run :: bool

definition default_execution :: wf_execution where
  "default_execution = \<lparr>ex_mode = EM_Sequential, ex_parallel_limit = 4,
     ex_continue_on_error = False, ex_fail_fast = True, ex_dry_run = False\<rparr>"

record wf_definition =
  wf_name :: string
  wf_steps :: "wf_step list"
  wf_execution :: wf_execution

datatype definition_error =
    DuplicateStepIds "string list"
  | UnknownDependency string string

definition validate_unique_step_ids :: "wf_step list \<Rightarrow> definition_error + wf_step list" where
  "validate_unique_step_ids steps =
     (let ids = List.map st_id steps in
      if length ids \<noteq> card (set ids)
      then Inl (DuplicateStepIds (filter (\<lambda>sid. 1 < count_list ids sid) ids))
      else Inr steps)"

text \<open>The two loops of the reference check: the first unknown dependency in step order is reported.\<close>

fun check_deps :: "string set \<Rightarrow> string \<Rightarrow> string list \<Rightarrow> definition_error option" where
  "check_deps ids sid [] = None"
| "check_deps ids sid (dep # deps) =
     (if dep \<notin> ids then Some (UnknownDependency sid dep) else check_deps ids sid deps)"

fun check_steps :: "string set \<Rightarrow> wf_step list \<Rightarrow> definition_error option" where
  "check_steps ids [] = None"
| "check_steps ids (s # ss) =
     (case check_deps ids (st_id s) (st_depends_on s) of
        Some e \<Rightarrow> Some e | None \<Rightarrow> check_steps ids ss)"

definition validate_depends_on_references :: "wf_step list \<Rightarrow> definition_error + wf_step list" where
  "validate_depends_on_references steps =
     (case check_steps (set (List.map st_id steps)) steps of Some e \<Rightarrow> Inl e | None \<Rightarrow> Inr steps)"

definition validate_steps :: "wf_step list \<Rightarrow> definition_error + wf_step list" where
  "validate_steps steps =
     (case validate_unique_step_ids steps of Inl e \<Rightarrow> Inl e | Inr ss \<Rightarrow> validate_depends_on_references ss)"

lemma check_deps_None: "check_deps ids sid deps = None \<longleftrightarrow> set deps \<subseteq> ids"
  by (induction deps) auto

lemma check_steps_None:
  "check_steps ids ss = None \<longleftrightarrow> (\<forall>s \<in> set ss. set (st_depends_on s) \<subseteq> ids)"
proof (induction ss)
  case (Cons s ss)
  then show ?case
    using check_deps_None [of ids "st_id s" "st_depends_on s"]
    by (cases "check_deps ids (st_id s) (st_depends_on s)") simp_all
qed simp

text \<open>What a validated list of steps satisfies.\<close>

definition steps_ok :: "wf_step list \<Rightarrow> bool" where
  "steps_ok steps \<longleftrightarrow> distinct (List.map st_id steps) \<and>
     (\<forall>s \<in> set steps. set (st_depends_on s) \<subseteq> set (List.map st_id steps))"

lemma validate_unique_iff:
  "validate_unique_step_ids steps = Inr ss \<longleftrightarrow> ss = steps \<and> distinct (List.map st_id steps)"
proof -
  have "length xs = card (set xs) \<longleftrightarrow> distinct xs" for xs :: "string list"
    by (metis card_distinct distinct_card)
  then show ?thesis by (auto simp: validate_unique_step_ids_def Let_def)
qed

lemma validate_references_iff:
  "validate_depends_on_references steps = Inr ss \<longleftrightarrow>
     ss = steps \<and> (\<forall>s \<in> set steps. set (st_depends_on s) \<subseteq> set (List.map st_id steps))"
  unfolding validate_depends_on_references_def check_steps_None [symmetric] by (auto split: option.splits)

lemma validate_steps_iff: "validate_steps steps = Inr ss \<longleftrightarrow> ss = steps \<and> steps_ok steps"
proof (cases "validate_unique_step_ids steps")
  case (Inl e)
  with validate_unique_iff [of steps steps] show ?thesis
    by (auto simp: validate_steps_def steps_ok_def)
next
  case (Inr us)
  with validate_unique_iff [of steps us] show ?thesis
    by (auto simp: validate_steps_def steps_ok_def validate_references_iff)
qed

end
