(* ===== verification/PyText.thy ===== *)
theory PyText
  imports Prelude
begin

text \<open>
  The string operations of Python that the modelled code uses, on strings of characters below 256.
\<close>

definition py_isspace :: "char \<Rightarrow> bool" where
  "py_isspace c = (let n = (of_char c :: nat) in
     (9 \<le> n \<and> n \<le> 13) \<or> (28 \<le> n \<and> n \<le> 32) \<or> n = 133 \<or> n = 160)"

text \<open>\<open>s.strip()\<close>\<close>

definition py_strip :: "string \<Rightarrow> string" where
  "py_strip s = rev (dropWhile py_isspace (rev (dropWhile py_isspace s)))"

definition py_startswith :: "string \<Rightarrow> string \<Rightarrow> bool" where
  "py_startswith p s = (take (length p) s = p)"

definition py_endswith :: "string \<Rightarrow> string \<Rightarrow> bool" where
  "py_endswith p s = (length p \<le> length s \<and> drop (length s - length p) s = p)"

text \<open>\<open>sub in s\<close>\<close>

fun py_contains :: "string \<Rightarrow> string \<Rightarrow> bool" where
  "py_contains sub [] = (sub = [])"
| "py_contains sub (c # cs) = (py_startswith sub (c # cs) \<or> py_contains sub cs)"

text \<open>\<open>str(n)\<close>\<close>

fun py_digits :: "nat \<Rightarrow> string" where
  "py_digits n = (if n < 10 then [char_of (48 + n)] else py_digits (n div 10) @ [char_of (48 + n mod 10)])"

declare py_digits.simps [simp del]

definition py_str_int :: "int \<Rightarrow> string" where
  "py_str_int i = (if i < 0 then CHR ''-'' # py_digits (nat (- i)) else py_digits (nat i))"

lemma py_contains_iff: "py_contains sub s \<longleftrightarrow> (\<exists>us vs. s = us @ sub @ vs)"
proof (induction s)
  case (Cons c cs)
  have "py_startswith sub (c # cs) \<longleftrightarrow> (\<exists>vs. c # cs = sub @ vs)"
    unfolding py_startswith_def by (metis append_eq_conv_conj append_take_drop_id)
  moreover have "(\<exists>us vs. c # cs = us @ sub @ vs) \<longleftrightarrow>
      (\<exists>vs. c # cs = sub @ vs) \<or> (\<exists>us vs. cs = us @ sub @ vs)"
    by (metis append_Cons append_Nil list.exhaust list.inject)
  ultimately show ?case using Cons by simp
qed auto

lemma py_strip_idem: "py_strip (py_strip s) = py_strip s"
proof -
  have drop: "dropWhile P (dropWhile P xs) = dropWhile P xs" for P and xs :: string
    by (induction xs) auto
  have keep: "dropWhile P (rev (dropWhile P (rev ys))) = rev (dropWhile P (rev ys))"
    if "dropWhile P ys = ys" for P and ys :: string
  proof (cases "rev (dropWhile P (rev ys))")
    case (Cons z zs)
    then have "ys = (z # zs) @ rev (takeWhile P (rev ys))"
      by (metis rev_append rev_rev_ident takeWhile_dropWhile_id)
    with that have "\<not> P z" by (metis append_Cons dropWhile_eq_Cons_conv)
    with Cons show ?thesis by simp
  next
    case Nil
    show ?thesis unfolding Nil by simp
  qed
  show ?thesis unfolding py_strip_def by (simp add: keep drop)
qed

section \<open>Shell patterns (\<open>fnmatch.fnmatch\<close> on a POSIX system)\<close>

datatype glob = GStar | GAny | GLit char | GClass bool "(char \<times> char) list"

text \<open>
  The inside of \<open>[...]\<close>: a hyphen between two characters makes a range, anywhere else it stands for
  itself.  A range that is the wrong way round is empty.
\<close>

fun class_items :: "string \<Rightarrow> (char \<times> char) list" where
  "class_items (a # b # c # cs) =
     (if b = CHR ''-'' then (a, c) # class_items cs else (a, a) # class_items (b # c # cs))"
| "class_items (a # cs) = (a, a) # class_items cs"
| "class_items [] = []"

text \<open>The index of the closing bracket, after \<open>[\<close>: a \<open>!\<close> and then a \<open>]\<close> in front do not count.\<close>

definition close_class :: "string \<Rightarrow> (string \<times> string) option" where
  "close_class s = (let inner = takeWhile (\<lambda>c. c \<noteq> CHR '']'') s in
     if length inner = length s then None else Some (inner, drop (Suc (length inner)) s))"

definition class_body :: "string \<Rightarrow> (bool \<times> string \<times> string) option" where
  "class_body s =
     (let negated = (s \<noteq> [] \<and> hd s = CHR ''!'');
          s1 = (if negated then tl s else s);
          lead = (if s1 \<noteq> [] \<and> hd s1 = CHR '']'' then [CHR '']''] else [])
      in map_option (\<lambda>(inner, rest). (negated, lead @ inner, rest)) (close_class (drop (length lead) s1)))"

lemma close_class_shorter: "close_class s = Some (inner, rest) \<Longrightarrow> length rest < length s"
  using length_takeWhile_le [of "\<lambda>c. c \<noteq> CHR '']''" s]
  by (auto simp: close_class_def Let_def split: if_splits)

lemma class_body_shorter: "class_body s = Some (n, body, rest) \<Longrightarrow> length rest < length s"
  unfolding class_body_def Let_def by (auto dest!: close_class_shorter split: if_splits)

function glob_tokens :: "string \<Rightarrow> glob list" where
  "glob_tokens [] = []"
| "glob_tokens (c # cs) =
     (if c = CHR ''*'' then GStar # glob_tokens cs
      else if c = CHR ''?'' then GAny # glob_tokens cs
      else if c = CHR ''['' then
        (case class_body cs of
           None \<Rightarrow> GLit c # glob_tokens cs
         | Some (negated, body, rest) \<Rightarrow> GClass negated (class_items body) # glob_tokens rest)
      else GLit c # glob_tokens cs)"
  by pat_completeness auto
termination
  by (relation "measure length") (auto dest: class_body_shorter)

fun glob_match :: "glob list \<Rightarrow> string \<Rightarrow> bool" where
  "glob_match [] s = (s = [])"
| "glob_match (GStar # gs) [] = glob_match gs []"
| "glob_match (GStar # gs) (c # cs) = (glob_match gs (c # cs) \<or> glob_match (GStar # gs) cs)"
| "glob_match (g # gs) [] = False"
| "glob_match (GAny # gs) (c # cs) = glob_match gs cs"
| "glob_match (GLit d # gs) (c # cs) = (c = d \<and> glob_match gs cs)"
| "glob_match (GClass negated items # gs) (c # cs) =
     (list_ex (\<lambda>(a, b). a \<le> c \<and> c \<le> b) items \<noteq> negated \<and> glob_match gs cs)"

definition fnmatch :: "string \<Rightarrow> string \<Rightarrow> bool" where
  "fnmatch name pat = glob_match (glob_tokens pat) name"

text \<open>The language of a token, and of a pattern.\<close>

fun glob_char :: "glob \<Rightarrow> char \<Rightarrow> bool" where
  "glob_char GStar c = True"
| "glob_char GAny c = True"
| "glob_char (GLit d) c = (c = d)"
| "glob_char (GClass negated items) c = (list_ex (\<lambda>(a, b). a \<le> c \<and> c \<le> b) items \<noteq> negated)"

inductive glob_lang :: "glob list \<Rightarrow> string \<Rightarrow> bool" where
  lang_end: "glob_lang [] []"
| lang_star: "glob_lang gs s \<Longrightarrow> glob_lang (GStar # gs) (u @ s)"
| lang_char: "g \<noteq> GStar \<Longrightarrow> glob_char g c \<Longrightarrow> glob_lang gs s \<Longrightarrow> glob_lang (g # gs) (c # s)"

inductive_cases lang_starE: "glob_lang (GStar # gs) s"

lemma glob_match_lang: "glob_match gs s \<Longrightarrow> glob_lang gs s"
proof (induction gs s rule: glob_match.induct)
  case (2 gs)
  then show ?case using lang_star [of gs "[]" "[]"] by simp
next
  case (3 gs c cs)
  show ?case
  proof (cases "glob_match gs (c # cs)")
    case True
    with 3 show ?thesis using lang_star [of gs "c # cs" "[]"] by simp
  next
    case False
    with 3 obtain u s where "cs = u @ s" "glob_lang gs s" by (auto elim: lang_starE)
    then show ?thesis using lang_star [of gs s "c # u"] by simp
  qed
qed (auto intro!: glob_lang.intros)

lemma glob_lang_match: "glob_lang gs s \<Longrightarrow> glob_match gs s"
proof (induction rule: glob_lang.induct)
  case (lang_star gs s u)
  then show ?case
  proof (induction u)
    case Nil
    then show ?case by (cases s) auto
  qed simp
next
  case (lang_char g c gs s)
  then show ?case by (cases g) auto
qed simp

lemma glob_match_iff: "glob_match gs s \<longleftrightarrow> glob_lang gs s"
  using glob_match_lang glob_lang_match by blast

text \<open>\<open>s.split(c)\<close>, and its last part\<close>

fun py_split :: "char \<Rightarrow> string \<Rightarrow> string list" where
  "py_split c [] = [[]]"
| "py_split c (d # ds) = (if d = c then [] # py_split c ds
     else (case py_split c ds of p # ps \<Rightarrow> (d # p) # ps | [] \<Rightarrow> [[d]]))"

lemma py_split_nonempty [simp]: "py_split c s \<noteq> []"
  by (induction s) (auto split: list.split)

definition py_join :: "string \<Rightarrow> string list \<Rightarrow> string" where
  "py_join sep xs = (case xs of [] \<Rightarrow> [] | x # xs \<Rightarrow> x @ List.concat (List.map (\<lambda>y. sep @ y) xs))"

definition py_replace_char :: "char \<Rightarrow> char \<Rightarrow> string \<Rightarrow> string" where
  "py_replace_char a b s = List.map (\<lambda>c. if c = a then b else c) s"

lemma py_join_split: "py_join [c] (py_split c s) = s"
proof (induction s)
  case (Cons d ds)
  then show ?case by (cases "py_split c ds") (auto simp: py_join_def)
qed (simp add: py_join_def)

lemma py_split_parts: "p \<in> set (py_split c s) \<Longrightarrow> c \<notin> set p"
proof (induction s arbitrary: p)
  case (Cons d ds)
  then show ?case by (cases "py_split c ds") (auto split: if_splits)
qed simp

text \<open>\<open>s.lower()\<close>: the capitals of ASCII and of Latin-1\<close>

definition py_lower_char :: "char \<Rightarrow> char" where
  "py_lower_char c = (let n = (of_char c :: nat) in
     if (65 \<le> n \<and> n \<le> 90) \<or> (192 \<le> n \<and> n \<le> 222 \<and> n \<noteq> 215) then char_of (n + 32) else c)"

definition py_lower :: "string \<Rightarrow> string" where
  "py_lower s = List.map py_lower_char s"

text \<open>\<open>s.split()\<close>: the runs of characters that are not white space\<close>

function py_words :: "string \<Rightarrow> string list" where
  "py_words s = (let rest = dropWhile py_isspace s in
     if rest = [] then []
     else takeWhile (\<lambda>c. \<not> py_isspace c) rest # py_words (dropWhile (\<lambda>c. \<not> py_isspace c) rest))"
  by pat_completeness auto

termination
proof (relation "measure length")
  fix s rest
  assume rest: "rest = dropWhile py_isspace s" "rest \<noteq> []"
  from rest(2) obtain c cs where cs: "rest = c # cs" by (cases rest) auto
  with rest have "\<not> py_isspace c" by (metis hd_dropWhile list.sel(1))
  then have "length (dropWhile (\<lambda>c. \<not> py_isspace c) rest) < length rest"
    using length_dropWhile_le [of "\<lambda>c. \<not> py_isspace c" cs] by (simp add: cs)
  also have "length rest \<le> length s" using rest(1) by (simp add: length_dropWhile_le)
  finally show "(dropWhile (\<lambda>c. \<not> py_isspace c) rest, s) \<in> measure length" by simp
qed simp

declare py_words.simps [simp del]

lemma py_words_empty: "py_words s = [] \<longleftrightarrow> list_all py_isspace s"
proof -
  have "dropWhile py_isspace s = [] \<longleftrightarrow> list_all py_isspace s" by (simp add: list_all_iff)
  then show ?thesis by (subst py_words.simps) (simp add: Let_def)
qed

text \<open>\<open>s.partition(c)\<close> without the separator: what precedes the first \<open>c\<close>, and what follows it, if there
  is one; \<open>py_after_last\<close> is the last part of \<open>s.rpartition(c)\<close>.\<close>

definition py_before :: "char \<Rightarrow> string \<Rightarrow> string" where
  "py_before c s = takeWhile (\<lambda>x. x \<noteq> c) s"

definition py_after :: "char \<Rightarrow> string \<Rightarrow> string" where
  "py_after c s = drop 1 (dropWhile (\<lambda>x. x \<noteq> c) s)"

definition py_after_last :: "char \<Rightarrow> string \<Rightarrow> string" where
  "py_after_last c s = last (py_split c s)"

text \<open>\<open>urlparse(url).hostname or ""\<close>: \<open>None\<close> is the \<open>ValueError\<close> for unbalanced brackets.  Control characters
  and blanks are stripped on the left, tabs and line ends removed, and the scheme, when it is one, cut off.
  The check of what stands inside brackets is left out.\<close>

definition ascii_alpha :: "char \<Rightarrow> bool" where
  "ascii_alpha c = (let n = (of_char c :: nat) in (65 \<le> n \<and> n \<le> 90) \<or> (97 \<le> n \<and> n \<le> 122))"

definition scheme_char :: "char \<Rightarrow> bool" where
  "scheme_char c = (let n = (of_char c :: nat) in ascii_alpha c \<or> (48 \<le> n \<and> n \<le> 57) \<or> c \<in> set ''+-.'')"

definition cut_scheme :: "string \<Rightarrow> string" where
  "cut_scheme url = (let scheme = py_before (CHR '':'') url in
     if CHR '':'' \<in> set url \<and> scheme \<noteq> [] \<and> ascii_alpha (hd scheme) \<and> list_all scheme_char scheme
     then py_after (CHR '':'') url else url)"

definition url_netloc :: "string \<Rightarrow> string" where
  "url_netloc url =
     (let url = filter (\<lambda>c. c \<notin> {CHR 0x09, CHR 0x0A, CHR 0x0D}) (dropWhile (\<lambda>c. (of_char c :: nat) \<le> 32) url);
          rest = cut_scheme url
      in if take 2 rest = ''//'' then takeWhile (\<lambda>c. c \<notin> set ''/?#'') (drop 2 rest) else [])"

definition url_hostname :: "string \<Rightarrow> string option" where
  "url_hostname url =
     (let netloc = url_netloc url in
      if (CHR ''['' \<in> set netloc) \<noteq> (CHR '']'' \<in> set netloc) then None
      else let hostinfo = py_after_last (CHR ''@'') netloc;
               host = (if CHR ''['' \<in> set hostinfo then py_before (CHR '']'') (py_after (CHR ''['') hostinfo)
                 else py_before (CHR '':'') hostinfo)
        in Some (py_lower (py_before (CHR ''%'') host) @ drop (length (py_before (CHR ''%'') host)) host))"

section \<open>Decimal numbers\<close>

text \<open>\<open>re.match(r"\d+")\<close> and \<open>int(s)\<close> for a string of digits; the limit of the interpreter on the number of
  digits is left out.\<close>

definition py_isdigit :: "char \<Rightarrow> bool" where
  "py_isdigit c = (let n = (of_char c :: nat) in 48 \<le> n \<and> n \<le> 57)"

definition py_nat :: "string \<Rightarrow> nat" where
  "py_nat s = foldl (\<lambda>n c. 10 * n + (of_char c - 48)) 0 s"

lemma py_nat_snoc: "py_nat (s @ [c]) = 10 * py_nat s + (of_char c - 48)"
  by (simp add: py_nat_def)

lemma digit_char: "n < 10 \<Longrightarrow> py_isdigit (char_of (48 + n)) \<and> of_char (char_of (48 + n :: nat)) = (48 + n :: nat)"
  by (simp add: py_isdigit_def Let_def of_char_of take_bit_eq_mod)

lemma digits_value: "py_nat (py_digits n) = n"
proof (induction n rule: py_digits.induct)
  case (1 n)
  show ?case
  proof (cases "n < 10")
    case True
    then show ?thesis using digit_char [of n] by (subst py_digits.simps) (simp add: py_nat_def)
  next
    case False
    then show ?thesis using 1 digit_char [of "n mod 10"]
      by (subst py_digits.simps) (simp add: py_nat_snoc)
  qed
qed

lemma digits_digits: "list_all py_isdigit (py_digits n) \<and> py_digits n \<noteq> []"
proof (induction n rule: py_digits.induct)
  case (1 n)
  show ?case
  proof (cases "n < 10")
    case True
    then show ?thesis using digit_char [of n] by (subst (1 2) py_digits.simps) simp
  next
    case False
    then show ?thesis using 1 digit_char [of "n mod 10"] by (subst (1 2) py_digits.simps) simp
  qed
qed

lemma digit_not_space: "py_isdigit c \<Longrightarrow> \<not> py_isspace c"
  by (auto simp: py_isdigit_def py_isspace_def Let_def)

lemma strip_solid: "s \<noteq> [] \<Longrightarrow> \<not> py_isspace (hd s) \<Longrightarrow> \<not> py_isspace (last s) \<Longrightarrow> py_strip s = s"
proof -
  assume s: "s \<noteq> []" "\<not> py_isspace (hd s)" "\<not> py_isspace (last s)"
  then have "dropWhile py_isspace s = s" by (cases s) auto
  moreover have "dropWhile py_isspace (rev s) = rev s"
    using s by (cases "rev s") (auto simp: hd_rev [symmetric])
  ultimately show ?thesis by (simp add: py_strip_def)
qed

lemma split_solid: "c \<notin> set p \<Longrightarrow> py_split c p = [p]"
  by (induction p) auto

lemma split_append: "c \<notin> set p \<Longrightarrow> py_split c (p @ c # rest) = p # py_split c rest"
  by (induction p) auto

lemma digit_values: "\<not> py_isdigit (CHR ''.'')" "\<not> py_isdigit (CHR '','')" "\<not> py_isspace (CHR ''.'')"
  by (simp_all add: py_isdigit_def py_isspace_def)


end
