(* ===== verification/Executor.thy ===== *)
theory Executor
  imports Dag PyText
begin

text \<open>
  The workflow executor (\<open>agent33/workflows/executor.py\<close>) with the two composite actions
  (\<open>actions/conditional.py\<close>, \<open>actions/parallel_group.py\<close>) and the expression layer
  (\<open>expressions.py\<close>).

  Everything outside the modelled code is a field of an environment record: the two entry points of
  Jinja2, the event sink, the hook chains, the handlers of the leaf actions, the checkpoint store and
  the order in which the event loop completes the tasks of a \<open>gather\<close>.  Those with effects read and
  change a world of any type.  The locals of \<open>execute\<close>, which survive an exception because the
  function catches it, are fields of the state.

  \<^item> Tasks of a \<open>gather\<close> run one after the other, in an order the environment picks; the code awaits
    inside them, so this abstracts from finer interleavings of their handlers.
  \<^item> A timeout is an exception of the handler.  The cancellation of a composite step in mid-flight
    (\<open>timeout_seconds\<close> on a conditional or a parallel group) is not modelled, nor are durations,
    logging and the replay recorder.
  \<^item> \<open>_execute_step\<close> recurses through sub-steps that it looks up by id, so the model counts the depth
    with fuel; \<open>execute\<close> starts with more fuel than the steps of the definition have parts, and
    running out is the exception \<open>ExFuel\<close>, which no handler catches.
\<close>

section \<open>Results, events, exceptions\<close>

datatype workflow_status = WS_Success | WS_Failed | WS_Partial | WS_Skipped

datatype step_status = ST_Success | ST_Failed | ST_Skipped

record step_result =
  sr_step_id :: string
  sr_status :: step_status
  sr_outputs :: pydict
  sr_error :: "string option"

record workflow_result =
  wres_outputs :: pydict
  wres_steps_executed :: "string list"
  wres_step_results :: "step_result list"
  wres_status :: workflow_status

datatype wf_exn =
    ExFuel
  | ExTimeout string
  | ExError string

datatype wf_event =
    EvWorkflowStarted nat nat
  | EvWorkflowCompleted workflow_status nat
  | EvWorkflowFailed workflow_status "string option"
  | EvStepStarted string nat
  | EvStepSkipped string string
  | EvStepCompleted string
  | EvStepRetrying string nat nat "string option"
  | EvStepFailed string "string option"

fun exn_str :: "wf_exn \<Rightarrow> string" where
  "exn_str ExFuel = []"
| "exn_str (ExTimeout m) = m"
| "exn_str (ExError m) = m"

text \<open>
  The environment.  An effect either raises (\<open>Inl\<close>, with \<open>True\<close> for a
  \<open>TimeoutError\<close> and the text of the exception) or returns.
\<close>

type_synonym raised = "bool \<times> string"

record 'w wf_env =
  en_render :: "string \<Rightarrow> pydict \<Rightarrow> string + string"
  en_expr :: "string \<Rightarrow> pydict \<Rightarrow> string + pyval"
  en_emit :: "wf_event \<Rightarrow> 'w \<Rightarrow> (raised + unit) \<times> 'w"
  en_pre :: "string \<Rightarrow> step_action \<Rightarrow> pydict \<Rightarrow> pydict \<Rightarrow> 'w \<Rightarrow> (raised + (string option \<times> pydict)) \<times> 'w"
  en_post :: "string \<Rightarrow> step_action \<Rightarrow> pydict \<Rightarrow> pydict \<Rightarrow> step_result \<Rightarrow> 'w \<Rightarrow> (raised + unit) \<times> 'w"
  en_action :: "wf_step \<Rightarrow> pydict \<Rightarrow> pydict \<Rightarrow> bool \<Rightarrow> 'w \<Rightarrow> (raised + pydict) \<times> 'w"
  en_order :: "nat \<Rightarrow> 'w \<Rightarrow> nat list \<times> 'w"
  en_checkpoints :: bool
  en_resume :: bool
  en_load :: "'w \<Rightarrow> (raised + pydict option) \<times> 'w"
  en_save :: "string \<Rightarrow> pydict \<Rightarrow> 'w \<Rightarrow> (raised + unit) \<times> 'w"

record 'w wf_run =
  wr_vars :: pydict
  wr_steps :: "(string, wf_step) odict"
  wr_results :: "step_result list"
  wr_executed :: "string list"
  wr_completed :: "string list"
  wr_failed :: bool
  wr_error :: "string option"
  wr_world :: 'w

type_synonym ('w, 'a) ex_m = "('w wf_run, wf_exn, 'a) svc"

definition raised_exn :: "raised \<Rightarrow> wf_exn" where
  "raised_exn r = (if fst r then ExTimeout (snd r) else ExError (snd r))"

definition ex_world :: "('w \<Rightarrow> (raised + 'a) \<times> 'w) \<Rightarrow> ('w, 'a) ex_m" where
  "ex_world f s = (case f (wr_world s) of
      (Inl r, w) \<Rightarrow> (Inl (raised_exn r), s\<lparr>wr_world := w\<rparr>)
    | (Inr a, w) \<Rightarrow> (Inr a, s\<lparr>wr_world := w\<rparr>))"

text \<open>\<open>try: m except Exception as exc: h(exc)\<close>\<close>

definition ex_catch :: "('w, 'a) ex_m \<Rightarrow> (wf_exn \<Rightarrow> ('w, 'a) ex_m) \<Rightarrow> ('w, 'a) ex_m" where
  "ex_catch m h s = (case m s of
      (Inl e, s') \<Rightarrow> (if e = ExFuel then (Inl ExFuel, s') else h e s')
    | (Inr a, s') \<Rightarrow> (Inr a, s'))"

definition ex_try :: "('w, 'a) ex_m \<Rightarrow> ('w, wf_exn + 'a) ex_m" where
  "ex_try m = ex_catch (sv_bind m (\<lambda>a. sv_return (Inr a))) (\<lambda>e. sv_return (Inl e))"

definition emit :: "'w wf_env \<Rightarrow> wf_event \<Rightarrow> ('w, unit) ex_m" where
  "emit env ev = ex_world (en_emit env ev)"

definition set_var :: "string \<Rightarrow> pyval \<Rightarrow> ('w, unit) ex_m" where
  "set_var k v = sv_modify (\<lambda>s. s\<lparr>wr_vars := od_put k v (wr_vars s)\<rparr>)"

section \<open>Expressions\<close>

fun py_truthy :: "pyval \<Rightarrow> bool" where
  "py_truthy PNone = False"
| "py_truthy (PBool b) = b"
| "py_truthy (PInt i) = (i \<noteq> 0)"
| "py_truthy (PFloat r) = (r \<noteq> 0)"
| "py_truthy (PStr s) = (s \<noteq> [])"
| "py_truthy (PList vs) = (vs \<noteq> [])"
| "py_truthy (PDict d) = (d \<noteq> [])"

definition is_template :: "string \<Rightarrow> bool" where
  "is_template s = (py_contains ''{{'' s \<or> py_contains ''{%'' s)"

definition evaluate :: "'w wf_env \<Rightarrow> string \<Rightarrow> pydict \<Rightarrow> string + pyval" where
  "evaluate env expression context =
     (let stripped = py_strip expression in
      if is_template stripped then map_sum id PStr (en_render env stripped context)
      else en_expr env stripped context)"

definition evaluate_condition :: "'w wf_env \<Rightarrow> string \<Rightarrow> pydict \<Rightarrow> string + bool" where
  "evaluate_condition env condition context = map_sum id py_truthy (evaluate env condition context)"

text \<open>First error of a list of results, else all values.\<close>

fun sum_list_all :: "('e + 'a) list \<Rightarrow> 'e + 'a list" where
  "sum_list_all [] = Inr []"
| "sum_list_all (Inl e # rs) = Inl e"
| "sum_list_all (Inr a # rs) = map_sum id ((#) a) (sum_list_all rs)"

definition resolve_item :: "'w wf_env \<Rightarrow> pydict \<Rightarrow> pyval \<Rightarrow> string + pyval" where
  "resolve_item env context v = (case v of PStr e \<Rightarrow> evaluate env e context | _ \<Rightarrow> Inr v)"

fun resolve_value :: "'w wf_env \<Rightarrow> pydict \<Rightarrow> pyval \<Rightarrow> string + pyval" where
  "resolve_value env context (PStr e) = evaluate env e context"
| "resolve_value env context (PDict d) =
     map_sum id PDict (sum_list_all (List.map (\<lambda>kv. map_sum id (Pair (fst kv)) (resolve_value env context (snd kv))) d))"
| "resolve_value env context (PList vs) = map_sum id PList (sum_list_all (List.map (resolve_item env context) vs))"
| "resolve_value env context v = Inr v"

definition resolve_inputs :: "'w wf_env \<Rightarrow> pydict \<Rightarrow> pydict \<Rightarrow> string + pydict" where
  "resolve_inputs env inputs context =
     sum_list_all (List.map (\<lambda>kv. map_sum id (Pair (fst kv)) (resolve_value env context (snd kv))) inputs)"

fun resolve_agent_value :: "'w wf_env \<Rightarrow> pydict \<Rightarrow> pyval \<Rightarrow> string + pyval" where
  "resolve_agent_value env context (PStr s) =
     (if is_template s then map_sum id PStr (en_render env s context) else Inr (PStr s))"
| "resolve_agent_value env context (PDict d) =
     map_sum id PDict (sum_list_all (List.map (\<lambda>kv. map_sum id (Pair (fst kv)) (resolve_agent_value env context (snd kv))) d))"
| "resolve_agent_value env context (PList vs) =
     map_sum id PList (sum_list_all (List.map (resolve_agent_value env context) vs))"
| "resolve_agent_value env context v = Inr v"

definition resolve_step_inputs :: "'w wf_env \<Rightarrow> wf_step \<Rightarrow> pydict \<Rightarrow> string + pydict" where
  "resolve_step_inputs env step vars =
     (if st_action step \<noteq> SA_InvokeAgent then resolve_inputs env (st_inputs step) vars
      else sum_list_all (List.map (\<lambda>kv. map_sum id (Pair (fst kv)) (resolve_agent_value env vars (snd kv))) (st_inputs step)))"

section \<open>One step\<close>

definition step_failed :: "string \<Rightarrow> string option \<Rightarrow> step_result" where
  "step_failed sid error = \<lparr>sr_step_id = sid, sr_status = ST_Failed, sr_outputs = [], sr_error = error\<rparr>"

definition step_skipped :: "string \<Rightarrow> pydict \<Rightarrow> step_result" where
  "step_skipped sid outputs = \<lparr>sr_step_id = sid, sr_status = ST_Skipped, sr_outputs = outputs, sr_error = None\<rparr>"

definition step_success :: "string \<Rightarrow> pydict \<Rightarrow> step_result" where
  "step_success sid outputs = \<lparr>sr_step_id = sid, sr_status = ST_Success, sr_outputs = outputs, sr_error = None\<rparr>"

text \<open>A jinja error is an \<open>Exception\<close> that is not a \<open>TimeoutError\<close>.\<close>

definition ex_pure :: "string + 'a \<Rightarrow> ('w, 'a) ex_m" where
  "ex_pure r = sv_lift (map_sum ExError id r)"

text \<open>The guard: \<open>Some r\<close> when the step ends here with the result \<open>r\<close>.\<close>

definition check_condition :: "'w wf_env \<Rightarrow> wf_step \<Rightarrow> ('w, step_result option) ex_m" where
  "check_condition env step = (case st_condition step of
      None \<Rightarrow> sv_return None
    | Some cond \<Rightarrow>
        if cond = [] then sv_return None
        else ex_catch
          (sv_bind sv_get (\<lambda>s. sv_bind (ex_pure (evaluate_condition env cond (wr_vars s))) (\<lambda>should_run.
             if \<not> should_run then
               sv_bind (emit env (EvStepSkipped (st_id step) ''condition_false'')) (\<lambda>_.
                 sv_return (Some (step_skipped (st_id step)
                   [(''skipped'', PBool True), (''reason'', PStr ''condition_false'')])))
             else sv_return None)))
          (\<lambda>e. let error = ''Condition evaluation error: '' @ exn_str e in
             sv_bind (emit env (EvStepFailed (st_id step) (Some error))) (\<lambda>_.
               sv_return (Some (step_failed (st_id step) (Some error))))))"

text \<open>One pass through the \<open>try\<close> block of the retry loop.\<close>

definition attempt_once ::
  "'w wf_env \<Rightarrow> wf_step \<Rightarrow> pydict \<Rightarrow> ('w, pydict) ex_m \<Rightarrow> ('w, step_result) ex_m" where
  "attempt_once env step inputs dispatch =
     sv_bind dispatch (\<lambda>outputs. let r = step_success (st_id step) outputs in
       sv_bind sv_get (\<lambda>s. sv_bind (ex_world (en_post env (st_id step) (st_action step) inputs (wr_vars s) r)) (\<lambda>_.
         sv_bind (emit env (EvStepCompleted (st_id step))) (\<lambda>_. sv_return r))))"

definition attempt_error :: "wf_step \<Rightarrow> wf_exn \<Rightarrow> string" where
  "attempt_error step e = (case e of
      ExTimeout _ \<Rightarrow> ''Step timed out after '' @
        (case st_timeout step of None \<Rightarrow> ''None'' | Some n \<Rightarrow> py_digits n) @ ''s''
    | _ \<Rightarrow> exn_str e)"

text \<open>The retry loop, by the number of attempts left.\<close>

fun run_attempts ::
  "'w wf_env \<Rightarrow> wf_step \<Rightarrow> ('w, step_result) ex_m \<Rightarrow> nat \<Rightarrow> nat \<Rightarrow> nat \<Rightarrow> string option \<Rightarrow> ('w, step_result) ex_m"
where
  "run_attempts env step once 0 attempt max_attempts last_error =
     sv_bind (emit env (EvStepFailed (st_id step) last_error))
       (\<lambda>_. sv_return (step_failed (st_id step) last_error))"
| "run_attempts env step once (Suc left) attempt max_attempts last_error =
     sv_bind (ex_try once) (\<lambda>res. case res of
         Inr r \<Rightarrow> sv_return r
       | Inl e \<Rightarrow>
           let err = Some (attempt_error step e) in
           sv_bind (if attempt < max_attempts
                    then emit env (EvStepRetrying (st_id step) attempt max_attempts err)
                    else sv_return ())
             (\<lambda>_. run_attempts env step once left (attempt + 1) max_attempts err))"

section \<open>Composite actions\<close>

definition quoted :: "string \<Rightarrow> string" where
  "quoted s = [CHR 0x27] @ s @ [CHR 0x27]"

definition conditional_execute ::
  "'w wf_env \<Rightarrow> string option \<Rightarrow> pydict \<Rightarrow> bool \<Rightarrow> string + pydict" where
  "conditional_execute env condition inputs dry_run = (case condition of
      None \<Rightarrow> Inl (''conditional action requires a '' @ quoted ''condition'' @ '' field'')
    | Some cond \<Rightarrow>
        if cond = [] then Inl (''conditional action requires a '' @ quoted ''condition'' @ '' field'')
        else if dry_run then
          Inr [(''dry_run'', PBool True), (''branch'', PStr ''then''), (''condition_result'', PBool True)]
        else map_sum id (\<lambda>result.
            [(''branch'', PStr (if result then ''then'' else ''else'')), (''condition_result'', PBool result)])
          (evaluate_condition env cond inputs))"

text \<open>\<open>{**a, **b}\<close>\<close>

definition dict_merge :: "pydict \<Rightarrow> pydict \<Rightarrow> pydict" where
  "dict_merge a b = fold (\<lambda>(k, v). od_put k v) b a"

fun run_branch ::
  "(wf_step \<Rightarrow> ('w, step_result) ex_m) \<Rightarrow> wf_step list \<Rightarrow> pydict \<Rightarrow> ('w, pydict) ex_m" where
  "run_branch run [] branch_outputs = sv_return branch_outputs"
| "run_branch run (sub # subs) branch_outputs =
     sv_bind (run sub) (\<lambda>r. sv_bind (set_var (st_id sub) (PDict (sr_outputs r))) (\<lambda>_.
       run_branch run subs (od_put (st_id sub) (PDict (sr_outputs r)) branch_outputs)))"

definition dispatch_conditional ::
  "'w wf_env \<Rightarrow> bool \<Rightarrow> (wf_step \<Rightarrow> ('w, step_result) ex_m) \<Rightarrow> wf_step \<Rightarrow> pydict \<Rightarrow> ('w, pydict) ex_m" where
  "dispatch_conditional env dry_run run step inputs =
     sv_bind sv_get (\<lambda>s.
       sv_bind (ex_pure (conditional_execute env (st_condition step) (dict_merge (wr_vars s) inputs) dry_run))
         (\<lambda>result.
            let branch_steps = (if od_get result ''branch'' = Some (PStr ''then'') then st_then step else st_else step)
            in run_branch run branch_steps result))"

text \<open>The completion order of \<open>n\<close> tasks: what the environment says, made a permutation.\<close>

definition schedule :: "nat \<Rightarrow> nat list \<Rightarrow> nat list" where
  "schedule n raw = (let xs = remdups (filter (\<lambda>i. i < n) raw) in xs @ filter (\<lambda>i. i \<notin> set xs) [0..<n])"

text \<open>\<open>asyncio.gather(*tasks, return_exceptions=True)\<close>: results by position.\<close>

fun run_scheduled :: "('i \<Rightarrow> ('w, 'a) ex_m) \<Rightarrow> 'i list \<Rightarrow> nat list \<Rightarrow> (wf_exn + 'a) list \<Rightarrow> ('w, (wf_exn + 'a) list) ex_m" where
  "run_scheduled task xs [] acc = sv_return acc"
| "run_scheduled task xs (i # is) acc =
     sv_bind (ex_try (task (xs ! i))) (\<lambda>r. run_scheduled task xs is (acc[i := r]))"

definition gather :: "'w wf_env \<Rightarrow> ('i \<Rightarrow> ('w, 'a) ex_m) \<Rightarrow> 'i list \<Rightarrow> ('w, (wf_exn + 'a) list) ex_m" where
  "gather env task xs =
     sv_bind (ex_world (\<lambda>w. case en_order env (length xs) w of (raw, w') \<Rightarrow> (Inr raw, w'))) (\<lambda>raw.
       run_scheduled task xs (schedule (length xs) raw) (replicate (length xs) (Inl (ExError []))))"

fun group_entry :: "string \<times> (wf_exn + pydict) \<Rightarrow> pydict \<times> pyval list \<Rightarrow> pydict \<times> pyval list" where
  "group_entry (sid, Inl e) (results, errors) =
     (od_put sid (PDict [(''error'', PStr (exn_str e))]) results,
      errors @ [PStr (''Step '' @ quoted sid @ '' failed: '' @ exn_str e)])"
| "group_entry (sid, Inr outputs) (results, errors) = (od_put sid (PDict outputs) results, errors)"

definition parallel_group_execute ::
  "'w wf_env \<Rightarrow> string list \<Rightarrow> (string \<Rightarrow> ('w, pydict) ex_m) \<Rightarrow> bool \<Rightarrow> ('w, pydict) ex_m" where
  "parallel_group_execute env sub_step_ids run_step dry_run =
     (if dry_run then sv_return
        [(''dry_run'', PBool True), (''steps'', PList (List.map PStr sub_step_ids)),
         (''results'', PDict (fold (\<lambda>sid. od_put sid (PDict [(''dry_run'', PBool True)])) sub_step_ids []))]
      else sv_bind (gather env run_step sub_step_ids) (\<lambda>results_list.
        case fold group_entry (zip sub_step_ids results_list) ([], []) of (results, errors) \<Rightarrow>
          sv_return [(''results'', PDict results), (''errors'', PList errors)]))"

text \<open>\<open>_run_sub\<close>: the sub-step is looked up in \<open>self._steps\<close> by its id.\<close>

definition run_sub :: "(wf_step \<Rightarrow> ('w, step_result) ex_m) \<Rightarrow> string \<Rightarrow> ('w, pydict) ex_m" where
  "run_sub run sid = sv_bind sv_get (\<lambda>s. case od_get (wr_steps s) sid of
      None \<Rightarrow> sv_raise (ExError (quoted sid))
    | Some sub_step \<Rightarrow> sv_bind (run sub_step) (\<lambda>r.
        sv_bind (set_var sid (PDict (sr_outputs r))) (\<lambda>_. sv_return (sr_outputs r))))"

definition dispatch_parallel_group ::
  "'w wf_env \<Rightarrow> bool \<Rightarrow> (wf_step \<Rightarrow> ('w, step_result) ex_m) \<Rightarrow> wf_step \<Rightarrow> ('w, pydict) ex_m" where
  "dispatch_parallel_group env dry_run run step =
     sv_bind (sv_modify (\<lambda>s. s\<lparr>wr_steps := fold (\<lambda>t. od_put (st_id t) t) (st_steps step) (wr_steps s)\<rparr>)) (\<lambda>_.
       parallel_group_execute env (List.map st_id (st_steps step)) (run_sub run) dry_run)"

definition dispatch_action ::
  "'w wf_env \<Rightarrow> bool \<Rightarrow> (wf_step \<Rightarrow> ('w, step_result) ex_m) \<Rightarrow> wf_step \<Rightarrow> pydict \<Rightarrow> ('w, pydict) ex_m" where
  "dispatch_action env dry_run run step inputs =
     (if st_action step = SA_Conditional then dispatch_conditional env dry_run run step inputs
      else if st_action step = SA_ParallelGroup then dispatch_parallel_group env dry_run run step
      else sv_bind sv_get (\<lambda>s. ex_world (en_action env step inputs (wr_vars s) dry_run)))"

text \<open>\<open>_execute_step\<close> around a given way to dispatch.\<close>

definition step_body ::
  "'w wf_env \<Rightarrow> (wf_step \<Rightarrow> pydict \<Rightarrow> ('w, pydict) ex_m) \<Rightarrow> wf_step \<Rightarrow> ('w, step_result) ex_m" where
  "step_body env dispatch step = sv_bind (check_condition env step) (\<lambda>ended. case ended of
      Some r \<Rightarrow> sv_return r
    | None \<Rightarrow> sv_bind sv_get (\<lambda>s.
        sv_bind (ex_pure (resolve_step_inputs env step (wr_vars s))) (\<lambda>resolved.
        sv_bind (ex_world (en_pre env (st_id step) (st_action step) resolved (wr_vars s))) (\<lambda>(abort, inputs). case abort of
            Some reason \<Rightarrow> sv_return (step_failed (st_id step) (Some (''Hook aborted: '' @ reason)))
          | None \<Rightarrow>
              let max_attempts = rt_max_attempts (st_retry step) in
              sv_bind (emit env (EvStepStarted (st_id step) max_attempts)) (\<lambda>_.
                run_attempts env step (attempt_once env step inputs (dispatch step inputs))
                  max_attempts 1 max_attempts None)))))"

fun execute_step :: "nat \<Rightarrow> 'w wf_env \<Rightarrow> bool \<Rightarrow> wf_step \<Rightarrow> ('w, step_result) ex_m" where
  "execute_step 0 env dry_run step = sv_raise ExFuel"
| "execute_step (Suc fuel) env dry_run step =
     step_body env (dispatch_action env dry_run (execute_step fuel env dry_run)) step"

section \<open>Checkpoints\<close>

definition checkpoint_meta_key :: string where
  "checkpoint_meta_key = ''__workflow_checkpoint''"

text \<open>
  \<open>str(step_id)\<close> of a raw entry: only a string can be the id of a step, because ids match
  \<open>^[a-z][a-z0-9_-]*$\<close>.  Iterating over a value that is not a container raises.
\<close>

definition raw_ids :: "pyval list \<Rightarrow> string list" where
  "raw_ids vs = List.concat (List.map (\<lambda>v. case v of PStr s \<Rightarrow> [s] | _ \<Rightarrow> []) vs)"

definition completed_raw :: "pyval option \<Rightarrow> string + string list" where
  "completed_raw metadata = (case metadata of
      Some (PDict d) \<Rightarrow>
        (case od_get d ''completed_steps'' of
           None \<Rightarrow> Inr []
         | Some (PList vs) \<Rightarrow> Inr (raw_ids vs)
         | Some (PStr s) \<Rightarrow> Inr (List.map (\<lambda>c. [c]) s)
         | Some (PDict e) \<Rightarrow> Inr (od_keys e)
         | Some _ \<Rightarrow> Inl ''object is not iterable'')
    | _ \<Rightarrow> Inr [])"

definition load_checkpoint_state :: "'w wf_env \<Rightarrow> pydict \<Rightarrow> ('w, unit) ex_m" where
  "load_checkpoint_state env inputs =
     sv_bind (sv_modify (\<lambda>s. s\<lparr>wr_vars := inputs, wr_completed := []\<rparr>)) (\<lambda>_.
       if \<not> en_checkpoints env \<or> \<not> en_resume env then sv_return ()
       else sv_bind (ex_world (en_load env)) (\<lambda>checkpoint. case checkpoint of
           None \<Rightarrow> sv_return ()
         | Some c \<Rightarrow> sv_bind (ex_pure (completed_raw (od_get c checkpoint_meta_key))) (\<lambda>raw.
             sv_modify (\<lambda>s. s\<lparr>
               wr_completed := filter (\<lambda>sid. sid \<in> set (od_keys (wr_steps s))) raw,
               wr_vars := dict_merge (wr_vars s) (od_del checkpoint_meta_key c)\<rparr>))))"

definition checkpoint_payload :: "wf_definition \<Rightarrow> string \<Rightarrow> pydict \<Rightarrow> string list \<Rightarrow> pydict" where
  "checkpoint_payload dfn sid vars completed =
     od_put checkpoint_meta_key (PDict
       [(''completed_steps'',
          PList (List.map PStr (filter (\<lambda>i. i \<in> set completed) (List.map st_id (wf_steps dfn))))),
        (''last_step_id'', PStr sid)]) vars"

definition save_checkpoint_state :: "'w wf_env \<Rightarrow> wf_definition \<Rightarrow> string \<Rightarrow> ('w, unit) ex_m" where
  "save_checkpoint_state env dfn sid =
     (if \<not> en_checkpoints env then sv_return ()
      else sv_bind sv_get (\<lambda>s.
        ex_world (en_save env sid (checkpoint_payload dfn sid (wr_vars s) (wr_completed s)))))"

definition checkpoint_restored_result :: "string \<Rightarrow> pydict \<Rightarrow> step_result" where
  "checkpoint_restored_result sid vars =
     step_skipped sid (case od_get vars sid of
        None \<Rightarrow> []
      | Some (PDict d) \<Rightarrow> d
      | Some v \<Rightarrow> [(''result'', v)])"

section \<open>The run\<close>

text \<open>What both loops do with the result of an executed step.\<close>

definition note_failure :: "step_result \<Rightarrow> ('w, unit) ex_m" where
  "note_failure r = sv_modify (\<lambda>s. s\<lparr>wr_failed := True,
     wr_error := (case sr_error r of None \<Rightarrow> wr_error s | Some e \<Rightarrow> if e = [] then wr_error s else Some e)\<rparr>)"

definition finish_step :: "'w wf_env \<Rightarrow> wf_definition \<Rightarrow> string \<Rightarrow> step_result \<Rightarrow> ('w, unit) ex_m" where
  "finish_step env dfn sid r =
     sv_bind (sv_modify (\<lambda>s. s\<lparr>wr_results := wr_results s @ [r]\<rparr>)) (\<lambda>_.
     sv_bind (set_var sid (PDict (sr_outputs r))) (\<lambda>_.
     sv_bind (if sr_status r = ST_Success
              then sv_bind (sv_modify (\<lambda>s. s\<lparr>wr_completed := List.insert sid (wr_completed s)\<rparr>))
                     (\<lambda>_. save_checkpoint_state env dfn sid)
              else sv_return ()) (\<lambda>_.
     sv_bind (sv_modify (\<lambda>s. s\<lparr>wr_executed := wr_executed s @ [sid]\<rparr>)) (\<lambda>_.
       if sr_status r = ST_Failed then note_failure r else sv_return ()))))"

definition restore_step :: "'w wf_env \<Rightarrow> string \<Rightarrow> ('w, unit) ex_m" where
  "restore_step env sid =
     sv_bind (sv_modify (\<lambda>s. s\<lparr>wr_results := wr_results s @ [checkpoint_restored_result sid (wr_vars s)]\<rparr>))
       (\<lambda>_. emit env (EvStepSkipped sid ''checkpoint_resume''))"

fun sequential_loop :: "'w wf_env \<Rightarrow> wf_definition \<Rightarrow> nat \<Rightarrow> wf_step list \<Rightarrow> ('w, unit) ex_m" where
  "sequential_loop env dfn fuel [] = sv_return ()"
| "sequential_loop env dfn fuel (step # steps) = sv_bind sv_get (\<lambda>s.
     if st_id step \<in> set (wr_completed s) then
       sv_bind (restore_step env (st_id step)) (\<lambda>_. sequential_loop env dfn fuel steps)
     else
       sv_bind (execute_step fuel env (ex_dry_run (wf_execution dfn)) step) (\<lambda>r.
       sv_bind (finish_step env dfn (st_id step) r) (\<lambda>_.
         if sr_status r = ST_Failed \<and> ex_fail_fast (wf_execution dfn) then sv_return ()
         else if sr_status r = ST_Failed \<and> \<not> ex_continue_on_error (wf_execution dfn) then sv_return ()
         else sequential_loop env dfn fuel steps)))"

text \<open>\<open>self._steps[sid]\<close>\<close>

definition lookup_step :: "string \<Rightarrow> ('w, wf_step) ex_m" where
  "lookup_step sid = sv_bind sv_get (\<lambda>s. case od_get (wr_steps s) sid of
      None \<Rightarrow> sv_raise (ExError (quoted sid)) | Some step \<Rightarrow> sv_return step)"

definition run_by_id :: "'w wf_env \<Rightarrow> wf_definition \<Rightarrow> nat \<Rightarrow> string \<Rightarrow> ('w, step_result) ex_m" where
  "run_by_id env dfn fuel sid =
     sv_bind (lookup_step sid) (execute_step fuel env (ex_dry_run (wf_execution dfn)))"

fun for_each :: "('i \<Rightarrow> ('w, unit) ex_m) \<Rightarrow> 'i list \<Rightarrow> ('w, unit) ex_m" where
  "for_each f [] = sv_return ()"
| "for_each f (x # xs) = sv_bind (f x) (\<lambda>_. for_each f xs)"

definition collect_result :: "'w wf_env \<Rightarrow> wf_definition \<Rightarrow> string \<times> (wf_exn + step_result) \<Rightarrow> ('w, unit) ex_m" where
  "collect_result env dfn sr = (case snd sr of
      Inl e \<Rightarrow> finish_step env dfn (fst sr) (step_failed (fst sr) (Some (exn_str e)))
    | Inr r \<Rightarrow> finish_step env dfn (fst sr) r)"

text \<open>One group; the result says whether the fail-fast check follows.\<close>

definition run_group :: "'w wf_env \<Rightarrow> wf_definition \<Rightarrow> nat \<Rightarrow> string list \<Rightarrow> ('w, bool) ex_m" where
  "run_group env dfn fuel grp = sv_bind sv_get (\<lambda>s. case grp of
      [sid] \<Rightarrow>
        sv_bind (if sid \<in> set (wr_completed s) then restore_step env sid
                 else sv_bind (run_by_id env dfn fuel sid) (finish_step env dfn sid))
          (\<lambda>_. sv_return True)
    | _ \<Rightarrow>
        let restored = filter (\<lambda>sid. sid \<in> set (wr_completed s)) grp;
            group_to_run = filter (\<lambda>sid. sid \<notin> set (wr_completed s)) grp
        in sv_bind (for_each (restore_step env) restored) (\<lambda>_.
             if group_to_run = [] then sv_return False
             else sv_bind (gather env (run_by_id env dfn fuel) group_to_run) (\<lambda>results.
               sv_bind (for_each (collect_result env dfn) (zip group_to_run results))
                 (\<lambda>_. sv_return True))))"

fun dag_loop :: "'w wf_env \<Rightarrow> wf_definition \<Rightarrow> nat \<Rightarrow> string list list \<Rightarrow> ('w, unit) ex_m" where
  "dag_loop env dfn fuel [] = sv_return ()"
| "dag_loop env dfn fuel (g # gs) = sv_bind (run_group env dfn fuel g) (\<lambda>checked. sv_bind sv_get (\<lambda>s.
     if checked \<and> wr_failed s \<and> ex_fail_fast (wf_execution dfn) then sv_return ()
     else dag_loop env dfn fuel gs))"

definition join_arrow :: "string list \<Rightarrow> string" where
  "join_arrow xs = (case xs of [] \<Rightarrow> [] | x # xs \<Rightarrow> fold (\<lambda>y acc. acc @ '' -> '' @ y) xs x)"

definition dag_exn :: "dag_error \<Rightarrow> wf_exn" where
  "dag_exn e = (case e of
      CycleDetected c \<Rightarrow> ExError (''Cycle detected in workflow steps: '' @ join_arrow c)
    | NotBuilt \<Rightarrow> ExError ''Call build() before accessing parallel groups''
    | DagOutOfFuel \<Rightarrow> ExFuel)"

definition build_groups :: "wf_definition \<Rightarrow> wf_exn + string list list" where
  "build_groups dfn = (case dag_build (dag_new (wf_steps dfn)) of
      (Inl e, _) \<Rightarrow> Inl (dag_exn e)
    | (Inr _, g) \<Rightarrow> map_sum dag_exn id (parallel_groups g))"

definition run_steps :: "'w wf_env \<Rightarrow> wf_definition \<Rightarrow> nat \<Rightarrow> ('w, unit) ex_m" where
  "run_steps env dfn fuel =
     (if ex_mode (wf_execution dfn) = EM_Sequential then sequential_loop env dfn fuel (wf_steps dfn)
      else sv_bind (sv_lift (build_groups dfn)) (dag_loop env dfn fuel))"

definition final_status :: "'w wf_run \<Rightarrow> workflow_status" where
  "final_status s =
     (if wr_failed s then
        (if list_ex (\<lambda>r. sr_status r = ST_Success) (wr_results s) then WS_Partial else WS_Failed)
      else WS_Success)"

definition final_outputs :: "step_result list \<Rightarrow> pydict" where
  "final_outputs rs = fold (\<lambda>r out. if sr_status r = ST_Failed then out else dict_merge out (sr_outputs r)) rs []"

definition final_error :: "'w wf_run \<Rightarrow> string option" where
  "final_error s = (case wr_error s of
      Some e \<Rightarrow> Some e
    | None \<Rightarrow> (case filter (\<lambda>r. sr_status r = ST_Failed \<and> sr_error r \<notin> {None, Some []}) (rev (wr_results s)) of
        [] \<Rightarrow> None | r # _ \<Rightarrow> sr_error r))"

fun step_parts :: "wf_step \<Rightarrow> nat" where
  "step_parts (WfStep sid act inp cond deps retry tmo sub th el params) =
     Suc (sum_list (List.map step_parts sub) + sum_list (List.map step_parts th) + sum_list (List.map step_parts el))"

definition wf_fuel :: "wf_definition \<Rightarrow> nat" where
  "wf_fuel dfn = Suc (sum_list (List.map step_parts (wf_steps dfn)))"

text \<open>\<open>WorkflowExecutor(...)\<close> before \<open>execute\<close>\<close>

definition wf_start :: "wf_definition \<Rightarrow> 'w \<Rightarrow> 'w wf_run" where
  "wf_start dfn w = \<lparr>wr_vars = [], wr_steps = fold (\<lambda>s. od_put (st_id s) s) (wf_steps dfn) [],
     wr_results = [], wr_executed = [], wr_completed = [], wr_failed = False, wr_error = None,
     wr_world = w\<rparr>"

definition execute :: "'w wf_env \<Rightarrow> wf_definition \<Rightarrow> pydict \<Rightarrow> ('w, workflow_result) ex_m" where
  "execute env dfn inputs =
     sv_bind (load_checkpoint_state env inputs) (\<lambda>_.
     sv_bind sv_get (\<lambda>s.
     sv_bind (emit env (EvWorkflowStarted (length (wf_steps dfn)) (card (set (wr_completed s))))) (\<lambda>_.
     sv_bind (ex_catch (run_steps env dfn (wf_fuel dfn))
        (\<lambda>e. sv_modify (\<lambda>s. s\<lparr>wr_failed := True, wr_error := Some (exn_str e)\<rparr>))) (\<lambda>_.
     sv_bind sv_get (\<lambda>s.
     sv_bind (emit env (if wr_failed s then EvWorkflowFailed (final_status s) (final_error s)
                        else EvWorkflowCompleted (final_status s) (length (wr_executed s)))) (\<lambda>_.
       sv_return \<lparr>wres_outputs = final_outputs (wr_results s), wres_steps_executed = wr_executed s,
         wres_step_results = wr_results s, wres_status = final_status s\<rparr>))))))"

end
