(* ===== verification/Dag_Correct.thy ===== *)
theory Dag_Correct
  imports Dag "HOL-Library.Multiset"
begin

text \<open>
  Correctness of the DAG builder: the groups are exactly the dependency layers, the order is a
  topological permutation of the steps, the builder fails exactly on cyclic dependencies, the cycle it
  names is one, and the fuel never runs out.
\<close>

section \<open>What the edge loops compute\<close>

text \<open>The edges as a flat list of pairs (step, dependency).\<close>

definition edge_pairs :: "wf_step list \<Rightarrow> (string \<times> string) list" where
  "edge_pairs steps = concat (List.map (\<lambda>s. List.map (Pair (st_id s)) (st_depends_on s)) steps)"

lemma add_edge_fold:
  "fold (add_edge sid) deps g =
     g\<lparr>dg_adj := (\<lambda>d. dg_adj g d @ replicate (count_list deps d) sid),
       dg_indeg := (\<lambda>n. dg_indeg g n + (if n = sid then int (length deps) else 0))\<rparr>"
  by (induction deps arbitrary: g) (auto simp: add_edge_def fun_eq_iff replicate_append_same)

lemma build_edges:
  "fold add_step_edges steps g =
     g\<lparr>dg_adj := (\<lambda>d. dg_adj g d @ concat (List.map (\<lambda>s. replicate (count_list (st_depends_on s) d) (st_id s)) steps)),
       dg_indeg := (\<lambda>n. dg_indeg g n + (\<Sum>s\<leftarrow>steps. if n = st_id s then int (length (st_depends_on s)) else 0))\<rparr>"
  by (induction steps arbitrary: g) (auto simp: add_step_edges_def add_edge_fold fun_eq_iff)

section \<open>Relaxation\<close>

lemma relax_group_flat: "relax_group adj grp in_degree = fold relax_one (concat (List.map adj grp)) (in_degree, [])"
proof -
  have "fold (\<lambda>node. fold relax_one (adj node)) grp st = fold relax_one (concat (List.map adj grp)) st" for st
    by (induction grp arbitrary: st) auto
  then show ?thesis by (simp add: relax_group_def)
qed

lemma relax_indeg: "fst (fold relax_one ns (f, q)) = (\<lambda>n. f n - int (count_list ns n))"
  by (induction ns arbitrary: f q) (auto simp: relax_one_def Let_def fun_eq_iff)

text \<open>
  A node joins the next queue when its count reaches zero, so exactly once, and exactly when as many
  of its edges were relaxed as it had left.
\<close>

lemma relax_queue:
  assumes "\<And>n. int (count_list ns n) \<le> f n"
  shows "\<exists>new. snd (fold relax_one ns (f, q)) = q @ new \<and> distinct new \<and>
    set new = {n \<in> set ns. int (count_list ns n) = f n}"
  using assms
proof (induction ns arbitrary: f q)
  case Nil
  then show ?case by simp
next
  case (Cons x ns)
  let ?f = "f(x := f x - 1)"
  have step: "fold relax_one (x # ns) (f, q) = fold relax_one ns (?f, if f x - 1 = 0 then q @ [x] else q)"
    by (simp add: relax_one_def Let_def)
  have le: "int (count_list ns n) \<le> ?f n" for n
    using Cons.prems [of n] by (auto split: if_splits)
  obtain new where new: "snd (fold relax_one ns (?f, if f x - 1 = 0 then q @ [x] else q)) =
      (if f x - 1 = 0 then q @ [x] else q) @ new" "distinct new"
    "set new = {n \<in> set ns. int (count_list ns n) = ?f n}"
    using Cons.IH [of ?f, OF le] by blast
  have pointwise: "n \<in> set (x # ns) \<and> int (count_list (x # ns) n) = f n \<longleftrightarrow>
      (n = x \<and> f x = 1) \<or> (n \<in> set ns \<and> int (count_list ns n) = ?f n)" for n
  proof (cases "n = x")
    case True
    show ?thesis
    proof (cases "x \<in> set ns")
      case True
      then have "0 < count_list ns x" by (metis count_list_0_iff gr0I)
      with \<open>n = x\<close> True le [of x] show ?thesis by auto
    qed (use True in auto)
  qed auto
  show ?case
  proof (cases "f x = 1")
    case True
    then have "count_list ns x = 0" using le [of x] by simp
    then have "x \<notin> set ns" by (simp add: count_list_0_iff)
    moreover have "{n \<in> set (x # ns). int (count_list (x # ns) n) = f n} = set (x # new)"
      using pointwise True new(3) by auto
    ultimately show ?thesis
      using new True unfolding step by (intro exI [of _ "x # new"]) simp
  next
    case False
    then have "{n \<in> set (x # ns). int (count_list (x # ns) n) = f n} = set new"
      using pointwise new(3) by auto
    with new False show ?thesis
      unfolding step by (intro exI [of _ new]) simp
  qed
qed

section \<open>The layers of a dependency graph\<close>

text \<open>
  \<open>deps\<close> maps a node to its dependencies, with \<open>[]\<close> outside the graph; \<open>adj\<close> is the reversed
  relation with the same multiplicities.
\<close>

definition wf_graph :: "string list \<Rightarrow> (string \<Rightarrow> string list) \<Rightarrow> (string \<Rightarrow> string list) \<Rightarrow> bool" where
  "wf_graph ids deps adj \<longleftrightarrow> distinct ids \<and> (\<forall>n. set (deps n) \<subseteq> set ids) \<and>
     (\<forall>n. n \<notin> set ids \<longrightarrow> deps n = []) \<and> (\<forall>d n. count_list (adj d) n = count_list (deps n) d)"

definition ready :: "string list \<Rightarrow> (string \<Rightarrow> string list) \<Rightarrow> string set \<Rightarrow> string set" where
  "ready ids deps seen = {n \<in> set ids - seen. set (deps n) \<subseteq> seen}"

text \<open>Each group holds, in order, exactly the nodes whose dependencies are all in earlier groups.\<close>

fun layers :: "string list \<Rightarrow> (string \<Rightarrow> string list) \<Rightarrow> string set \<Rightarrow> string list list \<Rightarrow> bool" where
  "layers ids deps seen [] = True"
| "layers ids deps seen (g # gs) =
     (set g = ready ids deps seen \<and> sorted g \<and> distinct g \<and> layers ids deps (seen \<union> set g) gs)"

definition topo :: "(string \<Rightarrow> string list) \<Rightarrow> string list \<Rightarrow> bool" where
  "topo deps order \<longleftrightarrow> (\<forall>i < length order. set (deps (order ! i)) \<subseteq> set (take i order))"

definition dep_rel :: "(string \<Rightarrow> string list) \<Rightarrow> (string \<times> string) set" where
  "dep_rel deps = {(d, n). d \<in> set (deps n)}"

lemma adj_iff: "wf_graph ids deps adj \<Longrightarrow> n \<in> set (adj d) \<longleftrightarrow> d \<in> set (deps n)"
  unfolding wf_graph_def by (metis count_list_0_iff)

lemma layers_append:
  "layers ids deps seen (gs @ hs) \<longleftrightarrow>
     layers ids deps seen gs \<and> layers ids deps (seen \<union> set (concat gs)) hs"
  by (induction gs arbitrary: seen) (auto simp: Un_assoc)

lemma topo_append:
  assumes "topo deps xs" and "\<And>n. n \<in> set ys \<Longrightarrow> set (deps n) \<subseteq> set xs"
  shows "topo deps (xs @ ys)"
  unfolding topo_def
proof (intro allI impI)
  fix i
  assume i: "i < length (xs @ ys)"
  show "set (deps ((xs @ ys) ! i)) \<subseteq> set (take i (xs @ ys))"
  proof (cases "i < length xs")
    case True
    with assms(1) show ?thesis by (simp add: topo_def nth_append)
  next
    case False
    with i have "ys ! (i - length xs) \<in> set ys" by auto
    with assms(2) have "set (deps (ys ! (i - length xs))) \<subseteq> set xs" by blast
    with False show ?thesis by (auto simp: nth_append)
  qed
qed

lemma topo_closed: "topo deps order \<Longrightarrow> n \<in> set order \<Longrightarrow> set (deps n) \<subseteq> set order"
proof
  fix d
  assume topo: "topo deps order" and n: "n \<in> set order" and d: "d \<in> set (deps n)"
  from n obtain i where "i < length order" "order ! i = n" by (auto simp: in_set_conv_nth)
  with topo d have "d \<in> set (take i order)" by (auto simp: topo_def)
  then show "d \<in> set order" by (rule in_set_takeD)
qed

lemma topo_acyclic:
  assumes "topo deps order" and "distinct order" and "\<And>n. deps n \<noteq> [] \<Longrightarrow> n \<in> set order"
  shows "acyclic (dep_rel deps)"
proof -
  define pos where "pos n = length (takeWhile (\<lambda>x. x \<noteq> n) order)" for n
  have nth: "pos (order ! i) = i" if "i < length order" for i
  proof -
    have "takeWhile (\<lambda>x. x \<noteq> order ! i) order = take i order"
      by (rule takeWhile_eq_take_P_nth) (use that assms(2) in \<open>auto simp: nth_eq_iff_index_eq\<close>)
    with that show ?thesis by (simp add: pos_def)
  qed
  have "pos d < pos n" if "d \<in> set (deps n)" for d n
  proof -
    from that have "n \<in> set order" by (intro assms(3)) auto
    then obtain i where i: "i < length order" "order ! i = n" by (auto simp: in_set_conv_nth)
    with assms(1) that have "d \<in> set (take i order)" by (auto simp: topo_def)
    then obtain j where "j < i" "order ! j = d" by (auto simp: in_set_conv_nth)
    with i nth [of j] nth [of i] show ?thesis by simp
  qed
  then have "dep_rel deps \<subseteq> measure pos" by (auto simp: dep_rel_def)
  then show ?thesis by (rule acyclic_subset [OF wf_acyclic [OF wf_measure]])
qed

section \<open>Kahn's algorithm\<close>

definition kahn_inv ::
  "string list \<Rightarrow> (string \<Rightarrow> string list) \<Rightarrow> (string \<Rightarrow> int) \<Rightarrow> string list \<Rightarrow> string list list \<Rightarrow> string list \<Rightarrow> bool" where
  "kahn_inv ids deps f order groups queue \<longleftrightarrow>
     (\<forall>n. f n = int (length (filter (\<lambda>d. d \<notin> set order) (deps n)))) \<and>
     distinct order \<and> set order \<subseteq> set ids \<and> topo deps order \<and>
     distinct queue \<and> set queue = ready ids deps (set order) \<and>
     layers ids deps {} groups \<and> mset (concat groups) = mset order"

lemma count_concat_adj:
  assumes "wf_graph ids deps adj" and "distinct q"
  shows "count_list (concat (List.map adj q)) n = length (filter (\<lambda>d. d \<in> set q) (deps n))"
  using assms(2)
proof (induction q)
  case (Cons d q)
  have "length (filter (\<lambda>x. x = d \<or> x \<in> set q) xs) =
      count_list xs d + length (filter (\<lambda>x. x \<in> set q) xs)" if "d \<notin> set q" for xs :: "string list"
    using that by (induction xs) auto
  moreover from assms(1) have "count_list (adj d) n = count_list (deps n) d"
    by (simp add: wf_graph_def)
  ultimately show ?case using Cons by simp
qed simp

lemma kahn_step:
  assumes g: "wf_graph ids deps adj" and inv: "kahn_inv ids deps f order groups queue"
    and step: "relax_group adj queue f = (f', next)"
  shows "kahn_inv ids deps f' (order @ queue) (groups @ [sort queue]) (sort next)"
proof -
  let ?flat = "concat (List.map adj queue)" and ?O = "set order"
  from inv have f: "f n = int (length (filter (\<lambda>d. d \<notin> ?O) (deps n)))"
    and q: "distinct queue" "set queue = ready ids deps ?O" and topo: "topo deps order" for n
    by (auto simp: kahn_inv_def)
  have cnt: "count_list ?flat n = length (filter (\<lambda>d. d \<in> set queue) (deps n))" for n
    using g q(1) by (rule count_concat_adj)
  have split: "length (filter (\<lambda>d. d \<notin> ?O) xs) =
      length (filter (\<lambda>d. d \<in> set queue) xs) + length (filter (\<lambda>d. d \<notin> ?O \<union> set queue) xs)" for xs
    using q(2) by (induction xs) (auto simp: ready_def)
  have f': "f' n = int (length (filter (\<lambda>d. d \<notin> set (order @ queue)) (deps n)))" for n
  proof -
    have "f' = (\<lambda>n. f n - int (count_list ?flat n))"
      using step by (metis relax_group_flat relax_indeg fst_conv)
    then show ?thesis using split [of "deps n"] by (simp add: f cnt)
  qed
  have "int (count_list ?flat n) \<le> f n" for n
    using split [of "deps n"] by (simp add: f cnt)
  then obtain new where new: "snd (fold relax_one ?flat (f, [])) = [] @ new" "distinct new"
    "set new = {n \<in> set ?flat. int (count_list ?flat n) = f n}"
    using relax_queue by blast
  have "next = new" using step new(1) by (simp add: relax_group_flat)
  have zero: "int (count_list ?flat n) = f n \<longleftrightarrow> set (deps n) \<subseteq> ?O \<union> set queue" for n
  proof -
    have "int (count_list ?flat n) = f n \<longleftrightarrow> filter (\<lambda>d. d \<notin> ?O \<union> set queue) (deps n) = []"
      using split [of "deps n"] by (simp add: f cnt)
    then show ?thesis by (auto simp: filter_empty_conv)
  qed
  have mem: "n \<in> set ?flat \<longleftrightarrow> (\<exists>d \<in> set queue. d \<in> set (deps n))" for n
    using adj_iff [OF g] by auto
  have "set new = ready ids deps (set (order @ queue))"
  proof (intro equalityI subsetI)
    fix n
    assume "n \<in> set new"
    with new(3) obtain d where d: "d \<in> set queue" "d \<in> set (deps n)"
      and sub: "set (deps n) \<subseteq> ?O \<union> set queue" by (auto simp: mem zero simp del: set_concat)
    from d(1) q(2) have "d \<notin> ?O" by (simp add: ready_def)
    with d(2) have "n \<notin> ?O" using topo_closed [OF topo] by blast
    moreover from \<open>d \<notin> ?O\<close> d(2) have "n \<notin> set queue" unfolding q(2) ready_def by blast
    moreover from d(2) g have "n \<in> set ids" by (auto simp: wf_graph_def)
    ultimately show "n \<in> ready ids deps (set (order @ queue))" using sub by (auto simp: ready_def)
  next
    fix n
    assume n: "n \<in> ready ids deps (set (order @ queue))"
    then have "n \<notin> ready ids deps ?O" using q(2) by (auto simp: ready_def)
    with n have "\<exists>d \<in> set queue. d \<in> set (deps n)" by (auto simp: ready_def)
    with n show "n \<in> set new" unfolding new(3) mem zero by (auto simp: ready_def)
  qed
  moreover have "topo deps (order @ queue)"
    using topo by (rule topo_append) (auto simp: q(2) ready_def)
  moreover from inv have "set (concat groups) = ?O" by (metis kahn_inv_def set_mset_mset)
  ultimately show ?thesis
    using inv new(2) f' \<open>next = new\<close> by (auto simp: kahn_inv_def layers_append ready_def simp del: set_concat)
qed

lemma kahn_total:
  assumes g: "wf_graph ids deps adj"
  shows "kahn_inv ids deps f order groups queue \<Longrightarrow> card (set ids - set order) < fuel \<Longrightarrow>
    \<exists>f' order' groups'. kahn fuel adj f order groups queue = Some (order', groups') \<and>
      kahn_inv ids deps f' order' groups' []"
proof (induction fuel arbitrary: f order groups queue)
  case 0
  then show ?case by simp
next
  case (Suc fuel)
  show ?case
  proof (cases queue)
    case Nil
    with Suc.prems(1) show ?thesis by auto
  next
    case (Cons q qs)
    obtain f' nxt where step: "relax_group adj queue f = (f', nxt)" by (cases "relax_group adj queue f")
    have inv: "kahn_inv ids deps f' (order @ queue) (groups @ [sort queue]) (sort nxt)"
      using g Suc.prems(1) step by (rule kahn_step)
    have "q \<in> set ids - set order" using Suc.prems(1) Cons by (auto simp: kahn_inv_def ready_def)
    then have "set ids - set (order @ queue) \<subset> set ids - set order" using Cons by auto
    then have "card (set ids - set (order @ queue)) < card (set ids - set order)"
      by (simp add: psubset_card_mono)
    with Suc.prems(2) have "card (set ids - set (order @ queue)) < fuel" by simp
    from Suc.IH [OF inv this] show ?thesis using step Cons by simp
  qed
qed

lemma kahn_start:
  assumes "wf_graph ids deps adj" and "\<And>n. f n = int (length (deps n))"
  shows "kahn_inv ids deps f [] [] (filter (\<lambda>n. f n = 0) ids)"
  using assms by (auto simp: kahn_inv_def topo_def ready_def wf_graph_def)

text \<open>What is left when the queue runs empty: every remaining node waits for another one.\<close>

lemma kahn_rest:
  assumes "wf_graph ids deps adj" and "kahn_inv ids deps f order groups []" and "n \<in> set ids - set order"
  shows "\<exists>d \<in> set ids - set order. d \<in> set (deps n)"
proof -
  from assms(2) have "ready ids deps (set order) = {}" by (auto simp: kahn_inv_def)
  with assms(3) have "\<not> set (deps n) \<subseteq> set order" by (auto simp: ready_def)
  with assms(1) show ?thesis by (auto simp: wf_graph_def)
qed

lemma rest_cyclic:
  assumes "finite R" and "n \<in> R" and "\<And>n. n \<in> R \<Longrightarrow> \<exists>d \<in> R. d \<in> set (deps n)"
  shows "\<not> acyclic (dep_rel deps)"
proof
  assume "acyclic (dep_rel deps)"
  then have "acyclic (dep_rel deps \<inter> R \<times> R)" by (rule acyclic_subset) blast
  then have "wf (dep_rel deps \<inter> R \<times> R)"
    by (intro finite_acyclic_wf) (simp_all add: assms(1))
  then obtain m where m: "m \<in> R" and min: "\<And>y. (y, m) \<in> dep_rel deps \<inter> R \<times> R \<Longrightarrow> y \<notin> R"
    using assms(2) by (rule wfE_min) blast
  from assms(3) [OF m] obtain d where "d \<in> R" "d \<in> set (deps m)" by blast
  with m min [of d] show False by (simp add: dep_rel_def)
qed

section \<open>The cycle search\<close>

definition is_cycle :: "(string \<Rightarrow> string list) \<Rightarrow> string list \<Rightarrow> bool" where
  "is_cycle adj c \<longleftrightarrow> 2 \<le> length c \<and> hd c = last c \<and> successively (\<lambda>x y. y \<in> set (adj x)) c"

text \<open>Finished nodes, the last one in front, only point to nodes finished before them.\<close>

fun closed_order :: "(string \<Rightarrow> string list) \<Rightarrow> string list \<Rightarrow> bool" where
  "closed_order adj [] = True"
| "closed_order adj (x # xs) = (set (adj x) \<subseteq> set xs \<and> closed_order adj xs)"

definition dfs_inv :: "(string \<Rightarrow> string list) \<Rightarrow> dfs_state \<Rightarrow> bool" where
  "dfs_inv adj st = (case st of (visiting, visited, path) \<Rightarrow>
     set visiting = set path \<and> distinct path \<and> distinct visited \<and> set visited \<inter> set path = {} \<and>
     successively (\<lambda>x y. y \<in> set (adj x)) path \<and> closed_order adj visited)"

text \<open>What a call that returns hands back: a cycle, or a state that has only finished more nodes.\<close>

definition dfs_post ::
  "(string \<Rightarrow> string list) \<Rightarrow> dfs_state \<Rightarrow> string set \<Rightarrow> (string list option \<times> dfs_state) option \<Rightarrow> bool" where
  "dfs_post adj st done res = (case res of
      None \<Rightarrow> True
    | Some (Some c, _) \<Rightarrow> is_cycle adj c
    | Some (None, st') \<Rightarrow> (case st of (visiting, visited, path) \<Rightarrow> case st' of (visiting', visited', path') \<Rightarrow>
        set visiting' = set visiting \<and> path' = path \<and> set visited \<subseteq> set visited' \<and>
        done \<subseteq> set visited' \<and> dfs_inv adj st'))"

lemma back_edge_cycle:
  assumes "successively (\<lambda>x y. y \<in> set (adj x)) path" and "nb \<in> set path" and "nb \<in> set (adj (last path))"
  shows "is_cycle adj (dropWhile (\<lambda>x. x \<noteq> nb) path @ [nb])"
proof -
  obtain xs ys where p: "path = xs @ nb # ys" "nb \<notin> set xs"
    using assms(2) by (meson split_list_first)
  then have dw: "dropWhile (\<lambda>x. x \<noteq> nb) path = nb # ys" by (auto simp: dropWhile_append3)
  from assms(1) p have "successively (\<lambda>x y. y \<in> set (adj x)) (nb # ys)"
    by (simp add: successively_append_iff)
  moreover from assms(3) p have "nb \<in> set (adj (last (nb # ys)))" by simp
  ultimately have "successively (\<lambda>x y. y \<in> set (adj x)) ((nb # ys) @ [nb])"
    unfolding successively_append_iff by simp
  then show ?thesis unfolding dw by (simp add: is_cycle_def)
qed

lemma dfs_spec:
  "dfs_inv adj st \<Longrightarrow> node \<notin> set (fst st) \<Longrightarrow> node \<notin> set (fst (snd st)) \<Longrightarrow>
     (snd (snd st) \<noteq> [] \<longrightarrow> node \<in> set (adj (last (snd (snd st))))) \<Longrightarrow>
     dfs_post adj st {node} (dfs fuel adj node st)"
  "dfs_inv adj st' \<Longrightarrow> snd (snd st') \<noteq> [] \<Longrightarrow> set nbs \<subseteq> set (adj (last (snd (snd st')))) \<Longrightarrow>
     dfs_post adj st' (set nbs) (dfs_neighbors fuel' adj nbs st')"
proof (induction fuel adj node st and fuel' adj nbs st' rule: dfs_dfs_neighbors.induct)
  case (1 adj node st)
  show ?case by (simp add: dfs_post_def)
next
  case (2 fuel adj node visiting visited path)
  let ?st = "(node # visiting, visited, path @ [node])"
  have inv: "dfs_inv adj ?st"
    using "2.prems" by (auto simp: dfs_inv_def successively_append_iff)
  have post: "dfs_post adj ?st (set (adj node)) (dfs_neighbors fuel adj (adj node) ?st)"
    using inv by (intro "2.IH") auto
  show ?case
  proof (cases "dfs_neighbors fuel adj (adj node) ?st")
    case (Some r)
    obtain c vg' vd' p' where r: "r = (c, (vg', vd', p'))" by (cases r) auto
    show ?thesis
    proof (cases c)
      case None
      with post Some r have "set vg' = insert node (set visiting)" "p' = path @ [node]"
        "set visited \<subseteq> set vd'" "set (adj node) \<subseteq> set vd'" "dfs_inv adj (vg', vd', p')"
        by (auto simp: dfs_post_def)
      with "2.prems" Some r None show ?thesis
        by (auto simp: dfs_post_def dfs_inv_def)
    qed (use post Some r in \<open>auto simp: dfs_post_def\<close>)
  qed (simp add: dfs_post_def)
next
  case (3 fuel adj st)
  then show ?case by (auto simp: dfs_post_def split: prod.splits)
next
  case (4 fuel adj nb nbs visiting visited path)
  let ?st = "(visiting, visited, path)"
  consider "nb \<in> set visiting" | "nb \<notin> set visiting" "nb \<notin> set visited" | "nb \<notin> set visiting" "nb \<in> set visited"
    by blast
  then show ?case
  proof cases
    case 1
    with "4.prems" show ?thesis
      by (auto simp: dfs_post_def dfs_inv_def intro!: back_edge_cycle)
  next
    case 2
    have post: "dfs_post adj ?st {nb} (dfs fuel adj nb ?st)"
      using 2 "4.prems" by (intro "4.IH"(1)) auto
    show ?thesis
    proof (cases "dfs fuel adj nb ?st")
      case None
      with 2 show ?thesis by (simp add: dfs_post_def)
    next
      case (Some r)
      obtain c vg' vd' p' where r: "r = (c, (vg', vd', p'))" by (cases r) auto
      show ?thesis
      proof (cases c)
        case (Some cyc)
        with post 2 \<open>dfs fuel adj nb ?st = Some r\<close> r show ?thesis by (simp add: dfs_post_def)
      next
        case None
        with post \<open>dfs fuel adj nb ?st = Some r\<close> r have st': "set vg' = set visiting" "p' = path"
          "set visited \<subseteq> set vd'" "nb \<in> set vd'" "dfs_inv adj (vg', vd', p')"
          by (auto simp: dfs_post_def)
        have d: "dfs fuel adj nb ?st = Some (None, (vg', vd', p'))"
          using \<open>dfs fuel adj nb ?st = Some r\<close> r None by simp
        have "dfs_post adj (vg', vd', p') (set nbs) (dfs_neighbors fuel adj nbs (vg', vd', p'))"
          using d "4.prems" st' by (intro "4.IH"(2) [OF 2 d refl refl]) auto
        then show ?thesis
          using 2 \<open>dfs fuel adj nb ?st = Some r\<close> r None st'
          by (fastforce simp: dfs_post_def split: option.splits)
      qed
    qed
  next
    case 3
    have "dfs_post adj ?st (set nbs) (dfs_neighbors fuel adj nbs ?st)"
      using 3 "4.prems" by (intro "4.IH"(3)) auto
    with 3 show ?thesis by (auto simp: dfs_post_def split: option.splits)
  qed
qed

text \<open>
  Depth of the recursion: every nested call has one more node on the path, so the nodes that are not on
  it bound the fuel needed.
\<close>

lemma dfs_fuel:
  assumes V: "finite V" "\<And>n. n \<in> V \<Longrightarrow> set (adj n) \<subseteq> V"
  shows "dfs_inv adj st \<Longrightarrow> node \<in> V - set (fst st) \<Longrightarrow> node \<notin> set (fst (snd st)) \<Longrightarrow>
     (snd (snd st) \<noteq> [] \<longrightarrow> node \<in> set (adj (last (snd (snd st))))) \<Longrightarrow>
     card (V - set (fst st)) \<le> fuel \<Longrightarrow> dfs fuel adj node st \<noteq> None"
  "dfs_inv adj st' \<Longrightarrow> snd (snd st') \<noteq> [] \<Longrightarrow> set nbs \<subseteq> set (adj (last (snd (snd st')))) \<Longrightarrow>
     set nbs \<subseteq> V \<Longrightarrow> card (V - set (fst st')) \<le> fuel' \<Longrightarrow> dfs_neighbors fuel' adj nbs st' \<noteq> None"
  using V(2)
proof (induction fuel adj node st and fuel' adj nbs st' rule: dfs_dfs_neighbors.induct)
  case (1 adj node st)
  then show ?case using V(1) by auto
next
  case (2 fuel adj node visiting visited path)
  let ?st = "(node # visiting, visited, path @ [node])"
  have inv: "dfs_inv adj ?st"
    using "2.prems" by (auto simp: dfs_inv_def successively_append_iff)
  have "card (V - set (node # visiting)) < card (V - set visiting)"
    using "2.prems"(2) V(1) by (intro psubset_card_mono) auto
  with "2.prems"(5) have fuel: "card (V - set (fst ?st)) \<le> fuel" by simp
  have "dfs_neighbors fuel adj (adj node) ?st \<noteq> None"
    using "2.prems"(2,6) by (intro "2.IH" [OF inv _ _ _ fuel]) auto
  then show ?case by (auto split: option.splits)
next
  case (3 fuel adj st)
  then show ?case by simp
next
  case (4 fuel adj nb nbs visiting visited path)
  let ?st = "(visiting, visited, path)"
  consider "nb \<in> set visiting" | "nb \<notin> set visiting" "nb \<notin> set visited" | "nb \<notin> set visiting" "nb \<in> set visited"
    by blast
  then show ?case
  proof cases
    case 1
    then show ?thesis by simp
  next
    case 2
    have post: "dfs_post adj ?st {nb} (dfs fuel adj nb ?st)"
      using 2 "4.prems" by (intro dfs_spec) auto
    have "dfs fuel adj nb ?st \<noteq> None"
      using 2 "4.prems" by (intro "4.IH"(1)) auto
    then obtain c vg' vd' p' where d: "dfs fuel adj nb ?st = Some (c, (vg', vd', p'))" by auto
    show ?thesis
    proof (cases c)
      case (Some cyc)
      with 2 d show ?thesis by simp
    next
      case None
      with post d have st': "set vg' = set visiting" "p' = path" "dfs_inv adj (vg', vd', p')"
        by (auto simp: dfs_post_def)
      have "dfs_neighbors fuel adj nbs (vg', vd', p') \<noteq> None"
        using "4.prems" st' d None by (intro "4.IH"(2) [OF 2 _ refl refl]) auto
      with 2 d None show ?thesis by simp
    qed
  next
    case 3
    have "dfs_neighbors fuel adj nbs ?st \<noteq> None"
      using 3 "4.prems" by (intro "4.IH"(3)) auto
    with 3 show ?thesis by simp
  qed
qed

lemma search_spec:
  assumes V: "finite V" "\<And>n. n \<in> V \<Longrightarrow> set (adj n) \<subseteq> V" "card V \<le> fuel"
  shows "dfs_inv adj (vg, vd, p) \<Longrightarrow> p = [] \<Longrightarrow> set sids \<subseteq> V \<Longrightarrow>
    \<exists>r. search_candidates fuel adj sids (vg, vd, p) = Some r \<and>
      dfs_post adj (vg, vd, p) (set sids) (Some r)"
proof (induction sids arbitrary: vg vd)
  case Nil
  then show ?case by (auto simp: dfs_post_def)
next
  case (Cons sid sids)
  let ?st = "(vg, vd, p)"
  from Cons.prems have vg: "vg = []" by (simp add: dfs_inv_def)
  show ?case
  proof (cases "sid \<in> set vd")
    case True
    from Cons.prems obtain r where r: "search_candidates fuel adj sids (vg, vd, p) = Some r"
      "dfs_post adj (vg, vd, p) (set sids) (Some r)"
      using Cons.IH [of vg vd] by auto
    with True have "dfs_post adj (vg, vd, p) (set (sid # sids)) (Some r)"
      by (cases r; cases "fst r") (auto simp: dfs_post_def)
    with True r(1) show ?thesis by simp
  next
    case False
    have post: "dfs_post adj ?st {sid} (dfs fuel adj sid ?st)"
      using False Cons.prems vg by (intro dfs_spec) auto
    have "dfs fuel adj sid ?st \<noteq> None"
      using False Cons.prems vg V by (intro dfs_fuel [of V]) auto
    then obtain c vg' vd' p' where d: "dfs fuel adj sid ?st = Some (c, (vg', vd', p'))" by auto
    show ?thesis
    proof (cases c)
      case (Some cyc)
      with False d post show ?thesis by (simp add: dfs_post_def)
    next
      case None
      with post d have st': "set vg' = set vg" "p' = p" "set vd \<subseteq> set vd'" "sid \<in> set vd'"
        "dfs_inv adj (vg', vd', p')" by (auto simp: dfs_post_def)
      with Cons.prems obtain r where r: "search_candidates fuel adj sids (vg', vd', p) = Some r"
        "dfs_post adj (vg', vd', p) (set sids) (Some r)"
        using Cons.IH [of vg' vd'] by auto
      with st' have "dfs_post adj (vg, vd, p) (set (sid # sids)) (Some r)"
        by (cases r; cases "fst r") (auto simp: dfs_post_def)
      with False d None st' r(1) show ?thesis by simp
    qed
  qed
qed

text \<open>If all candidates finish, they carry no cycle: their first node in the finishing order would have to
  point backwards.\<close>

lemma closed_order_after:
  "closed_order adj (xs @ d # ys) \<Longrightarrow> set (adj d) \<subseteq> set ys"
  by (induction xs) auto

lemma finished_acyclic:
  assumes "closed_order adj fin" and "distinct fin" and "R \<subseteq> set fin"
    and "\<And>n. n \<in> R \<Longrightarrow> \<exists>d \<in> R. n \<in> set (adj d)"
  shows "R = {}"
proof (rule ccontr)
  assume "R \<noteq> {}"
  with assms(3) have "\<exists>x \<in> set fin. x \<in> R" by auto
  then obtain xs x ys where fin: "fin = xs @ x # ys" "x \<in> R" "\<forall>y \<in> set xs. y \<notin> R"
    by (rule split_list_first_propE)
  from assms(4) [OF fin(2)] obtain d where d: "d \<in> R" "x \<in> set (adj d)" by blast
  with assms(3) fin have "d \<in> set (x # ys)" by auto
  then obtain us vs where "x # ys = us @ d # vs" by (meson split_list)
  with fin(1) assms(1,2) have "set (adj d) \<subseteq> set vs" "distinct (x # ys)" "x # ys = us @ d # vs"
    using closed_order_after [of adj "xs @ us" d vs] by auto
  with d(2) show False by (cases us) auto
qed

lemma find_cycle_genuine:
  assumes g: "wf_graph ids deps adj" and "length ids \<le> fuel" and R: "set cands \<subseteq> set ids" "cands \<noteq> []"
    and rest: "\<And>n. n \<in> set cands \<Longrightarrow> \<exists>d \<in> set cands. d \<in> set (deps n)"
  shows "\<exists>c. find_cycle fuel adj cands = Some c \<and> is_cycle adj c"
proof -
  have closed: "set (adj n) \<subseteq> set ids" for n
    using g adj_iff [OF g] unfolding wf_graph_def by fastforce
  have "card (set ids) \<le> fuel" using assms(2) card_length [of ids] by simp
  then obtain r where r: "search_candidates fuel adj cands ([], [], []) = Some r"
    "dfs_post adj ([], [], []) (set cands) (Some r)"
    using search_spec [of "set ids" adj fuel "[]" "[]" "[]" cands] closed R(1) by (auto simp: dfs_inv_def)
  obtain c vg vd p where rc: "r = (c, (vg, vd, p))" by (cases r) auto
  show ?thesis
  proof (cases c)
    case (Some cyc)
    with r rc show ?thesis by (simp add: find_cycle_def dfs_post_def)
  next
    case None
    with r rc have "set cands \<subseteq> set vd" "dfs_inv adj (vg, vd, p)" by (auto simp: dfs_post_def)
    then have "set cands = {}"
      using rest adj_iff [OF g] by (intro finished_acyclic [of adj vd]) (auto simp: dfs_inv_def)
    with R(2) show ?thesis by simp
  qed
qed

section \<open>The builder on a validated list of steps\<close>

fun step_deps :: "wf_step list \<Rightarrow> string \<Rightarrow> string list" where
  "step_deps [] n = []"
| "step_deps (s # ss) n = (if st_id s = n then st_depends_on s else step_deps ss n)"

lemma step_deps_outside: "n \<notin> st_id ` set steps \<Longrightarrow> step_deps steps n = []"
  by (induction steps) auto

lemma step_deps_mem: "step_deps steps n \<noteq> [] \<Longrightarrow> \<exists>s \<in> set steps. st_id s = n \<and> step_deps steps n = st_depends_on s"
  by (induction steps) (auto split: if_splits)

lemma step_deps_step: "distinct (List.map st_id steps) \<Longrightarrow> s \<in> set steps \<Longrightarrow>
    step_deps steps (st_id s) = st_depends_on s"
  by (induction steps) (auto simp: rev_image_eqI)

lemma od_put_fresh: "k \<notin> fst ` set d \<Longrightarrow> od_put k v d = d @ [(k, v)]"
  by (induction d) auto

lemma fold_put_steps:
  "distinct (List.map st_id steps) \<Longrightarrow> fst ` set d \<inter> st_id ` set steps = {} \<Longrightarrow>
    fold (\<lambda>s. od_put (st_id s) s) steps d = d @ List.map (\<lambda>s. (st_id s, s)) steps"
  by (induction steps arbitrary: d) (auto simp: od_put_fresh)

lemma count_built_adj:
  "distinct (List.map st_id steps) \<Longrightarrow>
    count_list (concat (List.map (\<lambda>s. replicate (count_list (st_depends_on s) d) (st_id s)) steps)) n =
      count_list (step_deps steps n) d"
proof (induction steps)
  case (Cons s ss)
  have rep: "count_list (replicate k x) n = (if n = x then k else 0)" for k and x :: string
    by (induction k) auto
  from Cons show ?case by (auto simp: rep step_deps_outside)
qed simp

lemma sum_built_indeg:
  "distinct (List.map st_id steps) \<Longrightarrow>
    (\<Sum>s\<leftarrow>steps. if n = st_id s then int (length (st_depends_on s)) else 0) = int (length (step_deps steps n))"
  by (induction steps) (auto simp: step_deps_outside)

definition built :: "wf_step list \<Rightarrow> dag" where
  "built steps = fold add_step_edges (od_vals (dg_steps (dag_new steps))) (dag_new steps)"

lemma built_graph:
  assumes "steps_ok steps"
  shows "od_keys (dg_steps (built steps)) = List.map st_id steps"
    and "wf_graph (List.map st_id steps) (step_deps steps) (dg_adj (built steps))"
    and "dg_indeg (built steps) n = int (length (step_deps steps n))"
proof -
  have d: "distinct (List.map st_id steps)" using assms by (simp add: steps_ok_def)
  have new: "dg_steps (dag_new steps) = List.map (\<lambda>s. (st_id s, s)) steps"
    using d by (simp add: dag_new_def fold_put_steps)
  then have vals: "od_vals (dg_steps (dag_new steps)) = steps" by (simp add: od_vals_def comp_def)
  show "od_keys (dg_steps (built steps)) = List.map st_id steps"
    unfolding built_def by (simp add: build_edges new od_keys_def comp_def)
  show "dg_indeg (built steps) n = int (length (step_deps steps n))"
    unfolding built_def vals using d by (simp add: build_edges sum_built_indeg dag_new_def)
  have "count_list (dg_adj (built steps) e) m = count_list (step_deps steps m) e" for e m
    unfolding built_def vals using d by (simp add: build_edges count_built_adj dag_new_def del: count_list_append)
  moreover have "set (step_deps steps m) \<subseteq> set (List.map st_id steps)" for m
    using assms step_deps_mem [of steps m] unfolding steps_ok_def by fastforce
  ultimately show "wf_graph (List.map st_id steps) (step_deps steps) (dg_adj (built steps))"
    using d by (simp add: wf_graph_def step_deps_outside)
qed

text \<open>A cycle in terms of the dependencies: every entry depends on the one before it.\<close>

definition dep_cycle :: "(string \<Rightarrow> string list) \<Rightarrow> string list \<Rightarrow> bool" where
  "dep_cycle deps c \<longleftrightarrow> 2 \<le> length c \<and> hd c = last c \<and> successively (\<lambda>x y. x \<in> set (deps y)) c"

lemma dep_cycle_not_acyclic:
  assumes "dep_cycle deps c" shows "\<not> acyclic (dep_rel deps)"
proof -
  from assms obtain x y zs where c: "c = x # y # zs" "x = last (y # zs)"
    by (cases c; cases "tl c") (auto simp: dep_cycle_def)
  have "successively (\<lambda>x y. x \<in> set (deps y)) (x # ys) \<Longrightarrow> ys \<noteq> [] \<Longrightarrow> (x, last ys) \<in> (dep_rel deps)\<^sup>+" for x ys
  proof (induction ys arbitrary: x)
    case (Cons z ys)
    then have xz: "(x, z) \<in> dep_rel deps" by (simp add: dep_rel_def)
    show ?case
    proof (cases "ys = []")
      case False
      with Cons have "(z, last ys) \<in> (dep_rel deps)\<^sup>+" by (cases ys) auto
      with xz False show ?thesis by (simp add: trancl_into_trancl2)
    qed (use xz in auto)
  qed simp
  from this [of x "y # zs"] assms c have "(x, x) \<in> (dep_rel deps)\<^sup>+" by (simp add: dep_cycle_def)
  then show ?thesis unfolding acyclic_def by blast
qed

text \<open>The two ways a build can end.\<close>

lemma dag_build_cases:
  assumes ok: "steps_ok steps"
  obtains (sorted) order groups where
      "dag_build (dag_new steps) = (Inr (), (built steps)\<lparr>dg_topo := Some order, dg_groups := Some groups\<rparr>)"
      "distinct order" "set order = set (List.map st_id steps)" "topo (step_deps steps) order"
      "layers (List.map st_id steps) (step_deps steps) {} groups" "mset (concat groups) = mset order"
  | (cyclic) c where "dag_build (dag_new steps) = (Inl (CycleDetected c), built steps)"
      "dep_cycle (step_deps steps) c"
proof -
  let ?ids = "List.map st_id steps" and ?deps = "step_deps steps" and ?g = "built steps"
  let ?q = "filter (\<lambda>sid. dg_indeg ?g sid = 0) ?ids"
  note g = built_graph [OF ok]
  have run: "dag_build (dag_new steps) = compute_topo_and_groups ?g"
    by (simp add: dag_build_def sv_bind_def sv_modify_def built_def)
  have start: "kahn_inv ?ids ?deps (dg_indeg ?g) [] [] ?q" using g by (intro kahn_start) auto
  have "card (set ?ids - set []) < Suc (length ?ids)"
    using card_length [of ?ids] by simp
  then obtain f order groups where k: "kahn (Suc (length ?ids)) (dg_adj ?g) (dg_indeg ?g) [] [] ?q = Some (order, groups)"
    and inv: "kahn_inv ?ids ?deps f order groups []"
    using kahn_total [OF g(2) start] by blast
  from inv have d: "distinct order" "set order \<subseteq> set ?ids" "topo ?deps order"
    "layers ?ids ?deps {} groups" "mset (concat groups) = mset order" by (auto simp: kahn_inv_def)
  have dids: "distinct ?ids" using ok by (simp add: steps_ok_def)
  show ?thesis
  proof (cases "length order = length ?ids")
    case True
    with d(1,2) dids have "set order = set ?ids" by (metis List.finite_set card_subset_eq distinct_card)
    moreover have "dag_build (dag_new steps) = (Inr (), ?g\<lparr>dg_topo := Some order, dg_groups := Some groups\<rparr>)"
      unfolding run using k True g(1) by (simp add: compute_topo_and_groups_def Let_def)
    ultimately show ?thesis using d by (intro sorted [of groups order]) assumption+
  next
    case False
    let ?rest = "filter (\<lambda>sid. sid \<notin> set order) ?ids"
    have rest: "set ?rest = set ?ids - set order" by auto
    have "set order \<noteq> set ?ids" using False d(1) dids by (metis distinct_card)
    with d(2) have "?rest \<noteq> []" by (auto simp: filter_empty_conv)
    have "\<exists>c. find_cycle (Suc (length ?ids)) (dg_adj ?g) ?rest = Some c \<and> is_cycle (dg_adj ?g) c"
      using \<open>?rest \<noteq> []\<close> kahn_rest [OF g(2) inv] unfolding rest [symmetric]
      by (intro find_cycle_genuine [OF g(2)]) auto
    then obtain c where c: "find_cycle (Suc (length ?ids)) (dg_adj ?g) ?rest = Some c" "is_cycle (dg_adj ?g) c"
      by blast
    have "dag_build (dag_new steps) = (Inl (CycleDetected c), ?g)"
      unfolding run using k False c(1) g(1) by (simp add: compute_topo_and_groups_def Let_def)
    moreover have "dep_cycle ?deps c"
      using c(2) adj_iff [OF g(2)] by (simp add: dep_cycle_def is_cycle_def)
    ultimately show ?thesis by (rule cyclic)
  qed
qed

section \<open>The properties\<close>

definition wstep :: "string \<Rightarrow> string list \<Rightarrow> wf_step" where
  "wstep sid deps = WfStep sid SA_RunCommand [] None deps default_retry None [] [] [] []"

text \<open>
  C3. On a validated list of steps the builder never runs out of fuel: it succeeds exactly when the
  dependency relation has no cycle, and the only error it raises is \<open>CycleDetectedError\<close>.
\<close>
theorem build_accepts_exactly_acyclic:
  assumes "steps_ok steps"
  shows "(fst (dag_build (dag_new steps)) = Inr () \<longleftrightarrow> acyclic (dep_rel (step_deps steps))) \<and>
    (fst (dag_build (dag_new steps)) = Inr () \<or> (\<exists>c. fst (dag_build (dag_new steps)) = Inl (CycleDetected c)))"
proof -
  have out: "step_deps steps n \<noteq> [] \<Longrightarrow> n \<in> set (List.map st_id steps)" for n
    using step_deps_outside [of n steps] by fastforce
  have "(fst (dag_build (dag_new steps)) = Inr () \<and> acyclic (dep_rel (step_deps steps))) \<or>
    ((\<exists>c. fst (dag_build (dag_new steps)) = Inl (CycleDetected c)) \<and> \<not> acyclic (dep_rel (step_deps steps)))"
    using assms
  proof (cases rule: dag_build_cases)
    case (sorted order groups)
    then have "acyclic (dep_rel (step_deps steps))" using out by (intro topo_acyclic [of _ order]) auto
    with sorted show ?thesis by simp
  next
    case (cyclic c)
    then show ?thesis using dep_cycle_not_acyclic by simp
  qed
  then show ?thesis by auto
qed

definition diamond :: "wf_step list" where
  "diamond = [wstep ''d'' [''b'', ''c''], wstep ''b'' [''a''], wstep ''c'' [''a''], wstep ''a'' []]"

lemma diamond_ok: "steps_ok diamond"
  by (simp add: steps_ok_def diamond_def wstep_def)

theorem build_accepts_exactly_acyclic_witness:
  "acyclic (dep_rel (step_deps diamond)) \<and>
   \<not> acyclic (dep_rel (step_deps [wstep ''a'' [''b''], wstep ''b'' [''a'']]))"
proof -
  have "fst (dag_build (dag_new diamond)) = Inr ()" by code_simp
  moreover have "fst (dag_build (dag_new [wstep ''a'' [''b''], wstep ''b'' [''a'']])) \<noteq> Inr ()" by code_simp
  moreover have "steps_ok [wstep ''a'' [''b''], wstep ''b'' [''a'']]" by (simp add: steps_ok_def wstep_def)
  ultimately show ?thesis using build_accepts_exactly_acyclic diamond_ok by blast
qed

text \<open>
  After a build, \<open>topological_order\<close> lists every step once, each after all of its dependencies.
\<close>
theorem topological_order_sound:
  assumes "steps_ok steps" and "dag_build (dag_new steps) = (Inr (), g)"
  shows "\<exists>order. topological_order g = Inr order \<and> distinct order \<and> set order = set (List.map st_id steps) \<and>
    (\<forall>i < length order. \<forall>s \<in> set steps. st_id s = order ! i \<longrightarrow> set (st_depends_on s) \<subseteq> set (take i order))"
  using assms(1)
proof (cases rule: dag_build_cases)
  case (sorted order groups)
  have "set (st_depends_on s) \<subseteq> set (take i order)"
    if "i < length order" "s \<in> set steps" "st_id s = order ! i" for i s
  proof -
    have "step_deps steps (order ! i) = st_depends_on s"
      using that step_deps_step [of steps s] assms(1) by (simp add: steps_ok_def)
    with that(1) sorted(4) show ?thesis by (metis topo_def)
  qed
  with sorted assms(2) show ?thesis by (auto simp: topological_order_def)
qed (use assms in simp)

theorem topological_order_sound_witness:
  "\<exists>order. topological_order (snd (dag_build (dag_new diamond))) = Inr order \<and> order = [''a'', ''b'', ''c'', ''d''] \<and>
     distinct order"
proof -
  have "dag_build (dag_new diamond) = (Inr (), snd (dag_build (dag_new diamond)))"
    by (rule prod_eqI) (simp, code_simp, simp)
  from topological_order_sound [OF diamond_ok this]
  obtain order where "topological_order (snd (dag_build (dag_new diamond))) = Inr order" "distinct order" by blast
  moreover have "topological_order (snd (dag_build (dag_new diamond))) = Inr [''a'', ''b'', ''c'', ''d'']" by code_simp
  ultimately show ?thesis by simp
qed

text \<open>
  C4. After a build, \<open>parallel_groups\<close> are the dependency layers: together they hold every step once,
  and each group is exactly the sorted list of the steps not placed earlier whose dependencies all are,
  so steps of one group never depend on each other and no step waits for a later group than it must.
\<close>
theorem parallel_groups_are_layers:
  assumes "steps_ok steps" and "dag_build (dag_new steps) = (Inr (), g)"
  shows "\<exists>groups. parallel_groups g = Inr groups \<and>
    mset (concat groups) = mset (List.map st_id steps) \<and>
    layers (List.map st_id steps) (step_deps steps) {} groups"
  using assms(1)
proof (cases rule: dag_build_cases)
  case (sorted order groups)
  moreover from sorted assms(1) have "mset order = mset (List.map st_id steps)"
    by (intro iffD1 [OF set_eq_iff_mset_eq_distinct]) (simp_all add: steps_ok_def)
  ultimately show ?thesis using assms(2) by (auto simp: parallel_groups_def)
qed (use assms in simp)

theorem parallel_groups_are_layers_witness:
  "\<exists>groups. parallel_groups (snd (dag_build (dag_new diamond))) = Inr groups \<and>
     groups = [[''a''], [''b'', ''c''], [''d'']] \<and>
     layers (List.map st_id diamond) (step_deps diamond) {} groups"
proof -
  have "dag_build (dag_new diamond) = (Inr (), snd (dag_build (dag_new diamond)))"
    by (rule prod_eqI) (simp, code_simp, simp)
  from parallel_groups_are_layers [OF diamond_ok this] obtain groups
    where "parallel_groups (snd (dag_build (dag_new diamond))) = Inr groups"
      "layers (List.map st_id diamond) (step_deps diamond) {} groups" by blast
  moreover have "parallel_groups (snd (dag_build (dag_new diamond))) = Inr [[''a''], [''b'', ''c''], [''d'']]"
    by code_simp
  ultimately show ?thesis by simp
qed

text \<open>
  C5. A build that fails names a real cycle: a closed path of steps each of which depends on the one
  before it (so the fallback of \<open>_find_cycle\<close>, which need not be a cycle, is never reached).
\<close>
theorem reported_cycle_is_genuine:
  assumes "steps_ok steps" and "dag_build (dag_new steps) = (Inl e, g)"
  shows "\<exists>c. e = CycleDetected c \<and> dep_cycle (step_deps steps) c \<and>
    dg_topo g = None \<and> topological_order g = Inl NotBuilt"
  using assms(1)
proof (cases rule: dag_build_cases)
  case (cyclic c)
  moreover have "dg_topo (built steps) = None" by (simp add: built_def build_edges dag_new_def)
  ultimately show ?thesis using assms(2) by (auto simp: topological_order_def)
qed (use assms in simp)

theorem reported_cycle_is_genuine_witness:
  "\<exists>c. dag_build (dag_new [wstep ''a'' [''b''], wstep ''b'' [''a'']]) =
       (Inl (CycleDetected c), built [wstep ''a'' [''b''], wstep ''b'' [''a'']]) \<and>
     dep_cycle (step_deps [wstep ''a'' [''b''], wstep ''b'' [''a'']]) c"
proof -
  let ?steps = "[wstep ''a'' [''b''], wstep ''b'' [''a'']]"
  have ok: "steps_ok ?steps" by (simp add: steps_ok_def wstep_def)
  have "fst (dag_build (dag_new ?steps)) = Inl (CycleDetected [''a'', ''b'', ''a''])" by code_simp
  moreover have "fst (dag_build (dag_new ?steps)) \<noteq> Inr ()" by code_simp
  ultimately have run: "dag_build (dag_new ?steps) = (Inl (CycleDetected [''a'', ''b'', ''a'']), built ?steps)"
    by - (rule dag_build_cases [OF ok], simp_all)
  from reported_cycle_is_genuine [OF ok run] obtain c
    where "CycleDetected [''a'', ''b'', ''a''] = CycleDetected c" "dep_cycle (step_deps ?steps) c" by blast
  with run show ?thesis by blast
qed

end
