(* ===== verification/Executor_Correct.thy ===== *)
theory Executor_Correct
  imports Executor Dag_Correct
begin

text \<open>
  Correctness of the executor: every run ends (the fuel suffices), the retry bound, dependency order
  in DAG mode, the meaning of the final status, checkpoints that resume without running a completed
  step again, and independence of the order in which parallel tasks finish.
\<close>

section \<open>Weakest preconditions of the executor's combinators\<close>

lemma wp_world [wp_simps]:
  "sv_wp (ex_world f) Q E = (\<lambda>s. case f (wr_world s) of
      (Inl r, w) \<Rightarrow> E (raised_exn r) (s\<lparr>wr_world := w\<rparr>) | (Inr a, w) \<Rightarrow> Q a (s\<lparr>wr_world := w\<rparr>))"
  by (rule ext) (simp add: sv_wp_def ex_world_def split: prod.splits sum.splits)

lemma wp_catch [wp_simps]:
  "sv_wp (ex_catch m h) Q E = sv_wp m Q (\<lambda>e s'. if e = ExFuel then E ExFuel s' else sv_wp (h e) Q E s')"
  by (rule ext) (simp add: sv_wp_def ex_catch_def split: prod.splits sum.splits)

lemma wp_try [wp_simps]:
  "sv_wp (ex_try m) Q E = sv_wp m (\<lambda>a. Q (Inr a)) (\<lambda>e s'. if e = ExFuel then E ExFuel s' else Q (Inl e) s')"
  by (simp add: ex_try_def wp_simps)

lemma wp_pure [wp_simps]:
  "sv_wp (ex_pure r) Q E = (case r of Inl m \<Rightarrow> E (ExError m) | Inr a \<Rightarrow> Q a)"
  by (cases r) (simp_all add: ex_pure_def wp_simps)

lemma wp_set_var [wp_simps]:
  "sv_wp (set_var k v) Q E = (\<lambda>s. Q () (s\<lparr>wr_vars := od_put k v (wr_vars s)\<rparr>))"
  by (simp add: set_var_def wp_simps)

lemma raised_not_fuel [simp]: "raised_exn r \<noteq> ExFuel" "ExFuel \<noteq> raised_exn r"
  by (simp_all add: raised_exn_def)

section \<open>The fuel suffices\<close>

text \<open>
  \<open>parts_below k\<close>: a method changes the registered steps only by adding steps with less than \<open>k\<close>
  parts, from any state in which the steps registered under \<open>ids\<close> have less than \<open>k\<close> parts; and
  it does not run out of fuel.
\<close>

definition registers :: "nat \<Rightarrow> 'w wf_run \<Rightarrow> 'w wf_run \<Rightarrow> bool" where
  "registers k s s' \<longleftrightarrow> (\<forall>i u. od_get (wr_steps s') i = Some u \<longrightarrow>
     od_get (wr_steps s) i = Some u \<or> step_parts u < k)"

definition small :: "string set \<Rightarrow> nat \<Rightarrow> 'w wf_run \<Rightarrow> bool" where
  "small ids k s \<longleftrightarrow> (\<forall>i \<in> ids. \<forall>u. od_get (wr_steps s) i = Some u \<longrightarrow> step_parts u < k)"

definition fueled :: "string set \<Rightarrow> nat \<Rightarrow> ('w, 'a) ex_m \<Rightarrow> bool" where
  "fueled ids k m \<longleftrightarrow> (\<forall>s. small ids k s \<longrightarrow> fst (m s) \<noteq> Inl ExFuel \<and> registers k s (snd (m s)))"

named_theorems fueled_intro "composition rules for fueled"

lemma registers_refl [simp]: "wr_steps s' = wr_steps s \<Longrightarrow> registers k s s'"
  by (simp add: registers_def)

lemma registers_trans: "registers k s s' \<Longrightarrow> registers k s' s'' \<Longrightarrow> registers k s s''"
  unfolding registers_def by blast

lemma registers_small: "registers k s s' \<Longrightarrow> small ids k s \<Longrightarrow> small ids k s'"
  unfolding registers_def small_def by blast

lemma registers_mono: "registers j s s' \<Longrightarrow> j \<le> k \<Longrightarrow> registers k s s'"
  unfolding registers_def using less_le_trans by blast

lemma fueled_small: "fueled {} j m \<Longrightarrow> j \<le> k \<Longrightarrow> fueled ids k m"
  unfolding fueled_def by (simp add: small_def) (blast intro: registers_mono)

lemma fueled_bind [fueled_intro]:
  fixes m :: "('w, 'a) ex_m"
  assumes "fueled ids k m" and "\<And>a. fueled ids k (f a)"
  shows "fueled ids k (sv_bind m f)"
  unfolding fueled_def
proof (intro allI impI)
  fix s :: "'w wf_run"
  assume s: "small ids k s"
  obtain r s1 where m: "m s = (r, s1)" by (cases "m s")
  with assms(1) s have 1: "r \<noteq> Inl ExFuel" "registers k s s1" unfolding fueled_def by force+
  then have "small ids k s1" using registers_small s by blast
  with assms(2) m 1 show "fst (sv_bind m f s) \<noteq> Inl ExFuel \<and> registers k s (snd (sv_bind m f s))"
    unfolding fueled_def sv_bind_def by (auto split: sum.splits intro: registers_trans)
qed

lemma fueled_return [fueled_intro]: "fueled ids k (sv_return a)"
  by (simp add: fueled_def sv_return_def)

lemma fueled_get [fueled_intro]: "fueled ids k sv_get"
  by (simp add: fueled_def sv_get_def)

lemma fueled_raise [fueled_intro]: "e \<noteq> ExFuel \<Longrightarrow> fueled ids k (sv_raise e)"
  by (simp add: fueled_def sv_raise_def)

lemma fueled_lift [fueled_intro]: "r \<noteq> Inl ExFuel \<Longrightarrow> fueled ids k (sv_lift r)"
  by (simp add: fueled_def sv_lift_def)

lemma fueled_pure [fueled_intro]: "fueled ids k (ex_pure r)"
  by (cases r) (auto simp: ex_pure_def intro!: fueled_lift)

lemma fueled_modify [fueled_intro]: "(\<And>s. wr_steps (f s) = wr_steps s) \<Longrightarrow> fueled ids k (sv_modify f)"
  by (simp add: fueled_def sv_modify_def)

lemma fueled_set_var [fueled_intro]: "fueled ids k (set_var i v)"
  unfolding set_var_def by (rule fueled_modify) simp

lemma fueled_world [fueled_intro]: "fueled ids k (ex_world f)"
  by (auto simp: fueled_def ex_world_def split: prod.splits sum.splits)

lemma fueled_emit [fueled_intro]: "fueled ids k (emit env ev)"
  unfolding emit_def by (rule fueled_world)

lemma fueled_if [fueled_intro]: "(b \<Longrightarrow> fueled ids k m) \<Longrightarrow> (\<not> b \<Longrightarrow> fueled ids k n) \<Longrightarrow> fueled ids k (if b then m else n)"
  by simp

lemma fueled_catch [fueled_intro]:
  fixes m :: "('w, 'a) ex_m"
  assumes "fueled ids k m" and "\<And>e. fueled ids k (h e)"
  shows "fueled ids k (ex_catch m h)"
  unfolding fueled_def
proof (intro allI impI)
  fix s :: "'w wf_run"
  assume s: "small ids k s"
  obtain r s1 where m: "m s = (r, s1)" by (cases "m s")
  with assms(1) s have 1: "r \<noteq> Inl ExFuel" "registers k s s1" unfolding fueled_def by force+
  then have "small ids k s1" using registers_small s by blast
  with assms(2) m 1 show "fst (ex_catch m h s) \<noteq> Inl ExFuel \<and> registers k s (snd (ex_catch m h s))"
    unfolding fueled_def ex_catch_def by (auto split: sum.splits intro: registers_trans)
qed

lemma fueled_try [fueled_intro]: "fueled ids k m \<Longrightarrow> fueled ids k (ex_try m)"
  unfolding ex_try_def by (intro fueled_intro)

lemma fueled_check [fueled_intro]: "fueled ids k (check_condition env step)"
  unfolding check_condition_def Let_def by (auto split: option.splits intro!: fueled_intro)

lemma fueled_attempts [fueled_intro]:
  "fueled ids k once \<Longrightarrow> fueled ids k (run_attempts env step once left att maxa err)"
proof (induction left arbitrary: att err)
  case (Suc left)
  have "fueled ids k (case res of Inr r \<Rightarrow> sv_return r
      | Inl e \<Rightarrow> let err = Some (attempt_error step e) in
          sv_bind (if att < maxa then emit env (EvStepRetrying (st_id step) att maxa err) else sv_return ())
            (\<lambda>_. run_attempts env step once left (att + 1) maxa err))" for res
    using Suc by (cases res) (auto simp: Let_def intro!: fueled_intro)
  with Suc.prems show ?case by (simp only: run_attempts.simps) (intro fueled_intro)
qed (auto intro!: fueled_intro)

lemma fueled_body [fueled_intro]:
  assumes "\<And>inputs. fueled ids k (dispatch step inputs)"
  shows "fueled ids k (step_body env dispatch step)"
proof -
  have "fueled ids k (case p of (abort, inputs) \<Rightarrow> case abort of
        Some reason \<Rightarrow> sv_return (step_failed (st_id step) (Some (''Hook aborted: '' @ reason)))
      | None \<Rightarrow> let max_attempts = rt_max_attempts (st_retry step) in
          sv_bind (emit env (EvStepStarted (st_id step) max_attempts)) (\<lambda>_.
            run_attempts env step (attempt_once env step inputs (dispatch step inputs))
              max_attempts 1 max_attempts None))" for p
    unfolding Let_def attempt_once_def
    by (cases p; cases "fst p") (auto intro!: fueled_intro assms)
  then show ?thesis unfolding step_body_def by (intro fueled_intro) (auto split: option.splits intro!: fueled_intro)
qed

lemma step_parts_pos: "0 < step_parts t"
  by (cases t) simp

lemma step_parts_sub:
  assumes "u \<in> set (st_steps t) \<union> set (st_then t) \<union> set (st_else t)"
  shows "step_parts u < step_parts t"
proof -
  have "x \<in> set xs \<Longrightarrow> step_parts x \<le> sum_list (List.map step_parts xs)" for x xs
    by (intro member_le_sum_list) auto
  with assms show ?thesis by (cases t) (auto simp: less_Suc_eq_le intro: trans_le_add1 trans_le_add2)
qed

text \<open>Sub-steps of a conditional.\<close>

lemma fueled_branch:
  "(\<And>u. u \<in> set us \<Longrightarrow> fueled ids k (run u)) \<Longrightarrow> fueled ids k (run_branch run us out)"
  by (induction us arbitrary: out) (auto intro!: fueled_intro)

lemma fueled_conditional:
  assumes "\<And>u. step_parts u < step_parts t \<Longrightarrow> fueled ids k (run u)"
  shows "fueled ids k (dispatch_conditional env dry run t inputs)"
  unfolding dispatch_conditional_def Let_def
  by (intro fueled_intro fueled_branch assms step_parts_sub) (auto split: if_splits)

text \<open>Sub-steps of a parallel group: whatever is registered under their ids is small.\<close>

lemma fueled_run_sub:
  fixes run :: "wf_step \<Rightarrow> ('w, step_result) ex_m"
  assumes "\<And>u. step_parts u < k \<Longrightarrow> fueled ids k (run u)" and "sid \<in> ids"
  shows "fueled ids k (run_sub run sid)"
  unfolding fueled_def
proof (intro allI impI)
  fix s :: "'w wf_run"
  assume s: "small ids k s"
  show "fst (run_sub run sid s) \<noteq> Inl ExFuel \<and> registers k s (snd (run_sub run sid s))"
  proof (cases "od_get (wr_steps s) sid")
    case None
    then show ?thesis by (simp add: run_sub_def svc_simps)
  next
    case (Some u)
    with s assms have "fueled ids k (run u)" unfolding small_def by blast
    then have "fueled ids k (sv_bind (run u) (\<lambda>r. sv_bind (set_var sid (PDict (sr_outputs r))) (\<lambda>_. sv_return (sr_outputs r))))"
      by (intro fueled_intro)
    with s have "fst (sv_bind (run u) (\<lambda>r. sv_bind (set_var sid (PDict (sr_outputs r))) (\<lambda>_. sv_return (sr_outputs r))) s) \<noteq> Inl ExFuel \<and>
      registers k s (snd (sv_bind (run u) (\<lambda>r. sv_bind (set_var sid (PDict (sr_outputs r))) (\<lambda>_. sv_return (sr_outputs r))) s))"
      unfolding fueled_def by blast
    with Some show ?thesis by (simp add: run_sub_def sv_get_def sv_bind_def [of sv_get])
  qed
qed

lemma set_schedule: "set (schedule n raw) = {..<n}"
  by (auto simp: schedule_def Let_def)

lemma distinct_schedule: "distinct (schedule n raw)"
  by (auto simp: schedule_def Let_def)

lemma fueled_scheduled:
  "(\<And>i. i \<in> set is \<Longrightarrow> fueled ids k (task (xs ! i))) \<Longrightarrow> fueled ids k (run_scheduled task xs is acc)"
  by (induction "is" arbitrary: acc) (auto intro!: fueled_intro)

lemma fueled_gather:
  assumes "\<And>x. x \<in> set xs \<Longrightarrow> fueled ids k (task x)"
  shows "fueled ids k (gather env task xs)"
  unfolding gather_def
  by (intro fueled_intro fueled_scheduled assms) (simp add: set_schedule)

lemma registered_small:
  assumes "\<And>u. u \<in> set us \<Longrightarrow> step_parts u < k"
  shows "registers k s (s\<lparr>wr_steps := fold (\<lambda>t. od_put (st_id t) t) us (wr_steps s)\<rparr>)"
    and "small (st_id ` set us) k (s\<lparr>wr_steps := fold (\<lambda>t. od_put (st_id t) t) us (wr_steps s)\<rparr>)"
proof -
  have *: "od_get (fold (\<lambda>t. od_put (st_id t) t) us d) i = Some u \<Longrightarrow>
      (od_get d i = Some u \<and> i \<notin> st_id ` set us) \<or> u \<in> set us" for i u d
  proof (induction us arbitrary: d)
    case (Cons a us)
    then have "od_get (fold (\<lambda>t. od_put (st_id t) t) us (od_put (st_id a) a d)) i = Some u" by simp
    from Cons.IH [OF this] show ?case by (auto simp: update_conv' split: if_splits)
  qed simp
  from * assms show "registers k s (s\<lparr>wr_steps := fold (\<lambda>t. od_put (st_id t) t) us (wr_steps s)\<rparr>)"
    unfolding registers_def by fastforce
  from * assms show "small (st_id ` set us) k (s\<lparr>wr_steps := fold (\<lambda>t. od_put (st_id t) t) us (wr_steps s)\<rparr>)"
    unfolding small_def by fastforce
qed

lemma fueled_parallel:
  fixes run :: "wf_step \<Rightarrow> ('w, step_result) ex_m"
  assumes "\<And>u ids. step_parts u < step_parts t \<Longrightarrow> fueled ids (step_parts t) (run u)"
  shows "fueled {} (step_parts t) (dispatch_parallel_group env dry run t)"
  unfolding fueled_def
proof (intro allI impI)
  fix s :: "'w wf_run"
  let ?s = "s\<lparr>wr_steps := fold (\<lambda>t. od_put (st_id t) t) (st_steps t) (wr_steps s)\<rparr>"
  let ?m = "parallel_group_execute env (List.map st_id (st_steps t)) (run_sub run) dry"
  note reg = registered_small [of "st_steps t" "step_parts t" s, OF step_parts_sub]
  have "fueled (st_id ` set (st_steps t)) (step_parts t) ?m"
    unfolding parallel_group_execute_def
    by (auto intro!: fueled_intro fueled_gather fueled_run_sub assms split: prod.splits)
  with reg(2) have "fst (?m ?s) \<noteq> Inl ExFuel \<and> registers (step_parts t) ?s (snd (?m ?s))"
    unfolding fueled_def by blast
  with reg(1) show "fst (dispatch_parallel_group env dry run t s) \<noteq> Inl ExFuel \<and>
      registers (step_parts t) s (snd (dispatch_parallel_group env dry run t s))"
    by (auto simp: dispatch_parallel_group_def sv_bind_def sv_modify_def intro: registers_trans)
qed

lemma fueled_step: "step_parts t \<le> fuel \<Longrightarrow> fueled {} (step_parts t) (execute_step fuel env dry t)"
proof (induction fuel arbitrary: t)
  case 0
  with step_parts_pos [of t] show ?case by simp
next
  case (Suc fuel)
  have sub: "fueled ids (step_parts t) (execute_step fuel env dry u)" if "step_parts u < step_parts t" for u ids
  proof (rule fueled_small)
    from Suc.prems that have "step_parts u \<le> fuel" by simp
    then show "fueled {} (step_parts u) (execute_step fuel env dry u)" by (rule Suc.IH)
    show "step_parts u \<le> step_parts t" using that by simp
  qed
  have "fueled {} (step_parts t) (dispatch_action env dry (execute_step fuel env dry) t inputs)" for inputs
    unfolding dispatch_action_def
    by (intro fueled_if fueled_conditional fueled_parallel fueled_bind fueled_get fueled_world)
      (erule sub)+
  then show ?case unfolding execute_step.simps by (rule fueled_body)
qed

text \<open>The loops and the whole run.\<close>

lemma fueled_lookup:
  fixes f :: "wf_step \<Rightarrow> ('w, 'a) ex_m"
  assumes "\<And>u. step_parts u < k \<Longrightarrow> fueled UNIV k (f u)"
  shows "fueled UNIV k (sv_bind (lookup_step sid) f)"
  unfolding fueled_def
proof (intro allI impI)
  fix s :: "'w wf_run"
  assume s: "small UNIV k s"
  show "fst (sv_bind (lookup_step sid) f s) \<noteq> Inl ExFuel \<and> registers k s (snd (sv_bind (lookup_step sid) f s))"
  proof (cases "od_get (wr_steps s) sid")
    case None
    then show ?thesis by (simp add: lookup_step_def svc_simps)
  next
    case (Some u)
    with s have "step_parts u < k" unfolding small_def by blast
    with assms s have "fst (f u s) \<noteq> Inl ExFuel \<and> registers k s (snd (f u s))"
      unfolding fueled_def by blast
    with Some show ?thesis by (simp add: lookup_step_def svc_simps)
  qed
qed

lemma fueled_step_top: "step_parts u < k \<Longrightarrow> fueled UNIV k (execute_step k env dry u)"
  by (rule fueled_small [OF fueled_step]) auto

lemma fueled_run_by_id [fueled_intro]: "fueled UNIV k (run_by_id env dfn k sid)"
  unfolding run_by_id_def by (rule fueled_lookup) (rule fueled_step_top)

lemma fueled_finish [fueled_intro]: "fueled ids k (finish_step env dfn sid r)"
  unfolding finish_step_def save_checkpoint_state_def note_failure_def by (auto intro!: fueled_intro)

lemma fueled_restore [fueled_intro]: "fueled ids k (restore_step env sid)"
  unfolding restore_step_def by (auto intro!: fueled_intro)

lemma fueled_for_each: "(\<And>x. fueled ids k (f x)) \<Longrightarrow> fueled ids k (for_each f xs)"
  by (induction xs) (auto intro!: fueled_intro)

lemma fueled_group [fueled_intro]: "fueled UNIV k (run_group env dfn k grp)"
proof -
  have collect: "fueled UNIV k (collect_result env dfn sr)" for sr
    unfolding collect_result_def by (auto split: sum.splits intro!: fueled_intro)
  have many: "fueled UNIV k (let restored = filter P gs; todo = filter Q gs
        in sv_bind (for_each (restore_step env) restored) (\<lambda>_.
             if todo = [] then sv_return False
             else sv_bind (gather env (run_by_id env dfn k) todo) (\<lambda>results.
               sv_bind (for_each (collect_result env dfn) (zip todo results)) (\<lambda>_. sv_return True))))" for P Q gs
    unfolding Let_def by (intro fueled_intro fueled_for_each fueled_gather collect)
  have one: "fueled UNIV k (sv_bind (if b then restore_step env sid
      else sv_bind (run_by_id env dfn k sid) (finish_step env dfn sid)) (\<lambda>_. sv_return True))" for b sid
    by (intro fueled_intro)
  consider "grp = []" | sid where "grp = [sid]" | x y zs where "grp = x # y # zs"
    by (cases grp rule: remdups_adj.cases) auto
  then show ?thesis
  proof cases
    case 1
    show ?thesis unfolding run_group_def 1 list.case by (rule fueled_bind [OF fueled_get], rule many)
  next
    case 2
    show ?thesis unfolding run_group_def 2 list.case by (rule fueled_bind [OF fueled_get], rule one)
  next
    case 3
    show ?thesis unfolding run_group_def 3 list.case by (rule fueled_bind [OF fueled_get], rule many)
  qed
qed

lemma fueled_dag_loop: "fueled UNIV k (dag_loop env dfn k gs)"
  by (induction gs) (auto intro!: fueled_intro)

lemma fueled_sequential:
  "(\<And>u. u \<in> set us \<Longrightarrow> step_parts u < k) \<Longrightarrow> fueled UNIV k (sequential_loop env dfn k us)"
  by (induction us) (auto intro!: fueled_intro fueled_step_top)

lemma build_groups_ok:
  "steps_ok (wf_steps dfn) \<Longrightarrow> build_groups dfn \<noteq> Inl ExFuel"
  by (rule dag_build_cases [of "wf_steps dfn"])
    (auto simp: build_groups_def dag_exn_def parallel_groups_def)

lemma fueled_run_steps:
  assumes "steps_ok (wf_steps dfn)"
  shows "fueled UNIV (wf_fuel dfn) (run_steps env dfn (wf_fuel dfn))"
proof -
  have "u \<in> set (wf_steps dfn) \<Longrightarrow> step_parts u < wf_fuel dfn" for u
    unfolding wf_fuel_def by (auto simp: less_Suc_eq_le intro!: member_le_sum_list)
  then show ?thesis
    unfolding run_steps_def
    by (intro fueled_intro fueled_sequential fueled_dag_loop build_groups_ok [OF assms])
qed

lemma small_start: "small UNIV (wf_fuel dfn) (wf_start dfn w)"
proof -
  have "u \<in> set (wf_steps dfn) \<Longrightarrow> step_parts u < wf_fuel dfn" for u
    unfolding wf_fuel_def by (auto simp: less_Suc_eq_le intro!: member_le_sum_list)
  moreover have "od_get (fold (\<lambda>s. od_put (st_id s) s) us d) i = Some u \<Longrightarrow> od_get d i = Some u \<or> u \<in> set us" for us d i u
  proof (induction us arbitrary: d)
    case (Cons a us)
    then have "od_get (fold (\<lambda>s. od_put (st_id s) s) us (od_put (st_id a) a d)) i = Some u" by simp
    from Cons.IH [OF this] show ?case by (auto simp: update_conv' split: if_splits)
  qed simp
  ultimately show ?thesis by (fastforce simp: small_def wf_start_def)
qed

lemma fueled_load: "fueled ids k (load_checkpoint_state env inputs)"
  unfolding load_checkpoint_state_def by (auto split: option.split intro!: fueled_intro)

lemma fueled_execute:
  assumes "steps_ok (wf_steps dfn)"
  shows "fueled UNIV (wf_fuel dfn) (execute env dfn inputs)"
  unfolding execute_def
  by (rule fueled_bind fueled_load fueled_get fueled_emit fueled_return fueled_catch
      fueled_run_steps [OF assms] fueled_modify)+
    (simp, (rule fueled_bind fueled_get fueled_emit fueled_return)+)

text \<open>
  C6. Every run of a validated definition ends, whatever the environment answers: recursion through
  conditionals and parallel groups, which look sub-steps up by id in a table that grows during the
  run, never goes deeper than the definition has parts.
\<close>
theorem execute_terminates:
  assumes "steps_ok (wf_steps dfn)"
  shows "fst (execute env dfn inputs (wf_start dfn w)) \<noteq> Inl ExFuel"
  by (rule fueled_execute [OF assms, unfolded fueled_def, rule_format, OF small_start, THEN conjunct1])

section \<open>What executing a step leaves alone\<close>

text \<open>
  Executing a step changes the world, assigns variables and registers sub-steps; a property that is
  stable under these three is kept, also by an exception.
\<close>

definition quiet :: "('w wf_run \<Rightarrow> bool) \<Rightarrow> bool" where
  "quiet P \<longleftrightarrow> (\<forall>s w. P s \<longrightarrow> P (s\<lparr>wr_world := w\<rparr>)) \<and>
     (\<forall>s k v. P s \<longrightarrow> P (s\<lparr>wr_vars := od_put k v (wr_vars s)\<rparr>)) \<and>
     (\<forall>s us. P s \<longrightarrow> P (s\<lparr>wr_steps := fold (\<lambda>t. od_put (st_id t) t) us (wr_steps s)\<rparr>))"

named_theorems quiet_intro "what keeps a quiet property"

lemma quiet_world [quiet_intro]: "quiet P \<Longrightarrow> keeps P (ex_world f)"
  by (auto simp: quiet_def keeps_def ex_world_def split: prod.splits sum.splits)

lemma quiet_emit [quiet_intro]: "quiet P \<Longrightarrow> keeps P (emit env ev)"
  unfolding emit_def by (rule quiet_world)

lemma quiet_set_var [quiet_intro]: "quiet P \<Longrightarrow> keeps P (set_var k v)"
  by (simp add: quiet_def keeps_def set_var_def sv_modify_def)

lemma quiet_pure [quiet_intro]: "keeps P (ex_pure r)"
  unfolding ex_pure_def by (rule keeps_lift)

lemma quiet_catch [quiet_intro]: "keeps P m \<Longrightarrow> (\<And>e. keeps P (h e)) \<Longrightarrow> keeps P (ex_catch m h)"
  unfolding keeps_def ex_catch_def by (fastforce split: prod.splits sum.splits)

lemma quiet_try [quiet_intro]: "keeps P m \<Longrightarrow> keeps P (ex_try m)"
  unfolding ex_try_def by (intro quiet_catch keeps_bind keeps_return)

lemmas quiet_rules = keeps_bind keeps_return keeps_get keeps_lift keeps_raise keeps_if quiet_intro

lemma quiet_check [quiet_intro]: "quiet P \<Longrightarrow> keeps P (check_condition env step)"
  unfolding check_condition_def Let_def by (auto split: option.splits intro!: quiet_rules quiet_intro)

lemma quiet_attempts [quiet_intro]:
  "quiet P \<Longrightarrow> keeps P once \<Longrightarrow> keeps P (run_attempts env step once left att maxa err)"
proof (induction left arbitrary: att err)
  case (Suc left)
  have "keeps P (case res of Inr r \<Rightarrow> sv_return r
      | Inl e \<Rightarrow> let err = Some (attempt_error step e) in
          sv_bind (if att < maxa then emit env (EvStepRetrying (st_id step) att maxa err) else sv_return ())
            (\<lambda>_. run_attempts env step once left (att + 1) maxa err))" for res
    using Suc by (cases res) (auto simp: Let_def intro!: quiet_rules quiet_intro)
  with Suc.prems show ?case by (simp only: run_attempts.simps) (intro keeps_bind quiet_try)
qed (auto intro!: quiet_rules quiet_intro)

lemma quiet_body [quiet_intro]:
  assumes "quiet P" and "\<And>inputs. keeps P (dispatch step inputs)"
  shows "keeps P (step_body env dispatch step)"
proof -
  have "keeps P (case p of (abort, inputs) \<Rightarrow> (case abort of
        Some reason \<Rightarrow> sv_return (step_failed (st_id step) (Some (''Hook aborted: '' @ reason)))
      | None \<Rightarrow> let max_attempts = rt_max_attempts (st_retry step) in
          sv_bind (emit env (EvStepStarted (st_id step) max_attempts)) (\<lambda>_.
            run_attempts env step (attempt_once env step inputs (dispatch step inputs))
              max_attempts 1 max_attempts None)))" for p
    unfolding Let_def attempt_once_def
    using assms by (cases p; cases "fst p") (auto intro!: quiet_rules quiet_intro)
  with assms(1) show ?thesis
    unfolding step_body_def by (intro quiet_rules quiet_intro) (auto split: option.splits intro!: quiet_rules quiet_intro)
qed

lemma quiet_branch: "quiet P \<Longrightarrow> (\<And>u. keeps P (run u)) \<Longrightarrow> keeps P (run_branch run us out)"
  by (induction us arbitrary: out) (auto intro!: quiet_rules quiet_intro)

lemma quiet_scheduled: "(\<And>x. keeps P (task x)) \<Longrightarrow> keeps P (run_scheduled task xs is acc)"
  by (induction "is" arbitrary: acc) (auto intro!: quiet_rules quiet_intro)

lemma quiet_gather [quiet_intro]: "quiet P \<Longrightarrow> (\<And>x. keeps P (task x)) \<Longrightarrow> keeps P (gather env task xs)"
  unfolding gather_def by (intro quiet_rules quiet_intro quiet_scheduled)

lemma quiet_dispatch:
  assumes "quiet P" and "\<And>u. keeps P (run u)"
  shows "keeps P (dispatch_action env dry run step inputs)"
proof -
  have sub: "keeps P (run_sub run sid)" for sid
    unfolding run_sub_def using assms by (auto split: option.split intro!: quiet_rules quiet_intro)
  have reg: "keeps P (sv_modify (\<lambda>s. s\<lparr>wr_steps := fold (\<lambda>t. od_put (st_id t) t) (st_steps step) (wr_steps s)\<rparr>))"
    using assms(1) by (intro keeps_modify) (simp add: quiet_def)
  have "keeps P (dispatch_parallel_group env dry run step)"
    unfolding dispatch_parallel_group_def parallel_group_execute_def
    using assms(1) reg sub by (intro quiet_rules quiet_intro) (auto split: prod.split intro!: quiet_rules quiet_intro)
  moreover have "keeps P (dispatch_conditional env dry run step inputs)"
    unfolding dispatch_conditional_def Let_def using assms by (intro quiet_rules quiet_branch)
  ultimately show ?thesis
    unfolding dispatch_action_def using assms(1) by (intro quiet_rules quiet_intro)
qed

lemma quiet_step: "quiet P \<Longrightarrow> keeps P (execute_step fuel env dry t)"
proof (induction fuel arbitrary: t)
  case (Suc fuel)
  then show ?case unfolding execute_step.simps by (intro quiet_body quiet_dispatch)
qed (simp add: keeps_raise)

text \<open>The bookkeeping of the run, and the ids under which steps are registered.\<close>

definition log_of :: "'w wf_run \<Rightarrow> step_result list \<times> string list \<times> string list \<times> bool \<times> string option" where
  "log_of s = (wr_results s, wr_executed s, wr_completed s, wr_failed s, wr_error s)"

definition keyed :: "'w wf_run \<Rightarrow> bool" where
  "keyed s \<longleftrightarrow> (\<forall>i u. od_get (wr_steps s) i = Some u \<longrightarrow> st_id u = i)"

lemma quiet_log: "quiet (\<lambda>s. log_of s = l)"
  by (simp add: quiet_def log_of_def)

lemma keyed_register: "keyed s \<Longrightarrow> keyed (s\<lparr>wr_steps := fold (\<lambda>t. od_put (st_id t) t) us (wr_steps s)\<rparr>)"
proof (induction us arbitrary: s)
  case (Cons u us)
  have "keyed (s\<lparr>wr_steps := od_put (st_id u) u (wr_steps s)\<rparr>)"
    using Cons.prems by (auto simp: keyed_def update_conv')
  from Cons.IH [OF this] show ?case by simp
qed simp

lemma quiet_keyed: "quiet keyed"
  using keyed_register by (auto simp: quiet_def keyed_def)

text \<open>A step reports under its own id.\<close>

definition returns :: "('a \<Rightarrow> bool) \<Rightarrow> ('w, 'a) ex_m \<Rightarrow> bool" where
  "returns Q m \<longleftrightarrow> (\<forall>s. sv_wp m (\<lambda>a _. Q a) (\<lambda>_ _. True) s)"

lemma returns_bind_via:
  "returns R m \<Longrightarrow> (\<And>a. R a \<Longrightarrow> returns Q (f a)) \<Longrightarrow> returns Q (sv_bind m f)"
  unfolding returns_def wp_bind by (blast intro: wp_mono)

lemma returns_any: "returns (\<lambda>_. True) m"
  by (simp add: returns_def sv_wp_def split: prod.split sum.split)

lemma returns_bind: "(\<And>a. returns Q (f a)) \<Longrightarrow> returns Q (sv_bind m f)"
  by (rule returns_bind_via [OF returns_any])

lemma returns_return: "Q a \<Longrightarrow> returns Q (sv_return a)"
  by (simp add: returns_def wp_simps)

lemma returns_if: "returns Q m \<Longrightarrow> returns Q n \<Longrightarrow> returns Q (if b then m else n)"
  by simp

lemma returns_catch: "returns Q m \<Longrightarrow> (\<And>e. returns Q (h e)) \<Longrightarrow> returns Q (ex_catch m h)"
  unfolding returns_def wp_catch by (auto elim!: wp_mono)

lemmas returns_rules = returns_bind returns_return returns_if returns_catch

lemma step_id_attempts:
  "returns (\<lambda>r. sr_step_id r = st_id step) once \<Longrightarrow>
    returns (\<lambda>r. sr_step_id r = st_id step) (run_attempts env step once left att maxa err)"
proof (induction left arbitrary: att err)
  case 0
  then show ?case by (simp add: step_failed_def) (intro returns_rules, simp)
next
  case (Suc left)
  let ?Q = "\<lambda>r. sr_step_id r = st_id step"
  have "returns (\<lambda>res. \<forall>r. res = Inr r \<longrightarrow> ?Q r) (ex_try once)"
    using Suc.prems unfolding returns_def wp_try by (simp cong: if_cong)
  moreover have "(\<forall>r. res = Inr r \<longrightarrow> ?Q r) \<Longrightarrow> returns ?Q (case res of Inr r \<Rightarrow> sv_return r
      | Inl e \<Rightarrow> let err = Some (attempt_error step e) in
          sv_bind (if att < maxa then emit env (EvStepRetrying (st_id step) att maxa err) else sv_return ())
            (\<lambda>_. run_attempts env step once left (att + 1) maxa err))" for res
    using Suc by (cases res) (auto simp: Let_def intro!: returns_rules)
  ultimately show ?case by (simp only: run_attempts.simps) (rule returns_bind_via)
qed

lemma step_id_body: "returns (\<lambda>r. sr_step_id r = st_id step) (step_body env dispatch step)"
proof -
  let ?Q = "\<lambda>r. sr_step_id r = st_id step"
  have "returns (\<lambda>x. \<forall>r. x = Some r \<longrightarrow> ?Q r) (check_condition env step)"
    unfolding check_condition_def Let_def
    by (auto split: option.splits intro!: returns_rules simp: step_failed_def step_skipped_def)
  moreover have "returns ?Q (attempt_once env step inputs m)" for inputs m
    unfolding attempt_once_def Let_def by (intro returns_rules) (simp add: step_success_def)
  then have "returns ?Q (case p of (abort, inputs) \<Rightarrow> (case abort of
        Some reason \<Rightarrow> sv_return (step_failed (st_id step) (Some (''Hook aborted: '' @ reason)))
      | None \<Rightarrow> let max_attempts = rt_max_attempts (st_retry step) in
          sv_bind (emit env (EvStepStarted (st_id step) max_attempts)) (\<lambda>_.
            run_attempts env step (attempt_once env step inputs (dispatch step inputs))
              max_attempts 1 max_attempts None)))" for p
    unfolding Let_def
    by (cases p; cases "fst p") (auto simp: step_failed_def intro!: returns_rules step_id_attempts)
  ultimately show ?thesis
    unfolding step_body_def
    by (intro returns_bind_via [of "\<lambda>x. \<forall>r. x = Some r \<longrightarrow> ?Q r"])
      (auto split: option.split intro!: returns_rules)
qed

section \<open>Invariants of a run\<close>

lemma wp_keeps: "keeps P m \<Longrightarrow> P s \<Longrightarrow> sv_wp m (\<lambda>_. P) (\<lambda>_. P) s"
  using keepsD [of P m s] by (cases "m s") (auto simp: sv_wp_def split: sum.split)

lemma step_id_step: "returns (\<lambda>r. sr_step_id r = st_id t) (execute_step fuel env dry t)"
  by (cases fuel) (auto simp: step_id_body, simp add: returns_def wp_simps)

definition ids_of :: "'w wf_run \<Rightarrow> string list" where
  "ids_of s = List.map sr_step_id (wr_results s)"

text \<open>
  \<open>C\<close> are the steps a checkpoint declared complete.  A run that has not failed holds no failed
  result, and what it executed is not in \<open>C\<close>.
\<close>

definition run_inv :: "string set \<Rightarrow> 'w wf_run \<Rightarrow> bool" where
  "run_inv C s \<longleftrightarrow> keyed s \<and> C \<subseteq> set (wr_completed s) \<and> set (wr_executed s) \<inter> C = {} \<and>
     (\<not> wr_failed s \<longrightarrow> (\<forall>r \<in> set (wr_results s). sr_status r \<noteq> ST_Failed))"

lemma run_inv_log: "log_of s' = log_of s \<Longrightarrow> keyed s' \<Longrightarrow> run_inv C s \<Longrightarrow> run_inv C s' \<and> ids_of s' = ids_of s"
  by (simp add: run_inv_def log_of_def ids_of_def)

definition runs_like :: "string set \<Rightarrow> 'w wf_run \<Rightarrow> 'w wf_run \<Rightarrow> bool" where
  "runs_like C s s' \<longleftrightarrow> run_inv C s' \<and> log_of s' = log_of s"

lemma runs_likeD: "runs_like C s s' \<Longrightarrow> run_inv C s' \<and> ids_of s' = ids_of s"
  by (simp add: runs_like_def log_of_def ids_of_def)

lemma quiet_runs_like: "quiet (runs_like C s)"
  using quiet_log [of "log_of s"] quiet_keyed
  unfolding runs_like_def run_inv_def log_of_def quiet_def by (auto simp: log_of_def)

lemma wp_step:
  assumes "run_inv C s"
  shows "sv_wp (execute_step fuel env dry t)
    (\<lambda>r s'. runs_like C s s' \<and> sr_step_id r = st_id t) (\<lambda>_ s'. runs_like C s s') s"
proof -
  have "sv_wp (execute_step fuel env dry t) (\<lambda>_. runs_like C s) (\<lambda>_. runs_like C s) s"
    using assms by (intro wp_keeps quiet_step quiet_runs_like) (simp add: runs_like_def)
  from wp_conj [OF this step_id_step [unfolded returns_def, rule_format]]
  show ?thesis by (rule wp_mono) auto
qed

lemma wp_run_by_id:
  assumes "run_inv C s" shows "sv_wp (run_by_id env dfn fuel sid)
    (\<lambda>r s'. runs_like C s s' \<and> sr_step_id r = sid) (\<lambda>_ s'. runs_like C s s') s"
proof (cases "od_get (wr_steps s) sid")
  case None
  with assms show ?thesis
    by (simp add: run_by_id_def lookup_step_def wp_simps runs_like_def)
next
  case (Some u)
  with assms have "st_id u = sid" by (simp add: run_inv_def keyed_def)
  with Some wp_step [OF assms, of fuel env "ex_dry_run (wf_execution dfn)" u] show ?thesis
    by (simp add: run_by_id_def lookup_step_def wp_simps)
qed

text \<open>The result of a step is recorded once, also when saving the checkpoint raises.\<close>

lemma wp_finish:
  assumes "run_inv C s" and "sid \<notin> C" and "sr_step_id r = sid"
  shows "sv_wp (finish_step env dfn sid r)
    (\<lambda>_ s'. run_inv C s' \<and> ids_of s' = ids_of s @ [sid] \<and> (sr_status r = ST_Failed \<longrightarrow> wr_failed s'))
    (\<lambda>_ s'. run_inv C s' \<and> ids_of s' = ids_of s @ [sid]) s"
  using assms
  by (cases "sr_status r")
    (auto simp: finish_step_def save_checkpoint_state_def note_failure_def wp_simps
      run_inv_def keyed_def ids_of_def split: prod.split sum.split)

lemma wp_restore:
  assumes "run_inv C s"
  shows "sv_wp (restore_step env sid)
    (\<lambda>_ s'. run_inv C s' \<and> ids_of s' = ids_of s @ [sid] \<and> wr_completed s' = wr_completed s)
    (\<lambda>_ s'. run_inv C s' \<and> ids_of s' = ids_of s @ [sid]) s"
  using assms
  by (auto simp: restore_step_def emit_def wp_simps run_inv_def keyed_def ids_of_def
      checkpoint_restored_result_def step_skipped_def split: prod.split sum.split)

section \<open>Sequential mode\<close>

lemma wp_sequential:
  "run_inv C s \<Longrightarrow> sv_wp (sequential_loop env dfn fuel us)
     (\<lambda>_ s'. run_inv C s' \<and> (\<exists>n. ids_of s' = ids_of s @ List.map st_id (take n us)) \<and>
        (\<not> wr_failed s' \<longrightarrow> ids_of s' = ids_of s @ List.map st_id us))
     (\<lambda>_ s'. run_inv C s' \<and> (\<exists>n. ids_of s' = ids_of s @ List.map st_id (take n us))) s"
proof (induction us arbitrary: s)
  case Nil
  then show ?case by (simp add: wp_simps)
next
  case (Cons u us)
  let ?Q = "\<lambda>_ s'. run_inv C s' \<and> (\<exists>n. ids_of s' = ids_of s @ List.map st_id (take n (u # us))) \<and>
        (\<not> wr_failed s' \<longrightarrow> ids_of s' = ids_of s @ List.map st_id (u # us))"
  let ?E = "\<lambda>_ s'. run_inv C s' \<and> (\<exists>n. ids_of s' = ids_of s @ List.map st_id (take n (u # us)))"
  have rest: "sv_wp (sequential_loop env dfn fuel us) ?Q ?E s'"
    if "run_inv C s'" "ids_of s' = ids_of s @ [st_id u]" for s'
    using Cons.IH [OF that(1)]
    by (rule wp_mono) (use that(2) in \<open>auto intro: exI [of _ "Suc n" for n]\<close>)
  have one: "\<exists>n. ids_of s @ [st_id u] = ids_of s @ List.map st_id (take n (u # us))"
    by (rule exI [of _ 1]) simp
  have none: "\<exists>n. ids_of s = ids_of s @ List.map st_id (take n (u # us))"
    by (rule exI [of _ 0]) simp
  show ?case
  proof (cases "st_id u \<in> set (wr_completed s)")
    case True
    have "sv_wp (restore_step env (st_id u)) (\<lambda>_. sv_wp (sequential_loop env dfn fuel us) ?Q ?E) ?E s"
      using wp_restore [OF Cons.prems] by (rule wp_mono) (use rest one in auto)
    with True show ?thesis by (simp add: wp_simps)
  next
    case False
    with Cons.prems have new: "st_id u \<notin> C" by (auto simp: run_inv_def)
    have fin: "sv_wp (finish_step env dfn (st_id u) r) (\<lambda>_ s2. sv_wp
        (if sr_status r = ST_Failed \<and> ex_fail_fast (wf_execution dfn) then sv_return ()
         else if sr_status r = ST_Failed \<and> \<not> ex_continue_on_error (wf_execution dfn) then sv_return ()
         else sequential_loop env dfn fuel us) ?Q ?E s2) ?E s1"
      if "runs_like C s s1" "sr_step_id r = st_id u" for r s1
    proof -
      from that(1) have s1: "run_inv C s1" "ids_of s1 = ids_of s"
        by (auto simp: runs_like_def ids_of_def log_of_def)
      show ?thesis
        using wp_finish [OF s1(1) new that(2)]
      proof (rule wp_mono, goal_cases)
        case (1 a s2)
        then show ?case using rest one s1(2) by (auto simp: wp_simps)
      next
        case (2 e s2)
        then show ?case using one s1(2) by simp
      qed
    qed
    have "sv_wp (execute_step fuel env (ex_dry_run (wf_execution dfn)) u)
        (\<lambda>r. sv_wp (finish_step env dfn (st_id u) r) (\<lambda>_ s2. sv_wp
        (if sr_status r = ST_Failed \<and> ex_fail_fast (wf_execution dfn) then sv_return ()
         else if sr_status r = ST_Failed \<and> \<not> ex_continue_on_error (wf_execution dfn) then sv_return ()
         else sequential_loop env dfn fuel us) ?Q ?E s2) ?E) ?E s"
      using wp_step [OF Cons.prems]
    proof (rule wp_mono, goal_cases)
      case (1 r s1)
      then show ?case using fin by blast
    next
      case (2 e s1)
      then show ?case using none by (simp add: runs_like_def ids_of_def log_of_def)
    qed
    with False show ?thesis by (simp add: wp_simps)
  qed
qed

section \<open>DAG mode\<close>

lemma wp_scheduled:
  assumes task: "\<And>x s. P s \<Longrightarrow> sv_wp (task x) (\<lambda>r s'. P s' \<and> Q x r) (\<lambda>_. P) s"
  shows "P s \<Longrightarrow> length acc = length xs \<Longrightarrow> (\<forall>i < length xs. \<forall>r. acc ! i = Inr r \<longrightarrow> Q (xs ! i) r) \<Longrightarrow>
    set is \<subseteq> {..<length xs} \<Longrightarrow>
    sv_wp (run_scheduled task xs is acc) (\<lambda>rs s'. P s' \<and> length rs = length xs \<and>
      (\<forall>i < length xs. \<forall>r. rs ! i = Inr r \<longrightarrow> Q (xs ! i) r)) (\<lambda>_. P) s"
proof (induction "is" arbitrary: s acc)
  case Nil
  then show ?case by (simp add: wp_simps)
next
  case (Cons i "is")
  let ?post = "\<lambda>rs s'. P s' \<and> length rs = length xs \<and> (\<forall>i < length xs. \<forall>r. rs ! i = Inr r \<longrightarrow> Q (xs ! i) r)"
  have rest: "sv_wp (run_scheduled task xs is (acc[i := res])) ?post (\<lambda>_. P) s'"
    if "P s'" "\<forall>r. res = Inr r \<longrightarrow> Q (xs ! i) r" for res s'
    using that Cons.prems by (intro Cons.IH) (auto simp: nth_list_update)
  show ?case
    using task [OF Cons.prems(1), of "xs ! i"]
    by (simp only: run_scheduled.simps wp_bind wp_try) (erule wp_mono, use rest in auto)
qed

lemma wp_gather:
  assumes task: "\<And>x s. P s \<Longrightarrow> sv_wp (task x) (\<lambda>r s'. P s' \<and> Q x r) (\<lambda>_. P) s"
    and "quiet P" and "P s"
  shows "sv_wp (gather env task xs) (\<lambda>rs s'. P s' \<and> length rs = length xs \<and>
      (\<forall>i < length xs. \<forall>r. rs ! i = Inr r \<longrightarrow> Q (xs ! i) r)) (\<lambda>_. P) s"
proof -
  have "P (s\<lparr>wr_world := w\<rparr>)" for w using assms(2,3) by (simp add: quiet_def)
  then show ?thesis
    unfolding gather_def wp_simps
    by (auto split: prod.split intro!: wp_scheduled [of P, OF task] simp: set_schedule)
qed

text \<open>A loop over ids that records one result per id.\<close>

lemma wp_for_each:
  assumes "\<And>x s. x \<in> set xs \<Longrightarrow> J s \<Longrightarrow> sv_wp (f x) (\<lambda>_ s'. J s' \<and> ids_of s' = ids_of s @ [g x])
      (\<lambda>_ s'. J s' \<and> ids_of s' = ids_of s @ [g x]) s"
  shows "J s \<Longrightarrow> sv_wp (for_each f xs) (\<lambda>_ s'. J s' \<and> ids_of s' = ids_of s @ List.map g xs)
      (\<lambda>_ s'. J s' \<and> (\<exists>n. ids_of s' = ids_of s @ List.map g (take n xs))) s"
  using assms
proof (induction xs arbitrary: s)
  case Nil
  then show ?case by (simp add: wp_simps)
next
  case (Cons x xs)
  let ?E = "\<lambda>_ s'. J s' \<and> (\<exists>n. ids_of s' = ids_of s @ List.map g (take n (x # xs)))"
  have "sv_wp (for_each f xs) (\<lambda>_ s'. J s' \<and> ids_of s' = ids_of s @ List.map g (x # xs)) ?E s1"
    if "J s1" "ids_of s1 = ids_of s @ [g x]" for s1
  proof -
    have "sv_wp (for_each f xs) (\<lambda>_ s'. J s' \<and> ids_of s' = ids_of s1 @ List.map g xs)
        (\<lambda>_ s'. J s' \<and> (\<exists>n. ids_of s' = ids_of s1 @ List.map g (take n xs))) s1"
      by (rule Cons.IH [OF that(1)], rule Cons.prems(2)) auto
    then show ?thesis
      by (rule wp_mono) (use that(2) in \<open>auto intro: exI [of _ "Suc n" for n]\<close>)
  qed
  note rest = this
  have one: "\<exists>n. ids_of s @ [g x] = ids_of s @ List.map g (take n (x # xs))"
    by (rule exI [of _ 1]) simp
  have "sv_wp (f x) (\<lambda>_ s'. J s' \<and> ids_of s' = ids_of s @ [g x]) (\<lambda>_ s'. J s' \<and> ids_of s' = ids_of s @ [g x]) s"
    using Cons.prems(1) by (intro Cons.prems(2)) auto
  then show ?case
    unfolding for_each.simps wp_bind
  proof (rule wp_mono, goal_cases)
    case (1 a s1)
    then show ?case using rest by blast
  next
    case (2 e s1)
    then show ?case using one by simp
  qed
qed

text \<open>What the results of one group add: a part of it when an exception ends the run, all of it otherwise.\<close>

lemma mset_take: "mset (take n xs) \<subseteq># mset xs"
  by (metis append_take_drop_id mset_append mset_subset_eq_add_left)

lemma mset_sub_distinct:
  assumes "mset xs \<subseteq># mset ys" and "distinct ys" shows "distinct xs"
proof -
  from assms(1) obtain M where "mset ys = mset xs + M" by (auto simp: mset_subset_eq_exists_conv)
  moreover obtain zs where "M = mset zs" using ex_mset by metis
  ultimately have "mset ys = mset (xs @ zs)" by simp
  with assms(2) have "distinct (xs @ zs)" by (metis mset_eq_imp_distinct_iff)
  then show ?thesis by simp
qed

lemma zip_ids: "length rs = length xs \<Longrightarrow> List.map fst (zip xs rs) = xs"
  by simp

lemma wp_collect:
  fixes env :: "'w wf_env" and s :: "'w wf_run"
  assumes "run_inv C s" and "set todo \<inter> C = {}" and "length rs = length todo"
    and "\<forall>i < length todo. \<forall>r. rs ! i = Inr r \<longrightarrow> sr_step_id r = todo ! i"
  shows "sv_wp (for_each (collect_result env dfn) (zip todo rs))
    (\<lambda>_ s'. run_inv C s' \<and> ids_of s' = ids_of s @ todo)
    (\<lambda>_ s'. run_inv C s' \<and> (\<exists>n. ids_of s' = ids_of s @ take n todo)) s"
proof -
  have "sv_wp (for_each (collect_result env dfn) (zip todo rs))
    (\<lambda>_ s'. run_inv C s' \<and> ids_of s' = ids_of s @ List.map fst (zip todo rs))
    (\<lambda>_ s'. run_inv C s' \<and> (\<exists>n. ids_of s' = ids_of s @ List.map fst (take n (zip todo rs)))) s"
  proof (rule wp_for_each [where J = "run_inv C"])
    fix x and s1 :: "'w wf_run"
    assume x: "x \<in> set (zip todo rs)" and s1: "run_inv C s1"
    then obtain i where i: "i < length todo" "x = (todo ! i, rs ! i)"
      using assms(3) by (auto simp: set_zip)
    with assms(2) have "fst x \<notin> C" by (auto dest: nth_mem)
    moreover have "sr_step_id (case snd x of Inl e \<Rightarrow> step_failed (fst x) (Some (exn_str e)) | Inr r \<Rightarrow> r) = fst x"
      using assms(4) i by (auto simp: step_failed_def split: sum.split)
    ultimately have "sv_wp (finish_step env dfn (fst x) (case snd x of Inl e \<Rightarrow> step_failed (fst x) (Some (exn_str e)) | Inr r \<Rightarrow> r))
      (\<lambda>_ s'. run_inv C s' \<and> ids_of s' = ids_of s1 @ [fst x])
      (\<lambda>_ s'. run_inv C s' \<and> ids_of s' = ids_of s1 @ [fst x]) s1"
      by (rule wp_mono [OF wp_finish [OF s1]]) auto
    then show "sv_wp (collect_result env dfn x)
      (\<lambda>_ s'. run_inv C s' \<and> ids_of s' = ids_of s1 @ [fst x])
      (\<lambda>_ s'. run_inv C s' \<and> ids_of s' = ids_of s1 @ [fst x]) s1"
      by (simp add: collect_result_def split: sum.splits)
  qed (rule assms(1))
  then show ?thesis by (rule wp_mono) (auto simp: zip_ids [OF assms(3)] take_map [symmetric])
qed

lemma wp_many:
  fixes env :: "'w wf_env" and s :: "'w wf_run"
  assumes inv: "run_inv C s"
    and restored: "restored = filter (\<lambda>sid. sid \<in> set (wr_completed s)) grp"
    and todo: "todo = filter (\<lambda>sid. sid \<notin> set (wr_completed s)) grp"
  shows "sv_wp (sv_bind (for_each (restore_step env) restored) (\<lambda>_.
       if todo = [] then sv_return False
       else sv_bind (gather env (run_by_id env dfn fuel) todo) (\<lambda>results.
         sv_bind (for_each (collect_result env dfn) (zip todo results)) (\<lambda>_. sv_return True))))
    (\<lambda>_ s'. run_inv C s' \<and> (\<exists>new. ids_of s' = ids_of s @ new \<and> mset new = mset grp))
    (\<lambda>_ s'. run_inv C s' \<and> (\<exists>new. ids_of s' = ids_of s @ new \<and> mset new \<subseteq># mset grp)) s"
    (is "sv_wp _ ?Q ?E s")
proof -
  have parts: "mset restored + mset todo = mset grp" by (simp add: restored todo)
  have disj: "set todo \<inter> C = {}" using inv by (auto simp: todo run_inv_def)
  have sub: "mset (take n restored) \<subseteq># mset grp" for n
    using mset_take [of n restored] parts by (metis mset_subset_eq_add_left subset_mset.order_trans)
  have sub2: "mset (restored @ take n todo) \<subseteq># mset grp" for n
    using mset_take [of n todo] parts by (metis mset_append subset_mset.add_left_mono)
  have collect: "sv_wp (for_each (collect_result env dfn) (zip todo rs)) (\<lambda>_. sv_wp (sv_return True) ?Q ?E) ?E s2"
    if "run_inv C s2" "ids_of s2 = ids_of s @ restored" "length rs = length todo"
      "\<forall>i < length todo. \<forall>r. rs ! i = Inr r \<longrightarrow> sr_step_id r = todo ! i" for rs s2
    using wp_collect [OF that(1) disj that(3,4), of env dfn]
  proof (rule wp_mono, goal_cases)
    case (1 a s3)
    then show ?case using that(2) parts by (auto simp: wp_simps)
  next
    case (2 e s3)
    then show ?case using that(2) sub2 by auto
  qed
  have run: "sv_wp (gather env (run_by_id env dfn fuel) todo)
      (\<lambda>rs. sv_wp (for_each (collect_result env dfn) (zip todo rs)) (\<lambda>_. sv_wp (sv_return True) ?Q ?E) ?E) ?E s1"
    if s1: "run_inv C s1" "ids_of s1 = ids_of s @ restored" for s1
  proof -
    have task: "sv_wp (run_by_id env dfn fuel x) (\<lambda>r s'. runs_like C s1 s' \<and> sr_step_id r = x) (\<lambda>_. runs_like C s1) s2"
      if "runs_like C s1 s2" for x s2
    proof -
      from that have "run_inv C s2" by (simp add: runs_like_def)
      from wp_run_by_id [OF this, of env dfn fuel x] show ?thesis
        by (rule wp_mono) (use that in \<open>auto simp: runs_like_def\<close>)
    qed
    have "runs_like C s1 s1" using s1 by (simp add: runs_like_def)
    then have "sv_wp (gather env (run_by_id env dfn fuel) todo)
        (\<lambda>rs s'. runs_like C s1 s' \<and> length rs = length todo \<and>
          (\<forall>i < length todo. \<forall>r. rs ! i = Inr r \<longrightarrow> sr_step_id r = todo ! i)) (\<lambda>_. runs_like C s1) s1"
      by (intro wp_gather task quiet_runs_like)
    then show ?thesis
    proof (rule wp_mono, goal_cases)
      case (1 rs s2)
      then have "run_inv C s2" "ids_of s2 = ids_of s @ restored" using runs_likeD s1(2) by fastforce+
      with 1 show ?case by (intro collect) auto
    next
      case (2 e s2)
      then have "run_inv C s2" "ids_of s2 = ids_of s @ restored" using runs_likeD s1(2) by fastforce+
      then show ?case using sub2 [of 0] by auto
    qed
  qed
  have "sv_wp (for_each (restore_step env) restored)
      (\<lambda>_ s'. run_inv C s' \<and> ids_of s' = ids_of s @ List.map id restored)
      (\<lambda>_ s'. run_inv C s' \<and> (\<exists>n. ids_of s' = ids_of s @ List.map id (take n restored))) s"
    using inv by (intro wp_for_each) (auto elim!: wp_mono [OF wp_restore])
  then show ?thesis
    unfolding wp_bind
  proof (rule wp_mono, goal_cases)
    case (1 a s1)
    then show ?case using run parts by (auto simp: wp_simps)
  next
    case (2 e s1)
    then show ?case using sub by auto
  qed
qed

lemma wp_one:
  assumes inv: "run_inv C s"
  shows "sv_wp (sv_bind (if sid \<in> set (wr_completed s) then restore_step env sid
      else sv_bind (run_by_id env dfn fuel sid) (finish_step env dfn sid)) (\<lambda>_. sv_return True))
    (\<lambda>_ s'. run_inv C s' \<and> ids_of s' = ids_of s @ [sid])
    (\<lambda>_ s'. run_inv C s' \<and> (ids_of s' = ids_of s \<or> ids_of s' = ids_of s @ [sid])) s"
    (is "sv_wp _ ?Q ?E s")
proof (cases "sid \<in> set (wr_completed s)")
  case True
  with wp_restore [OF inv, of env sid] show ?thesis by (auto simp: wp_bind wp_return elim!: wp_mono)
next
  case False
  with inv have new: "sid \<notin> C" by (auto simp: run_inv_def)
  have fin: "sv_wp (finish_step env dfn sid r) (\<lambda>_. ?Q True) ?E s1" if "runs_like C s s1" "sr_step_id r = sid" for r s1
  proof -
    from that(1) have s1: "run_inv C s1" "ids_of s1 = ids_of s" by (auto simp: runs_like_def ids_of_def log_of_def)
    from wp_finish [OF s1(1) new that(2), of env dfn] show ?thesis
      by (rule wp_mono) (use s1(2) in auto)
  qed
  have "sv_wp (run_by_id env dfn fuel sid) (\<lambda>r. sv_wp (finish_step env dfn sid r) (\<lambda>_. ?Q True) ?E) ?E s"
    using wp_run_by_id [OF inv]
  proof (rule wp_mono, goal_cases)
    case (1 r s1)
    then show ?case using fin by blast
  next
    case (2 e s1)
    then show ?case by (auto simp: runs_like_def ids_of_def log_of_def)
  qed
  with False show ?thesis by (simp add: wp_bind wp_return)
qed

lemma wp_group:
  assumes "run_inv C s"
  shows "sv_wp (run_group env dfn fuel grp)
    (\<lambda>_ s'. run_inv C s' \<and> (\<exists>new. ids_of s' = ids_of s @ new \<and> mset new = mset grp))
    (\<lambda>_ s'. run_inv C s' \<and> (\<exists>new. ids_of s' = ids_of s @ new \<and> mset new \<subseteq># mset grp)) s"
proof -
  consider "grp = []" | sid where "grp = [sid]" | x y zs where "grp = x # y # zs"
    by (cases grp rule: remdups_adj.cases) auto
  then show ?thesis
  proof cases
    case 1
    then show ?thesis
      unfolding run_group_def using wp_many [OF assms refl refl, where grp = "[]"] by (simp add: wp_get wp_bind)
  next
    case 2
    show ?thesis
      unfolding run_group_def 2 list.case wp_bind [of sv_get] wp_get
      by (rule wp_mono [OF wp_one [OF assms]]) (auto intro: exI [of _ "[]"])
  next
    case 3
    show ?thesis
      unfolding run_group_def 3 list.case wp_bind [of sv_get] wp_get Let_def
      by (rule wp_many [OF assms refl refl])
  qed
qed

text \<open>The ids a run over groups records: whole groups in order, the last one possibly in part.\<close>

fun grouped :: "string list list \<Rightarrow> string list \<Rightarrow> bool" where
  "grouped [] new = (new = [])"
| "grouped (g # gs) new \<longleftrightarrow> mset new \<subseteq># mset g \<or> (\<exists>a b. new = a @ b \<and> mset a = mset g \<and> grouped gs b)"

lemma wp_dag_loop:
  "run_inv C s \<Longrightarrow> sv_wp (dag_loop env dfn fuel gs)
     (\<lambda>_ s'. run_inv C s' \<and> (\<exists>new. ids_of s' = ids_of s @ new \<and> grouped gs new \<and>
        (\<not> wr_failed s' \<longrightarrow> mset new = mset (concat gs))))
     (\<lambda>_ s'. run_inv C s' \<and> (\<exists>new. ids_of s' = ids_of s @ new \<and> grouped gs new)) s"
proof (induction gs arbitrary: s)
  case Nil
  then show ?case by (simp add: wp_simps)
next
  case (Cons g gs)
  let ?Q = "\<lambda>_ s'. run_inv C s' \<and> (\<exists>new. ids_of s' = ids_of s @ new \<and> grouped (g # gs) new \<and>
        (\<not> wr_failed s' \<longrightarrow> mset new = mset (concat (g # gs))))"
  let ?E = "\<lambda>_ s'. run_inv C s' \<and> (\<exists>new. ids_of s' = ids_of s @ new \<and> grouped (g # gs) new)"
  have rest: "sv_wp (dag_loop env dfn fuel gs) ?Q ?E s1"
    if s1: "run_inv C s1" "ids_of s1 = ids_of s @ a" "mset a = mset g" for s1 a
    using Cons.IH [OF s1(1)]
  proof (rule wp_mono, goal_cases)
    case (1 u s2)
    then obtain b where "ids_of s2 = ids_of s1 @ b" "grouped gs b" "\<not> wr_failed s2 \<longrightarrow> mset b = mset (concat gs)"
      "run_inv C s2" by blast
    with s1 show ?case by (intro conjI exI [of _ "a @ b"]) auto
  next
    case (2 e s2)
    then obtain b where "ids_of s2 = ids_of s1 @ b" "grouped gs b" "run_inv C s2" by blast
    with s1 show ?case by (intro conjI exI [of _ "a @ b"]) auto
  qed
  show ?case
    unfolding dag_loop.simps wp_bind [of "run_group env dfn fuel g"]
    using wp_group [OF Cons.prems]
  proof (rule wp_mono, goal_cases)
    case (1 checked s1)
    then obtain a where s1: "run_inv C s1" "ids_of s1 = ids_of s @ a" "mset a = mset g" by blast
    have "?Q () s1" if "wr_failed s1"
      using s1 that by (intro conjI exI [of _ a]) auto
    with rest [OF s1] show ?case by (auto simp: wp_bind wp_get wp_return)
  next
    case (2 e s1)
    then show ?case by auto
  qed
qed

lemma grouped_order:
  "grouped gs new \<Longrightarrow> layers ids deps seen gs \<Longrightarrow>
     distinct new \<and> set new \<inter> seen = {} \<and> (\<forall>i < length new. set (deps (new ! i)) \<subseteq> seen \<union> set (take i new))"
proof (induction gs arbitrary: new seen)
  case (Cons g gs)
  have g: "set g = ready ids deps seen" "distinct g" "layers ids deps (seen \<union> set g) gs"
    using Cons.prems(2) by auto
  have ready: "n \<in> set g \<Longrightarrow> n \<notin> seen \<and> set (deps n) \<subseteq> seen" for n
    unfolding g(1) by (simp add: ready_def)
  show ?case
  proof (cases "mset new \<subseteq># mset g")
    case True
    then have sub: "set new \<subseteq> set g" by (metis set_mset_mono set_mset_mset)
    have "distinct new" using True g(2) by (rule mset_sub_distinct)
    moreover have "set (deps (new ! i)) \<subseteq> seen" if "i < length new" for i
      using ready that sub nth_mem by blast
    moreover have "set new \<inter> seen = {}" using sub ready by blast
    ultimately show ?thesis by (intro conjI allI impI le_supI1) assumption+
  next
    case False
    with Cons.prems(1) obtain a b where ab: "new = a @ b" "mset a = mset g" "grouped gs b" by auto
    have a: "set a = set g" "distinct a" using ab(2) g(2) by (metis set_mset_mset, metis mset_eq_imp_distinct_iff)
    have b: "distinct b" "set b \<inter> (seen \<union> set g) = {}"
      "\<And>i. i < length b \<Longrightarrow> set (deps (b ! i)) \<subseteq> seen \<union> set g \<union> set (take i b)"
      using Cons.IH [OF ab(3) g(3)] by blast+
    have "set (deps (new ! i)) \<subseteq> seen \<union> set (take i new)" if "i < length new" for i
    proof (cases "i < length a")
      case True
      then have "new ! i \<in> set a" unfolding ab(1) by (simp add: nth_append)
      then have "new ! i \<in> set g" by (simp add: a(1))
      with ready show ?thesis by blast
    next
      case False
      with that ab(1) have "set (deps (b ! (i - length a))) \<subseteq> seen \<union> set g \<union> set (take (i - length a) b)"
        by (intro b(3)) simp
      with False ab(1) a(1) show ?thesis by (simp add: nth_append Un_assoc)
    qed
    moreover have "set new \<inter> seen = {}" using ready a(1) b(2) unfolding ab(1) set_append by blast
    moreover have "distinct new" using a b unfolding ab(1) distinct_append by blast
    ultimately show ?thesis by blast
  qed
qed simp

section \<open>Whole runs\<close>

lemma keyed_start: "keyed (wf_start dfn w)"
proof -
  have "keyed ((wf_start dfn w)\<lparr>wr_steps := []\<rparr>)" by (simp add: keyed_def)
  from keyed_register [OF this, of "wf_steps dfn"] show ?thesis by (simp add: wf_start_def)
qed

text \<open>The state after loading the checkpoint: a fresh run.\<close>

definition fresh_run :: "'w wf_run \<Rightarrow> bool" where
  "fresh_run s \<longleftrightarrow> keyed s \<and> wr_results s = [] \<and> wr_executed s = [] \<and> \<not> wr_failed s"

lemma wp_load_fresh: "fresh_run s \<Longrightarrow> sv_wp (load_checkpoint_state env inputs) (\<lambda>_. fresh_run) (\<lambda>_ _. True) s"
  by (auto simp: load_checkpoint_state_def wp_simps fresh_run_def keyed_def split: prod.split sum.split option.split)

lemma fresh_start: "fresh_run (wf_start dfn w)"
  using keyed_start [of dfn w] by (simp add: fresh_run_def wf_start_def)

text \<open>What the main part of a run ends with, in either mode.\<close>

definition mode_ids :: "wf_definition \<Rightarrow> string list \<Rightarrow> bool" where
  "mode_ids dfn ids \<longleftrightarrow>
     (if ex_mode (wf_execution dfn) = EM_Sequential
      then \<exists>n. ids = List.map st_id (take n (wf_steps dfn))
      else ids = [] \<or> (\<exists>gs. build_groups dfn = Inr gs \<and> grouped gs ids))"

definition complete_ids :: "wf_definition \<Rightarrow> string list \<Rightarrow> bool" where
  "complete_ids dfn ids \<longleftrightarrow>
     (if ex_mode (wf_execution dfn) = EM_Sequential then ids = List.map st_id (wf_steps dfn)
      else \<exists>gs. build_groups dfn = Inr gs \<and> mset ids = mset (concat gs))"

lemma wp_run_steps:
  assumes "fresh_run s"
  defines "C \<equiv> set (wr_completed s)"
  shows "sv_wp (run_steps env dfn fuel)
    (\<lambda>_ s'. run_inv C s' \<and> mode_ids dfn (ids_of s') \<and> (\<not> wr_failed s' \<longrightarrow> complete_ids dfn (ids_of s')))
    (\<lambda>_ s'. run_inv C s' \<and> mode_ids dfn (ids_of s')) s"
proof -
  have inv: "run_inv C s" and ids: "ids_of s = []"
    using assms by (auto simp: run_inv_def fresh_run_def ids_of_def)
  show ?thesis
  proof (cases "ex_mode (wf_execution dfn) = EM_Sequential")
    case True
    then show ?thesis
      unfolding run_steps_def
      by (simp, intro wp_mono [OF wp_sequential [OF inv]]) (auto simp: mode_ids_def complete_ids_def ids)
  next
    case False
    show ?thesis
    proof (cases "build_groups dfn")
      case (Inl e)
      with False inv ids show ?thesis by (simp add: run_steps_def wp_simps mode_ids_def)
    next
      case (Inr gs)
      with False show ?thesis
        unfolding run_steps_def
        by (simp add: wp_bind wp_lift, intro wp_mono [OF wp_dag_loop [OF inv]])
          (auto simp: mode_ids_def complete_ids_def ids)
    qed
  qed
qed

lemma run_inv_world [simp]: "run_inv C (s\<lparr>wr_world := w\<rparr>) = run_inv C s" "ids_of (s\<lparr>wr_world := w\<rparr>) = ids_of s"
  by (simp_all add: run_inv_def keyed_def ids_of_def)

lemma run_inv_failed: "run_inv C s \<Longrightarrow> run_inv C (s\<lparr>wr_failed := True, wr_error := e\<rparr>)"
  by (simp add: run_inv_def keyed_def)

lemma emit_ok: "emit env ev s = (Inr (), s') \<Longrightarrow> \<exists>v. s' = s\<lparr>wr_world := v\<rparr>"
  by (auto simp: emit_def ex_world_def split: prod.splits sum.splits)

text \<open>A run that returns, from the state in which the main part left it.\<close>

lemma execute_result:
  fixes env :: "'w wf_env"
  assumes "execute env dfn inputs (wf_start dfn w) = (Inr res, s')"
  obtains s0 s1 :: "'w wf_run" where
    "load_checkpoint_state env inputs (wf_start dfn w) = (Inr (), s0)"
    "run_inv (set (wr_completed s0)) s1" "mode_ids dfn (ids_of s1)"
    "wr_failed s1 \<or> complete_ids dfn (ids_of s1)"
    "wres_step_results res = wr_results s1" "wres_steps_executed res = wr_executed s1"
    "wres_status res = final_status s1"
proof -
  from assms obtain s0 sa s1 where load: "load_checkpoint_state env inputs (wf_start dfn w) = (Inr (), s0)"
    and start: "emit env (EvWorkflowStarted (length (wf_steps dfn)) (card (set (wr_completed s0)))) s0 = (Inr (), sa)"
    and main: "ex_catch (run_steps env dfn (wf_fuel dfn))
      (\<lambda>e. sv_modify (\<lambda>s. s\<lparr>wr_failed := True, wr_error := Some (exn_str e)\<rparr>)) sa = (Inr (), s1)"
    and res: "res = \<lparr>wres_outputs = final_outputs (wr_results s1), wres_steps_executed = wr_executed s1,
         wres_step_results = wr_results s1, wres_status = final_status s1\<rparr>"
    unfolding execute_def by (auto simp: sv_bind_ok_iff sv_get_def sv_return_def)
  have "fresh_run s0" using wp_ok [OF wp_load_fresh [OF fresh_start] load] .
  with emit_ok [OF start] have fresh: "fresh_run sa" and same: "wr_completed sa = wr_completed s0"
    by (auto simp: fresh_run_def keyed_def)
  have "sv_wp (ex_catch (run_steps env dfn (wf_fuel dfn))
      (\<lambda>e. sv_modify (\<lambda>s. s\<lparr>wr_failed := True, wr_error := Some (exn_str e)\<rparr>)))
      (\<lambda>_ s. run_inv (set (wr_completed sa)) s \<and> mode_ids dfn (ids_of s) \<and> (wr_failed s \<or> complete_ids dfn (ids_of s)))
      (\<lambda>_ _. True) sa"
    unfolding wp_catch using wp_run_steps [OF fresh, of env dfn "wf_fuel dfn"]
    by (rule wp_mono) (auto simp: wp_simps run_inv_failed ids_of_def)
  from wp_ok [OF this main] have "run_inv (set (wr_completed s0)) s1" "mode_ids dfn (ids_of s1)"
    "wr_failed s1 \<or> complete_ids dfn (ids_of s1)" by (simp_all add: same)
  then show thesis by (rule that [OF load]) (simp_all add: res)
qed

text \<open>
  C7. In the DAG modes a step gets a result only after all of its dependencies have one, at most once,
  whatever the steps and the environment do; in sequential mode the results are those of a prefix of the steps.
\<close>
theorem results_in_dependency_order:
  assumes "steps_ok (wf_steps dfn)" and "execute env dfn inputs (wf_start dfn w) = (Inr res, s')"
  defines "ids \<equiv> List.map sr_step_id (wres_step_results res)"
  shows "if ex_mode (wf_execution dfn) = EM_Sequential
    then \<exists>n. ids = List.map st_id (take n (wf_steps dfn))
    else distinct ids \<and> (\<forall>i < length ids. \<forall>t \<in> set (wf_steps dfn). st_id t = ids ! i \<longrightarrow>
      set (st_depends_on t) \<subseteq> set (take i ids))"
proof -
  obtain s1 :: "'a wf_run" where m: "mode_ids dfn (ids_of s1)" and r: "wres_step_results res = wr_results s1"
    by (rule execute_result [OF assms(2)]) blast
  have ids: "ids = ids_of s1" using r by (simp add: ids_def ids_of_def)
  show ?thesis
  proof (cases "ex_mode (wf_execution dfn) = EM_Sequential \<or> ids = []")
    case True
    with m show ?thesis by (auto simp: mode_ids_def ids)
  next
    case False
    with m obtain gs where gs: "build_groups dfn = Inr gs" "grouped gs ids" by (auto simp: mode_ids_def ids)
    have l: "layers (List.map st_id (wf_steps dfn)) (step_deps (wf_steps dfn)) {} gs"
      by (rule dag_build_cases [OF assms(1)])
        (use gs(1) in \<open>simp_all add: build_groups_def parallel_groups_def\<close>)
    have order: "distinct ids" "\<And>i. i < length ids \<Longrightarrow> set (step_deps (wf_steps dfn) (ids ! i)) \<subseteq> set (take i ids)"
      using grouped_order [OF gs(2) l] by simp_all
    have "set (st_depends_on t) \<subseteq> set (take i ids)"
      if "i < length ids" "t \<in> set (wf_steps dfn)" "st_id t = ids ! i" for i t
    proof -
      have "distinct (List.map st_id (wf_steps dfn))" using assms(1) by (simp add: steps_ok_def)
      from step_deps_step [OF this that(2)] order(2) [OF that(1)] that(3) show ?thesis by simp
    qed
    with order(1) False show ?thesis by simp
  qed
qed

text \<open>
  C8. A run reported as a success left nothing out and hid no failure: every step of the definition has
  exactly one result, and none of the results is a failure.
\<close>
theorem success_means_every_step_succeeded:
  assumes "steps_ok (wf_steps dfn)" and "execute env dfn inputs (wf_start dfn w) = (Inr res, s')"
    and "wres_status res = WS_Success"
  shows "mset (List.map sr_step_id (wres_step_results res)) = mset (List.map st_id (wf_steps dfn)) \<and>
    (\<forall>r \<in> set (wres_step_results res). sr_status r \<noteq> ST_Failed)"
proof -
  obtain s0 s1 :: "'a wf_run" where s1: "run_inv (set (wr_completed s0)) s1" "wr_failed s1 \<or> complete_ids dfn (ids_of s1)"
    "wres_step_results res = wr_results s1" "wres_status res = final_status s1"
    by (rule execute_result [OF assms(2)]) blast
  then have ok: "\<not> wr_failed s1" using assms(3) by (auto simp: final_status_def split: if_splits)
  have ids: "List.map sr_step_id (wres_step_results res) = ids_of s1" using s1(3) by (simp add: ids_of_def)
  have "mset (ids_of s1) = mset (List.map st_id (wf_steps dfn))"
  proof (cases "ex_mode (wf_execution dfn) = EM_Sequential")
    case True
    with s1(2) ok show ?thesis by (simp add: complete_ids_def)
  next
    case False
    with s1(2) ok obtain gs where gs: "build_groups dfn = Inr gs" "mset (ids_of s1) = mset (concat gs)"
      by (auto simp: complete_ids_def)
    have "mset (concat gs) = mset (List.map st_id (wf_steps dfn))"
      by (rule dag_build_cases [OF assms(1)])
        (use gs(1) assms(1) in \<open>auto simp: build_groups_def parallel_groups_def steps_ok_def
           set_eq_iff_mset_eq_distinct [symmetric] simp del: mset_map\<close>)
    with gs(2) show ?thesis by simp
  qed
  with ids s1(1,3) ok show ?thesis by (simp add: run_inv_def)
qed


section \<open>Checkpoints\<close>

lemma od_get_fold_put:
  "od_wf b \<Longrightarrow> od_get (fold (\<lambda>(k, v). od_put k v) b a) j = (case od_get b j of Some v \<Rightarrow> Some v | None \<Rightarrow> od_get a j)"
proof (induction b arbitrary: a)
  case (Cons kv b)
  then show ?case
    by (cases kv) (auto simp: od_wf_def od_keys_def update_conv' map_of_eq_None_iff [symmetric] split: option.split)
qed simp

lemma od_get_merge:
  "od_wf b \<Longrightarrow> od_get (dict_merge a b) j = (case od_get b j of Some v \<Rightarrow> Some v | None \<Rightarrow> od_get a j)"
  unfolding dict_merge_def by (rule od_get_fold_put)

lemma start_keys: "set (od_keys (wr_steps (wf_start dfn w))) = set (List.map st_id (wf_steps dfn))"
proof -
  have "set (od_keys (fold (\<lambda>s. od_put (st_id s) s) us d)) = set (od_keys d) \<union> st_id ` set us" for us d
    by (induction us arbitrary: d) (auto simp: od.keys_put)
  then show ?thesis by (simp add: wf_start_def od_keys_def)
qed

lemma raw_ids_map: "raw_ids (List.map PStr xs) = xs"
  by (induction xs) (auto simp: raw_ids_def)

text \<open>
  Loading a checkpoint gives back what saving it stored: exactly the completed steps that the
  definition has, and every variable, over the inputs of the resumed run.
\<close>
theorem checkpoint_roundtrip:
  assumes "en_checkpoints env" and "en_resume env"
    and "en_load env w = (Inr (Some (checkpoint_payload dfn sid vars completed)), w')"
    and "od_wf vars" and "od_get vars checkpoint_meta_key = None"
  shows "\<exists>s0. load_checkpoint_state env inputs (wf_start dfn w) = (Inr (), s0) \<and>
    set (wr_completed s0) = set completed \<inter> set (List.map st_id (wf_steps dfn)) \<and>
    (\<forall>k. od_get (wr_vars s0) k = (case od_get vars k of Some v \<Rightarrow> Some v | None \<Rightarrow> od_get inputs k))"
proof -
  let ?c = "checkpoint_payload dfn sid vars completed"
  let ?raw = "filter (\<lambda>i. i \<in> set completed) (List.map st_id (wf_steps dfn))"
  let ?s1 = "(wf_start dfn w)\<lparr>wr_vars := inputs, wr_completed := [], wr_world := w'\<rparr>"
  let ?s0 = "?s1\<lparr>wr_completed := filter (\<lambda>i. i \<in> set (od_keys (wr_steps (wf_start dfn w)))) ?raw,
      wr_vars := dict_merge inputs (od_del checkpoint_meta_key ?c)\<rparr>"
  have meta: "completed_raw (od_get ?c checkpoint_meta_key) = Inr ?raw"
    by (simp add: checkpoint_payload_def completed_raw_def raw_ids_map)
  have get: "od_get (od_del checkpoint_meta_key ?c) k = od_get vars k" for k
    using assms(5) by (simp add: checkpoint_payload_def od.get_del od.get_put)
  have wf: "od_wf (od_del checkpoint_meta_key ?c)"
    using assms(4) by (simp add: checkpoint_payload_def od.wf_del od.wf_put)
  have load: "load_checkpoint_state env inputs (wf_start dfn w) = (Inr (), ?s0)"
    using assms(1-3) by (simp add: load_checkpoint_state_def svc_simps ex_world_def ex_pure_def meta wf_start_def)
  show ?thesis
  proof (intro exI conjI allI)
    show "load_checkpoint_state env inputs (wf_start dfn w) = (Inr (), ?s0)" by (rule load)
    show "set (wr_completed ?s0) = set completed \<inter> set (List.map st_id (wf_steps dfn))"
      unfolding start_keys by auto
    show "od_get (wr_vars ?s0) k = (case od_get vars k of Some v \<Rightarrow> Some v | None \<Rightarrow> od_get inputs k)" for k
      by (simp add: od_get_merge [OF wf] get)
  qed
qed

section \<open>Retries\<close>

definition leaf_action :: "wf_step \<Rightarrow> bool" where
  "leaf_action t \<longleftrightarrow> st_action t \<noteq> SA_Conditional \<and> st_action t \<noteq> SA_ParallelGroup"

text \<open>\<open>c\<close> counts the calls of action handlers.\<close>

definition counts_actions :: "'w wf_env \<Rightarrow> ('w \<Rightarrow> nat) \<Rightarrow> bool" where
  "counts_actions env c \<longleftrightarrow> (\<forall>ev w. c (snd (en_emit env ev w)) = c w) \<and>
     (\<forall>i a inp v w. c (snd (en_pre env i a inp v w)) = c w) \<and>
     (\<forall>i a inp v r w. c (snd (en_post env i a inp v r w)) = c w) \<and>
     (\<forall>t inp v d w. c (snd (en_action env t inp v d w)) = Suc (c w))"

lemma counts_emit: "counts_actions env c \<Longrightarrow> en_emit env ev w = (r, w') \<Longrightarrow> c w' = c w"
  unfolding counts_actions_def by (metis snd_conv)

lemma counts_attempt:
  assumes c: "counts_actions env c" and leaf: "leaf_action t"
  shows "sv_wp (attempt_once env t inputs (dispatch_action env dry run t inputs))
    (\<lambda>r s'. c (wr_world s') = Suc (c (wr_world s))) (\<lambda>_ s'. c (wr_world s') = Suc (c (wr_world s))) s"
proof -
  have act: "en_action env t inp v d w = (r, w') \<Longrightarrow> c w' = Suc (c w)" for inp v d w r w'
    using c unfolding counts_actions_def by (metis snd_conv)
  have post: "en_post env i a inp v q w = (r, w') \<Longrightarrow> c w' = c w" for i a inp v q w r w'
    using c unfolding counts_actions_def by (metis snd_conv)
  show ?thesis
    using leaf by (auto simp: attempt_once_def dispatch_action_def leaf_action_def wp_simps Let_def emit_def
        split: prod.split sum.split dest!: act post counts_emit [OF c])
qed

lemma counts_attempts:
  assumes c: "counts_actions env c"
    and once: "\<And>s. sv_wp once (\<lambda>r s'. c (wr_world s') = Suc (c (wr_world s)))
      (\<lambda>_ s'. c (wr_world s') = Suc (c (wr_world s))) s"
  shows "sv_wp (run_attempts env t once left att maxa err)
    (\<lambda>r s'. c (wr_world s') \<le> c (wr_world s) + left \<and> (sr_status r = ST_Success \<longrightarrow> c (wr_world s) < c (wr_world s')))
    (\<lambda>_ s'. c (wr_world s') \<le> c (wr_world s) + left) s"
proof (induction left arbitrary: s att err)
  case 0
  show ?case
    by (auto simp: wp_simps emit_def step_failed_def split: prod.split sum.split dest!: counts_emit [OF c])
next
  case (Suc left)
  let ?Q = "\<lambda>r s'. c (wr_world s') \<le> c (wr_world s) + Suc left \<and>
    (sr_status r = ST_Success \<longrightarrow> c (wr_world s) < c (wr_world s'))"
  let ?E = "\<lambda>_ s'. c (wr_world s') \<le> c (wr_world s) + Suc left"
  have retry: "sv_wp (run_attempts env t once left att' maxa err') ?Q ?E s2"
    if "c (wr_world s2) = Suc (c (wr_world s))" for s2 att' err'
    using Suc.IH by (rule wp_mono) (use that in auto)
  have next_try: "sv_wp (if att < maxa then emit env ev else sv_return ())
      (\<lambda>_. sv_wp (run_attempts env t once left att' maxa err') ?Q ?E) ?E s1"
    if "c (wr_world s1) = Suc (c (wr_world s))" for s1 ev att' err'
  proof (cases "att < maxa")
    case True
    have "sv_wp (emit env ev) (\<lambda>_ s2. c (wr_world s2) = Suc (c (wr_world s)))
        (\<lambda>_ s2. c (wr_world s2) = Suc (c (wr_world s))) s1"
      using that by (auto simp: wp_simps emit_def split: prod.split sum.split dest!: counts_emit [OF c])
    then have "sv_wp (emit env ev) (\<lambda>_. sv_wp (run_attempts env t once left att' maxa err') ?Q ?E) ?E s1"
      by (rule wp_mono) (use retry in auto)
    with True show ?thesis by simp
  next
    case False
    then show ?thesis using retry [OF that] by (simp add: wp_return)
  qed
  show ?case
    unfolding run_attempts.simps wp_bind wp_try
    using once [of s]
  proof (rule wp_mono, goal_cases)
    case (1 r s1)
    then show ?case by (simp add: wp_simps)
  next
    case (2 e s1)
    then show ?case using next_try by (simp add: wp_bind Let_def)
  qed
qed

text \<open>
  A step with a leaf action calls its handler at most \<open>max_attempts\<close> times, whatever fails, and
  at least once if it reports a success.
\<close>
theorem attempts_bounded:
  assumes "counts_actions env c" and "leaf_action t"
    and "execute_step (Suc fuel) env dry t s = (res, s')"
  shows "c (wr_world s') \<le> c (wr_world s) + rt_max_attempts (st_retry t) \<and>
    (\<forall>r. res = Inr r \<and> sr_status r = ST_Success \<longrightarrow> c (wr_world s) < c (wr_world s'))"
proof -
  let ?n = "rt_max_attempts (st_retry t)" and ?dispatch = "dispatch_action env dry (execute_step fuel env dry)"
  let ?Q = "\<lambda>r s'. c (wr_world s') \<le> c (wr_world s) + ?n \<and> (sr_status r = ST_Success \<longrightarrow> c (wr_world s) < c (wr_world s'))"
  let ?E = "\<lambda>_ s'. c (wr_world s') \<le> c (wr_world s) + ?n"
  have loop: "sv_wp (run_attempts env t (attempt_once env t inputs (?dispatch t inputs)) ?n 1 ?n None) ?Q ?E s1"
    if "c (wr_world s1) = c (wr_world s)" for inputs s1
    by (rule wp_mono [OF counts_attempts [OF assms(1) counts_attempt [OF assms(1,2)]]]) (use that in auto)
  have pre: "en_pre env i a inp v w = (r, w') \<Longrightarrow> c w' = c w" for i a inp v w r w'
    using assms(1) unfolding counts_actions_def by (metis snd_conv)
  have start: "sv_wp (emit env ev)
      (\<lambda>_. sv_wp (run_attempts env t (attempt_once env t inputs (?dispatch t inputs)) ?n 1 ?n None) ?Q ?E) ?E s1"
    if "c (wr_world s1) = c (wr_world s)" for inputs s1 ev
  proof -
    have "sv_wp (emit env ev) (\<lambda>_ s2. c (wr_world s2) = c (wr_world s)) (\<lambda>_ s2. c (wr_world s2) = c (wr_world s)) s1"
      using that by (auto simp: wp_simps emit_def split: prod.split sum.split dest!: counts_emit [OF assms(1)])
    then show ?thesis by (rule wp_mono) (use loop in auto)
  qed
  have body: "sv_wp (case ended of Some r \<Rightarrow> sv_return r
      | None \<Rightarrow> sv_bind sv_get (\<lambda>s.
        sv_bind (ex_pure (resolve_step_inputs env t (wr_vars s))) (\<lambda>resolved.
        sv_bind (ex_world (en_pre env (st_id t) (st_action t) resolved (wr_vars s))) (\<lambda>(abort, inputs). case abort of
            Some reason \<Rightarrow> sv_return (step_failed (st_id t) (Some (''Hook aborted: '' @ reason)))
          | None \<Rightarrow> let max_attempts = rt_max_attempts (st_retry t) in
              sv_bind (emit env (EvStepStarted (st_id t) max_attempts)) (\<lambda>_.
                run_attempts env t (attempt_once env t inputs (?dispatch t inputs)) max_attempts 1 max_attempts None))))) ?Q ?E s1"
    if "c (wr_world s1) = c (wr_world s)" "\<forall>r. ended = Some r \<longrightarrow> sr_status r \<noteq> ST_Success" for ended s1
  proof (cases ended)
    case (Some r)
    with that show ?thesis by (simp add: wp_return)
  next
    case None
    show ?thesis
      unfolding None option.case wp_bind wp_get wp_pure wp_world Let_def
      using that(1) start
      by (auto simp: wp_return wp_bind step_failed_def split: sum.split prod.split option.split dest!: pre)
  qed
  have "sv_wp (check_condition env t) (\<lambda>ended s1. c (wr_world s1) = c (wr_world s) \<and>
      (\<forall>r. ended = Some r \<longrightarrow> sr_status r \<noteq> ST_Success)) (\<lambda>_ s1. c (wr_world s1) = c (wr_world s)) s"
    by (auto simp: check_condition_def wp_simps emit_def Let_def step_failed_def step_skipped_def
        split: option.split prod.split sum.split dest!: counts_emit [OF assms(1)])
  then have "sv_wp (execute_step (Suc fuel) env dry t) ?Q ?E s"
    unfolding execute_step.simps step_body_def wp_bind [of "check_condition env t"]
    by (rule wp_mono) (use body in auto)
  then show ?thesis using assms(3) by (cases res) (auto simp: sv_wp_def)
qed

section \<open>Conditional steps\<close>

text \<open>The step with other \<open>else\<close> sub-steps.\<close>

fun with_else :: "wf_step \<Rightarrow> wf_step list \<Rightarrow> wf_step" where
  "with_else (WfStep sid act inp cond deps retry tmo sub th el params) es =
     WfStep sid act inp cond deps retry tmo sub th es params"

lemma with_else_simps [simp]:
  "st_id (with_else t es) = st_id t" "st_action (with_else t es) = st_action t"
  "st_inputs (with_else t es) = st_inputs t" "st_condition (with_else t es) = st_condition t"
  "st_retry (with_else t es) = st_retry t" "st_timeout (with_else t es) = st_timeout t"
  "st_then (with_else t es) = st_then t"
  by (cases t; simp)+

text \<open>Past the guard, the condition is true of the variables.\<close>

definition guard_holds :: "'w wf_env \<Rightarrow> wf_step \<Rightarrow> pydict \<Rightarrow> bool" where
  "guard_holds env t vars \<longleftrightarrow> (\<forall>cond. st_condition t = Some cond \<and> cond \<noteq> [] \<longrightarrow>
     evaluate_condition env cond vars = Inr True)"

lemma map_sum_Inr: "map_sum f id r = Inr a \<longleftrightarrow> r = Inr a"
  by (cases r) auto

lemma check_passed:
  "check_condition env t s = (Inr None, s1) \<Longrightarrow> s1 = s \<and> guard_holds env t (wr_vars s)"
  by (auto simp: check_condition_def guard_holds_def ex_catch_def ex_pure_def ex_world_def emit_def svc_simps Let_def
      map_sum_Inr split: option.splits if_splits prod.splits sum.splits)

lemma dispatch_else:
  assumes "guard_holds env t (wr_vars s)"
  shows "dispatch_conditional env dry run (with_else t es) [] s = dispatch_conditional env dry run t [] s"
proof -
  have "conditional_execute env (st_condition t) (wr_vars s) dry = Inr result \<Longrightarrow>
      od_get result ''branch'' = Some (PStr ''then'')" for result
    using assms by (auto simp: conditional_execute_def guard_holds_def split: option.splits if_splits)
  then show ?thesis
    by (cases "conditional_execute env (st_condition t) (wr_vars s) dry")
      (simp_all add: dispatch_conditional_def svc_simps ex_pure_def dict_merge_def)
qed

lemma attempts_step:
  "st_id u = st_id t \<Longrightarrow> attempt_error u = attempt_error t \<Longrightarrow>
    run_attempts env u once n att maxa e = run_attempts env t once n att maxa e"
  by (induction n arbitrary: att e) (simp_all only: run_attempts.simps)

lemma attempts_start:
  "once s = once' s \<Longrightarrow> run_attempts env t once (Suc 0) att maxa e s = run_attempts env t once' (Suc 0) att maxa e s"
  by (simp add: sv_bind_def [of "ex_try once" for once] ex_try_def ex_catch_def sv_bind_def [of once for once])

lemma attempts_else:
  assumes "guard_holds env t (wr_vars s)" and "st_action t = SA_Conditional"
  shows "run_attempts env (with_else t es) (attempt_once env (with_else t es) [] (dispatch_action env dry run (with_else t es) []))
      1 a 1 e s =
    run_attempts env t (attempt_once env t [] (dispatch_action env dry run t [])) 1 a 1 e s"
proof -
  let ?once' = "attempt_once env (with_else t es) [] (dispatch_action env dry run (with_else t es) [])"
    and ?once = "attempt_once env t [] (dispatch_action env dry run t [])"
  have once: "?once' s = ?once s"
    using assms by (simp add: attempt_once_def dispatch_action_def sv_bind_def dispatch_else)
  have err: "attempt_error (with_else t es) = attempt_error t"
    by (rule ext) (simp only: attempt_error_def with_else_simps)
  have "run_attempts env (with_else t es) ?once' 1 a 1 e s = run_attempts env t ?once' 1 a 1 e s"
    by (rule fun_cong [OF attempts_step]) (simp, rule err)
  also have "\<dots> = run_attempts env t ?once 1 a 1 e s"
    unfolding One_nat_def by (rule attempts_start) (rule once)
  finally show ?thesis .
qed

text \<open>
  The \<open>else\<close> sub-steps of a conditional step without inputs of its own never run: the guard of
  \<open>_execute_step\<close> skips the step exactly when its condition is false, so the dispatch only ever
  sees a true condition.  Replacing them by any other list changes no result, no variable and no effect.
\<close>
theorem else_branch_never_runs:
  assumes "st_action t = SA_Conditional" and "st_inputs t = []" and "rt_max_attempts (st_retry t) = 1"
    and hooks: "\<And>i a inp v w inp' w'. en_pre env i a inp v w = (Inr (None, inp'), w') \<Longrightarrow> inp' = inp"
  shows "execute_step fuel env dry (with_else t es) s = execute_step fuel env dry t s"
proof (cases fuel)
  case (Suc n)
  let ?t = "with_else t es" and ?run = "execute_step n env dry"
  have check: "check_condition env ?t = check_condition env t"
    unfolding check_condition_def with_else_simps ..
  obtain res s1 where c: "check_condition env t s = (res, s1)" by (cases "check_condition env t s")
  show ?thesis
  proof (cases "res = Inr None")
    case False
    with c show ?thesis
      by (cases res) (auto simp: Suc step_body_def check sv_bind_def sv_return_def split: option.split)
  next
    case True
    with c have s1: "s1 = s" "guard_holds env t (wr_vars s)" using check_passed by blast+
    have resolve: "resolve_step_inputs env t v = Inr []" "resolve_step_inputs env ?t v = Inr []" for v
      using assms(1,2) by (simp_all add: resolve_step_inputs_def resolve_inputs_def)
    obtain r w where pre: "en_pre env (st_id t) SA_Conditional [] (wr_vars s) (wr_world s) = (r, w)"
      by (cases "en_pre env (st_id t) SA_Conditional [] (wr_vars s) (wr_world s)")
    show ?thesis
    proof (cases "\<exists>inp'. r = Inr (None, inp')")
      case True
      with pre hooks have r: "r = Inr (None, [])" by blast
      obtain x s2 where e: "emit env (EvStepStarted (st_id t) 1) (s\<lparr>wr_world := w\<rparr>) = (x, s2)"
        by (cases "emit env (EvStepStarted (st_id t) 1) (s\<lparr>wr_world := w\<rparr>)")
      have "wr_vars s2 = wr_vars s"
        using e by (auto simp: emit_def ex_world_def split: prod.splits sum.splits)
      then have "guard_holds env t (wr_vars s2)" using s1(2) by simp
      from attempts_else [OF this assms(1)] show ?thesis
        using c \<open>res = Inr None\<close> s1 pre r e assms(1,3)
        by (simp add: Suc step_body_def check sv_bind_def sv_get_def ex_pure_def sv_lift_def resolve ex_world_def Let_def
            del: run_attempts.simps split: sum.split)
    next
      case False
      then show ?thesis
        using c \<open>res = Inr None\<close> s1 pre assms(1)
        by (auto simp: Suc step_body_def check sv_bind_def sv_get_def ex_pure_def sv_lift_def resolve ex_world_def
            sv_return_def split: sum.split option.split prod.split)
    qed
  qed
qed simp

section \<open>Concrete runs\<close>

text \<open>
  An environment whose world counts the action calls: expressions evaluate to themselves except
  \<open>false\<close>, an action fails when the step has a parameter \<open>fail\<close>, tasks of a group finish in
  reverse order, and the checkpoint store holds the given checkpoint.
\<close>

definition demo_env :: "pydict option \<Rightarrow> nat wf_env" where
  "demo_env checkpoint = \<lparr>en_render = (\<lambda>e _. Inr e),
     en_expr = (\<lambda>e _. Inr (if e = ''false'' then PBool False else PStr e)),
     en_emit = (\<lambda>_ w. (Inr (), w)), en_pre = (\<lambda>_ _ inputs _ w. (Inr (None, inputs), w)),
     en_post = (\<lambda>_ _ _ _ _ w. (Inr (), w)),
     en_action = (\<lambda>t _ _ _ w. (if st_params t = [] then Inr [(''n'', PInt (int w))] else Inl (False, ''boom''), Suc w)),
     en_order = (\<lambda>n w. (rev [0..<n], w)),
     en_checkpoints = (checkpoint \<noteq> None), en_resume = True,
     en_load = (\<lambda>w. (Inr checkpoint, w)), en_save = (\<lambda>_ _ w. (Inr (), w))\<rparr>"

definition demo_wf :: "execution_mode \<Rightarrow> bool \<Rightarrow> wf_step list \<Rightarrow> wf_definition" where
  "demo_wf mode fail_fast steps = \<lparr>wf_name = ''demo'', wf_steps = steps,
     wf_execution = default_execution\<lparr>ex_mode := mode, ex_fail_fast := fail_fast\<rparr>\<rparr>"

definition failing :: "string \<Rightarrow> string list \<Rightarrow> wf_step" where
  "failing sid deps = WfStep sid SA_RunCommand [] None deps \<lparr>rt_max_attempts = 3, rt_delay_seconds = 1\<rparr> None [] [] []
     [(''fail'', PNone)]"

definition demo_run :: "pydict option \<Rightarrow> wf_definition \<Rightarrow> (wf_exn + workflow_result) \<times> nat wf_run" where
  "demo_run checkpoint dfn = execute (demo_env checkpoint) dfn [] (wf_start dfn 0)"

definition ran :: "(wf_exn + workflow_result) \<times> nat wf_run \<Rightarrow> string list \<times> workflow_status" where
  "ran r = (case fst r of Inl _ \<Rightarrow> ([], WS_Failed)
     | Inr res \<Rightarrow> (List.map sr_step_id (wres_step_results res), wres_status res))"

lemma demo_diamond: "ran (demo_run None (demo_wf EM_DependencyAware True diamond)) = ([''a'', ''b'', ''c'', ''d''], WS_Success)"
  by code_simp

theorem execute_terminates_witness:
  "fst (demo_run None (demo_wf EM_DependencyAware True diamond)) \<noteq> Inl ExFuel"
  unfolding demo_run_def
  by (rule execute_terminates) (simp add: demo_wf_def diamond_ok)

lemma demo_result:
  assumes "ran r = (ids, status)" and "ids \<noteq> []"
  obtains res s' where "r = (Inr res, s')" "List.map sr_step_id (wres_step_results res) = ids" "wres_status res = status"
  using assms by (cases r; cases "fst r") (auto simp: ran_def)

theorem results_in_dependency_order_witness:
  "\<exists>ids. fst (ran (demo_run None (demo_wf EM_DependencyAware True diamond))) = ids \<and> length ids = 4 \<and> distinct ids"
proof -
  let ?d = "demo_wf EM_DependencyAware True diamond"
  obtain res s' where r: "demo_run None ?d = (Inr res, s')"
    "List.map sr_step_id (wres_step_results res) = [''a'', ''b'', ''c'', ''d'']"
    by (rule demo_result [OF demo_diamond]) auto
  have "steps_ok (wf_steps ?d)" by (simp add: demo_wf_def diamond_ok)
  from results_in_dependency_order [OF this r(1) [unfolded demo_run_def]] r(2)
  have "distinct [''a'', ''b'', ''c'', ''d'']" by (simp add: demo_wf_def)
  with demo_diamond show ?thesis by simp
qed

theorem success_means_every_step_succeeded_witness:
  "\<exists>res. fst (demo_run None (demo_wf EM_Sequential True [wstep ''a'' [], wstep ''b'' [''a'']])) = Inr res \<and>
     (\<forall>r \<in> set (wres_step_results res). sr_status r \<noteq> ST_Failed)"
proof -
  let ?d = "demo_wf EM_Sequential True [wstep ''a'' [], wstep ''b'' [''a'']]"
  have "ran (demo_run None ?d) = ([''a'', ''b''], WS_Success)" by code_simp
  then obtain res s' where r: "demo_run None ?d = (Inr res, s')" "wres_status res = WS_Success"
    by (rule demo_result) auto
  have "steps_ok (wf_steps ?d)" by (simp add: demo_wf_def steps_ok_def wstep_def)
  from success_means_every_step_succeeded [OF this r(1) [unfolded demo_run_def] r(2)] r(1) show ?thesis by simp
qed

text \<open>A checkpoint that lists \<open>a\<close> as completed.\<close>

definition demo_checkpoint :: pydict where
  "demo_checkpoint = checkpoint_payload (demo_wf EM_DependencyAware True diamond) ''a'' [(''a'', PDict [])] [''a'']"

theorem checkpoint_roundtrip_witness:
  "\<exists>s0. load_checkpoint_state (demo_env (Some demo_checkpoint)) [(''x'', PNone)]
      (wf_start (demo_wf EM_DependencyAware True diamond) 0) = (Inr (), s0) \<and>
     set (wr_completed s0) = {''a''} \<and> od_get (wr_vars s0) ''x'' = Some PNone"
proof -
  let ?d = "demo_wf EM_DependencyAware True diamond"
  have "en_load (demo_env (Some demo_checkpoint)) 0 =
      (Inr (Some (checkpoint_payload ?d ''a'' [(''a'', PDict [])] [''a''])), 0)"
    by (simp add: demo_env_def demo_checkpoint_def)
  from checkpoint_roundtrip [OF _ _ this, of "[(''x'', PNone)]"]
  obtain s0 where "load_checkpoint_state (demo_env (Some demo_checkpoint)) [(''x'', PNone)] (wf_start ?d 0) = (Inr (), s0)"
    "set (wr_completed s0) = {''a''} \<inter> set (List.map st_id diamond)"
    "\<forall>k. od_get (wr_vars s0) k = (case od_get [(''a'', PDict [])] k of Some v \<Rightarrow> Some v | None \<Rightarrow> od_get [(''x'', PNone)] k)"
    by (auto simp: demo_env_def od_wf_def od_keys_def checkpoint_meta_key_def demo_wf_def)
  then show ?thesis by (simp add: diamond_def wstep_def)
qed


lemma demo_counts: "counts_actions (demo_env c) (\<lambda>w. w)"
  by (simp add: counts_actions_def demo_env_def)

theorem attempts_bounded_witness:
  "\<exists>res s'. execute_step 1 (demo_env None) False (failing ''f'' []) (wf_start (demo_wf EM_Sequential True []) 0) = (res, s') \<and>
     wr_world s' = 3 \<and> wr_world s' \<le> 0 + rt_max_attempts (st_retry (failing ''f'' []))"
proof -
  let ?s = "wf_start (demo_wf EM_Sequential True []) (0::nat)"
  let ?run = "execute_step (Suc 0) (demo_env None) False (failing ''f'' []) ?s"
  obtain res s' where r: "?run = (res, s')" by (cases ?run)
  have "leaf_action (failing ''f'' [])" by (simp add: leaf_action_def failing_def)
  from attempts_bounded [OF demo_counts this r] have "wr_world s' \<le> 0 + rt_max_attempts (st_retry (failing ''f'' []))"
    by (simp add: wf_start_def)
  moreover have "wr_world (snd ?run) = 3" by code_simp
  ultimately show ?thesis using r by simp
qed

definition demo_conditional :: wf_step where
  "demo_conditional = WfStep ''c'' SA_Conditional [] (Some ''false'') [] default_retry None [] [] [wstep ''e'' []] []"

theorem else_branch_never_runs_witness:
  "fst (execute_step 5 (demo_env None) False demo_conditional (wf_start (demo_wf EM_Sequential True []) 0)) =
     fst (execute_step 5 (demo_env None) False (with_else demo_conditional []) (wf_start (demo_wf EM_Sequential True []) 0)) \<and>
   wr_world (snd (execute_step 5 (demo_env None) False demo_conditional (wf_start (demo_wf EM_Sequential True []) 0))) = 0"
proof -
  have "execute_step 5 (demo_env None) False (with_else demo_conditional []) (wf_start (demo_wf EM_Sequential True []) 0) =
    execute_step 5 (demo_env None) False demo_conditional (wf_start (demo_wf EM_Sequential True []) 0)"
    by (rule else_branch_never_runs) (auto simp: demo_conditional_def default_retry_def demo_env_def)
  moreover have "wr_world (snd (execute_step 5 (demo_env None) False demo_conditional
      (wf_start (demo_wf EM_Sequential True []) 0))) = 0" by code_simp
  ultimately show ?thesis by simp
qed

text \<open>
  A parallel group and a conditional do not look at the status of their sub-steps: a run whose only
  real work fails is a success.
\<close>

lemma parallel_group_hides_failures:
  "ran (demo_run None (demo_wf EM_Sequential True
     [WfStep ''g'' SA_ParallelGroup [] None [] default_retry None [failing ''x'' [], failing ''y'' []] [] [] []])) =
   ([''g''], WS_Success)"
  by code_simp

text \<open>
  With \<open>fail_fast\<close> and \<open>continue_on_error\<close> both off, sequential mode stops at the first failure and
  the DAG modes go on to steps that depend on the failed one.
\<close>

lemma dag_mode_ignores_continue_on_error:
  "ran (demo_run None (demo_wf EM_Sequential False [failing ''a'' [], wstep ''b'' [''a'']])) = ([''a''], WS_Failed) \<and>
   ran (demo_run None (demo_wf EM_DependencyAware False [failing ''a'' [], wstep ''b'' [''a'']])) = ([''a'', ''b''], WS_Partial)"
  by code_simp

end
