(* ===== verification/Release.thy ===== *)
theory Release
  imports Lifecycle PyText
begin

text \<open>
  Release automation (\<open>agent33/release/\<close>): the release record with its pre-release checklist
  (\<open>models.py\<close>, \<open>checklist.py\<close>), the component security gate (\<open>security_gate.py\<close>), file sync
  rules (\<open>sync.py\<close>), rollback records (\<open>rollback.py\<close>) and the service over them (\<open>service.py\<close>).

  The sync engine and the rollback manager keep their own dictionaries and call the service's
  \<open>_persist_state\<close> after a change; the three live in one durable state here.  New ids and clock
  readings are arguments.  The security scan service is an argument of \<open>start_validation\<close>: absent,
  failing, or a list of completed runs.
\<close>

section \<open>Data\<close>

datatype release_type = RT_Patch | RT_Minor | RT_Major

datatype release_status = RS_Planned | RS_Frozen | RS_RC | RS_Validating | RS_Released | RS_Failed | RS_RolledBack

datatype check_status = CS_Pending | CS_Pass | CS_Fail | CS_Skipped | CS_NA

record release_check =
  rc_check_id :: string
  rc_name :: string
  rc_status :: check_status
  rc_message :: string
  rc_required :: bool

record release_evidence =
  ev_gate_passed :: bool
  ev_checklist :: "release_check list"

text \<open>The evidence fields that no operation touches (rates, commit, branch, build, notes) are left out.\<close>

record release =
  rl_id :: string
  rl_version :: string
  rl_type :: release_type
  rl_status :: release_status
  rl_created_at :: int
  rl_released_at :: "int option"
  rl_released_by :: string
  rl_evidence :: release_evidence
  rl_description :: string
  rl_rc_version :: string
  rl_tenant_id :: "string option"

section \<open>The checklist\<close>

definition canonical_checks :: "(string \<times> string \<times> bool) list" where
  "canonical_checks =
     [(''RL-01'', ''All PRs merged'', True), (''RL-02'', ''Gates pass'', True),
      (''RL-03'', ''Changelog updated'', True), (''RL-04'', ''Version bumped'', True),
      (''RL-05'', ''Documentation updated'', True), (''RL-06'', ''Security review'', True),
      (''RL-07'', ''Rollback tested'', True), (''RL-08'', ''Release notes drafted'', True)]"

definition build_checklist :: "release_type \<Rightarrow> release_check list" where
  "build_checklist t = List.map (\<lambda>(check_id, name, required).
     \<lparr>rc_check_id = check_id, rc_name = name, rc_status = CS_Pending, rc_message = [],
      rc_required = (if check_id = ''RL-07'' \<and> t \<noteq> RT_Major then False else required)\<rparr>) canonical_checks"

fun check_status_value :: "check_status \<Rightarrow> string" where
  "check_status_value CS_Pending = ''pending''"
| "check_status_value CS_Pass = ''pass''"
| "check_status_value CS_Fail = ''fail''"
| "check_status_value CS_Skipped = ''skipped''"
| "check_status_value CS_NA = ''na''"

definition check_failure :: "release_check \<Rightarrow> string" where
  "check_failure c = rc_check_id c @ '' ('' @ rc_name c @ ''): '' @ check_status_value (rc_status c)"

fun evaluate_checks :: "release_check list \<Rightarrow> string list" where
  "evaluate_checks [] = []"
| "evaluate_checks (c # cs) =
     (if \<not> rc_required c then evaluate_checks cs
      else if rc_status c \<noteq> CS_Pass \<and> rc_status c \<noteq> CS_NA then check_failure c # evaluate_checks cs
      else evaluate_checks cs)"

definition evaluate_checklist :: "release_check list \<Rightarrow> bool \<times> string list" where
  "evaluate_checklist checks = (let failures = evaluate_checks checks in (length failures = 0, failures))"

fun update_check :: "release_check list \<Rightarrow> string \<Rightarrow> check_status \<Rightarrow> string \<Rightarrow> release_check list" where
  "update_check [] i st msg = []"
| "update_check (c # cs) i st msg =
     (if rc_check_id c = i
      then c\<lparr>rc_status := st, rc_message := (if msg = [] then rc_message c else msg)\<rparr> # cs
      else c # update_check cs i st msg)"

section \<open>The security gate\<close>

record findings_summary =
  fd_critical :: int
  fd_high :: int
  fd_medium :: int
  fd_low :: int
  fd_info :: int

record gate_policy =
  gp_block_on_critical :: bool
  gp_block_on_high :: bool
  gp_max_high :: int
  gp_max_medium :: int

definition default_policy :: gate_policy where
  "default_policy = \<lparr>gp_block_on_critical = True, gp_block_on_high = True, gp_max_high = 0, gp_max_medium = 10\<rparr>"

record gate_result =
  gr_pass :: bool
  gr_message :: string
  gr_run_id :: string
  gr_summary :: findings_summary

definition gate_violations :: "findings_summary \<Rightarrow> gate_policy \<Rightarrow> string list" where
  "gate_violations s p =
     (if gp_block_on_critical p \<and> 0 < fd_critical s then [''critical findings: '' @ py_str_int (fd_critical s)] else []) @
     (if gp_block_on_high p \<and> gp_max_high p < fd_high s
      then [''high findings: '' @ py_str_int (fd_high s) @ '' > allowed '' @ py_str_int (gp_max_high p)] else []) @
     (if gp_max_medium p < fd_medium s
      then [''medium findings: '' @ py_str_int (fd_medium s) @ '' > allowed '' @ py_str_int (gp_max_medium p)] else [])"

definition evaluate_security_gate :: "string \<Rightarrow> findings_summary \<Rightarrow> gate_policy \<Rightarrow> gate_result" where
  "evaluate_security_gate run_id s p =
     (let violations = gate_violations s p in
      if violations \<noteq> []
      then \<lparr>gr_pass = False, gr_message = ''Security gate failed - '' @ py_join ''; '' violations,
            gr_run_id = run_id, gr_summary = s\<rparr>
      else \<lparr>gr_pass = True, gr_message = ''Security gate passed'', gr_run_id = run_id, gr_summary = s\<rparr>)"

section \<open>File sync\<close>

datatype sync_status = SY_Pending | SY_DryRun | SY_Running | SY_Completed | SY_Failed

text \<open>Strategy, frequency, transforms and the validation flags of a rule are stored but never read.\<close>

record sync_rule =
  su_rule_id :: string
  su_source_pattern :: string
  su_target_repo :: string
  su_target_path :: string
  su_include :: "string list"
  su_exclude :: "string list"

record file_result =
  fr_source_path :: string
  fr_target_path :: string
  fr_action :: string
  fr_checksum_valid :: bool

record sync_execution =
  se_id :: string
  se_rule_id :: string
  se_release_version :: string
  se_status :: sync_status
  se_dry_run :: bool
  se_started_at :: int
  se_completed_at :: "int option"
  se_files_added :: nat
  se_file_results :: "file_result list"
  se_errors :: "string list"

definition file_matches :: "sync_rule \<Rightarrow> string \<Rightarrow> bool" where
  "file_matches rule f =
     (let normalized = py_replace_char (CHR 0x5C) (CHR ''/'') f in
      if \<not> fnmatch normalized (su_source_pattern rule) then False
      else if su_include rule \<noteq> [] \<and> \<not> list_ex (fnmatch normalized) (su_include rule) then False
      else if list_ex (fnmatch normalized) (su_exclude rule) then False
      else True)"

definition match_files :: "sync_rule \<Rightarrow> string list \<Rightarrow> string list" where
  "match_files rule available = filter (file_matches rule) available"

definition file_target :: "sync_rule \<Rightarrow> string \<Rightarrow> string" where
  "file_target rule f =
     (if su_target_path rule \<noteq> [] then su_target_path rule @ ''/'' @ last (py_split (CHR ''/'') f) else f)"

definition sync_results :: "sync_rule \<Rightarrow> string list \<Rightarrow> file_result list" where
  "sync_results rule available = List.map (\<lambda>f.
     \<lparr>fr_source_path = f, fr_target_path = file_target rule f, fr_action = ''added'', fr_checksum_valid = True\<rparr>)
     (match_files rule available)"

section \<open>Rollback records\<close>

datatype rollback_type = RB_Immediate | RB_Planned | RB_Partial | RB_Config

datatype rollback_status = RBS_Pending | RBS_InProgress | RBS_Completed | RBS_Failed

record rollback_record =
  rb_id :: string
  rb_release_id :: string
  rb_type :: rollback_type
  rb_status :: rollback_status
  rb_reason :: string
  rb_initiated_by :: string
  rb_approved_by :: string
  rb_target_version :: string
  rb_created_at :: int
  rb_completed_at :: "int option"
  rb_steps :: "string list"
  rb_errors :: "string list"

definition decision_matrix :: "((string \<times> string) \<times> (rollback_type \<times> string)) list" where
  "decision_matrix =
     [((''critical'', ''high''), (RB_Immediate, ''on-call'')),
      ((''critical'', ''medium''), (RB_Immediate, ''on-call'')),
      ((''critical'', ''low''), (RB_Planned, ''team-lead'')),
      ((''high'', ''high''), (RB_Immediate, ''team-lead'')),
      ((''high'', ''medium''), (RB_Planned, ''team-lead'')),
      ((''high'', ''low''), (RB_Planned, ''team-lead'')),
      ((''medium'', ''high''), (RB_Planned, ''team-lead'')),
      ((''medium'', ''medium''), (RB_Partial, ''team-lead'')),
      ((''medium'', ''low''), (RB_Config, ''engineer'')),
      ((''low'', ''high''), (RB_Partial, ''engineer'')),
      ((''low'', ''medium''), (RB_Config, ''engineer'')),
      ((''low'', ''low''), (RB_Config, ''engineer''))]"

definition recommend :: "string \<Rightarrow> string \<Rightarrow> rollback_type \<times> string" where
  "recommend severity impact = (case map_of decision_matrix (py_lower severity, py_lower impact) of
      Some r \<Rightarrow> r | None \<Rightarrow> (RB_Planned, ''team-lead''))"

section \<open>The service\<close>

record release_mem =
  rm_releases :: "(string, release) odict"
  rm_rules :: "(string, sync_rule) odict"
  rm_executions :: "(string, sync_execution) odict"
  rm_rollbacks :: "(string, rollback_record) odict"

definition empty_mem :: release_mem where
  "empty_mem = \<lparr>rm_releases = [], rm_rules = [], rm_executions = [], rm_rollbacks = []\<rparr>"

datatype release_error =
    ReleaseNotFound string
  | InvalidRelease release_status release_status

type_synonym release_st = "release_mem durable"
type_synonym 'a release_svc = "(release_st, release_error, 'a) svc"

fun release_table :: "release_status \<Rightarrow> release_status list" where
  "release_table RS_Planned = [RS_Frozen]"
| "release_table RS_Frozen = [RS_RC, RS_Planned]"
| "release_table RS_RC = [RS_Validating, RS_Failed]"
| "release_table RS_Validating = [RS_Released, RS_Failed]"
| "release_table RS_Released = [RS_RolledBack]"
| "release_table RS_Failed = [RS_Planned]"
| "release_table RS_RolledBack = [RS_Planned]"

definition release_move :: "release_status \<Rightarrow> release_status \<Rightarrow> release_error + release_status" where
  "release_move s t = (if t \<notin> set (release_table s) then Inl (InvalidRelease s t) else Inr t)"

definition rl_modify :: "(release_mem \<Rightarrow> release_mem) \<Rightarrow> unit release_svc" where
  "rl_modify f = sv_modify (\<lambda>d. d\<lparr>live := f (live d)\<rparr>)"

text \<open>Mutate the release object found under an id.\<close>

definition rl_touch :: "string \<Rightarrow> (release \<Rightarrow> release) \<Rightarrow> unit release_svc" where
  "rl_touch i f = rl_modify (\<lambda>m. case od_get (rm_releases m) i of
     None \<Rightarrow> m | Some r \<Rightarrow> m\<lparr>rm_releases := od_put i (f r) (rm_releases m)\<rparr>)"

definition get_release :: "string \<Rightarrow> release release_svc" where
  "get_release i = sv_bind sv_get (\<lambda>d. case od_get (rm_releases (live d)) i of
     None \<Rightarrow> sv_raise (ReleaseNotFound i) | Some r \<Rightarrow> sv_return r)"

definition create_release :: "string \<Rightarrow> int \<Rightarrow> string \<Rightarrow> release_type \<Rightarrow> string \<Rightarrow> release release_svc" where
  "create_release new_id now version t description =
     (let r = \<lparr>rl_id = new_id, rl_version = version, rl_type = t, rl_status = RS_Planned,
               rl_created_at = now, rl_released_at = None, rl_released_by = [],
               rl_evidence = \<lparr>ev_gate_passed = False, ev_checklist = build_checklist t\<rparr>,
               rl_description = description, rl_rc_version = [], rl_tenant_id = None\<rparr>
      in sv_bind (rl_modify (\<lambda>m. m\<lparr>rm_releases := od_put new_id r (rm_releases m)\<rparr>))
           (\<lambda>_. sv_bind sv_persist (\<lambda>_. sv_return r)))"

definition list_releases :: "release_status option \<Rightarrow> int \<Rightarrow> release list release_svc" where
  "list_releases st limit = sv_bind sv_get (\<lambda>d.
     let results = od_vals (rm_releases (live d));
         results = (case st of None \<Rightarrow> results | Some s \<Rightarrow> filter (\<lambda>r. rl_status r = s) results)
     in sv_return (py_take limit (sort_desc rl_created_at results)))"

definition release_transition :: "string \<Rightarrow> release_status \<Rightarrow> release release_svc" where
  "release_transition i to = sv_bind (get_release i) (\<lambda>r.
     sv_bind (sv_lift (release_move (rl_status r) to)) (\<lambda>st.
     sv_bind (rl_touch i (\<lambda>r. r\<lparr>rl_status := st\<rparr>)) (\<lambda>_.
     sv_bind sv_persist (\<lambda>_. get_release i))))"

definition release_freeze :: "string \<Rightarrow> release release_svc" where
  "release_freeze i = release_transition i RS_Frozen"

definition cut_rc :: "string \<Rightarrow> string \<Rightarrow> release release_svc" where
  "cut_rc i rc_version = sv_bind (release_transition i RS_RC) (\<lambda>_.
     sv_bind (if rc_version \<noteq> [] then rl_touch i (\<lambda>r. r\<lparr>rl_rc_version := rc_version\<rparr>) else sv_return ())
       (\<lambda>_. get_release i))"

text \<open>The scan service's answer.\<close>

record scan_run =
  sn_id :: string
  sn_candidate :: string
  sn_summary :: findings_summary

datatype scans = NoScanService | ScanLookupFails | CompletedRuns "scan_run list"

definition set_check :: "string \<Rightarrow> string \<Rightarrow> check_status \<Rightarrow> string \<Rightarrow> unit release_svc" where
  "set_check i check_id st msg = rl_touch i (\<lambda>r.
     r\<lparr>rl_evidence := (rl_evidence r)\<lparr>ev_checklist := update_check (ev_checklist (rl_evidence r)) check_id st msg\<rparr>\<rparr>)"

definition apply_gate :: "string \<Rightarrow> gate_result \<Rightarrow> unit release_svc" where
  "apply_gate i res =
     sv_bind (rl_touch i (\<lambda>r. r\<lparr>rl_evidence := (rl_evidence r)\<lparr>ev_gate_passed := gr_pass res\<rparr>\<rparr>)) (\<lambda>_.
     sv_bind (set_check i ''RL-06'' (if gr_pass res then CS_Pass else CS_Fail) (gr_message res))
       (\<lambda>_. sv_persist))"

definition candidate_run :: "string \<Rightarrow> scan_run list \<Rightarrow> scan_run option" where
  "candidate_run i runs = (case filter (\<lambda>run. sn_candidate run = i) runs of
     run # _ \<Rightarrow> Some run | [] \<Rightarrow> (case runs of run # _ \<Rightarrow> Some run | [] \<Rightarrow> None))"

definition auto_evaluate_gate :: "scans \<Rightarrow> gate_policy \<Rightarrow> string \<Rightarrow> unit release_svc" where
  "auto_evaluate_gate scans policy i = (case scans of
      NoScanService \<Rightarrow> sv_return ()
    | ScanLookupFails \<Rightarrow> sv_bind (set_check i ''RL-06'' CS_Fail
          ''Security gate could not be evaluated: scan service lookup failed'') (\<lambda>_. sv_persist)
    | CompletedRuns runs \<Rightarrow> (case candidate_run i runs of
          None \<Rightarrow> sv_bind (set_check i ''RL-06'' CS_Fail
            ''Security gate not evaluated: no completed scan run found for this release'') (\<lambda>_. sv_persist)
        | Some run \<Rightarrow> apply_gate i (evaluate_security_gate (sn_id run) (sn_summary run) policy)))"

definition start_validation :: "scans \<Rightarrow> gate_policy \<Rightarrow> string \<Rightarrow> release release_svc" where
  "start_validation scans policy i = sv_bind (release_transition i RS_Validating) (\<lambda>_.
     sv_bind (auto_evaluate_gate scans policy i) (\<lambda>_. get_release i))"

definition publish :: "string \<Rightarrow> string \<Rightarrow> int \<Rightarrow> release release_svc" where
  "publish i released_by now = sv_bind (get_release i) (\<lambda>r.
     if \<not> fst (evaluate_checklist (ev_checklist (rl_evidence r)))
     then sv_raise (InvalidRelease (rl_status r) RS_Released)
     else sv_bind (release_transition i RS_Released) (\<lambda>_.
       sv_bind (rl_touch i (\<lambda>r. r\<lparr>rl_released_by := released_by\<rparr>)) (\<lambda>_.
       sv_bind (rl_touch i (\<lambda>r. r\<lparr>rl_released_at := Some now\<rparr>)) (\<lambda>_.
       sv_bind sv_persist (\<lambda>_. get_release i)))))"

definition mark_failed :: "string \<Rightarrow> release release_svc" where
  "mark_failed i = release_transition i RS_Failed"

definition release_update_check :: "string \<Rightarrow> string \<Rightarrow> check_status \<Rightarrow> string \<Rightarrow> release release_svc" where
  "release_update_check i check_id st msg = sv_bind (get_release i) (\<lambda>_.
     sv_bind (set_check i check_id st msg) (\<lambda>_. sv_bind sv_persist (\<lambda>_. get_release i)))"

definition release_evaluate_checklist :: "string \<Rightarrow> (bool \<times> string list) release_svc" where
  "release_evaluate_checklist i = sv_bind (get_release i) (\<lambda>r.
     sv_return (evaluate_checklist (ev_checklist (rl_evidence r))))"

definition apply_component_security_gate ::
  "string \<Rightarrow> string \<Rightarrow> findings_summary \<Rightarrow> gate_policy option \<Rightarrow> gate_result release_svc" where
  "apply_component_security_gate i run_id s policy = sv_bind (get_release i) (\<lambda>_.
     let gate_policy = (case policy of None \<Rightarrow> default_policy | Some p \<Rightarrow> p);
         res = evaluate_security_gate run_id s gate_policy
     in sv_bind (apply_gate i res) (\<lambda>_. sv_return res))"

text \<open>Sync operations.\<close>

definition add_sync_rule :: "sync_rule \<Rightarrow> sync_rule release_svc" where
  "add_sync_rule rule = sv_bind (rl_modify (\<lambda>m. m\<lparr>rm_rules := od_put (su_rule_id rule) rule (rm_rules m)\<rparr>))
     (\<lambda>_. sv_bind sv_persist (\<lambda>_. sv_return rule))"

definition list_sync_rules :: "sync_rule list release_svc" where
  "list_sync_rules = sv_bind sv_get (\<lambda>d. sv_return (od_vals (rm_rules (live d))))"

definition remove_rule :: "string \<Rightarrow> bool release_svc" where
  "remove_rule i = sv_bind sv_get (\<lambda>d.
     if od_get (rm_rules (live d)) i \<noteq> None
     then sv_bind (rl_modify (\<lambda>m. m\<lparr>rm_rules := od_del i (rm_rules m)\<rparr>))
            (\<lambda>_. sv_bind sv_persist (\<lambda>_. sv_return True))
     else sv_return False)"

definition record_execution :: "sync_execution \<Rightarrow> sync_execution release_svc" where
  "record_execution exe = sv_bind (rl_modify (\<lambda>m. m\<lparr>rm_executions := od_put (se_id exe) exe (rm_executions m)\<rparr>))
     (\<lambda>_. sv_bind sv_persist (\<lambda>_. sv_return exe))"

definition missing_rule :: "string \<Rightarrow> int \<Rightarrow> string \<Rightarrow> string \<Rightarrow> bool \<Rightarrow> sync_execution" where
  "missing_rule new_id now rule_id version dry =
     \<lparr>se_id = new_id, se_rule_id = rule_id, se_release_version = version, se_status = SY_Failed,
      se_dry_run = dry, se_started_at = now, se_completed_at = None, se_files_added = 0,
      se_file_results = [], se_errors = [''Rule not found: '' @ rule_id]\<rparr>"

definition sync_dry_run :: "string \<Rightarrow> int \<Rightarrow> string \<Rightarrow> string list \<Rightarrow> string \<Rightarrow> sync_execution release_svc" where
  "sync_dry_run new_id now rule_id available version = sv_bind sv_get (\<lambda>d.
     case od_get (rm_rules (live d)) rule_id of
       None \<Rightarrow> record_execution (missing_rule new_id now rule_id version True)
     | Some rule \<Rightarrow> let results = sync_results rule available in
         record_execution \<lparr>se_id = new_id, se_rule_id = rule_id, se_release_version = version,
           se_status = SY_DryRun, se_dry_run = True, se_started_at = now, se_completed_at = None,
           se_files_added = length results, se_file_results = results, se_errors = []\<rparr>)"

definition sync_execute :: "string \<Rightarrow> int \<Rightarrow> string \<Rightarrow> string list \<Rightarrow> string \<Rightarrow> sync_execution release_svc" where
  "sync_execute new_id now rule_id available version = sv_bind sv_get (\<lambda>d.
     case od_get (rm_rules (live d)) rule_id of
       None \<Rightarrow> record_execution (missing_rule new_id now rule_id version False)
     | Some rule \<Rightarrow> let results = sync_results rule available in
         record_execution \<lparr>se_id = new_id, se_rule_id = rule_id, se_release_version = version,
           se_status = SY_Completed, se_dry_run = False, se_started_at = now, se_completed_at = Some now,
           se_files_added = length results, se_file_results = results, se_errors = []\<rparr>)"

definition list_executions :: "string option \<Rightarrow> int \<Rightarrow> sync_execution list release_svc" where
  "list_executions rule_id limit = sv_bind sv_get (\<lambda>d.
     let results = od_vals (rm_executions (live d));
         results = (case rule_id of None \<Rightarrow> results | Some i \<Rightarrow> filter (\<lambda>e. se_rule_id e = i) results)
     in sv_return (py_take limit (sort_desc se_started_at results)))"

definition validate_execution :: "string \<Rightarrow> string list release_svc" where
  "validate_execution i = sv_bind sv_get (\<lambda>d. sv_return (case od_get (rm_executions (live d)) i of
      None \<Rightarrow> [''Execution not found: '' @ i]
    | Some exe \<Rightarrow> List.map (\<lambda>fr. ''Checksum invalid: '' @ fr_source_path fr)
        (filter (\<lambda>fr. \<not> fr_checksum_valid fr) (se_file_results exe))))"

text \<open>Rollback operations; a missing record gives \<open>None\<close>.\<close>

definition rollback_create ::
  "string \<Rightarrow> int \<Rightarrow> string \<Rightarrow> string \<Rightarrow> rollback_type \<Rightarrow> string \<Rightarrow> string \<Rightarrow> rollback_record release_svc" where
  "rollback_create new_id now release_id reason t target initiated_by =
     (let r = \<lparr>rb_id = new_id, rb_release_id = release_id, rb_type = t, rb_status = RBS_Pending,
               rb_reason = reason, rb_initiated_by = initiated_by, rb_approved_by = [],
               rb_target_version = target, rb_created_at = now, rb_completed_at = None,
               rb_steps = [], rb_errors = []\<rparr>
      in sv_bind (rl_modify (\<lambda>m. m\<lparr>rm_rollbacks := od_put new_id r (rm_rollbacks m)\<rparr>))
           (\<lambda>_. sv_bind sv_persist (\<lambda>_. sv_return r)))"

definition rollback_update :: "string \<Rightarrow> (rollback_record \<Rightarrow> rollback_record) \<Rightarrow> rollback_record option release_svc" where
  "rollback_update i f = sv_bind sv_get (\<lambda>d. case od_get (rm_rollbacks (live d)) i of
      None \<Rightarrow> sv_return None
    | Some r \<Rightarrow> sv_bind (rl_modify (\<lambda>m. m\<lparr>rm_rollbacks := od_put i (f r) (rm_rollbacks m)\<rparr>))
        (\<lambda>_. sv_bind sv_persist (\<lambda>_. sv_return (Some (f r)))))"

definition rollback_approve :: "string \<Rightarrow> string \<Rightarrow> rollback_record option release_svc" where
  "rollback_approve i by = rollback_update i (\<lambda>r. r\<lparr>rb_approved_by := by, rb_status := RBS_InProgress\<rparr>)"

definition rollback_complete_step :: "string \<Rightarrow> string \<Rightarrow> rollback_record option release_svc" where
  "rollback_complete_step i description = rollback_update i (\<lambda>r. r\<lparr>rb_steps := rb_steps r @ [description]\<rparr>)"

definition rollback_complete :: "string \<Rightarrow> int \<Rightarrow> rollback_record option release_svc" where
  "rollback_complete i now = rollback_update i (\<lambda>r. r\<lparr>rb_status := RBS_Completed, rb_completed_at := Some now\<rparr>)"

definition rollback_fail :: "string \<Rightarrow> string \<Rightarrow> rollback_record option release_svc" where
  "rollback_fail i error = rollback_update i (\<lambda>r. r\<lparr>rb_status := RBS_Failed, rb_errors := rb_errors r @ [error]\<rparr>)"

definition rollback_list_all :: "string option \<Rightarrow> rollback_status option \<Rightarrow> int \<Rightarrow> rollback_record list release_svc" where
  "rollback_list_all release_id st limit = sv_bind sv_get (\<lambda>d.
     let results = od_vals (rm_rollbacks (live d));
         results = (case release_id of None \<Rightarrow> results | Some i \<Rightarrow> filter (\<lambda>r. rb_release_id r = i) results);
         results = (case st of None \<Rightarrow> results | Some s \<Rightarrow> filter (\<lambda>r. rb_status r = s) results)
     in sv_return (py_take limit (sort_desc rb_created_at results)))"

definition initiate_rollback ::
  "string \<Rightarrow> int \<Rightarrow> string \<Rightarrow> string \<Rightarrow> rollback_type \<Rightarrow> string \<Rightarrow> string \<Rightarrow> release release_svc" where
  "initiate_rollback new_id now i reason t target initiated_by = sv_bind (get_release i) (\<lambda>r.
     sv_bind (rollback_create new_id now i reason t target initiated_by) (\<lambda>_.
     sv_bind (if rl_status r = RS_Released then sv_void (release_transition i RS_RolledBack) else sv_return ())
       (\<lambda>_. sv_bind sv_persist (\<lambda>_. get_release i))))"

end
