(* ===== verification/Release_Correct.thy ===== *)
theory Release_Correct
  imports Release
begin

text \<open>
  Correctness of release automation: releases move along the status table, a release is published only
  from validation with every required check satisfied, the security gate fails closed, the durable copy
  is complete after every operation but one, dry runs predict executions, and file selection means what
  the patterns say.
\<close>

section \<open>Operations\<close>

datatype release_op =
    RlCreate string int string release_type string
  | RlTransition string release_status
  | RlCutRc string string
  | RlValidate scans gate_policy string
  | RlPublish string string int
  | RlUpdateCheck string string check_status string
  | RlApplyGate string string findings_summary "gate_policy option"
  | RlAddRule sync_rule
  | RlRemoveRule string
  | RlDryRun string int string "string list" string
  | RlSync string int string "string list" string
  | RlRollbackCreate string int string string rollback_type string string
  | RlRollbackApprove string string
  | RlRollbackStep string string
  | RlRollbackComplete string int
  | RlRollbackFail string string
  | RlInitiate string int string string rollback_type string string

fun release_exec :: "release_op \<Rightarrow> unit release_svc" where
  "release_exec (RlCreate i now v t desc) = sv_void (create_release i now v t desc)"
| "release_exec (RlTransition i st) = sv_void (release_transition i st)"
| "release_exec (RlCutRc i v) = sv_void (cut_rc i v)"
| "release_exec (RlValidate scans policy i) = sv_void (start_validation scans policy i)"
| "release_exec (RlPublish i by now) = sv_void (publish i by now)"
| "release_exec (RlUpdateCheck i c st msg) = sv_void (release_update_check i c st msg)"
| "release_exec (RlApplyGate i run s p) = sv_void (apply_component_security_gate i run s p)"
| "release_exec (RlAddRule rule) = sv_void (add_sync_rule rule)"
| "release_exec (RlRemoveRule i) = sv_void (remove_rule i)"
| "release_exec (RlDryRun i now rule files v) = sv_void (sync_dry_run i now rule files v)"
| "release_exec (RlSync i now rule files v) = sv_void (sync_execute i now rule files v)"
| "release_exec (RlRollbackCreate i now rel reason t target by) = sv_void (rollback_create i now rel reason t target by)"
| "release_exec (RlRollbackApprove i by) = sv_void (rollback_approve i by)"
| "release_exec (RlRollbackStep i s) = sv_void (rollback_complete_step i s)"
| "release_exec (RlRollbackComplete i now) = sv_void (rollback_complete i now)"
| "release_exec (RlRollbackFail i e) = sv_void (rollback_fail i e)"
| "release_exec (RlInitiate i now rel reason t target by) = sv_void (initiate_rollback i now rel reason t target by)"

definition release_run :: "release_op \<Rightarrow> release_st \<Rightarrow> release_st" where
  "release_run op d = snd (release_exec op d)"

text \<open>A fresh id is never in use (\<open>uuid4\<close>); a step of a history with a used one is no step.\<close>

fun fresh_release :: "release_op \<Rightarrow> release_st \<Rightarrow> bool" where
  "fresh_release (RlCreate i now v t desc) d = (od_get (rm_releases (live d)) i = None)"
| "fresh_release op d = True"

definition release_step :: "release_op \<Rightarrow> release_st \<Rightarrow> release_st" where
  "release_step op d = (if fresh_release op d then release_run op d else d)"

definition release_at :: "release_st \<Rightarrow> string \<Rightarrow> release option" where
  "release_at d i = od_get (rm_releases (live d)) i"

definition release_status_at :: "release_st \<Rightarrow> string \<Rightarrow> release_status option" where
  "release_status_at d i = map_option rl_status (release_at d i)"

section \<open>Two-state properties of every operation\<close>

text \<open>
  \<open>P r r'\<close> relates what a record was to what it is.  An operation respects a reflexive and transitive
  \<open>P\<close> when no record disappears and every record is related to what it becomes; no record appears.
\<close>

definition evolves :: "(release \<Rightarrow> release \<Rightarrow> bool) \<Rightarrow> release_st \<Rightarrow> release_st \<Rightarrow> bool" where
  "evolves P d d' \<longleftrightarrow> (\<forall>i. release_at d i = None \<longrightarrow> release_at d' i = None) \<and>
     (\<forall>i r. release_at d i = Some r \<longrightarrow> (\<exists>r'. release_at d' i = Some r' \<and> P r r'))"

lemma evolves_trans:
  "(\<And>a b c. P a b \<Longrightarrow> P b c \<Longrightarrow> P a c) \<Longrightarrow> evolves P s t \<Longrightarrow> evolves P t u \<Longrightarrow> evolves P s u"
  unfolding evolves_def by meson

lemma evolves_same: "(\<And>r. P r r) \<Longrightarrow> rm_releases (live d') = rm_releases (live d) \<Longrightarrow> evolves P d d'"
  by (simp add: evolves_def release_at_def)

lemma evolves_refl: "(\<And>r. P r r) \<Longrightarrow> evolves P d d"
  by (simp add: evolves_same)

lemma evolves_touch: "(\<And>r. P r r) \<Longrightarrow> (\<And>r. P r (f r)) \<Longrightarrow> related (evolves P) (rl_touch i f)"
  unfolding rl_touch_def rl_modify_def
  by (rule related_modify) (auto simp: evolves_def release_at_def od.get_put split: option.split)

lemma evolves_persist: "(\<And>r. P r r) \<Longrightarrow> related (evolves P) sv_persist"
  unfolding sv_persist_def by (rule related_modify) (simp add: evolves_same)

lemma evolves_get: "(\<And>r. P r r) \<Longrightarrow> related (evolves P) (get_release i)"
  by (auto simp: related_def get_release_def svc_simps intro!: evolves_same split: option.split)

definition status_step :: "release \<Rightarrow> release \<Rightarrow> bool" where
  "status_step r r' \<longleftrightarrow> reach release_table (rl_status r) (rl_status r')"

text \<open>The shape of the checklist, the type, and the time of release, which is set once it is needed.\<close>

definition checklist_shape :: "release_check list \<Rightarrow> (string \<times> string \<times> bool) list" where
  "checklist_shape cs = List.map (\<lambda>c. (rc_check_id c, rc_name c, rc_required c)) cs"

definition same_shape :: "release \<Rightarrow> release \<Rightarrow> bool" where
  "same_shape r r' \<longleftrightarrow> rl_type r' = rl_type r \<and>
     checklist_shape (ev_checklist (rl_evidence r')) = checklist_shape (ev_checklist (rl_evidence r))"

lemma update_check_shape: "checklist_shape (update_check cs i st msg) = checklist_shape cs"
  by (induction cs) (auto simp: checklist_shape_def)

lemma evolves_transition:
  assumes "\<And>r st. st \<in> set (release_table (rl_status r)) \<Longrightarrow> P r (r\<lparr>rl_status := st\<rparr>)" and "\<And>r. P r r"
  shows "related (evolves P) (release_transition i to)"
  using assms
  by (auto simp: related_def release_transition_def get_release_def svc_simps release_move_def rl_touch_def
      rl_modify_def sv_persist_def evolves_def release_at_def od.get_put split: option.split)

fun creates :: "release_op \<Rightarrow> bool" where
  "creates (RlCreate i now v t desc) = True"
| "creates op = False"

lemma creates_iff: "creates op \<longleftrightarrow> (\<exists>i now v t desc. op = RlCreate i now v t desc)"
  by (cases op) auto

text \<open>
  A two-state relation that the basic steps of the service respect is respected by every operation but
  the creation of a release.  \<open>ok\<close> says which changes of a release the relation admits.
\<close>

locale release_relation =
  fixes R :: "release_st \<Rightarrow> release_st \<Rightarrow> bool" and ok :: "release \<Rightarrow> release \<Rightarrow> bool"
  assumes R_refl: "R s s" and R_trans: "R s t \<Longrightarrow> R t u \<Longrightarrow> R s u"
    and R_persist: "related R (sv_persist :: unit release_svc)"
    and R_other: "(\<And>m. rm_releases (f m) = rm_releases m) \<Longrightarrow> related R (rl_modify f)"
    and R_touch: "(\<And>r. ok r (g r)) \<Longrightarrow> related R (rl_touch i g)"
    and R_move: "related R (release_transition i to)"
    and ok_rc: "ok r (r\<lparr>rl_rc_version := v\<rparr>)"
    and ok_by: "ok r (r\<lparr>rl_released_by := b\<rparr>)"
    and ok_at: "ok r (r\<lparr>rl_released_at := Some now\<rparr>)"
    and ok_gate: "ok r (r\<lparr>rl_evidence := (rl_evidence r)\<lparr>ev_gate_passed := p\<rparr>\<rparr>)"
    and ok_check: "ok r (r\<lparr>rl_evidence := (rl_evidence r)\<lparr>ev_checklist :=
        update_check (ev_checklist (rl_evidence r)) c st msg\<rparr>\<rparr>)"
begin

lemmas bind = related_bind [of R, OF R_trans]
lemmas pure = related_pure [of R, OF R_refl]

lemma check: "related R (set_check i c st msg)"
  unfolding set_check_def by (rule R_touch) (rule ok_check)

lemma get: "related R (get_release i)"
  unfolding get_release_def by (rule bind) (auto intro: pure split: option.split)

lemma void: "related R m \<Longrightarrow> related R (sv_void m)"
  unfolding sv_void_def by (intro bind pure)

lemma gate: "related R (apply_gate i res)"
  unfolding apply_gate_def by (intro bind R_touch ok_gate check R_persist)

lemma auto_gate: "related R (auto_evaluate_gate scans policy i)"
  unfolding auto_evaluate_gate_def
  by (cases scans) (auto intro!: bind pure check R_persist gate split: option.split)

lemma rollback: "related R (rollback_create i now rel reason t target b)" "related R (rollback_update j f)"
  by (auto simp: rollback_create_def rollback_update_def Let_def intro!: bind pure R_other R_persist split: option.split)

lemma exe: "related R (record_execution e)"
  unfolding record_execution_def by (auto intro!: bind pure R_persist R_other)

lemma sync: "related R (sync_dry_run i now rule files v)" "related R (sync_execute i now rule files v)"
  by (auto simp: sync_dry_run_def sync_execute_def Let_def intro!: bind pure exe split: option.split)

lemma rules: "related R (add_sync_rule rule)" "related R (remove_rule i)"
  unfolding add_sync_rule_def remove_rule_def by (auto intro!: bind pure R_persist R_other)

lemma publish: "related R (publish i b now)"
  unfolding publish_def by (auto intro!: bind pure get R_move R_persist R_touch ok_by ok_at)

lemma cut: "related R (cut_rc i v)"
  unfolding cut_rc_def by (auto intro!: bind pure get R_move R_touch ok_rc)

lemma initiate: "related R (initiate_rollback i now rel reason t target b)"
  unfolding initiate_rollback_def by (auto intro!: bind pure get R_move R_persist rollback void)

lemma validate: "related R (start_validation scans policy i)"
  unfolding start_validation_def by (intro bind R_move auto_gate get)

lemma update: "related R (release_update_check i c st msg)"
  unfolding release_update_check_def by (intro bind get check R_persist)

lemma apply_sec: "related R (apply_component_security_gate i run s p)"
  unfolding apply_component_security_gate_def Let_def by (intro bind get gate pure)

lemma exec: "\<not> creates op \<Longrightarrow> related R (release_exec op)"
  by (cases op) (auto simp: void R_move cut validate publish update apply_sec rules sync rollback initiate
      rollback_approve_def rollback_complete_step_def rollback_complete_def rollback_fail_def)

lemma run: "\<not> creates op \<Longrightarrow> R d (release_run op d)"
  using exec by (simp add: release_run_def related_def)

end

text \<open>Relations between what a release was and what it is.\<close>

locale release_change =
  fixes P :: "release \<Rightarrow> release \<Rightarrow> bool"
  assumes P_refl: "P r r" and P_trans: "P x y \<Longrightarrow> P y z \<Longrightarrow> P x z"
    and P_status: "to \<in> set (release_table (rl_status r)) \<Longrightarrow> P r (r\<lparr>rl_status := to\<rparr>)"
    and P_rc: "P r (r\<lparr>rl_rc_version := v\<rparr>)"
    and P_by: "P r (r\<lparr>rl_released_by := b\<rparr>)"
    and P_at: "P r (r\<lparr>rl_released_at := Some now\<rparr>)"
    and P_gate: "P r (r\<lparr>rl_evidence := (rl_evidence r)\<lparr>ev_gate_passed := p\<rparr>\<rparr>)"
    and P_check: "P r (r\<lparr>rl_evidence := (rl_evidence r)\<lparr>ev_checklist :=
        update_check (ev_checklist (rl_evidence r)) c st msg\<rparr>\<rparr>)"

sublocale release_change \<subseteq> release_relation "evolves P" P
proof unfold_locales
  fix s t u :: release_st
  show "evolves P s s" by (rule evolves_refl) (rule P_refl)
  show "evolves P s t \<Longrightarrow> evolves P t u \<Longrightarrow> evolves P s u" by (rule evolves_trans [OF P_trans])
next
  show "related (evolves P) (sv_persist :: unit release_svc)" by (rule evolves_persist) (rule P_refl)
next
  fix f :: "release_mem \<Rightarrow> release_mem"
  assume "\<And>m. rm_releases (f m) = rm_releases m"
  then show "related (evolves P) (rl_modify f)"
    unfolding rl_modify_def by (intro related_modify evolves_same) (simp_all add: P_refl)
next
  fix g i
  assume "\<And>r. P r (g r)"
  with P_refl show "related (evolves P) (rl_touch i g)" by (rule evolves_touch)
next
  fix i to
  show "related (evolves P) (release_transition i to)" by (rule evolves_transition) (rule P_status P_refl, assumption?)+
qed (rule P_rc P_by P_at P_gate P_check)+

interpretation status_change: release_change status_step
  by unfold_locales (auto simp: status_step_def intro: reach_edge reach_trans)

interpretation shape_change: release_change same_shape
  by unfold_locales (auto simp: same_shape_def update_check_shape)

text \<open>No operation configures or removes the store.\<close>

definition keeps_store :: "release_st \<Rightarrow> release_st \<Rightarrow> bool" where
  "keeps_store d d' \<longleftrightarrow> (saved d' = None \<longleftrightarrow> saved d = None)"

interpretation store_kept: release_relation keeps_store "\<lambda>r r'. True"
  by unfold_locales
    (auto simp: related_def keeps_store_def svc_simps sv_persist_def rl_modify_def rl_touch_def
      release_transition_def get_release_def split: option.split sum.split)

text \<open>Only \<open>create_release\<close> adds a record, and a new record is the planned one it builds.\<close>

definition planned :: "string \<Rightarrow> int \<Rightarrow> string \<Rightarrow> release_type \<Rightarrow> string \<Rightarrow> release" where
  "planned i now version t description = \<lparr>rl_id = i, rl_version = version, rl_type = t, rl_status = RS_Planned,
     rl_created_at = now, rl_released_at = None, rl_released_by = [],
     rl_evidence = \<lparr>ev_gate_passed = False, ev_checklist = build_checklist t\<rparr>,
     rl_description = description, rl_rc_version = [], rl_tenant_id = None\<rparr>"

lemma create_run: "release_run (RlCreate i now v t desc) d =
    persist (d\<lparr>live := (live d)\<lparr>rm_releases := od_put i (planned i now v t desc) (rm_releases (live d))\<rparr>\<rparr>)"
  by (simp add: release_run_def create_release_def planned_def Let_def svc_simps rl_modify_def sv_persist_def)

lemma release_step_cases:
  obtains (create) i now v t desc where "op = RlCreate i now v t desc" "release_at d i = None"
      "\<And>j. release_at (release_step op d) j = (if j = i then Some (planned i now v t desc) else release_at d j)"
  | (evolve) "evolves status_step d (release_step op d)" "evolves same_shape d (release_step op d)"
proof (cases "\<exists>i now v t desc. op = RlCreate i now v t desc")
  case True
  then obtain i now v t desc where op: "op = RlCreate i now v t desc" by blast
  show ?thesis
  proof (cases "release_at d i = None")
    case True
    with op show ?thesis
      by (intro create [of i now v t desc]) (auto simp: release_step_def release_at_def create_run od.get_put)
  next
    case False
    with op have "release_step op d = d" by (auto simp: release_step_def release_at_def)
    then show ?thesis by (intro evolve) (simp_all add: status_change.R_refl shape_change.R_refl)
  qed
next
  case False
  then have "fresh_release op d" by (cases op) auto
  with False show ?thesis by (intro evolve) (auto simp: release_step_def creates_iff intro!: status_change.run shape_change.run)
qed

lemma release_status_evolves:
  assumes "evolves status_step d d'" and "release_status_at d i = Some s" and "release_status_at d' i = Some t"
  shows "reach release_table s t"
proof -
  from assms(2) obtain r where r: "release_at d i = Some r" "rl_status r = s" by (auto simp: release_status_at_def)
  with assms(1) obtain r' where "release_at d' i = Some r'" "status_step r r'" unfolding evolves_def by blast
  with r(2) assms(3) show ?thesis by (simp add: release_status_at_def status_step_def)
qed

interpretation release_moves: transition_table release_table release_move
  by unfold_locales (simp_all add: release_move_def)

interpretation releases: lifecycle_service release_table release_move release_step release_status_at
proof unfold_locales
  fix d :: release_st and i s op t
  assume st: "release_status_at d i = Some s" "release_status_at (release_step op d) i = Some t"
  show "reach release_table s t"
  proof (cases op d rule: release_step_cases)
    case (create j now v ty desc)
    with st show ?thesis by (auto simp: release_status_at_def split: if_splits)
  next
    case evolve
    from release_status_evolves [OF evolve(1) st] show ?thesis .
  qed
qed

lemma release_stays: "release_status_at d i \<noteq> None \<Longrightarrow> release_status_at (release_step op d) i \<noteq> None"
proof (cases op d rule: release_step_cases)
  case evolve
  assume "release_status_at d i \<noteq> None"
  with evolve(1) show ?thesis unfolding evolves_def release_status_at_def by fastforce
qed (simp add: release_status_at_def)

lemma release_along: "release_status_at d i \<noteq> None \<Longrightarrow> along release_step (\<lambda>d. release_status_at d i \<noteq> None) ops d"
  by (induction ops arbitrary: d) (use release_stays in auto)

definition release_empty :: "release_mem option \<Rightarrow> release_st" where
  "release_empty store = \<lparr>live = empty_mem, saved = store\<rparr>"

text \<open>Every stored checklist has the checks of its release type.\<close>

definition well_formed :: "release \<Rightarrow> bool" where
  "well_formed r \<longleftrightarrow> checklist_shape (ev_checklist (rl_evidence r)) = checklist_shape (build_checklist (rl_type r))"

definition all_well_formed :: "release_st \<Rightarrow> bool" where
  "all_well_formed d \<longleftrightarrow> (\<forall>i r. release_at d i = Some r \<longrightarrow> well_formed r)"

lemma evolves_well_formed: "evolves same_shape d d' \<Longrightarrow> all_well_formed d \<Longrightarrow> all_well_formed d'"
  unfolding all_well_formed_def well_formed_def evolves_def same_shape_def
  by (metis not_None_eq option.inject)

lemma well_formed_step: "all_well_formed d \<Longrightarrow> all_well_formed (release_step op d)"
proof (cases op d rule: release_step_cases)
  case (create j now v ty desc)
  assume "all_well_formed d"
  with create(3) show ?thesis by (auto simp: all_well_formed_def well_formed_def planned_def split: if_splits)
next
  case evolve
  assume "all_well_formed d"
  with evolve(2) show ?thesis by (rule evolves_well_formed)
qed

lemma well_formed_history: "all_well_formed (fold release_step ops (release_empty store))"
proof (rule fold_invariant)
  show "all_well_formed (release_empty store)"
    by (simp add: all_well_formed_def release_at_def release_empty_def empty_mem_def)
qed (rule well_formed_step)

section \<open>Publishing\<close>

lemma evaluate_checks_empty:
  "evaluate_checks cs = [] \<longleftrightarrow> (\<forall>c \<in> set cs. rc_required c \<longrightarrow> rc_status c \<in> {CS_Pass, CS_NA})"
  by (induction cs) auto

lemma get_release_eq: "get_release i d = (case release_at d i of None \<Rightarrow> (Inl (ReleaseNotFound i), d) | Some r \<Rightarrow> (Inr r, d))"
  by (auto simp: get_release_def release_at_def svc_simps split: option.split)

lemma release_at_persist [simp]: "release_at (persist d) i = release_at d i"
  by (simp add: release_at_def)

lemma touch_eq: "rl_touch i f d = (Inr (), case release_at d i of None \<Rightarrow> d
    | Some r \<Rightarrow> d\<lparr>live := (live d)\<lparr>rm_releases := od_put i (f r) (rm_releases (live d))\<rparr>\<rparr>)"
  by (auto simp: rl_touch_def rl_modify_def sv_modify_def release_at_def split: option.split)

lemma touch_at: "release_at (snd (rl_touch i f d)) j = (if j = i then map_option f (release_at d i) else release_at d j)"
  by (auto simp: touch_eq release_at_def od.get_put split: option.split)

lemma publish_ok:
  assumes "publish i by now d = (Inr r, d')"
  obtains r0 where "release_at d i = Some r0" "rl_status r0 = RS_Validating"
    "\<forall>c \<in> set (ev_checklist (rl_evidence r0)). rc_required c \<longrightarrow> rc_status c \<in> {CS_Pass, CS_NA}"
    "r = r0\<lparr>rl_status := RS_Released, rl_released_by := by, rl_released_at := Some now\<rparr>"
    "release_at d' i = Some r" "synced d'"
proof (cases "release_at d i")
  case None
  with assms show ?thesis by (simp add: publish_def sv_bind_def get_release_eq)
next
  case (Some r0)
  have pre: "evaluate_checks (ev_checklist (rl_evidence r0)) = []" "RS_Released \<in> set (release_table (rl_status r0))"
    using assms Some by (auto simp: publish_def sv_bind_def get_release_eq evaluate_checklist_def Let_def svc_simps
        release_transition_def release_move_def split: if_splits)
  then have st: "rl_status r0 = RS_Validating" by (cases "rl_status r0") auto
  have run: "publish i by now d = (Inr (r0\<lparr>rl_status := RS_Released, rl_released_by := by, rl_released_at := Some now\<rparr>),
      persist (snd (rl_touch i (\<lambda>r. r\<lparr>rl_released_at := Some now\<rparr>) (snd (rl_touch i (\<lambda>r. r\<lparr>rl_released_by := by\<rparr>)
        (persist (snd (rl_touch i (\<lambda>r. r\<lparr>rl_status := RS_Released\<rparr>) d))))))))"
    using Some pre st
    by (simp add: publish_def evaluate_checklist_def release_transition_def release_move_def sv_bind_def sv_lift_def
        sv_persist_def sv_modify_def get_release_eq touch_eq release_at_def od.get_put Let_def)
  show ?thesis
  proof (rule that [OF Some st])
    show "\<forall>c \<in> set (ev_checklist (rl_evidence r0)). rc_required c \<longrightarrow> rc_status c \<in> {CS_Pass, CS_NA}"
      using pre(1) by (simp add: evaluate_checks_empty)
    show "r = r0\<lparr>rl_status := RS_Released, rl_released_by := by, rl_released_at := Some now\<rparr>"
      using assms run by simp
    show "release_at d' i = Some r" using assms run Some by (auto simp: touch_at)
    show "synced d'" using assms run by auto
  qed
qed

section \<open>The durable copy\<close>

lemma nr_modify: "never_raises (rl_modify f)" "never_raises (rl_touch i g)"
  by (simp_all add: never_raises_def rl_touch_def rl_modify_def sv_modify_def)

lemma nr_check: "never_raises (set_check i c st msg)"
  unfolding set_check_def by (rule nr_modify)

lemma wt_get: "writes_through (get_release i)"
  by (auto simp: writes_through_def get_release_eq split: option.split)

lemmas wt_rules = wt_pure wt_get cleans_persist [THEN cleans_wt]
lemmas clean_rules = cleans_persist cleans_first [OF cleans_persist]

lemma wt_transition: "writes_through (release_transition i to)"
  unfolding release_transition_def
  by (intro wt_bind [OF wt_get] wt_bind [OF wt_pure(4)] wt_later nr_modify clean_rules wt_rules)

lemma cl_gate: "cleans (apply_gate i res)"
  unfolding apply_gate_def by (intro cleans_later nr_modify nr_check clean_rules)

lemma wt_auto: "writes_through (auto_evaluate_gate scans policy i)"
  unfolding auto_evaluate_gate_def
  by (cases scans) (auto intro!: wt_pure wt_later nr_check clean_rules cleans_wt [OF cl_gate] split: option.split)

lemma cl_rollback_create: "cleans (rollback_create i now rel reason t target by)"
  unfolding rollback_create_def Let_def by (intro cleans_later nr_modify clean_rules wt_rules)

lemma wt_rollback_update: "writes_through (rollback_update i f)"
  unfolding rollback_update_def
  by (intro wt_bind wt_pure) (auto intro!: wt_pure wt_later nr_modify clean_rules split: option.split)

lemma cl_record: "cleans (record_execution e)"
  unfolding record_execution_def by (intro cleans_later nr_modify clean_rules wt_rules)

text \<open>The one operation that does not write through: a release candidate with a version.\<close>

fun writes :: "release_op \<Rightarrow> bool" where
  "writes (RlCutRc i v) = (v = [])"
| "writes op = True"

lemma wt_exec: "writes op \<Longrightarrow> writes_through (release_exec op)"
proof (cases op)
  case (RlCreate i now v t desc)
  then show ?thesis
    by (simp add: create_release_def Let_def)
      (intro wt_void wt_later nr_modify clean_rules wt_rules)
next
  case (RlCutRc i v)
  moreover assume "writes op"
  ultimately show ?thesis
    by (simp add: cut_rc_def) (intro wt_void wt_bind wt_transition wt_rules)
next
  case (RlPublish i b now)
  have "writes_through (publish i b now)"
    unfolding publish_def
    by (rule wt_bind [OF wt_get]) (auto intro!: wt_pure wt_bind [OF wt_transition] wt_later nr_modify cleans_later clean_rules wt_get)
  with RlPublish show ?thesis by (simp add: wt_void)
next
  case (RlApplyGate i run s p)
  have "writes_through (apply_component_security_gate i run s p)"
    unfolding apply_component_security_gate_def Let_def
    by (intro wt_bind [OF wt_get] wt_bind [OF cleans_wt [OF cl_gate]] wt_pure)
  with RlApplyGate show ?thesis by (simp add: wt_void)
next
  case (RlUpdateCheck i c st msg)
  have "writes_through (release_update_check i c st msg)"
    unfolding release_update_check_def
    by (intro wt_bind [OF wt_get] wt_later nr_check clean_rules wt_get)
  with RlUpdateCheck show ?thesis by (simp add: wt_void)
next
  case (RlAddRule rule)
  have "writes_through (add_sync_rule rule)"
    unfolding add_sync_rule_def by (intro wt_later nr_modify clean_rules wt_rules)
  with RlAddRule show ?thesis by (simp add: wt_void)
next
  case (RlRemoveRule i)
  have "writes_through (remove_rule i)"
    unfolding remove_rule_def
    by (intro wt_bind wt_pure) (auto intro!: wt_pure wt_later nr_modify clean_rules)
  with RlRemoveRule show ?thesis by (simp add: wt_void)
next
  case (RlDryRun i now rule files v)
  have "writes_through (sync_dry_run i now rule files v)"
    unfolding sync_dry_run_def
    by (intro wt_bind wt_pure) (auto simp: Let_def intro!: cleans_wt [OF cl_record] split: option.split)
  with RlDryRun show ?thesis by (simp add: wt_void)
next
  case (RlSync i now rule files v)
  have "writes_through (sync_execute i now rule files v)"
    unfolding sync_execute_def
    by (intro wt_bind wt_pure) (auto simp: Let_def intro!: cleans_wt [OF cl_record] split: option.split)
  with RlSync show ?thesis by (simp add: wt_void)
next
  case (RlInitiate i now rel reason t target b)
  have "writes_through (initiate_rollback i now rel reason t target b)"
    unfolding initiate_rollback_def
    by (rule wt_bind [OF wt_get])
      (auto intro!: wt_bind [OF cleans_wt [OF cl_rollback_create]] wt_bind [OF wt_void [OF wt_transition]]
        wt_bind [OF wt_pure(1)] wt_bind [OF cleans_wt [OF cleans_persist]] wt_get)
  with RlInitiate show ?thesis by (simp add: wt_void)
qed (simp_all add: start_validation_def rollback_approve_def rollback_complete_step_def rollback_complete_def
    rollback_fail_def wt_void wt_transition wt_bind wt_auto wt_get wt_rollback_update cleans_wt [OF cl_rollback_create])

lemma saved_run: "saved (release_run op d) = None \<longleftrightarrow> saved d = None"
proof (cases "\<exists>i now v t desc. op = RlCreate i now v t desc")
  case True
  then show ?thesis by (auto simp: create_run)
next
  case False
  then have "keeps_store d (release_run op d)" by (intro store_kept.run) (simp add: creates_iff)
  then show ?thesis by (simp add: keeps_store_def)
qed

interpretation release_store: write_through release_run writes
proof unfold_locales
  fix op and d :: release_st
  assume "writes op" and "synced d"
  with wt_exec show "synced (release_run op d)" by (simp add: writes_through_def release_run_def)
next
  fix op and d :: release_st
  show "saved (release_run op d) = None \<longleftrightarrow> saved d = None"
    by (rule saved_run)
qed

section \<open>Single checks\<close>

definition check_in :: "release \<Rightarrow> string \<Rightarrow> release_check option" where
  "check_in r c = find (\<lambda>k. rc_check_id k = c) (ev_checklist (rl_evidence r))"

lemma find_update_check: "find (\<lambda>k. rc_check_id k = c) (update_check cs c st msg) =
    map_option (\<lambda>k. k\<lparr>rc_status := st, rc_message := (if msg = [] then rc_message k else msg)\<rparr>)
      (find (\<lambda>k. rc_check_id k = c) cs)"
  by (induction cs) auto

lemma check_in_shape:
  assumes "well_formed r" and "(c, name, req) \<in> set (checklist_shape (build_checklist (rl_type r)))"
  obtains k where "k \<in> set (ev_checklist (rl_evidence r))" "rc_check_id k = c" "rc_required k = req"
proof -
  have "(c, name, req) \<in> set (checklist_shape (ev_checklist (rl_evidence r)))"
    using assms by (simp add: well_formed_def)
  then show ?thesis unfolding checklist_shape_def by (auto intro: that)
qed

lemma check_in_some:
  assumes "well_formed r" and "(c, name, req) \<in> set (checklist_shape (build_checklist (rl_type r)))"
  shows "\<exists>k. check_in r c = Some k"
proof -
  obtain k where "k \<in> set (ev_checklist (rl_evidence r))" "rc_check_id k = c"
    using assms by (rule check_in_shape)
  then have "find (\<lambda>k. rc_check_id k = c) (ev_checklist (rl_evidence r)) \<noteq> None"
    by (auto simp: find_None_iff)
  then show ?thesis by (auto simp: check_in_def)
qed

text \<open>The checks a release of each type must pass.\<close>

definition mandatory :: "release_type \<Rightarrow> string list" where
  "mandatory t = [''RL-01'', ''RL-02'', ''RL-03'', ''RL-04'', ''RL-05'', ''RL-06'', ''RL-08''] @
     (if t = RT_Major then [''RL-07''] else [])"

lemma mandatory_listed: "list_all (\<lambda>c. list_ex (\<lambda>(d, name, req). d = c \<and> req) (checklist_shape (build_checklist t))) (mandatory t)"
proof (cases t)
  case RT_Patch
  show ?thesis unfolding RT_Patch by code_simp
next
  case RT_Minor
  show ?thesis unfolding RT_Minor by code_simp
next
  case RT_Major
  show ?thesis unfolding RT_Major by code_simp
qed

lemma mandatory_required: "c \<in> set (mandatory t) \<Longrightarrow> \<exists>name. (c, name, True) \<in> set (checklist_shape (build_checklist t))"
  using mandatory_listed [of t] by (fastforce simp: list_all_iff list_ex_iff split: prod.splits)

lemma security_check_listed: "\<exists>name. (''RL-06'', name, True) \<in> set (checklist_shape (build_checklist t))"
  by (rule mandatory_required) (simp add: mandatory_def)

definition put_check :: "string \<Rightarrow> check_status \<Rightarrow> string \<Rightarrow> release \<Rightarrow> release" where
  "put_check c st msg r = r\<lparr>rl_evidence := (rl_evidence r)\<lparr>ev_checklist :=
     update_check (ev_checklist (rl_evidence r)) c st msg\<rparr>\<rparr>"

lemma set_check_at: "release_at (snd (set_check i c st msg d)) i = map_option (put_check c st msg) (release_at d i)"
  unfolding set_check_def touch_at by (simp add: put_check_def [abs_def])

lemma set_check_then: "sv_bind (set_check i c st msg) f d = f () (snd (set_check i c st msg d))"
  by (simp add: sv_bind_def set_check_def touch_eq)

lemma touch_then: "sv_bind (rl_touch i g) f d = f () (snd (rl_touch i g d))"
  by (simp add: sv_bind_def touch_eq)

lemma persist_then: "sv_persist d = (Inr (), persist d)"
  by (simp add: sv_persist_def sv_modify_def)

section \<open>Properties\<close>

text \<open>Over any history of release calls a release is never lost, and its status only moves along
  the release lifecycle.\<close>

theorem release_history_lifecycle:
  assumes "release_status_at d i = Some s"
  shows "\<exists>t. release_status_at (fold release_step ops d) i = Some t \<and> reach release_table s t"
  using assms release_along [of d i ops] by (intro releases.history_reach) auto

definition demo_release :: "release_op list" where
  "demo_release = [RlCreate ''r1'' 1 ''1.0'' RT_Minor [], RlTransition ''r1'' RS_Frozen, RlCutRc ''r1'' ''rc1'',
     RlValidate (CompletedRuns [\<lparr>sn_id = ''s1'', sn_candidate = ''r1'',
        sn_summary = \<lparr>fd_critical = 0, fd_high = 0, fd_medium = 3, fd_low = 7, fd_info = 0\<rparr>\<rparr>]) default_policy ''r1''] @
     List.map (\<lambda>c. RlUpdateCheck ''r1'' c CS_Pass []) [''RL-01'', ''RL-02'', ''RL-03'', ''RL-04'', ''RL-05'', ''RL-08'']"

definition demo_state :: release_st where
  "demo_state = fold release_step demo_release (release_empty (Some empty_mem))"

lemma demo_status: "release_status_at demo_state ''r1'' = Some RS_Validating"
  by code_simp

theorem release_history_lifecycle_witness:
  "\<exists>t. release_status_at (fold release_step [RlPublish ''r1'' ''ann'' 9] demo_state) ''r1'' = Some t \<and> reach release_table RS_Validating t"
  by (rule release_history_lifecycle) (rule demo_status)

lemma published_checks:
  assumes "all_well_formed d" and "publish i who now d = (Inr r, d')"
  shows "release_status_at d i = Some RS_Validating" and "rl_status r = RS_Released"
    and "c \<in> set (mandatory (rl_type r)) \<Longrightarrow>
      \<exists>k \<in> set (ev_checklist (rl_evidence r)). rc_check_id k = c \<and> rc_status k \<in> {CS_Pass, CS_NA}"
proof -
  from assms(2) obtain r0 where r0: "release_at d i = Some r0" "rl_status r0 = RS_Validating"
    and ok: "\<forall>k \<in> set (ev_checklist (rl_evidence r0)). rc_required k \<longrightarrow> rc_status k \<in> {CS_Pass, CS_NA}"
    and r: "r = r0\<lparr>rl_status := RS_Released, rl_released_by := who, rl_released_at := Some now\<rparr>"
    by (rule publish_ok)
  from r0 show "release_status_at d i = Some RS_Validating" by (simp add: release_status_at_def)
  from r show "rl_status r = RS_Released" by simp
  assume "c \<in> set (mandatory (rl_type r))"
  then obtain name where "(c, name, True) \<in> set (checklist_shape (build_checklist (rl_type r0)))"
    using mandatory_required r by fastforce
  moreover have "well_formed r0" using assms(1) r0 by (auto simp: all_well_formed_def)
  ultimately obtain k where "k \<in> set (ev_checklist (rl_evidence r0))" "rc_check_id k = c" "rc_required k"
    by (auto elim: check_in_shape)
  with ok r show "\<exists>k \<in> set (ev_checklist (rl_evidence r)). rc_check_id k = c \<and> rc_status k \<in> {CS_Pass, CS_NA}"
    by auto
qed

text \<open>C12: After any history of release calls, publishing succeeds only for a release under validation, and
  then every check that is mandatory for its type is on its list as passed or not applicable.\<close>

theorem published_releases_are_checked:
  assumes "publish i who now (fold release_step ops (release_empty store)) = (Inr r, d')"
  shows "release_status_at (fold release_step ops (release_empty store)) i = Some RS_Validating \<and>
    rl_status r = RS_Released \<and>
    (\<forall>c \<in> set (mandatory (rl_type r)). \<exists>k \<in> set (ev_checklist (rl_evidence r)).
       rc_check_id k = c \<and> rc_status k \<in> {CS_Pass, CS_NA})"
  using published_checks [OF well_formed_history assms] by blast

definition demo_published :: release where
  "demo_published = (case publish ''r1'' ''ann'' 9 demo_state of (Inr r, d) \<Rightarrow> r | (Inl e, d) \<Rightarrow> planned [] 0 [] RT_Minor [])"

lemma demo_publish: "fst (publish ''r1'' ''ann'' 9 demo_state) = Inr demo_published"
  by code_simp

theorem published_releases_are_checked_witness:
  "list_all (\<lambda>c. list_ex (\<lambda>k. rc_check_id k = c \<and> (rc_status k = CS_Pass \<or> rc_status k = CS_NA))
     (ev_checklist (rl_evidence demo_published))) (mandatory (rl_type demo_published))"
proof -
  have "publish ''r1'' ''ann'' 9 (fold release_step demo_release (release_empty (Some empty_mem))) =
      (Inr demo_published, snd (publish ''r1'' ''ann'' 9 demo_state))"
    using demo_publish unfolding demo_state_def by (metis prod.collapse)
  from published_releases_are_checked [OF this] show ?thesis by (auto simp: list_all_iff list_ex_iff)
qed

text \<open>The component security gate passes exactly when no blocked severity exceeds its threshold.\<close>

theorem security_gate_thresholds:
  "gr_pass (evaluate_security_gate run s p) \<longleftrightarrow>
   \<not> (gp_block_on_critical p \<and> 0 < fd_critical s) \<and> \<not> (gp_block_on_high p \<and> gp_max_high p < fd_high s) \<and>
   fd_medium s \<le> gp_max_medium p"
  by (auto simp: evaluate_security_gate_def gate_violations_def Let_def)

text \<open>A transition touches the status and nothing else.\<close>

lemma transition_ok:
  assumes "release_transition i to d = (Inr r, d')"
  obtains r0 where "release_at d i = Some r0" "to \<in> set (release_table (rl_status r0))"
    "r = r0\<lparr>rl_status := to\<rparr>" "release_at d' i = Some r"
  using assms
  by (auto simp: release_transition_def get_release_eq sv_bind_def sv_lift_def release_move_def touch_eq sv_persist_def
      sv_modify_def release_at_def od.get_put split: option.splits if_splits)

lemma check_in_put: "check_in (put_check c st msg r) c =
    map_option (\<lambda>k. k\<lparr>rc_status := st, rc_message := (if msg = [] then rc_message k else msg)\<rparr>) (check_in r c)"
  by (simp add: check_in_def find_update_check put_check_def)

text \<open>The answer of the scan service that lets the security check pass.\<close>

fun scan_passes :: "scans \<Rightarrow> gate_policy \<Rightarrow> string \<Rightarrow> bool" where
  "scan_passes (CompletedRuns runs) policy i = (case candidate_run i runs of
      None \<Rightarrow> False | Some run \<Rightarrow> gr_pass (evaluate_security_gate (sn_id run) (sn_summary run) policy))"
| "scan_passes _ policy i = False"

lemma apply_gate_status:
  assumes "release_at d i = Some r" and "check_in r ''RL-06'' = Some k0"
  shows "\<exists>d2 r' k. apply_gate i res d = (Inr (), d2) \<and> release_at d2 i = Some r' \<and>
    check_in r' ''RL-06'' = Some k \<and> rc_status k = (if gr_pass res then CS_Pass else CS_Fail)"
proof -
  define r1 where "r1 = r\<lparr>rl_evidence := (rl_evidence r)\<lparr>ev_gate_passed := gr_pass res\<rparr>\<rparr>"
  define d1 where "d1 = snd (rl_touch i (\<lambda>r. r\<lparr>rl_evidence := (rl_evidence r)\<lparr>ev_gate_passed := gr_pass res\<rparr>\<rparr>) d)"
  have "release_at d1 i = Some r1" unfolding d1_def r1_def by (simp only: touch_at assms(1)) simp
  moreover have "check_in r1 ''RL-06'' = Some k0" using assms(2) by (simp add: r1_def check_in_def)
  moreover have "apply_gate i res d = (Inr (), persist (snd (set_check i ''RL-06''
      (if gr_pass res then CS_Pass else CS_Fail) (gr_message res) d1)))"
    unfolding apply_gate_def d1_def by (simp only: touch_then set_check_then persist_then)
  ultimately show ?thesis
    by (simp add: set_check_at check_in_put)
qed

lemma auto_gate_status:
  assumes "scans \<noteq> NoScanService" and "release_at d i = Some r" and "check_in r ''RL-06'' = Some k0"
  shows "\<exists>d2 r' k. auto_evaluate_gate scans policy i d = (Inr (), d2) \<and>
    release_at d2 i = Some r' \<and> check_in r' ''RL-06'' = Some k \<and>
    rc_status k = (if scan_passes scans policy i then CS_Pass else CS_Fail)"
proof (cases scans)
  case ScanLookupFails
  with assms(2,3) show ?thesis
    by (simp add: auto_evaluate_gate_def set_check_then set_check_at persist_then check_in_put)
next
  case (CompletedRuns runs)
  show ?thesis
  proof (cases "candidate_run i runs")
    case None
    with CompletedRuns assms(2,3) show ?thesis
      by (simp add: auto_evaluate_gate_def set_check_then set_check_at persist_then check_in_put)
  next
    case (Some run)
    with CompletedRuns have run: "auto_evaluate_gate scans policy i d =
        apply_gate i (evaluate_security_gate (sn_id run) (sn_summary run) policy) d"
      "scan_passes scans policy i = gr_pass (evaluate_security_gate (sn_id run) (sn_summary run) policy)"
      by (simp_all add: auto_evaluate_gate_def)
    show ?thesis unfolding run using assms(2,3) by (rule apply_gate_status)
  qed
qed (use assms in simp)



text \<open>With a state store, a restart after any history without a versioned release candidate gives back
  exactly the releases, rules, executions and rollback records that the service held.\<close>

theorem release_restart_loses_nothing:
  assumes "list_all writes ops" and "saved d \<noteq> None" and "synced d"
  shows "restart empty_mem (fold release_run ops d) = fold release_run ops d"
  using assms by (intro release_store.restart_after_history)

theorem release_restart_loses_nothing_witness:
  "restart empty_mem (fold release_run (take 2 demo_release) (release_empty (Some empty_mem))) =
   fold release_run (take 2 demo_release) (release_empty (Some empty_mem))"
  by (rule release_restart_loses_nothing) (simp_all add: demo_release_def release_empty_def synced_def)

text \<open>A dry run under the same rule, files and version reports exactly the file results and counts that
  the execution then produces, and neither changes the rules.\<close>

theorem dry_run_predicts_execution:
  "map_sum id (\<lambda>e. (se_file_results e, se_files_added e, se_errors e)) (fst (sync_dry_run i now rule files v d)) =
   map_sum id (\<lambda>e. (se_file_results e, se_files_added e, se_errors e)) (fst (sync_execute j later rule files v d)) \<and>
   rm_rules (live (snd (sync_dry_run i now rule files v d))) = rm_rules (live d) \<and>
   rm_rules (live (snd (sync_execute j later rule files v d))) = rm_rules (live d)"
  by (auto simp: sync_dry_run_def sync_execute_def record_execution_def missing_rule_def svc_simps rl_modify_def
      sv_persist_def Let_def split: option.split)

text \<open>The language of a pattern.\<close>

definition selected :: "string \<Rightarrow> string \<Rightarrow> bool" where
  "selected pat name = glob_lang (glob_tokens pat) name"

definition slashed :: "string \<Rightarrow> string" where
  "slashed f = py_replace_char (CHR 0x5C) (CHR ''/'') f"

text \<open>File selection keeps the order of the files and selects exactly those whose name, with forward
  slashes, is in the language of the source pattern, of some include pattern if there are any, and of no
  exclude pattern.\<close>

theorem match_files_selects:
  "match_files rule files = filter (\<lambda>f. selected (su_source_pattern rule) (slashed f) \<and>
     (su_include rule = [] \<or> (\<exists>p \<in> set (su_include rule). selected p (slashed f))) \<and>
     \<not> (\<exists>p \<in> set (su_exclude rule). selected p (slashed f))) files"
  unfolding match_files_def
  by (rule filter_cong [OF refl])
    (auto simp: file_matches_def fnmatch_def glob_match_iff selected_def slashed_def list_ex_iff Let_def)

section \<open>What the code allows\<close>

text \<open>A release candidate with a version leaves the durable copy behind: the version is set after the
  transition has persisted the record, and nothing persists it again.\<close>

lemma rc_version_lost:
  "map_option rl_rc_version (release_at (fold release_run (take 3 demo_release) (release_empty (Some empty_mem))) ''r1'') =
     Some ''rc1'' \<and>
   map_option rl_rc_version (release_at (restart empty_mem (fold release_run (take 3 demo_release)
     (release_empty (Some empty_mem)))) ''r1'') = Some []"
  by code_simp

text \<open>A release that was rolled back keeps its checklist: it is published again with no check repeated,
  the security check included where no scan service is wired in.\<close>

lemma republished_unchecked:
  "release_status_at (fold release_step
     [RlPublish ''r1'' ''ann'' 9, RlInitiate ''b1'' 10 ''r1'' ''bad'' RB_Immediate [] ''ann'',
      RlTransition ''r1'' RS_Planned, RlTransition ''r1'' RS_Frozen, RlCutRc ''r1'' [],
      RlValidate NoScanService default_policy ''r1'', RlPublish ''r1'' ''ann'' 11] demo_state) ''r1'' = Some RS_Released"
  by code_simp

text \<open>The result of the security gate can be overwritten by hand, and publishing does not look at it.\<close>

lemma gate_overridden:
  "map_option (\<lambda>r. (rl_status r, ev_gate_passed (rl_evidence r))) (release_at (fold release_step
     [RlApplyGate ''r1'' ''s2'' \<lparr>fd_critical = 4, fd_high = 0, fd_medium = 0, fd_low = 0, fd_info = 0\<rparr> None,
      RlUpdateCheck ''r1'' ''RL-06'' CS_NA [], RlPublish ''r1'' ''ann'' 9] demo_state) ''r1'') = Some (RS_Released, False)"
  by code_simp

text \<open>In the default pattern \<open>core/**/*.md\<close> the two stars are two single stars and the second slash is required.\<close>

lemma default_pattern_skips_top: "\<not> fnmatch ''core/README.md'' ''core/**/*.md'' \<and> fnmatch ''core/a/b.md'' ''core/**/*.md''"
  by code_simp

text \<open>With a target path only the last part of a name is kept, so two sources can share one target.\<close>

lemma sync_targets_collide:
  "List.map fr_target_path (sync_results \<lparr>su_rule_id = ''u'', su_source_pattern = ''*.md'', su_target_repo = ''t'',
     su_target_path = ''docs'', su_include = [], su_exclude = []\<rparr> [''a/README.md'', ''b/README.md'']) =
   [''docs/README.md'', ''docs/README.md'']"
  by code_simp

end
