(* ===== verification/Autonomy.thy ===== *)
theory Autonomy
  imports Lifecycle PyText
begin

text \<open>
  Autonomy budgets (\<open>agent33/autonomy/\<close>): the budget and its scopes (\<open>models.py\<close>), the runtime
  enforcer with its counters (\<open>enforcement.py\<close>), the preflight checks (\<open>preflight.py\<close>), the budgets of
  the four autonomy levels (\<open>levels.py\<close>), the service (\<open>service.py\<close>), and the enforcement step of the
  tool loop (\<open>agents/tool_loop.py\<close>).

  Times are microseconds; \<open>elapsed_minutes() > n\<close> is the exact comparison of the difference with \<open>n\<close>
  minutes, without the rounding of the float division.  \<open>re.match\<close> is an argument: \<open>Some b\<close> is its truth
  value, \<open>None\<close> a raised \<open>re.error\<close>.  An enforcer holds a reference to the budget that the service
  stores under the same id; its methods take that budget as an argument.
\<close>

section \<open>Data\<close>

datatype budget_state = BS_Draft | BS_Pending | BS_Active | BS_Suspended | BS_Expired | BS_Completed | BS_Rejected

datatype stop_action = SA_Stop | SA_Escalate | SA_Warn

datatype urgency = UR_Immediate | UR_Normal | UR_Low

datatype enforcement = EN_Allowed | EN_Blocked | EN_Warned | EN_Escalated

datatype preflight_status = PF_Pass | PF_Fail | PF_Warn

record file_scope =
  fs_read :: "string list"
  fs_write :: "string list"
  fs_deny :: "string list"

record command_permission =
  cp_command :: string
  cp_args_pattern :: string
  cp_max_calls :: int

record network_scope =
  nt_enabled :: bool
  nt_allowed :: "string list"
  nt_denied :: "string list"
  nt_max_requests :: int

record resource_limits =
  li_iterations :: int
  li_minutes :: int
  li_files :: int
  li_lines :: int
  li_tool_calls :: int

record stop_condition =
  sc_id :: string
  sc_description :: string
  sc_action :: stop_action

record escalation_trigger =
  et_id :: string
  et_description :: string
  et_target :: string
  et_urgency :: urgency

record budget =
  bg_id :: string
  bg_task :: string
  bg_agent :: string
  bg_state :: budget_state
  bg_created_at :: int
  bg_expires_at :: "int option"
  bg_approved_by :: string
  bg_in_scope :: "string list"
  bg_out_of_scope :: "string list"
  bg_files :: file_scope
  bg_allowed_commands :: "command_permission list"
  bg_denied_commands :: "string list"
  bg_require_approval :: "string list"
  bg_network :: network_scope
  bg_limits :: resource_limits
  bg_stop_conditions :: "stop_condition list"
  bg_triggers :: "escalation_trigger list"
  bg_target :: string

record enforcement_context =
  ec_started_at :: int
  ec_iterations :: int
  ec_tool_calls :: int
  ec_files :: int
  ec_lines :: int
  ec_requests :: int
  ec_warnings :: "string list"
  ec_violations :: "string list"
  ec_stopped :: bool
  ec_stop_reason :: string

record escalation =
  es_id :: string
  es_budget :: string
  es_description :: string
  es_target :: string
  es_urgency :: urgency
  es_created_at :: int
  es_acknowledged :: bool
  es_resolved :: bool

record enforcer =
  en_context :: enforcement_context
  en_escalations :: "escalation list"

definition new_enforcer :: "int \<Rightarrow> enforcer" where
  "new_enforcer now = \<lparr>en_context = \<lparr>ec_started_at = now, ec_iterations = 0, ec_tool_calls = 0, ec_files = 0,
     ec_lines = 0, ec_requests = 0, ec_warnings = [], ec_violations = [], ec_stopped = False,
     ec_stop_reason = []\<rparr>, en_escalations = []\<rparr>"

section \<open>The runtime enforcer\<close>

datatype autonomy_error =
    BudgetNotFound string
  | InvalidBudgetState budget_state budget_state
  | EnforcerNotFound string
  | EmptyCommand
  | BadPattern

type_synonym 'a enforcer_svc = "(enforcer, autonomy_error, 'a) svc"

definition en_update :: "(enforcement_context \<Rightarrow> enforcement_context) \<Rightarrow> unit enforcer_svc" where
  "en_update f = sv_modify (\<lambda>e. e\<lparr>en_context := f (en_context e)\<rparr>)"

definition add_violation :: "string \<Rightarrow> unit enforcer_svc" where
  "add_violation msg = en_update (\<lambda>c. c\<lparr>ec_violations := ec_violations c @ [msg]\<rparr>)"

definition add_warning :: "string \<Rightarrow> unit enforcer_svc" where
  "add_warning msg = en_update (\<lambda>c. c\<lparr>ec_warnings := ec_warnings c @ [msg]\<rparr>)"

definition mark_stopped :: "string \<Rightarrow> unit enforcer_svc" where
  "mark_stopped reason = en_update (\<lambda>c. c\<lparr>ec_stopped := True, ec_stop_reason := reason\<rparr>)"

text \<open>The new id and the clock reading of an escalation.\<close>

type_synonym stamp = "string \<times> int"

definition escalate :: "budget \<Rightarrow> stamp \<Rightarrow> string \<Rightarrow> string \<Rightarrow> urgency \<Rightarrow> escalation enforcer_svc" where
  "escalate b st description target u =
     (let r = \<lparr>es_id = fst st, es_budget = bg_id b, es_description = description, es_target = target,
               es_urgency = u, es_created_at = snd st, es_acknowledged = False, es_resolved = False\<rparr>
      in sv_bind (sv_modify (\<lambda>e. e\<lparr>en_escalations := en_escalations e @ [r]\<rparr>)) (\<lambda>_. sv_return r))"

definition block_with :: "string \<Rightarrow> enforcement enforcer_svc" where
  "block_with msg = sv_bind (add_violation msg) (\<lambda>_. sv_return EN_Blocked)"

definition stop_with :: "budget \<Rightarrow> stamp \<Rightarrow> string \<Rightarrow> string \<Rightarrow> enforcement enforcer_svc" where
  "stop_with b st reason description = sv_bind (mark_stopped reason) (\<lambda>_.
     sv_bind (escalate b st description ''orchestrator'' UR_Normal) (\<lambda>_. sv_return EN_Blocked))"

definition slashes :: "string \<Rightarrow> string" where
  "slashes s = py_replace_char (CHR 0x5C) (CHR ''/'') s"

definition path_in :: "string list \<Rightarrow> string \<Rightarrow> bool" where
  "path_in patterns normalized = list_ex (\<lambda>p. fnmatch normalized (slashes p)) patterns"

definition check_file_read :: "budget \<Rightarrow> string \<Rightarrow> enforcement enforcer_svc" where
  "check_file_read b path =
     (let normalized = slashes path in
      if path_in (fs_deny (bg_files b)) normalized then block_with (''File read denied: '' @ path)
      else if fs_read (bg_files b) \<noteq> [] \<and> \<not> path_in (fs_read (bg_files b)) normalized
      then block_with (''File read not in allowlist: '' @ path)
      else sv_return EN_Allowed)"

definition check_file_limit :: "budget \<Rightarrow> stamp \<Rightarrow> enforcement enforcer_svc" where
  "check_file_limit b st = sv_bind sv_get (\<lambda>e.
     if li_files (bg_limits b) < ec_files (en_context e)
     then stop_with b st ''SC-07: Max files modified exceeded'' ''Max files modified exceeded''
     else sv_return EN_Allowed)"

definition check_line_limit :: "budget \<Rightarrow> stamp \<Rightarrow> enforcement enforcer_svc" where
  "check_line_limit b st = sv_bind sv_get (\<lambda>e.
     if li_lines (bg_limits b) < ec_lines (en_context e)
     then stop_with b st ''SC-08: Max lines changed exceeded'' ''Max lines changed exceeded''
     else sv_return EN_Allowed)"

definition check_file_write :: "budget \<Rightarrow> stamp \<Rightarrow> string \<Rightarrow> int \<Rightarrow> enforcement enforcer_svc" where
  "check_file_write b st path lines =
     (let normalized = slashes path in
      if path_in (fs_deny (bg_files b)) normalized then block_with (''File write denied: '' @ path)
      else if fs_write (bg_files b) \<noteq> [] \<and> \<not> path_in (fs_write (bg_files b)) normalized
      then block_with (''File write not in allowlist: '' @ path)
      else sv_bind (en_update (\<lambda>c. c\<lparr>ec_files := ec_files c + 1, ec_lines := ec_lines c + lines\<rparr>)) (\<lambda>_.
        sv_bind (check_file_limit b st) (\<lambda>res.
          if res \<noteq> EN_Allowed then sv_return res else check_line_limit b st)))"

definition check_tool_call_limit :: "budget \<Rightarrow> enforcement enforcer_svc" where
  "check_tool_call_limit b = sv_bind sv_get (\<lambda>e.
     if 0 < li_tool_calls (bg_limits b) \<and> li_tool_calls (bg_limits b) < ec_tool_calls (en_context e)
     then sv_bind (mark_stopped ''Max tool calls exceeded'') (\<lambda>_. sv_return EN_Blocked)
     else sv_return EN_Allowed)"

text \<open>The allowlist loop; the arguments are what is left of the command after as many characters as its name has.\<close>

fun command_listed ::
  "(string \<Rightarrow> string \<Rightarrow> bool option) \<Rightarrow> command_permission list \<Rightarrow> string \<Rightarrow> string \<Rightarrow> autonomy_error + bool" where
  "command_listed rematch [] name cmd = Inr False"
| "command_listed rematch (p # ps) name cmd =
     (if cp_command p = name then
        (if cp_args_pattern p \<noteq> [] then
           (case rematch (cp_args_pattern p) (py_strip (drop (length name) cmd)) of
              None \<Rightarrow> Inl BadPattern
            | Some m \<Rightarrow> if \<not> m then command_listed rematch ps name cmd else Inr True)
         else Inr True)
      else command_listed rematch ps name cmd)"

definition command_name :: "string \<Rightarrow> autonomy_error + string" where
  "command_name cmd = (if cmd = [] then Inr []
     else case py_words cmd of [] \<Rightarrow> Inl EmptyCommand | w # _ \<Rightarrow> Inr w)"

definition check_command ::
  "(string \<Rightarrow> string \<Rightarrow> bool option) \<Rightarrow> budget \<Rightarrow> string \<Rightarrow> enforcement enforcer_svc" where
  "check_command rematch b cmd = sv_bind (sv_lift (command_name cmd)) (\<lambda>name.
     if name \<in> set (bg_denied_commands b) then block_with (''Command denied: '' @ name)
     else if name \<in> set (bg_require_approval b)
     then sv_bind (add_warning (''Command requires approval: '' @ name)) (\<lambda>_. sv_return EN_Warned)
     else sv_bind (if bg_allowed_commands b = [] then sv_return True
         else sv_lift (command_listed rematch (bg_allowed_commands b) name cmd)) (\<lambda>allowed.
       if \<not> allowed then block_with (''Command not in allowlist: '' @ name)
       else sv_bind (en_update (\<lambda>c. c\<lparr>ec_tool_calls := ec_tool_calls c + 1\<rparr>)) (\<lambda>_. check_tool_call_limit b)))"

definition domain_in :: "string list \<Rightarrow> string \<Rightarrow> bool" where
  "domain_in ds domain_lower = list_ex (\<lambda>d. domain_lower = py_lower d \<or> py_endswith (CHR ''.'' # py_lower d) domain_lower) ds"

definition check_network :: "budget \<Rightarrow> string \<Rightarrow> enforcement enforcer_svc" where
  "check_network b domain =
     (let domain_lower = py_lower domain; net = bg_network b in
      if \<not> nt_enabled net then block_with ''Network access disabled''
      else if domain_in (nt_denied net) domain_lower then block_with (''Domain denied: '' @ domain)
      else if nt_allowed net \<noteq> [] \<and> \<not> domain_in (nt_allowed net) domain_lower
      then block_with (''Domain not in allowlist: '' @ domain)
      else sv_bind (en_update (\<lambda>c. c\<lparr>ec_requests := ec_requests c + 1\<rparr>)) (\<lambda>_. sv_bind sv_get (\<lambda>e.
        if 0 < nt_max_requests net \<and> nt_max_requests net < ec_requests (en_context e)
        then block_with ''Network request limit exceeded''
        else sv_return EN_Allowed)))"

definition record_iteration :: "budget \<Rightarrow> stamp \<Rightarrow> enforcement enforcer_svc" where
  "record_iteration b st = sv_bind (en_update (\<lambda>c. c\<lparr>ec_iterations := ec_iterations c + 1\<rparr>)) (\<lambda>_. sv_bind sv_get (\<lambda>e.
     if li_iterations (bg_limits b) < ec_iterations (en_context e)
     then stop_with b st ''SC-05: Max iterations reached'' ''Max iterations reached''
     else sv_return EN_Allowed))"

definition minute :: int where "minute = 60000000"

definition check_duration :: "budget \<Rightarrow> stamp \<Rightarrow> int \<Rightarrow> enforcement enforcer_svc" where
  "check_duration b st now = sv_bind sv_get (\<lambda>e.
     if li_minutes (bg_limits b) * minute < now - ec_started_at (en_context e)
     then stop_with b st ''SC-06: Max duration exceeded'' ''Max duration exceeded''
     else sv_return EN_Allowed)"

text \<open>One stop condition of the loop; \<open>now\<close> is the clock reading of its iteration.\<close>

definition stop_one :: "budget \<Rightarrow> stamp \<Rightarrow> int \<Rightarrow> stop_condition \<Rightarrow> string list enforcer_svc" where
  "stop_one b st now sc = sv_bind sv_get (\<lambda>e.
     let desc = py_lower (sc_description sc);
         iter_exceeded = li_iterations (bg_limits b) \<le> ec_iterations (en_context e);
         dur_exceeded = li_minutes (bg_limits b) * minute \<le> now - ec_started_at (en_context e)
     in if py_contains ''iteration'' desc \<and> iter_exceeded then
          sv_bind (case sc_action sc of
              SA_Stop \<Rightarrow> mark_stopped (sc_description sc)
            | SA_Escalate \<Rightarrow> sv_void (escalate b st (sc_description sc) (bg_target b) UR_Normal)
            | SA_Warn \<Rightarrow> sv_return ()) (\<lambda>_. sv_return [sc_description sc])
        else if py_contains ''duration'' desc \<and> dur_exceeded then
          sv_bind (if sc_action sc = SA_Stop then mark_stopped (sc_description sc) else sv_return ())
            (\<lambda>_. sv_return [sc_description sc])
        else sv_return [])"

text \<open>Stamps and clock readings are listed with the conditions they are used for.\<close>

fun evaluate_stop_conditions :: "budget \<Rightarrow> (stamp \<times> int \<times> stop_condition) list \<Rightarrow> string list enforcer_svc" where
  "evaluate_stop_conditions b [] = sv_return []"
| "evaluate_stop_conditions b ((st, now, sc) # rest) = sv_bind (stop_one b st now sc) (\<lambda>hit.
     sv_bind (evaluate_stop_conditions b rest) (\<lambda>hits. sv_return (hit @ hits)))"

definition trigger_escalation :: "budget \<Rightarrow> stamp \<Rightarrow> string \<Rightarrow> string \<Rightarrow> urgency \<Rightarrow> escalation enforcer_svc" where
  "trigger_escalation b st description target u =
     escalate b st description (if target = [] then bg_target b else target) u"

section \<open>Preflight checks\<close>

record preflight_check =
  pf_id :: string
  pf_name :: string
  pf_status :: preflight_status
  pf_message :: string

record preflight_report =
  pr_budget_id :: string
  pr_overall :: preflight_status
  pr_checks :: "preflight_check list"

fun budget_state_value :: "budget_state \<Rightarrow> string" where
  "budget_state_value BS_Draft = ''draft''"
| "budget_state_value BS_Pending = ''pending_approval''"
| "budget_state_value BS_Active = ''active''"
| "budget_state_value BS_Suspended = ''suspended''"
| "budget_state_value BS_Expired = ''expired''"
| "budget_state_value BS_Completed = ''completed''"
| "budget_state_value BS_Rejected = ''rejected''"

definition pf01_budget_exists :: "budget \<Rightarrow> preflight_check" where
  "pf01_budget_exists b = (if bg_id b = []
     then \<lparr>pf_id = ''PF-01'', pf_name = ''Budget exists'', pf_status = PF_Fail, pf_message = ''Budget has no ID''\<rparr>
     else \<lparr>pf_id = ''PF-01'', pf_name = ''Budget exists'', pf_status = PF_Pass, pf_message = []\<rparr>)"

definition pf02_budget_valid :: "budget \<Rightarrow> preflight_check" where
  "pf02_budget_valid b = (if bg_state b \<noteq> BS_Active
     then \<lparr>pf_id = ''PF-02'', pf_name = ''Budget valid'', pf_status = PF_Fail, pf_message = 
         ''Budget state is '' @ budget_state_value (bg_state b) @ '', must be active''\<rparr>
     else \<lparr>pf_id = ''PF-02'', pf_name = ''Budget valid'', pf_status = PF_Pass, pf_message = []\<rparr>)"

definition pf03_budget_not_expired :: "int \<Rightarrow> budget \<Rightarrow> preflight_check" where
  "pf03_budget_not_expired now b = (if (case bg_expires_at b of None \<Rightarrow> False | Some t \<Rightarrow> t < now)
     then \<lparr>pf_id = ''PF-03'', pf_name = ''Budget not expired'', pf_status = PF_Fail, pf_message = ''Budget has expired''\<rparr>
     else \<lparr>pf_id = ''PF-03'', pf_name = ''Budget not expired'', pf_status = PF_Pass, pf_message = []\<rparr>)"

definition pf04_scope_defined :: "budget \<Rightarrow> preflight_check" where
  "pf04_scope_defined b = (if bg_in_scope b = []
     then \<lparr>pf_id = ''PF-04'', pf_name = ''Scope defined'', pf_status = PF_Fail, pf_message = ''No in_scope items defined''\<rparr>
     else \<lparr>pf_id = ''PF-04'', pf_name = ''Scope defined'', pf_status = PF_Pass, pf_message = []\<rparr>)"

definition pf05_files_scoped :: "budget \<Rightarrow> preflight_check" where
  "pf05_files_scoped b = (if fs_read (bg_files b) = [] \<and> fs_write (bg_files b) = []
     then \<lparr>pf_id = ''PF-05'', pf_name = ''Files scoped'', pf_status = PF_Warn, pf_message = ''No file read/write patterns defined''\<rparr>
     else \<lparr>pf_id = ''PF-05'', pf_name = ''Files scoped'', pf_status = PF_Pass, pf_message = []\<rparr>)"

definition pf06_commands_scoped :: "budget \<Rightarrow> preflight_check" where
  "pf06_commands_scoped b = (if bg_allowed_commands b = []
     then \<lparr>pf_id = ''PF-06'', pf_name = ''Commands scoped'', pf_status = PF_Warn, pf_message = ''No command allowlist defined''\<rparr>
     else \<lparr>pf_id = ''PF-06'', pf_name = ''Commands scoped'', pf_status = PF_Pass, pf_message = []\<rparr>)"

definition pf07_network_scoped :: "budget \<Rightarrow> preflight_check" where
  "pf07_network_scoped b = (if nt_enabled (bg_network b) \<and> nt_allowed (bg_network b) = []
     then \<lparr>pf_id = ''PF-07'', pf_name = ''Network scoped'', pf_status = PF_Warn, pf_message = ''Network enabled but no domains specified''\<rparr>
     else \<lparr>pf_id = ''PF-07'', pf_name = ''Network scoped'', pf_status = PF_Pass, pf_message = []\<rparr>)"

definition pf08_limits_set :: "budget \<Rightarrow> preflight_check" where
  "pf08_limits_set b = (if li_iterations (bg_limits b) \<le> 0 \<or> li_minutes (bg_limits b) \<le> 0
     then \<lparr>pf_id = ''PF-08'', pf_name = ''Limits set'', pf_status = PF_Warn, pf_message = ''Iteration or duration limit not set''\<rparr>
     else \<lparr>pf_id = ''PF-08'', pf_name = ''Limits set'', pf_status = PF_Pass, pf_message = []\<rparr>)"

definition pf09_stop_conditions :: "budget \<Rightarrow> preflight_check" where
  "pf09_stop_conditions b = (if bg_stop_conditions b = []
     then \<lparr>pf_id = ''PF-09'', pf_name = ''Stop conditions'', pf_status = PF_Warn, pf_message = ''No stop conditions defined''\<rparr>
     else \<lparr>pf_id = ''PF-09'', pf_name = ''Stop conditions'', pf_status = PF_Pass, pf_message = []\<rparr>)"

definition pf10_escalation_path :: "budget \<Rightarrow> preflight_check" where
  "pf10_escalation_path b = (if bg_triggers b = [] \<and> bg_target b = []
     then \<lparr>pf_id = ''PF-10'', pf_name = ''Escalation path'', pf_status = PF_Warn, pf_message = ''No escalation triggers or default target''\<rparr>
     else \<lparr>pf_id = ''PF-10'', pf_name = ''Escalation path'', pf_status = PF_Pass, pf_message = []\<rparr>)"

text \<open>The loop over the checks leaves at the first failure.\<close>

fun overall_loop :: "preflight_status \<Rightarrow> preflight_check list \<Rightarrow> preflight_status" where
  "overall_loop overall [] = overall"
| "overall_loop overall (c # cs) =
     (if pf_status c = PF_Fail then PF_Fail
      else overall_loop (if pf_status c = PF_Warn then PF_Warn else overall) cs)"

definition preflight :: "int \<Rightarrow> budget \<Rightarrow> preflight_report" where
  "preflight now b =
     (let checks = [pf01_budget_exists b, pf02_budget_valid b, pf03_budget_not_expired now b, pf04_scope_defined b,
        pf05_files_scoped b, pf06_commands_scoped b, pf07_network_scoped b, pf08_limits_set b,
        pf09_stop_conditions b, pf10_escalation_path b]
      in \<lparr>pr_budget_id = bg_id b, pr_overall = overall_loop PF_Pass checks, pr_checks = checks\<rparr>)"

section \<open>Budgets of the autonomy levels\<close>

definition permit :: "string \<Rightarrow> command_permission" where
  "permit c = \<lparr>cp_command = c, cp_args_pattern = [], cp_max_calls = 0\<rparr>"

definition level_1_allowed :: "command_permission list" where
  "level_1_allowed =
     [\<lparr>cp_command = ''git'', cp_args_pattern = ''^(log|diff|status|show|branch|tag)'' @ [CHR 0x5C] @ ''b.*'', cp_max_calls = 0\<rparr>] @
     List.map permit [''ls'', ''dir'', ''find'', ''cat'', ''head'', ''tail'', ''wc'', ''grep'', ''rg'', ''tree'',
       ''file'', ''stat'', ''which'', ''where'', ''echo''] @
     [\<lparr>cp_command = ''python'', cp_args_pattern = ''^-c'' @ [CHR 0x5C] @ ''b.*'', cp_max_calls = 0\<rparr>, permit ''type'']"

definition level_2_denied :: "string list" where
  "level_2_denied = [''rm'', ''rmdir'', ''del'', ''sudo'', ''su'', ''chmod'', ''chown'', ''mkfs'', ''dd'', ''fdisk'',
     ''shutdown'', ''reboot'', ''systemctl'', ''docker'', ''kubectl'', ''curl'', ''wget'', ''ssh'', ''scp'',
     ''rsync'', ''nc'', ''ncat'', ''nmap'']"

definition level_0_budget :: "string \<Rightarrow> string \<Rightarrow> int \<Rightarrow> budget" where
  "level_0_budget budget_id task now = \<lparr>bg_id = budget_id, bg_task = task, bg_agent = [], bg_state = BS_Active,
     bg_created_at = now, bg_expires_at = None, bg_approved_by = [],
     bg_in_scope = [''read-only observation''],
     bg_out_of_scope = [''file writes'', ''command execution'', ''network access''],
     bg_files = \<lparr>fs_read = [''**''], fs_write = [], fs_deny = []\<rparr>,
     bg_allowed_commands = [permit ''__none__''], bg_denied_commands = [], bg_require_approval = [],
     bg_network = \<lparr>nt_enabled = False, nt_allowed = [], nt_denied = [], nt_max_requests = 0\<rparr>,
     bg_limits = \<lparr>li_iterations = 5, li_minutes = 10, li_files = 0, li_lines = 0, li_tool_calls = 10\<rparr>,
     bg_stop_conditions = [\<lparr>sc_id = ''SC-L0-01'', sc_description = ''Stop on any write attempt'', sc_action = SA_Escalate\<rparr>],
     bg_triggers = [\<lparr>et_id = ''ET-L0-01'', et_description = ''Any modification attempt requires approval'',
        et_target = ''orchestrator'', et_urgency = UR_Normal\<rparr>],
     bg_target = ''orchestrator''\<rparr>"

definition level_1_budget :: "string \<Rightarrow> string \<Rightarrow> int \<Rightarrow> budget" where
  "level_1_budget budget_id task now = \<lparr>bg_id = budget_id, bg_task = task, bg_agent = [], bg_state = BS_Active,
     bg_created_at = now, bg_expires_at = None, bg_approved_by = [],
     bg_in_scope = [''file reading'', ''analysis'', ''reporting''],
     bg_out_of_scope = [''file modification without approval'', ''external network''],
     bg_files = \<lparr>fs_read = [''**''], fs_write = [''**''], fs_deny = []\<rparr>,
     bg_allowed_commands = level_1_allowed, bg_denied_commands = [],
     bg_require_approval = [''python'', ''pip'', ''npm'', ''node''],
     bg_network = \<lparr>nt_enabled = False, nt_allowed = [], nt_denied = [], nt_max_requests = 0\<rparr>,
     bg_limits = \<lparr>li_iterations = 20, li_minutes = 30, li_files = 10, li_lines = 1000, li_tool_calls = 50\<rparr>,
     bg_stop_conditions = [\<lparr>sc_id = ''SC-L1-01'', sc_description = ''Stop when iteration limit reached'', sc_action = SA_Stop\<rparr>],
     bg_triggers = [\<lparr>et_id = ''ET-L1-01'', et_description = ''Write operation requires approval'',
        et_target = ''orchestrator'', et_urgency = UR_Normal\<rparr>],
     bg_target = ''orchestrator''\<rparr>"

definition level_2_budget :: "string \<Rightarrow> string \<Rightarrow> int \<Rightarrow> budget" where
  "level_2_budget budget_id task now = \<lparr>bg_id = budget_id, bg_task = task, bg_agent = [], bg_state = BS_Active,
     bg_created_at = now, bg_expires_at = None, bg_approved_by = [],
     bg_in_scope = [''file read/write'', ''local command execution'', ''local network''],
     bg_out_of_scope = [''destructive operations'', ''external network'', ''system administration''],
     bg_files = \<lparr>fs_read = [''**''], fs_write = [''**''],
        fs_deny = [''/etc/**'', ''/sys/**'', ''/proc/**'', ''~/.ssh/**'', ''**/.env'', ''**/.env.*'']\<rparr>,
     bg_allowed_commands = [], bg_denied_commands = level_2_denied, bg_require_approval = [],
     bg_network = \<lparr>nt_enabled = True, nt_allowed = [''localhost'', ''127.0.0.1'', ''::1'', ''host.docker.internal''],
        nt_denied = [], nt_max_requests = 100\<rparr>,
     bg_limits = \<lparr>li_iterations = 50, li_minutes = 60, li_files = 30, li_lines = 3000, li_tool_calls = 200\<rparr>,
     bg_stop_conditions = [\<lparr>sc_id = ''SC-L2-01'', sc_description = ''Stop when iteration limit reached'', sc_action = SA_Stop\<rparr>,
        \<lparr>sc_id = ''SC-L2-02'', sc_description = ''Escalate on denied command attempt'', sc_action = SA_Escalate\<rparr>],
     bg_triggers = [\<lparr>et_id = ''ET-L2-01'', et_description = ''Destructive operation blocked -- requires level 3'',
        et_target = ''orchestrator'', et_urgency = UR_Normal\<rparr>],
     bg_target = ''orchestrator''\<rparr>"

definition level_3_budget :: "string \<Rightarrow> string \<Rightarrow> int \<Rightarrow> budget" where
  "level_3_budget budget_id task now = \<lparr>bg_id = budget_id, bg_task = task, bg_agent = [], bg_state = BS_Active,
     bg_created_at = now, bg_expires_at = None, bg_approved_by = [],
     bg_in_scope = [''all operations''], bg_out_of_scope = [],
     bg_files = \<lparr>fs_read = [''**''], fs_write = [''**''], fs_deny = []\<rparr>,
     bg_allowed_commands = [], bg_denied_commands = [], bg_require_approval = [],
     bg_network = \<lparr>nt_enabled = True, nt_allowed = [], nt_denied = [], nt_max_requests = 0\<rparr>,
     bg_limits = \<lparr>li_iterations = 100, li_minutes = 120, li_files = 50, li_lines = 5000, li_tool_calls = 500\<rparr>,
     bg_stop_conditions = [\<lparr>sc_id = ''SC-L3-01'', sc_description = ''Stop when iteration limit reached'', sc_action = SA_Stop\<rparr>],
     bg_triggers = [], bg_target = ''orchestrator''\<rparr>"

text \<open>\<open>None\<close> is the \<open>ValueError\<close>; \<open>suffix\<close> is the random part of the id.\<close>

definition autonomy_level_to_budget :: "int \<Rightarrow> string \<Rightarrow> string \<Rightarrow> int \<Rightarrow> budget option" where
  "autonomy_level_to_budget level task suffix now =
     (let budget_id = ''level-'' @ py_str_int level @ ''-'' @ suffix in
      if level = 0 then Some (level_0_budget budget_id task now)
      else if level = 1 then Some (level_1_budget budget_id task now)
      else if level = 2 then Some (level_2_budget budget_id task now)
      else if level = 3 then Some (level_3_budget budget_id task now)
      else None)"

section \<open>The enforcement step of the tool loop\<close>

text \<open>A call is a tool name and its arguments, strings here; only \<open>EN_Blocked\<close> stops the call.\<close>

definition enforce_tool_call ::
  "(string \<Rightarrow> string \<Rightarrow> bool option) \<Rightarrow> budget \<Rightarrow> stamp \<Rightarrow> string \<Rightarrow> (string, string) odict \<Rightarrow> enforcement enforcer_svc" where
  "enforce_tool_call rematch b st tool args =
     (if tool = ''shell'' \<and> od_get args ''command'' \<noteq> None
      then check_command rematch b (the (od_get args ''command''))
      else if tool \<in> {''file_read'', ''file_write'', ''file_ops''} then
        (let path = (case od_get args ''path'' of Some p \<Rightarrow> p
              | None \<Rightarrow> (case od_get args ''file'' of Some p \<Rightarrow> p | None \<Rightarrow> []))
         in if tool = ''file_read'' then check_file_read b path else check_file_write b st path 0)
      else if tool = ''web_fetch''
      then check_network b (case od_get args ''url'' of Some u \<Rightarrow> u | None \<Rightarrow> [])
      else check_command rematch b tool)"

definition tool_proceeds ::
  "(string \<Rightarrow> string \<Rightarrow> bool option) \<Rightarrow> budget \<Rightarrow> stamp \<Rightarrow> string \<Rightarrow> (string, string) odict \<Rightarrow> enforcer \<Rightarrow> bool" where
  "tool_proceeds rematch b st tool args e = (case fst (enforce_tool_call rematch b st tool args e) of
      Inl _ \<Rightarrow> False | Inr res \<Rightarrow> res \<noteq> EN_Blocked)"

section \<open>The service\<close>

record autonomy_mem =
  am_budgets :: "(string, budget) odict"
  am_enforcers :: "(string, enforcer) odict"
  am_escalations :: "(string, escalation) odict"

definition autonomy_blank :: autonomy_mem where
  "autonomy_blank = \<lparr>am_budgets = [], am_enforcers = [], am_escalations = []\<rparr>"

type_synonym autonomy_st = "autonomy_mem durable"
type_synonym 'a autonomy_svc = "(autonomy_st, autonomy_error, 'a) svc"

fun budget_table :: "budget_state \<Rightarrow> budget_state list" where
  "budget_table BS_Draft = [BS_Pending, BS_Active]"
| "budget_table BS_Pending = [BS_Active, BS_Rejected]"
| "budget_table BS_Active = [BS_Suspended, BS_Expired, BS_Completed]"
| "budget_table BS_Suspended = [BS_Active, BS_Expired]"
| "budget_table BS_Rejected = [BS_Draft]"
| "budget_table BS_Expired = []"
| "budget_table BS_Completed = []"

definition budget_move :: "budget_state \<Rightarrow> budget_state \<Rightarrow> autonomy_error + budget_state" where
  "budget_move s t = (if t \<notin> set (budget_table s) then Inl (InvalidBudgetState s t) else Inr t)"

text \<open>A new process: budgets and escalations as they are, and the enforcers whose budget is there.\<close>

definition load_mem :: "autonomy_mem \<Rightarrow> autonomy_mem" where
  "load_mem m = m\<lparr>am_enforcers := filter (\<lambda>(i, e). od_get (am_budgets m) i \<noteq> None) (am_enforcers m)\<rparr>"

definition autonomy_restart :: "autonomy_st \<Rightarrow> autonomy_st" where
  "autonomy_restart d = (case saved d of None \<Rightarrow> d\<lparr>live := autonomy_blank\<rparr> | Some m \<Rightarrow> d\<lparr>live := load_mem m\<rparr>)"

definition am_modify :: "(autonomy_mem \<Rightarrow> autonomy_mem) \<Rightarrow> unit autonomy_svc" where
  "am_modify f = sv_modify (\<lambda>d. d\<lparr>live := f (live d)\<rparr>)"

text \<open>The budget a caller passes to \<open>create_budget\<close>: the scopes and limits, in the draft state unless the
  arguments say otherwise; the id is new.\<close>

definition create_budget :: "budget \<Rightarrow> budget autonomy_svc" where
  "create_budget b = sv_bind (am_modify (\<lambda>m. m\<lparr>am_budgets := od_put (bg_id b) b (am_budgets m)\<rparr>))
     (\<lambda>_. sv_bind sv_persist (\<lambda>_. sv_return b))"

definition get_budget :: "string \<Rightarrow> budget autonomy_svc" where
  "get_budget i = sv_bind sv_get (\<lambda>d. case od_get (am_budgets (live d)) i of
     None \<Rightarrow> sv_raise (BudgetNotFound i) | Some b \<Rightarrow> sv_return b)"

definition list_budgets ::
  "budget_state option \<Rightarrow> string option \<Rightarrow> string option \<Rightarrow> int \<Rightarrow> budget list autonomy_svc" where
  "list_budgets st task agent limit = sv_bind sv_get (\<lambda>d.
     let results = od_vals (am_budgets (live d));
         results = (case st of None \<Rightarrow> results | Some s \<Rightarrow> filter (\<lambda>b. bg_state b = s) results);
         results = (case task of None \<Rightarrow> results | Some t \<Rightarrow> filter (\<lambda>b. bg_task b = t) results);
         results = (case agent of None \<Rightarrow> results | Some a \<Rightarrow> filter (\<lambda>b. bg_agent b = a) results)
     in sv_return (py_take limit (sort_desc bg_created_at results)))"

definition delete_budget :: "string \<Rightarrow> unit autonomy_svc" where
  "delete_budget i = sv_bind (get_budget i) (\<lambda>b.
     if bg_state b \<noteq> BS_Draft \<and> bg_state b \<noteq> BS_Rejected
     then sv_raise (InvalidBudgetState (bg_state b) BS_Draft)
     else sv_bind (am_modify (\<lambda>m. m\<lparr>am_budgets := od_del i (am_budgets m), am_enforcers := od_del i (am_enforcers m)\<rparr>))
       (\<lambda>_. sv_persist))"

definition budget_transition :: "string \<Rightarrow> budget_state \<Rightarrow> string \<Rightarrow> budget autonomy_svc" where
  "budget_transition i to approved_by = sv_bind (get_budget i) (\<lambda>b.
     sv_bind (sv_lift (budget_move (bg_state b) to)) (\<lambda>st.
     let b' = b\<lparr>bg_state := st, bg_approved_by := (if approved_by \<noteq> [] then approved_by else bg_approved_by b)\<rparr>
     in sv_bind (am_modify (\<lambda>m. m\<lparr>am_budgets := od_put i b' (am_budgets m)\<rparr>))
          (\<lambda>_. sv_bind sv_persist (\<lambda>_. sv_return b'))))"

definition activate :: "string \<Rightarrow> string \<Rightarrow> budget autonomy_svc" where
  "activate i approved_by = budget_transition i BS_Active approved_by"

definition suspend :: "string \<Rightarrow> budget autonomy_svc" where
  "suspend i = budget_transition i BS_Suspended []"

definition complete_budget :: "string \<Rightarrow> budget autonomy_svc" where
  "complete_budget i = budget_transition i BS_Completed []"

definition run_preflight :: "int \<Rightarrow> string \<Rightarrow> preflight_report autonomy_svc" where
  "run_preflight now i = sv_bind (get_budget i) (\<lambda>b. sv_return (preflight now b))"

definition create_enforcer :: "int \<Rightarrow> string \<Rightarrow> enforcer autonomy_svc" where
  "create_enforcer now i = sv_bind (get_budget i) (\<lambda>b.
     if bg_state b \<noteq> BS_Active then sv_raise (InvalidBudgetState (bg_state b) BS_Active)
     else sv_bind (am_modify (\<lambda>m. m\<lparr>am_enforcers := od_put i (new_enforcer now) (am_enforcers m)\<rparr>))
       (\<lambda>_. sv_bind sv_persist (\<lambda>_. sv_return (new_enforcer now))))"

text \<open>Run a method of the stored enforcer against its budget and persist, unless it raises.\<close>

definition with_enforcer :: "string \<Rightarrow> (budget \<Rightarrow> 'a enforcer_svc) \<Rightarrow> 'a autonomy_svc" where
  "with_enforcer i f = sv_bind sv_get (\<lambda>d. case od_get (am_enforcers (live d)) i of
      None \<Rightarrow> sv_raise (EnforcerNotFound i)
    | Some e \<Rightarrow> sv_bind (get_budget i) (\<lambda>b. case f b e of (res, e') \<Rightarrow>
        sv_bind (am_modify (\<lambda>m. m\<lparr>am_enforcers := od_put i e' (am_enforcers m)\<rparr>)) (\<lambda>_.
        sv_bind (sv_lift res) (\<lambda>a. sv_bind sv_persist (\<lambda>_. sv_return a)))))"

definition enforce_file :: "string \<Rightarrow> stamp \<Rightarrow> string \<Rightarrow> string \<Rightarrow> int \<Rightarrow> enforcement autonomy_svc" where
  "enforce_file i st path mode lines = with_enforcer i (\<lambda>b.
     if mode = ''write'' then check_file_write b st path lines else check_file_read b path)"

definition enforce_command :: "(string \<Rightarrow> string \<Rightarrow> bool option) \<Rightarrow> string \<Rightarrow> string \<Rightarrow> enforcement autonomy_svc" where
  "enforce_command rematch i cmd = with_enforcer i (\<lambda>b. check_command rematch b cmd)"

definition enforce_network :: "string \<Rightarrow> string \<Rightarrow> enforcement autonomy_svc" where
  "enforce_network i domain = with_enforcer i (\<lambda>b. check_network b domain)"

definition service_escalation :: "string \<Rightarrow> stamp \<Rightarrow> string \<Rightarrow> string \<Rightarrow> urgency \<Rightarrow> escalation autonomy_svc" where
  "service_escalation i st description target u = with_enforcer i (\<lambda>b. trigger_escalation b st description target u)"

definition list_escalations :: "string option \<Rightarrow> bool \<Rightarrow> int \<Rightarrow> escalation list autonomy_svc" where
  "list_escalations i unresolved limit = sv_bind sv_get (\<lambda>d.
     let es = List.concat (List.map en_escalations (od_vals (am_enforcers (live d)))) @ od_vals (am_escalations (live d));
         es = (case i of None \<Rightarrow> es | Some b \<Rightarrow> filter (\<lambda>e. es_budget e = b) es);
         es = (if unresolved then filter (\<lambda>e. \<not> es_resolved e) es else es)
     in sv_return (py_take limit (sort_desc es_created_at es)))"

text \<open>Mutate the first escalation with the id, in the order of the enforcers; \<open>None\<close> if there is none.\<close>

fun mark_first :: "string \<Rightarrow> (escalation \<Rightarrow> escalation) \<Rightarrow> escalation list \<Rightarrow> escalation list option" where
  "mark_first i f [] = None"
| "mark_first i f (e # es) = (if es_id e = i then Some (f e # es) else map_option (Cons e) (mark_first i f es))"

fun mark_enforcers ::
  "string \<Rightarrow> (escalation \<Rightarrow> escalation) \<Rightarrow> (string, enforcer) odict \<Rightarrow> (string, enforcer) odict option" where
  "mark_enforcers i f [] = None"
| "mark_enforcers i f ((k, e) # es) = (case mark_first i f (en_escalations e) of
      Some xs \<Rightarrow> Some ((k, e\<lparr>en_escalations := xs\<rparr>) # es)
    | None \<Rightarrow> map_option (Cons (k, e)) (mark_enforcers i f es))"

definition mark_escalation :: "string \<Rightarrow> (escalation \<Rightarrow> escalation) \<Rightarrow> bool autonomy_svc" where
  "mark_escalation i f = sv_bind sv_get (\<lambda>d. case mark_enforcers i f (am_enforcers (live d)) of
      Some es \<Rightarrow> sv_bind (am_modify (\<lambda>m. m\<lparr>am_enforcers := es\<rparr>)) (\<lambda>_. sv_bind sv_persist (\<lambda>_. sv_return True))
    | None \<Rightarrow> (case od_get (am_escalations (live d)) i of
          Some e \<Rightarrow> sv_bind (am_modify (\<lambda>m. m\<lparr>am_escalations := od_put i (f e) (am_escalations m)\<rparr>))
            (\<lambda>_. sv_bind sv_persist (\<lambda>_. sv_return True))
        | None \<Rightarrow> sv_return False))"

definition acknowledge_escalation :: "string \<Rightarrow> bool autonomy_svc" where
  "acknowledge_escalation i = mark_escalation i (\<lambda>e. e\<lparr>es_acknowledged := True\<rparr>)"

definition resolve_escalation :: "string \<Rightarrow> bool autonomy_svc" where
  "resolve_escalation i = mark_escalation i (\<lambda>e. e\<lparr>es_resolved := True\<rparr>)"

end
