(* ===== verification/Autonomy_Correct.thy ===== *)
theory Autonomy_Correct
  imports Autonomy
begin

text \<open>
  Correctness of autonomy budgets: the limits of a budget bound what its enforcer grants over any sequence
  of calls, a call that proceeds is within the scope of the budget, the lowest level is read-only, preflight
  is the conjunction it claims to be, budgets move along their lifecycle, and a restart loses nothing.
\<close>

section \<open>Limits\<close>

text \<open>The calls of an enforcer, and whether one is granted.\<close>

datatype en_call =
    EnRead string
  | EnWrite stamp string int
  | EnCommand string
  | EnNetwork string
  | EnIteration stamp
  | EnDuration stamp int

fun en_exec :: "(string \<Rightarrow> string \<Rightarrow> bool option) \<Rightarrow> budget \<Rightarrow> en_call \<Rightarrow> enforcement enforcer_svc" where
  "en_exec rematch b (EnRead p) = check_file_read b p"
| "en_exec rematch b (EnWrite st p n) = check_file_write b st p n"
| "en_exec rematch b (EnCommand c) = check_command rematch b c"
| "en_exec rematch b (EnNetwork host) = check_network b host"
| "en_exec rematch b (EnIteration st) = record_iteration b st"
| "en_exec rematch b (EnDuration st now) = check_duration b st now"

definition en_step :: "(string \<Rightarrow> string \<Rightarrow> bool option) \<Rightarrow> budget \<Rightarrow> en_call \<Rightarrow> enforcer \<Rightarrow> bool \<times> enforcer" where
  "en_step rematch b c e = (case en_exec rematch b c e of (res, e') \<Rightarrow> (res = Inr EN_Allowed, e'))"

text \<open>What a call adds to the counters of its enforcer, and the counter it stops at.\<close>

fun adds_file :: "en_call \<Rightarrow> int" where
  "adds_file (EnWrite st p n) = 1"
| "adds_file _ = 0"

fun adds_lines :: "en_call \<Rightarrow> int" where
  "adds_lines (EnWrite st p n) = n"
| "adds_lines _ = 0"

fun adds_command :: "en_call \<Rightarrow> int" where
  "adds_command (EnCommand c) = 1"
| "adds_command _ = 0"

fun adds_request :: "en_call \<Rightarrow> int" where
  "adds_request (EnNetwork host) = 1"
| "adds_request _ = 0"

fun adds_iteration :: "en_call \<Rightarrow> int" where
  "adds_iteration (EnIteration st) = 1"
| "adds_iteration _ = 0"

lemmas enforcer_defs = block_with_def add_violation_def add_warning_def mark_stopped_def stop_with_def escalate_def
  en_update_def check_file_limit_def check_line_limit_def check_tool_call_limit_def Let_def svc_simps

text \<open>Each method, as the counters it moves and the answers it can give.\<close>

definition counters :: "enforcer \<Rightarrow> int \<times> int \<times> int \<times> int \<times> int" where
  "counters e = (let c = en_context e in (ec_files c, ec_lines c, ec_tool_calls c, ec_requests c, ec_iterations c))"

lemma read_counters: "counters (snd (check_file_read b p e)) = counters e"
  by (simp add: check_file_read_def enforcer_defs counters_def)

lemma duration_counters: "counters (snd (check_duration b st now e)) = counters e"
  by (simp add: check_duration_def enforcer_defs counters_def)

lemma iteration_counters: "counters (snd (record_iteration b st e)) =
    (case counters e of (f, l, t, r, i) \<Rightarrow> (f, l, t, r, i + 1))"
  by (auto simp: record_iteration_def enforcer_defs counters_def)

lemma iteration_allowed: "fst (record_iteration b st e) = Inr EN_Allowed \<longleftrightarrow>
    ec_iterations (en_context e) + 1 \<le> li_iterations (bg_limits b)"
  by (auto simp: record_iteration_def enforcer_defs)

lemma network_cases: "check_network b host e = (r, e') \<Longrightarrow> counters e' = counters e \<and> r \<noteq> Inr EN_Allowed \<or>
    counters e' = (case counters e of (f, l, t, q, i) \<Rightarrow> (f, l, t, q + 1, i)) \<and>
    (r = Inr EN_Allowed \<longrightarrow> 0 < nt_max_requests (bg_network b) \<longrightarrow>
       ec_requests (en_context e) + 1 \<le> nt_max_requests (bg_network b))"
  by (auto simp: check_network_def enforcer_defs counters_def split: if_splits)

lemma command_cases: "check_command rematch b c e = (r, e') \<Longrightarrow> counters e' = counters e \<and> r \<noteq> Inr EN_Allowed \<or>
    counters e' = (case counters e of (f, l, t, q, i) \<Rightarrow> (f, l, t + 1, q, i)) \<and>
    (r = Inr EN_Allowed \<longrightarrow> 0 < li_tool_calls (bg_limits b) \<longrightarrow>
       ec_tool_calls (en_context e) + 1 \<le> li_tool_calls (bg_limits b))"
  by (auto simp: check_command_def enforcer_defs counters_def split: if_splits sum.splits prod.splits)

lemma sv_bind_alt: "sv_bind m f s = (case fst (m s) of Inl e \<Rightarrow> (Inl e, snd (m s)) | Inr a \<Rightarrow> f a (snd (m s)))"
  by (cases "m s") (simp add: sv_bind_def split: sum.split)

lemma block_with_parts: "fst (block_with msg e) = Inr EN_Blocked" "counters (snd (block_with msg e)) = counters e"
  by (simp_all add: enforcer_defs counters_def)

lemma file_limit_parts: "fst (check_file_limit b st e) =
      Inr (if li_files (bg_limits b) < ec_files (en_context e) then EN_Blocked else EN_Allowed)"
    "counters (snd (check_file_limit b st e)) = counters e"
    "\<not> li_files (bg_limits b) < ec_files (en_context e) \<Longrightarrow> snd (check_file_limit b st e) = e"
  by (simp_all add: enforcer_defs counters_def)

lemma line_limit_parts: "fst (check_line_limit b st e) =
      Inr (if li_lines (bg_limits b) < ec_lines (en_context e) then EN_Blocked else EN_Allowed)"
    "counters (snd (check_line_limit b st e)) = counters e"
  by (simp_all add: enforcer_defs counters_def)

lemma write_counted: "counters (snd (en_update (\<lambda>c. c\<lparr>ec_files := ec_files c + 1, ec_lines := ec_lines c + n\<rparr>) e)) =
      (case counters e of (f, l, t, q, i) \<Rightarrow> (f + 1, l + n, t, q, i))"
    "fst (en_update g e) = Inr ()"
    "ec_files (en_context (snd (en_update (\<lambda>c. c\<lparr>ec_files := ec_files c + 1, ec_lines := ec_lines c + n\<rparr>) e))) =
      ec_files (en_context e) + 1"
    "ec_lines (en_context (snd (en_update (\<lambda>c. c\<lparr>ec_files := ec_files c + 1, ec_lines := ec_lines c + n\<rparr>) e))) =
      ec_lines (en_context e) + n"
  by (simp_all add: en_update_def sv_modify_def counters_def Let_def)

lemmas write_parts = block_with_parts file_limit_parts line_limit_parts write_counted

lemma write_cases:
  assumes "check_file_write b st p n e = (r, e')"
  shows "counters e' = counters e \<and> r \<noteq> Inr EN_Allowed \<or>
    counters e' = (case counters e of (f, l, t, q, i) \<Rightarrow> (f + 1, l + n, t, q, i)) \<and>
    (r = Inr EN_Allowed \<longrightarrow> ec_files (en_context e) + 1 \<le> li_files (bg_limits b) \<and>
       ec_lines (en_context e) + n \<le> li_lines (bg_limits b))"
proof -
  let ?e1 = "snd (en_update (\<lambda>c. c\<lparr>ec_files := ec_files c + 1, ec_lines := ec_lines c + n\<rparr>) e)"
  define out where "out \<longleftrightarrow> path_in (fs_deny (bg_files b)) (slashes p) \<or>
    fs_write (bg_files b) \<noteq> [] \<and> \<not> path_in (fs_write (bg_files b)) (slashes p)"
  have blocked: "\<exists>msg. check_file_write b st p n e = block_with msg e" if out
    using that by (auto simp: out_def check_file_write_def Let_def)
  have counted: "check_file_write b st p n e =
      (if ec_files (en_context e) + 1 \<le> li_files (bg_limits b) then check_line_limit b st ?e1
       else (Inr EN_Blocked, snd (check_file_limit b st ?e1)))" if "\<not> out"
    using that by (auto simp: out_def check_file_write_def Let_def sv_bind_alt write_parts sv_return_def)
  consider (block) msg where "check_file_write b st p n e = block_with msg e"
    | (files) "check_file_write b st p n e = (Inr EN_Blocked, snd (check_file_limit b st ?e1))"
    | (lines) "ec_files (en_context e) + 1 \<le> li_files (bg_limits b)" "check_file_write b st p n e = check_line_limit b st ?e1"
    using blocked counted by (cases out) (auto split: if_splits)
  then show ?thesis
  proof cases
    case block
    with assms have "r = fst (block_with msg e)" "e' = snd (block_with msg e)" by simp_all
    then show ?thesis by (simp add: write_parts)
  next
    case files
    with assms show ?thesis by (auto simp: write_parts)
  next
    case lines
    with assms have "r = fst (check_line_limit b st ?e1)" "e' = snd (check_line_limit b st ?e1)" by simp_all
    with lines(1) show ?thesis by (simp add: write_parts)
  qed
qed

fun lines_ok :: "en_call \<Rightarrow> bool" where
  "lines_ok (EnWrite st p n) = (0 \<le> n)"
| "lines_ok _ = True"

text \<open>What one call does to one counter: nothing when it is not of the metered kind, else it adds to it.\<close>

definition moves :: "(en_call \<Rightarrow> int) \<Rightarrow> (enforcer \<Rightarrow> int) \<Rightarrow> int \<Rightarrow> bool \<Rightarrow> en_call \<Rightarrow> enforcer \<Rightarrow> enforcer \<Rightarrow> bool \<Rightarrow> bool" where
  "moves w counter limit on c e e' g \<longleftrightarrow> (counter e' = counter e \<and> (g \<longrightarrow> w c = 0) \<or> counter e' = counter e + w c) \<and>
     (g \<longrightarrow> w c \<noteq> 0 \<longrightarrow> on \<longrightarrow> counter e + w c \<le> limit)"

lemma step_moves:
  assumes "en_step rematch b c e = (g, e')"
  shows "moves adds_file (\<lambda>e. ec_files (en_context e)) (li_files (bg_limits b)) True c e e' g"
    and "moves adds_lines (\<lambda>e. ec_lines (en_context e)) (li_lines (bg_limits b)) True c e e' g"
    and "moves adds_command (\<lambda>e. ec_tool_calls (en_context e)) (li_tool_calls (bg_limits b)) (0 < li_tool_calls (bg_limits b)) c e e' g"
    and "moves adds_request (\<lambda>e. ec_requests (en_context e)) (nt_max_requests (bg_network b)) (0 < nt_max_requests (bg_network b)) c e e' g"
    and "moves adds_iteration (\<lambda>e. ec_iterations (en_context e)) (li_iterations (bg_limits b)) True c e e' g"
proof -
  obtain r where r: "en_exec rematch b c e = (r, e')" and g: "g \<longleftrightarrow> r = Inr EN_Allowed"
    using assms by (auto simp: en_step_def split: prod.splits)
  have "moves adds_file (\<lambda>e. ec_files (en_context e)) (li_files (bg_limits b)) True c e e' g \<and>
    moves adds_lines (\<lambda>e. ec_lines (en_context e)) (li_lines (bg_limits b)) True c e e' g \<and>
    moves adds_command (\<lambda>e. ec_tool_calls (en_context e)) (li_tool_calls (bg_limits b)) (0 < li_tool_calls (bg_limits b)) c e e' g \<and>
    moves adds_request (\<lambda>e. ec_requests (en_context e)) (nt_max_requests (bg_network b)) (0 < nt_max_requests (bg_network b)) c e e' g \<and>
    moves adds_iteration (\<lambda>e. ec_iterations (en_context e)) (li_iterations (bg_limits b)) True c e e' g"
  proof (cases c)
    case (EnRead p)
    with r read_counters [of b p e] show ?thesis by (auto simp: moves_def counters_def Let_def)
  next
    case (EnWrite st p n)
    with r have "check_file_write b st p n e = (r, e')" by simp
    from write_cases [OF this] EnWrite g show ?thesis by (auto simp: moves_def counters_def Let_def)
  next
    case (EnCommand cmd)
    with r have "check_command rematch b cmd e = (r, e')" by simp
    from command_cases [OF this] EnCommand g show ?thesis by (auto simp: moves_def counters_def Let_def)
  next
    case (EnNetwork host)
    with r have "check_network b host e = (r, e')" by simp
    from network_cases [OF this] EnNetwork g show ?thesis by (auto simp: moves_def counters_def Let_def)
  next
    case (EnIteration st)
    with r iteration_counters [of b st e] iteration_allowed [of b st e] g show ?thesis
      by (auto simp: moves_def counters_def Let_def)
  next
    case (EnDuration st now)
    with r duration_counters [of b st now e] show ?thesis by (auto simp: moves_def counters_def Let_def)
  qed
  then show "moves adds_file (\<lambda>e. ec_files (en_context e)) (li_files (bg_limits b)) True c e e' g"
    "moves adds_lines (\<lambda>e. ec_lines (en_context e)) (li_lines (bg_limits b)) True c e e' g"
    "moves adds_command (\<lambda>e. ec_tool_calls (en_context e)) (li_tool_calls (bg_limits b)) (0 < li_tool_calls (bg_limits b)) c e e' g"
    "moves adds_request (\<lambda>e. ec_requests (en_context e)) (nt_max_requests (bg_network b)) (0 < nt_max_requests (bg_network b)) c e e' g"
    "moves adds_iteration (\<lambda>e. ec_iterations (en_context e)) (li_iterations (bg_limits b)) True c e e' g"
    by simp_all
qed

text \<open>Where a counter moves like this, its call is metered.\<close>

lemma moves_meter:
  assumes "\<And>c e e' g. step c e = (g, e') \<Longrightarrow> moves w counter limit on c e e' g"
    and "\<And>c. valid c \<Longrightarrow> 0 \<le> w c"
  shows "meter step valid (\<lambda>c. if on then w c else 0) counter limit"
proof
  fix c s
  assume "valid c"
  moreover obtain g t where st: "step c s = (g, t)" by (cases "step c s")
  ultimately show "counter s \<le> counter (snd (step c s))"
    using assms(1) [OF st] assms(2) [of c] by (auto simp: moves_def)
  assume "fst (step c s)" and "(if on then w c else 0) \<noteq> 0"
  with st assms(1) [OF st] assms(2) [OF \<open>valid c\<close>]
  show "counter s + (if on then w c else 0) \<le> counter (snd (step c s)) \<and> counter (snd (step c s)) \<le> limit"
    by (auto simp: moves_def split: if_splits)
qed

lemma weights_nonneg: "0 \<le> adds_file c" "lines_ok c \<Longrightarrow> 0 \<le> adds_lines c" "0 \<le> adds_command c" "0 \<le> adds_request c" "0 \<le> adds_iteration c"
  by (cases c; simp)+

interpretation files: meter "en_step rematch b" "\<lambda>c. True" "\<lambda>c. if True then adds_file c else 0"
    "\<lambda>e. ec_files (en_context e)" "li_files (bg_limits b)"
  by (rule moves_meter) (rule step_moves weights_nonneg, assumption?)+

interpretation lines: meter "en_step rematch b" lines_ok "\<lambda>c. if True then adds_lines c else 0"
    "\<lambda>e. ec_lines (en_context e)" "li_lines (bg_limits b)"
  by (rule moves_meter) (rule step_moves weights_nonneg, assumption?)+

interpretation commands: meter "en_step rematch b" "\<lambda>c. True" "\<lambda>c. if 0 < li_tool_calls (bg_limits b) then adds_command c else 0"
    "\<lambda>e. ec_tool_calls (en_context e)" "li_tool_calls (bg_limits b)"
  by (rule moves_meter) (rule step_moves weights_nonneg, assumption?)+

interpretation requests: meter "en_step rematch b" "\<lambda>c. True" "\<lambda>c. if 0 < nt_max_requests (bg_network b) then adds_request c else 0"
    "\<lambda>e. ec_requests (en_context e)" "nt_max_requests (bg_network b)"
  by (rule moves_meter) (rule step_moves weights_nonneg, assumption?)+

interpretation iterations: meter "en_step rematch b" "\<lambda>c. True" "\<lambda>c. if True then adds_iteration c else 0"
    "\<lambda>e. ec_iterations (en_context e)" "li_iterations (bg_limits b)"
  by (rule moves_meter) (rule step_moves weights_nonneg, assumption?)+

text \<open>C14: Over any sequence of checks by a new enforcer, the granted file writes, the lines they report, the
  granted commands, network requests and iterations stay within the limits of the budget, each limit of
  zero or less on commands and requests meaning none.\<close>

theorem enforcer_keeps_limits:
  assumes "list_all lines_ok calls"
  shows "granted_weight (en_step rematch b) adds_file calls (new_enforcer now) \<le> max 0 (li_files (bg_limits b)) \<and>
    granted_weight (en_step rematch b) adds_lines calls (new_enforcer now) \<le> max 0 (li_lines (bg_limits b)) \<and>
    (0 < li_tool_calls (bg_limits b) \<longrightarrow>
       granted_weight (en_step rematch b) adds_command calls (new_enforcer now) \<le> li_tool_calls (bg_limits b)) \<and>
    (0 < nt_max_requests (bg_network b) \<longrightarrow>
       granted_weight (en_step rematch b) adds_request calls (new_enforcer now) \<le> nt_max_requests (bg_network b)) \<and>
    granted_weight (en_step rematch b) adds_iteration calls (new_enforcer now) \<le> max 0 (li_iterations (bg_limits b))"
proof -
  have all: "list_all (\<lambda>c. True) calls" by (simp add: list_all_iff)
  have new: "0 \<le> ec_files (en_context (new_enforcer now))" "0 \<le> ec_lines (en_context (new_enforcer now))"
    "0 \<le> ec_tool_calls (en_context (new_enforcer now))" "0 \<le> ec_requests (en_context (new_enforcer now))"
    "0 \<le> ec_iterations (en_context (new_enforcer now))" by (simp_all add: new_enforcer_def)
  from files.granted_at_most [OF all new(1), of rematch b] lines.granted_at_most [OF assms new(2), of rematch b]
    commands.granted_at_most [OF all new(3), of rematch b] requests.granted_at_most [OF all new(4), of rematch b]
    iterations.granted_at_most [OF all new(5), of rematch b]
  show ?thesis by auto
qed

theorem enforcer_keeps_limits_witness:
  "granted_weight (en_step (\<lambda>_ _. Some True) (level_3_budget ''b'' ''t'' 0)) adds_file
     (replicate 60 (EnWrite (''e'', 1) ''x'' 2)) (new_enforcer 0) \<le> 50"
proof -
  have "list_all lines_ok (replicate 60 (EnWrite (''e'', 1) ''x'' 2))" by (simp add: list_all_iff)
  from enforcer_keeps_limits [OF this, of "\<lambda>_ _. Some True" "level_3_budget ''b'' ''t'' 0" 0]
  show ?thesis by (simp add: level_3_budget_def)
qed

section \<open>Scope\<close>

text \<open>What the budget says about a path, a command and a domain.\<close>

definition in_patterns :: "string list \<Rightarrow> string \<Rightarrow> bool" where
  "in_patterns patterns path \<longleftrightarrow> (\<exists>p \<in> set patterns. glob_lang (glob_tokens (slashes p)) (slashes path))"

definition path_allowed :: "budget \<Rightarrow> string list \<Rightarrow> string \<Rightarrow> bool" where
  "path_allowed b patterns path \<longleftrightarrow> \<not> in_patterns (fs_deny (bg_files b)) path \<and> (patterns = [] \<or> in_patterns patterns path)"

definition command_allowed :: "(string \<Rightarrow> string \<Rightarrow> bool option) \<Rightarrow> budget \<Rightarrow> string \<Rightarrow> bool" where
  "command_allowed rematch b cmd \<longleftrightarrow> (\<exists>name. command_name cmd = Inr name \<and> name \<notin> set (bg_denied_commands b) \<and>
     (name \<in> set (bg_require_approval b) \<or> bg_allowed_commands b = [] \<or>
      (\<exists>p \<in> set (bg_allowed_commands b). cp_command p = name \<and>
         (cp_args_pattern p = [] \<or> rematch (cp_args_pattern p) (py_strip (drop (length name) cmd)) = Some True))))"

definition under_domain :: "string list \<Rightarrow> string \<Rightarrow> bool" where
  "under_domain ds host \<longleftrightarrow> (\<exists>d \<in> set ds. py_lower host = py_lower d \<or> (\<exists>pre. py_lower host = pre @ ''.'' @ py_lower d))"

definition host_allowed :: "budget \<Rightarrow> string \<Rightarrow> bool" where
  "host_allowed b host \<longleftrightarrow> nt_enabled (bg_network b) \<and> \<not> under_domain (nt_denied (bg_network b)) host \<and>
     (nt_allowed (bg_network b) = [] \<or> under_domain (nt_allowed (bg_network b)) host)"

lemma path_in_patterns: "path_in patterns (slashes path) \<longleftrightarrow> in_patterns patterns path"
  by (simp add: path_in_def in_patterns_def list_ex_iff fnmatch_def glob_match_iff)

lemma py_endswith_iff: "py_endswith p s \<longleftrightarrow> (\<exists>pre. s = pre @ p)"
proof
  assume "py_endswith p s"
  then show "\<exists>pre. s = pre @ p" by (metis append_take_drop_id py_endswith_def)
qed (auto simp: py_endswith_def)

lemma domain_in_under: "domain_in ds (py_lower host) \<longleftrightarrow> under_domain ds host"
  by (auto simp: domain_in_def under_domain_def list_ex_iff py_endswith_iff)

lemma read_decision: "fst (check_file_read b path e) =
    Inr (if path_allowed b (fs_read (bg_files b)) path then EN_Allowed else EN_Blocked)"
  by (auto simp: check_file_read_def path_in_patterns path_allowed_def Let_def sv_return_def block_with_parts)

lemma write_decision: "fst (check_file_write b st path n e) = Inr EN_Allowed \<Longrightarrow> path_allowed b (fs_write (bg_files b)) path"
  by (auto simp: check_file_write_def path_in_patterns path_allowed_def Let_def block_with_parts split: if_splits)

lemma write_answers: "fst (check_file_write b st path n e) \<in> {Inr EN_Allowed, Inr EN_Blocked}"
  by (simp add: check_file_write_def Let_def sv_bind_alt write_parts sv_return_def)

lemma network_decision: "fst (check_network b host e) = Inr EN_Allowed \<Longrightarrow> host_allowed b host"
  by (auto simp: check_network_def domain_in_under host_allowed_def Let_def block_with_parts split: if_splits)

lemma network_answers: "fst (check_network b host e) \<in> {Inr EN_Allowed, Inr EN_Blocked}"
  by (auto simp: check_network_def enforcer_defs)

lemma listed_permission: "command_listed rematch ps name cmd = Inr True \<Longrightarrow> \<exists>p \<in> set ps. cp_command p = name \<and>
    (cp_args_pattern p = [] \<or> rematch (cp_args_pattern p) (py_strip (drop (length name) cmd)) = Some True)"
  by (induction ps) (auto split: if_splits option.splits)

lemma command_decision:
  assumes "fst (check_command rematch b cmd e) = Inr res" and "res \<noteq> EN_Blocked"
  shows "command_allowed rematch b cmd"
proof -
  obtain name where name: "command_name cmd = Inr name"
    using assms(1) by (cases "command_name cmd") (auto simp: check_command_def svc_simps)
  have "name \<notin> set (bg_denied_commands b)"
    using assms name by (auto simp: check_command_def sv_bind_def sv_lift_def block_with_parts)
  moreover have "name \<in> set (bg_require_approval b) \<or> bg_allowed_commands b = [] \<or>
      command_listed rematch (bg_allowed_commands b) name cmd = Inr True"
    using assms name by (auto simp: check_command_def sv_bind_def sv_lift_def block_with_parts split: if_splits sum.splits)
  ultimately show ?thesis
    using name listed_permission by (auto simp: command_allowed_def)
qed

text \<open>The tool call and what it touches.\<close>

definition call_path :: "(string, string) odict \<Rightarrow> string" where
  "call_path args = (case od_get args ''path'' of Some p \<Rightarrow> p
     | None \<Rightarrow> (case od_get args ''file'' of Some p \<Rightarrow> p | None \<Rightarrow> []))"

datatype touched = TCommand string | TRead string | TWrite string | TFetch string

definition touches :: "string \<Rightarrow> (string, string) odict \<Rightarrow> touched" where
  "touches tool args =
     (if tool = ''shell'' \<and> od_get args ''command'' \<noteq> None then TCommand (the (od_get args ''command''))
      else if tool \<in> {''file_read'', ''file_write'', ''file_ops''}
      then (if tool = ''file_read'' then TRead (call_path args) else TWrite (call_path args))
      else if tool = ''web_fetch'' then TFetch (case od_get args ''url'' of Some u \<Rightarrow> u | None \<Rightarrow> [])
      else TCommand tool)"

fun in_scope :: "(string \<Rightarrow> string \<Rightarrow> bool option) \<Rightarrow> budget \<Rightarrow> touched \<Rightarrow> bool" where
  "in_scope rematch b (TCommand c) = command_allowed rematch b c"
| "in_scope rematch b (TRead p) = path_allowed b (fs_read (bg_files b)) p"
| "in_scope rematch b (TWrite p) = path_allowed b (fs_write (bg_files b)) p"
| "in_scope rematch b (TFetch u) = host_allowed b u"

lemma enforce_touched: "enforce_tool_call rematch b st tool args = (case touches tool args of
    TCommand c \<Rightarrow> check_command rematch b c | TRead p \<Rightarrow> check_file_read b p
  | TWrite p \<Rightarrow> check_file_write b st p 0 | TFetch u \<Rightarrow> check_network b u)"
proof -
  have split: "(case (if P then x else y) of TCommand c \<Rightarrow> f c | TRead p \<Rightarrow> g p | TWrite p \<Rightarrow> h p | TFetch u \<Rightarrow> k u) =
      (if P then (case x of TCommand c \<Rightarrow> f c | TRead p \<Rightarrow> g p | TWrite p \<Rightarrow> h p | TFetch u \<Rightarrow> k u)
       else (case y of TCommand c \<Rightarrow> f c | TRead p \<Rightarrow> g p | TWrite p \<Rightarrow> h p | TFetch u \<Rightarrow> k u))"
    for P x y and f g h k :: "string \<Rightarrow> enforcement enforcer_svc" by simp
  show ?thesis
    unfolding enforce_tool_call_def touches_def call_path_def Let_def by (simp only: split touched.case)
qed

lemma proceeding_scope:
  assumes "tool_proceeds rematch b st tool args e"
  shows "in_scope rematch b (touches tool args)"
proof -
  obtain res where res: "fst (enforce_tool_call rematch b st tool args e) = Inr res" "res \<noteq> EN_Blocked"
    using assms by (auto simp: tool_proceeds_def split: sum.splits)
  show ?thesis
  proof (cases "touches tool args")
    case (TCommand c)
    with res have "fst (check_command rematch b c e) = Inr res" by (simp add: enforce_touched)
    from command_decision [OF this res(2)] TCommand show ?thesis by simp
  next
    case (TRead p)
    with res show ?thesis by (simp add: enforce_touched read_decision split: if_splits)
  next
    case (TWrite p)
    with res write_answers [of b st p 0 e] write_decision [of b st p 0 e] show ?thesis
      by (auto simp: enforce_touched)
  next
    case (TFetch u)
    with res network_answers [of b u e] network_decision [of b u e] show ?thesis
      by (auto simp: enforce_touched)
  qed
qed

text \<open>A tool call that the enforcement step of the tool loop lets proceed is within the scope of the
  budget: no deny pattern, denied command or denied domain applies to it, and where the budget has an
  allowlist for its kind, the allowlist names it.\<close>

theorem proceeding_call_in_scope:
  assumes "tool_proceeds rematch b st tool args e"
  shows "in_scope rematch b (touches tool args)"
  using assms by (rule proceeding_scope)

theorem proceeding_call_in_scope_witness:
  "in_scope (\<lambda>_ _. Some True) (level_2_budget ''b'' ''t'' 0) (touches ''file_write'' [(''path'', ''src/a.py'')])"
proof (rule proceeding_call_in_scope)
  show "tool_proceeds (\<lambda>_ _. Some True) (level_2_budget ''b'' ''t'' 0) (''e'', 1) ''file_write'' [(''path'', ''src/a.py'')] (new_enforcer 0)"
    by code_simp
qed

section \<open>Supervised agents\<close>

fun en_call_of :: "stamp \<Rightarrow> touched \<Rightarrow> en_call" where
  "en_call_of st (TCommand c) = EnCommand c"
| "en_call_of st (TRead p) = EnRead p"
| "en_call_of st (TWrite p) = EnWrite st p 0"
| "en_call_of st (TFetch u) = EnNetwork u"

lemma enforce_en_exec: "enforce_tool_call rematch b st tool args = en_exec rematch b (en_call_of st (touches tool args))"
  by (cases "touches tool args") (simp_all add: enforce_touched)

lemma files_grow: "ec_files (en_context e) \<le> ec_files (en_context (snd (en_exec rematch b c e)))"
proof -
  obtain g e' where st: "en_step rematch b c e = (g, e')" by (cases "en_step rematch b c e")
  then have "e' = snd (en_exec rematch b c e)" by (auto simp: en_step_def split: prod.splits)
  with step_moves(1) [OF st] weights_nonneg(1) [of c] show ?thesis by (auto simp: moves_def)
qed

type_synonym tool_call = "stamp \<times> string \<times> (string, string) odict"

definition after_calls :: "(string \<Rightarrow> string \<Rightarrow> bool option) \<Rightarrow> budget \<Rightarrow> tool_call list \<Rightarrow> enforcer \<Rightarrow> enforcer" where
  "after_calls rematch b calls e = fold (\<lambda>(st, tool, args) e. snd (enforce_tool_call rematch b st tool args e)) calls e"

lemma after_calls_files: "0 \<le> ec_files (en_context e) \<Longrightarrow> 0 \<le> ec_files (en_context (after_calls rematch b calls e))"
  unfolding after_calls_def
  by (rule fold_invariant) (auto simp: enforce_en_exec intro: order_trans [OF _ files_grow])

lemma no_write_budget:
  assumes "li_files (bg_limits b) \<le> 0" and "0 \<le> ec_files (en_context e)"
  shows "fst (check_file_write b st p n e) \<noteq> Inr EN_Allowed"
proof
  assume ok: "fst (check_file_write b st p n e) = Inr EN_Allowed"
  obtain e' where "check_file_write b st p n e = (Inr EN_Allowed, e')"
    using ok by (cases "check_file_write b st p n e") auto
  from write_cases [OF this] assms show False by auto
qed

text \<open>After any sequence of tool calls under the budget of level 0, whatever still proceeds reads a file,
  or names the command \<open>__none__\<close>, the sentinel of the allowlist.\<close>

theorem supervised_level_only_reads:
  assumes "tool_proceeds rematch (level_0_budget i task now) st tool args
      (after_calls rematch (level_0_budget i task now) calls (new_enforcer now))"
  shows "(\<exists>p. touches tool args = TRead p) \<or> (\<exists>c. touches tool args = TCommand c \<and> command_name c = Inr ''__none__'')"
proof -
  let ?b = "level_0_budget i task now" and ?e = "after_calls rematch (level_0_budget i task now) calls (new_enforcer now)"
  have "0 \<le> ec_files (en_context ?e)" by (rule after_calls_files) (simp add: new_enforcer_def)
  then have nowrite: "fst (check_file_write ?b st p n ?e) \<noteq> Inr EN_Allowed" for p n
    by (intro no_write_budget) (simp add: level_0_budget_def)
  from proceeding_scope [OF assms] have scope: "in_scope rematch ?b (touches tool args)" .
  show ?thesis
  proof (cases "touches tool args")
    case (TCommand c)
    with scope show ?thesis by (auto simp: command_allowed_def level_0_budget_def permit_def)
  next
    case (TWrite p)
    with assms nowrite [of p 0] write_answers [of ?b st p 0 ?e] have False
      by (auto simp: tool_proceeds_def enforce_touched split: sum.splits)
    then show ?thesis ..
  next
    case (TFetch u)
    with scope show ?thesis by (simp add: host_allowed_def level_0_budget_def)
  qed simp
qed

theorem supervised_level_only_reads_witness:
  "(\<exists>p. touches ''file_read'' [(''path'', ''notes.txt'')] = TRead p) \<or>
   (\<exists>c. touches ''file_read'' [(''path'', ''notes.txt'')] = TCommand c \<and> command_name c = Inr ''__none__'')"
proof (rule supervised_level_only_reads)
  show "tool_proceeds (\<lambda>_ _. None) (level_0_budget ''b'' ''t'' 0) (''e'', 1) ''file_read'' [(''path'', ''notes.txt'')]
      (after_calls (\<lambda>_ _. None) (level_0_budget ''b'' ''t'' 0) [((''e'', 1), ''file_write'', [(''path'', ''x'')])] (new_enforcer 0))"
    by code_simp
qed

section \<open>Preflight\<close>

lemma overall_loop_fail: "s \<noteq> PF_Fail \<Longrightarrow> overall_loop s cs = PF_Fail \<longleftrightarrow> (\<exists>c \<in> set cs. pf_status c = PF_Fail)"
proof (induction s cs rule: overall_loop.induct)
  case (2 s c cs)
  then show ?case by (cases "pf_status c") auto
qed simp

lemma overall_loop_pass: "overall_loop s cs = PF_Pass \<longleftrightarrow> s = PF_Pass \<and> (\<forall>c \<in> set cs. pf_status c = PF_Pass)"
proof (induction s cs rule: overall_loop.induct)
  case (2 s c cs)
  then show ?case by (cases "pf_status c") auto
qed simp

lemma check_statuses:
  "pf_status (pf01_budget_exists b) = (if bg_id b = [] then PF_Fail else PF_Pass)"
  "pf_status (pf02_budget_valid b) = (if bg_state b \<noteq> BS_Active then PF_Fail else PF_Pass)"
  "pf_status (pf03_budget_not_expired now b) = (if \<exists>t. bg_expires_at b = Some t \<and> t < now then PF_Fail else PF_Pass)"
  "pf_status (pf04_scope_defined b) = (if bg_in_scope b = [] then PF_Fail else PF_Pass)"
  "pf_status (pf05_files_scoped b) = (if fs_read (bg_files b) = [] \<and> fs_write (bg_files b) = [] then PF_Warn else PF_Pass)"
  "pf_status (pf06_commands_scoped b) = (if bg_allowed_commands b = [] then PF_Warn else PF_Pass)"
  "pf_status (pf07_network_scoped b) = (if nt_enabled (bg_network b) \<and> nt_allowed (bg_network b) = [] then PF_Warn else PF_Pass)"
  "pf_status (pf08_limits_set b) = (if li_iterations (bg_limits b) \<le> 0 \<or> li_minutes (bg_limits b) \<le> 0 then PF_Warn else PF_Pass)"
  "pf_status (pf09_stop_conditions b) = (if bg_stop_conditions b = [] then PF_Warn else PF_Pass)"
  "pf_status (pf10_escalation_path b) = (if bg_triggers b = [] \<and> bg_target b = [] then PF_Warn else PF_Pass)"
  by (simp_all add: pf01_budget_exists_def pf02_budget_valid_def pf03_budget_not_expired_def
    pf04_scope_defined_def pf05_files_scoped_def pf06_commands_scoped_def pf07_network_scoped_def pf08_limits_set_def
    pf09_stop_conditions_def pf10_escalation_path_def split: option.split)

lemma preflight_overall: "pr_overall (preflight now b) = overall_loop PF_Pass (pr_checks (preflight now b))"
  "set (pr_checks (preflight now b)) = {pf01_budget_exists b, pf02_budget_valid b, pf03_budget_not_expired now b,
     pf04_scope_defined b, pf05_files_scoped b, pf06_commands_scoped b, pf07_network_scoped b, pf08_limits_set b,
     pf09_stop_conditions b, pf10_escalation_path b}"
  by (simp_all add: preflight_def Let_def)

lemma if_statuses: "(if c then PF_Fail else PF_Pass) = PF_Fail \<longleftrightarrow> c" "(if c then PF_Warn else PF_Pass) \<noteq> PF_Fail"
  "(if c then PF_Fail else PF_Pass) = PF_Pass \<longleftrightarrow> \<not> c" "(if c then PF_Warn else PF_Pass) = PF_Pass \<longleftrightarrow> \<not> c"
  by simp_all

text \<open>Preflight fails exactly when the budget has no id, is not active, has expired or has no scope;
  it passes without a warning exactly when in addition every other part of the budget is filled in.\<close>

theorem preflight_decision:
  "(pr_overall (preflight now b) = PF_Fail \<longleftrightarrow>
     bg_id b = [] \<or> bg_state b \<noteq> BS_Active \<or> (\<exists>t. bg_expires_at b = Some t \<and> t < now) \<or> bg_in_scope b = []) \<and>
   (pr_overall (preflight now b) = PF_Pass \<longleftrightarrow>
     bg_id b \<noteq> [] \<and> bg_state b = BS_Active \<and> (\<forall>t. bg_expires_at b = Some t \<longrightarrow> now \<le> t) \<and> bg_in_scope b \<noteq> [] \<and>
     (fs_read (bg_files b) \<noteq> [] \<or> fs_write (bg_files b) \<noteq> []) \<and> bg_allowed_commands b \<noteq> [] \<and>
     (nt_enabled (bg_network b) \<longrightarrow> nt_allowed (bg_network b) \<noteq> []) \<and>
     0 < li_iterations (bg_limits b) \<and> 0 < li_minutes (bg_limits b) \<and>
     bg_stop_conditions b \<noteq> [] \<and> (bg_triggers b \<noteq> [] \<or> bg_target b \<noteq> []))"
proof
  show "pr_overall (preflight now b) = PF_Fail \<longleftrightarrow>
     bg_id b = [] \<or> bg_state b \<noteq> BS_Active \<or> (\<exists>t. bg_expires_at b = Some t \<and> t < now) \<or> bg_in_scope b = []"
    by (simp only: preflight_overall overall_loop_fail [OF preflight_status.distinct(1)] bex_simps check_statuses if_statuses) simp
  show "pr_overall (preflight now b) = PF_Pass \<longleftrightarrow>
     bg_id b \<noteq> [] \<and> bg_state b = BS_Active \<and> (\<forall>t. bg_expires_at b = Some t \<longrightarrow> now \<le> t) \<and> bg_in_scope b \<noteq> [] \<and>
     (fs_read (bg_files b) \<noteq> [] \<or> fs_write (bg_files b) \<noteq> []) \<and> bg_allowed_commands b \<noteq> [] \<and>
     (nt_enabled (bg_network b) \<longrightarrow> nt_allowed (bg_network b) \<noteq> []) \<and>
     0 < li_iterations (bg_limits b) \<and> 0 < li_minutes (bg_limits b) \<and>
     bg_stop_conditions b \<noteq> [] \<and> (bg_triggers b \<noteq> [] \<or> bg_target b \<noteq> [])"
    by (simp only: preflight_overall overall_loop_pass ball_simps check_statuses if_statuses) (auto simp: not_less)
qed

theorem preflight_decision_witness:
  "pr_overall (preflight 5 (level_2_budget ''b'' ''t'' 0)) = PF_Warn"
proof -
  have "pr_overall (preflight 5 (level_2_budget ''b'' ''t'' 0)) \<noteq> PF_Fail"
    using preflight_decision [of 5 "level_2_budget ''b'' ''t'' 0"] by (simp add: level_2_budget_def)
  moreover have "pr_overall (preflight 5 (level_2_budget ''b'' ''t'' 0)) \<noteq> PF_Pass"
    using preflight_decision [of 5 "level_2_budget ''b'' ''t'' 0"] by (simp add: level_2_budget_def)
  ultimately show ?thesis by (cases "pr_overall (preflight 5 (level_2_budget ''b'' ''t'' 0))") auto
qed

section \<open>Histories of service calls\<close>

datatype au_op =
    AuCreate budget
  | AuDelete string
  | AuMove string budget_state string
  | AuEnforcer int string
  | AuFile string stamp string string int
  | AuCommand string string
  | AuNetwork string string
  | AuEscalate string stamp string string urgency
  | AuMark string "escalation \<Rightarrow> escalation"

fun au_exec :: "(string \<Rightarrow> string \<Rightarrow> bool option) \<Rightarrow> au_op \<Rightarrow> unit autonomy_svc" where
  "au_exec rematch (AuCreate b) = sv_void (create_budget b)"
| "au_exec rematch (AuDelete i) = delete_budget i"
| "au_exec rematch (AuMove i to who) = sv_void (budget_transition i to who)"
| "au_exec rematch (AuEnforcer now i) = sv_void (create_enforcer now i)"
| "au_exec rematch (AuFile i st p mode n) = sv_void (enforce_file i st p mode n)"
| "au_exec rematch (AuCommand i c) = sv_void (enforce_command rematch i c)"
| "au_exec rematch (AuNetwork i h) = sv_void (enforce_network i h)"
| "au_exec rematch (AuEscalate i st desc target u) = sv_void (service_escalation i st desc target u)"
| "au_exec rematch (AuMark i f) = sv_void (mark_escalation i f)"

definition au_run :: "(string \<Rightarrow> string \<Rightarrow> bool option) \<Rightarrow> au_op \<Rightarrow> autonomy_st \<Rightarrow> autonomy_st" where
  "au_run rematch op d = snd (au_exec rematch op d)"

text \<open>A new id is never in use; a step of a history with a used one is no step.\<close>

fun au_fresh :: "au_op \<Rightarrow> autonomy_st \<Rightarrow> bool" where
  "au_fresh (AuCreate b) d = (od_get (am_budgets (live d)) (bg_id b) = None)"
| "au_fresh op d = True"

definition au_step :: "(string \<Rightarrow> string \<Rightarrow> bool option) \<Rightarrow> au_op \<Rightarrow> autonomy_st \<Rightarrow> autonomy_st" where
  "au_step rematch op d = (if au_fresh op d then au_run rematch op d else d)"

definition budget_at :: "autonomy_st \<Rightarrow> string \<Rightarrow> budget option" where
  "budget_at d i = od_get (am_budgets (live d)) i"

definition budget_status :: "autonomy_st \<Rightarrow> string \<Rightarrow> budget_state option" where
  "budget_status d i = map_option bg_state (budget_at d i)"

text \<open>The invariant of the state, on any intermediate state too: enforcers belong to stored budgets.\<close>

definition owned :: "autonomy_st \<Rightarrow> bool" where
  "owned d \<longleftrightarrow> (\<forall>i. od_get (am_enforcers (live d)) i \<noteq> None \<longrightarrow> od_get (am_budgets (live d)) i \<noteq> None)"

lemma get_budget_eq: "get_budget i d = (case budget_at d i of None \<Rightarrow> (Inl (BudgetNotFound i), d) | Some b \<Rightarrow> (Inr b, d))"
  by (auto simp: get_budget_def budget_at_def svc_simps split: option.split)

lemma at_persist [simp]: "budget_at (persist d) i = budget_at d i"
  by (simp add: budget_at_def)

lemma am_modify_run: "am_modify f d = (Inr (), d\<lparr>live := f (live d)\<rparr>)"
  by (simp add: am_modify_def sv_modify_def)

lemma persist_run: "sv_persist d = (Inr (), persist d)"
  by (simp add: sv_persist_def sv_modify_def)

text \<open>What each operation leaves behind.\<close>

definition store_budget :: "string \<Rightarrow> budget \<Rightarrow> autonomy_st \<Rightarrow> autonomy_st" where
  "store_budget i b d = persist (d\<lparr>live := (live d)\<lparr>am_budgets := od_put i b (am_budgets (live d))\<rparr>\<rparr>)"

definition store_enforcer :: "string \<Rightarrow> enforcer \<Rightarrow> autonomy_st \<Rightarrow> autonomy_st" where
  "store_enforcer i e d = d\<lparr>live := (live d)\<lparr>am_enforcers := od_put i e (am_enforcers (live d))\<rparr>\<rparr>"

lemma create_result: "snd (create_budget b d) = store_budget (bg_id b) b d"
  by (simp add: create_budget_def sv_bind_def am_modify_run persist_run sv_return_def store_budget_def)

lemma delete_result: "snd (delete_budget i d) = (case budget_at d i of
      Some b \<Rightarrow> if bg_state b \<in> {BS_Draft, BS_Rejected} then persist (d\<lparr>live := (live d)\<lparr>am_budgets := od_del i (am_budgets (live d)),
          am_enforcers := od_del i (am_enforcers (live d))\<rparr>\<rparr>) else d
    | None \<Rightarrow> d)"
  by (auto simp: delete_budget_def sv_bind_def get_budget_eq am_modify_run persist_run sv_raise_def split: option.split)

lemma transition_result: "snd (budget_transition i to who d) = (case budget_at d i of
      Some b \<Rightarrow> if to \<in> set (budget_table (bg_state b))
        then store_budget i (b\<lparr>bg_state := to, bg_approved_by := (if who \<noteq> [] then who else bg_approved_by b)\<rparr>) d else d
    | None \<Rightarrow> d)"
  by (auto simp: budget_transition_def sv_bind_def get_budget_eq am_modify_run persist_run sv_return_def sv_lift_def
      budget_move_def store_budget_def Let_def split: option.split)

lemma enforcer_result: "snd (create_enforcer now i d) = (case budget_at d i of
      Some b \<Rightarrow> if bg_state b = BS_Active then persist (store_enforcer i (new_enforcer now) d) else d
    | None \<Rightarrow> d)"
  by (auto simp: create_enforcer_def sv_bind_def get_budget_eq am_modify_run persist_run sv_return_def sv_raise_def
      store_enforcer_def split: option.split)

lemma with_enforcer_result: "snd (with_enforcer i f d) = (case od_get (am_enforcers (live d)) i of None \<Rightarrow> d
    | Some e \<Rightarrow> (case budget_at d i of None \<Rightarrow> d
      | Some b \<Rightarrow> (case f b e of (Inl x, e') \<Rightarrow> store_enforcer i e' d | (Inr a, e') \<Rightarrow> persist (store_enforcer i e' d))))"
  by (auto simp: with_enforcer_def sv_bind_def get_budget_eq am_modify_run persist_run sv_return_def sv_raise_def
      sv_get_def sv_lift_def store_enforcer_def split: option.split prod.split sum.split)

lemma mark_enforcers_keys: "mark_enforcers i f es = Some es' \<Longrightarrow> od_get es' k = None \<longleftrightarrow> od_get es k = None"
  by (induction es arbitrary: es') (auto split: option.splits)

lemma mark_result: "snd (mark_escalation i f d) = d \<or>
    (\<exists>es esc. snd (mark_escalation i f d) = persist (d\<lparr>live := (live d)\<lparr>am_enforcers := es, am_escalations := esc\<rparr>\<rparr>) \<and>
       (\<forall>k. od_get es k = None \<longleftrightarrow> od_get (am_enforcers (live d)) k = None))"
proof (cases "mark_enforcers i f (am_enforcers (live d))")
  case None
  then show ?thesis
    by (cases "od_get (am_escalations (live d)) i")
      (auto simp: mark_escalation_def sv_bind_def sv_get_def am_modify_run persist_run sv_return_def
        intro!: exI [of _ "am_enforcers (live d)"])
next
  case (Some es)
  with mark_enforcers_keys [OF Some] show ?thesis
    by (auto simp: mark_escalation_def sv_bind_def sv_get_def am_modify_run persist_run sv_return_def
        intro!: exI [of _ es] exI [of _ "am_escalations (live d)"])
qed

lemma store_enforcer_at [simp]: "budget_at (store_enforcer i e d) j = budget_at d j"
  by (simp add: budget_at_def store_enforcer_def)

lemma with_enforcer_at [simp]: "budget_at (snd (with_enforcer i f d)) j = budget_at d j"
  by (auto simp: with_enforcer_result split: option.split prod.split sum.split)

lemma mark_at [simp]: "budget_at (snd (mark_escalation i f d)) j = budget_at d j"
  using mark_result [of i f d] by (auto simp: budget_at_def)

lemma store_budget_at: "budget_at (store_budget i b d) j = (if j = i then Some b else budget_at d j)"
  by (simp add: budget_at_def store_budget_def od.get_put)

text \<open>What a step does to one budget.\<close>

lemma au_step_at:
  obtains (same) "budget_at (au_step rematch op d) i = budget_at d i"
  | (new) b where "op = AuCreate b" "budget_at d i = None" "budget_at (au_step rematch op d) i = Some b"
  | (gone) b where "budget_at d i = Some b" "bg_state b \<in> {BS_Draft, BS_Rejected}" "budget_at (au_step rematch op d) i = None"
  | (moved) b to who where "budget_at d i = Some b" "to \<in> set (budget_table (bg_state b))"
      "budget_at (au_step rematch op d) i =
        Some (b\<lparr>bg_state := to, bg_approved_by := (if who \<noteq> [] then who else bg_approved_by b)\<rparr>)"
proof (cases op)
  case (AuCreate b)
  show ?thesis
  proof (cases "budget_at d (bg_id b)")
    case None
    then have "au_step rematch op d = store_budget (bg_id b) b d"
      using AuCreate by (simp add: au_step_def au_run_def create_result budget_at_def)
    with AuCreate None show ?thesis by (cases "i = bg_id b") (auto simp: store_budget_at intro: same new)
  next
    case (Some b')
    then have "au_step rematch op d = d" using AuCreate by (simp add: au_step_def budget_at_def)
    then show ?thesis by (intro same) simp
  qed
next
  case (AuDelete j)
  then have step: "au_step rematch op d = snd (delete_budget j d)" by (simp add: au_step_def au_run_def)
  show ?thesis
  proof (cases "i = j \<and> (\<exists>b. budget_at d i = Some b \<and> bg_state b \<in> {BS_Draft, BS_Rejected})")
    case True
    then obtain b where b: "i = j" "budget_at d i = Some b" "bg_state b \<in> {BS_Draft, BS_Rejected}" by blast
    moreover have "budget_at (au_step rematch op d) i = None"
      using b by (simp add: step delete_result) (simp add: budget_at_def od.get_del)
    ultimately show ?thesis by (intro gone)
  next
    case False
    then have "budget_at (au_step rematch op d) i = budget_at d i"
      by (auto simp: step delete_result split: option.split) (auto simp: budget_at_def od.get_del)
    then show ?thesis by (rule same)
  qed
next
  case (AuMove j to who)
  then have step: "au_step rematch op d = snd (budget_transition j to who d)" by (simp add: au_step_def au_run_def)
  show ?thesis
  proof (cases "i = j \<and> (\<exists>b. budget_at d i = Some b \<and> to \<in> set (budget_table (bg_state b)))")
    case True
    then obtain b where b: "i = j" "budget_at d i = Some b" "to \<in> set (budget_table (bg_state b))" by blast
    moreover have "budget_at (au_step rematch op d) i =
        Some (b\<lparr>bg_state := to, bg_approved_by := (if who \<noteq> [] then who else bg_approved_by b)\<rparr>)"
      using b by (simp add: step transition_result store_budget_at)
    ultimately show ?thesis by (intro moved)
  next
    case False
    then have "budget_at (au_step rematch op d) i = budget_at d i"
      by (auto simp: step transition_result store_budget_at split: option.split)
    then show ?thesis by (rule same)
  qed
next
  case (AuEnforcer now j)
  then have "budget_at (au_step rematch op d) i = budget_at d i"
    by (auto simp: au_step_def au_run_def enforcer_result split: option.split)
  then show ?thesis by (rule same)
qed (auto simp: au_step_def au_run_def enforce_file_def enforce_command_def enforce_network_def service_escalation_def intro: same)

interpretation budget_moves: transition_table budget_table budget_move
  by unfold_locales (simp_all add: budget_move_def)

interpretation budgets: lifecycle_service budget_table budget_move "au_step rematch" budget_status
proof unfold_locales
  fix d i s op t
  assume "budget_status d i = Some s" and "budget_status (au_step rematch op d) i = Some t"
  then show "reach budget_table s t"
    by (cases rule: au_step_at [where rematch = rematch and op = op and d = d and i = i])
      (auto simp: budget_status_def intro: reach_edge)
qed

lemma closed_status_step:
  assumes "budget_status d i = Some s" and "budget_table s = []"
  shows "budget_status (au_step rematch op d) i = Some s"
  using assms
  by (cases rule: au_step_at [where rematch = rematch and op = op and d = d and i = i]) (auto simp: budget_status_def)

text \<open>C15: Over any history of service calls a stored budget only moves along the budget lifecycle, and one
  that has expired or is completed keeps that status for ever: it is never reopened and never deleted.\<close>

theorem budget_history_lifecycle:
  assumes "budget_status d i = Some s"
  shows "(along (au_step rematch) (\<lambda>d. budget_status d i \<noteq> None) ops d \<longrightarrow>
      (\<exists>t. budget_status (fold (au_step rematch) ops d) i = Some t \<and> reach budget_table s t)) \<and>
    (s \<in> {BS_Expired, BS_Completed} \<longrightarrow> budget_status (fold (au_step rematch) ops d) i = Some s)"
proof (intro conjI impI)
  assume "along (au_step rematch) (\<lambda>d. budget_status d i \<noteq> None) ops d"
  then show "\<exists>t. budget_status (fold (au_step rematch) ops d) i = Some t \<and> reach budget_table s t"
    using assms by (rule budgets.history_reach)
next
  assume "s \<in> {BS_Expired, BS_Completed}"
  then have closed: "budget_table s = []" by auto
  show "budget_status (fold (au_step rematch) ops d) i = Some s"
    by (rule fold_invariant [where P = "\<lambda>d. budget_status d i = Some s"])
      (rule assms, rule closed_status_step [OF _ closed])
qed

definition demo_budget :: budget where
  "demo_budget = (level_2_budget ''b1'' ''t'' 0)\<lparr>bg_state := BS_Draft\<rparr>"

definition demo_autonomy :: "au_op list" where
  "demo_autonomy = [AuCreate demo_budget, AuMove ''b1'' BS_Active ''ann'', AuEnforcer 5 ''b1'',
     AuCommand ''b1'' ''ls -la'', AuMove ''b1'' BS_Completed []]"

definition autonomy_empty :: "autonomy_mem option \<Rightarrow> autonomy_st" where
  "autonomy_empty store = \<lparr>live = autonomy_blank, saved = store\<rparr>"

abbreviation no_pattern :: "string \<Rightarrow> string \<Rightarrow> bool option" where
  "no_pattern \<equiv> \<lambda>_ _. None"

definition demo_closed :: autonomy_st where
  "demo_closed = fold (au_step no_pattern) demo_autonomy (autonomy_empty (Some autonomy_blank))"

theorem budget_history_lifecycle_witness:
  "budget_status (fold (au_step no_pattern) [AuMove ''b1'' BS_Active [], AuDelete ''b1''] demo_closed) ''b1'' = Some BS_Completed"
proof -
  have "budget_status demo_closed ''b1'' = Some BS_Completed" by code_simp
  then show ?thesis by (rule budget_history_lifecycle [THEN conjunct2, THEN mp]) simp
qed

section \<open>Restart\<close>

lemma owned_step: "owned d \<Longrightarrow> owned (au_run rematch op d)"
proof (cases op)
  case (AuDelete i)
  assume "owned d"
  with AuDelete show ?thesis
    by (auto simp: au_run_def delete_result owned_def od.get_del split: option.split)
next
  case (AuMark i f)
  assume "owned d"
  from mark_result [of i f d] show ?thesis
  proof
    assume "snd (mark_escalation i f d) = d"
    with AuMark \<open>owned d\<close> show ?thesis by (simp add: au_run_def)
  next
    assume "\<exists>es esc. snd (mark_escalation i f d) = persist (d\<lparr>live := (live d)\<lparr>am_enforcers := es, am_escalations := esc\<rparr>\<rparr>) \<and>
       (\<forall>k. od_get es k = None \<longleftrightarrow> od_get (am_enforcers (live d)) k = None)"
    then obtain es esc where mark: "snd (mark_escalation i f d) = persist (d\<lparr>live := (live d)\<lparr>am_enforcers := es, am_escalations := esc\<rparr>\<rparr>)"
      and keys: "\<And>k. od_get es k = None \<longleftrightarrow> od_get (am_enforcers (live d)) k = None" by blast
    have "au_run rematch op d = persist (d\<lparr>live := (live d)\<lparr>am_enforcers := es, am_escalations := esc\<rparr>\<rparr>)"
      using AuMark mark by (simp add: au_run_def)
    then show ?thesis using \<open>owned d\<close> by (simp add: owned_def keys)
  qed
next
  case (AuEnforcer now i)
  assume "owned d"
  with AuEnforcer show ?thesis
    by (auto simp: au_run_def enforcer_result owned_def store_enforcer_def budget_at_def od.get_put split: option.split)
qed (auto simp: au_run_def create_result transition_result owned_def store_budget_def od.get_put budget_at_def
    enforce_file_def enforce_command_def enforce_network_def service_escalation_def with_enforcer_result
    store_enforcer_def split: option.splits prod.splits sum.splits)

text \<open>Methods of an enforcer that raise have not touched it, so every operation writes through.\<close>

lemma command_raise_unchanged: "check_command rematch b c e = (Inl x, e') \<Longrightarrow> e' = e"
  by (auto simp: check_command_def enforcer_defs split: if_splits sum.splits prod.splits)

lemma answers_never_raise: "\<exists>a e'. check_file_read b p e = (Inr a, e')" "\<exists>a e'. check_file_write b st p n e = (Inr a, e')"
  "\<exists>a e'. check_network b h e = (Inr a, e')" "\<exists>a e'. trigger_escalation b st desc target u e = (Inr a, e')"
proof -
  show "\<exists>a e'. check_file_read b p e = (Inr a, e')"
    using read_decision [of b p e] by (metis prod.collapse)
  show "\<exists>a e'. check_file_write b st p n e = (Inr a, e')"
    using write_answers [of b st p n e] by (metis insertE prod.collapse singletonD)
  show "\<exists>a e'. check_network b h e = (Inr a, e')"
    using network_answers [of b h e] by (metis insertE prod.collapse singletonD)
  show "\<exists>a e'. trigger_escalation b st desc target u e = (Inr a, e')"
    by (simp add: trigger_escalation_def enforcer_defs)
qed

lemma with_enforcer_synced:
  assumes "\<And>b e x e'. f b e = (Inl x, e') \<Longrightarrow> e' = e" and "synced d"
  shows "synced (snd (with_enforcer i f d))"
proof -
  have same: "store_enforcer i e d = d" if "od_get (am_enforcers (live d)) i = Some e" for e
    using that by (simp add: store_enforcer_def od_put_same)
  have "synced (store_enforcer i e' d)" if "od_get (am_enforcers (live d)) i = Some e" "f b e = (Inl x, e')" for b e x e'
    using same [OF that(1)] assms(1) [OF that(2)] assms(2) by simp
  with assms(2) show ?thesis
    by (auto simp: with_enforcer_result split: option.split prod.split sum.split)
qed

lemma au_synced: "synced d \<Longrightarrow> synced (au_run rematch op d)"
proof (cases op)
  case (AuFile i st p mode n)
  assume "synced d"
  have "\<exists>a e'. (if mode = ''write'' then check_file_write b st p n else check_file_read b p) e = (Inr a, e')" for b e
    using answers_never_raise by simp
  with \<open>synced d\<close> AuFile show ?thesis unfolding au_run_def
    by (simp add: enforce_file_def) (rule with_enforcer_synced, metis Inl_Inr_False prod.inject, assumption)
next
  case (AuCommand i c)
  assume "synced d"
  with AuCommand show ?thesis
    by (simp add: au_run_def enforce_command_def with_enforcer_synced [OF command_raise_unchanged])
next
  case (AuNetwork i h)
  assume "synced d"
  with AuNetwork show ?thesis unfolding au_run_def
    by (simp add: enforce_network_def)
      (rule with_enforcer_synced, metis answers_never_raise(3) Inl_Inr_False prod.inject, assumption)
next
  case (AuEscalate i st desc target u)
  assume "synced d"
  with AuEscalate show ?thesis unfolding au_run_def
    by (simp add: service_escalation_def)
      (rule with_enforcer_synced, metis answers_never_raise(4) Inl_Inr_False prod.inject, assumption)
next
  case (AuMark i f)
  assume "synced d"
  with mark_result [of i f d] AuMark show ?thesis by (auto simp: au_run_def)
qed (auto simp: au_run_def create_result delete_result transition_result enforcer_result store_budget_def split: option.splits)

lemma au_saved: "saved (au_run rematch op d) = None \<longleftrightarrow> saved d = None"
proof (cases op)
  case (AuMark i f)
  with mark_result [of i f d] show ?thesis by (auto simp: au_run_def)
qed (auto simp: au_run_def create_result delete_result transition_result enforcer_result store_budget_def
    store_enforcer_def enforce_file_def enforce_command_def enforce_network_def service_escalation_def
    with_enforcer_result split: option.splits prod.splits sum.splits)

interpretation autonomy_store: write_through "au_run rematch" "\<lambda>op. True"
  by unfold_locales (simp_all add: au_synced au_saved)

lemma load_owned: "owned d \<Longrightarrow> load_mem (live d) = live d"
proof -
  assume "owned d"
  then have "filter (\<lambda>(i, e). od_get (am_budgets (live d)) i \<noteq> None) (am_enforcers (live d)) = am_enforcers (live d)"
    by (force simp: filter_id_conv owned_def map_of_eq_None_iff)
  then show ?thesis by (simp add: load_mem_def)
qed



section \<open>What the code allows\<close>

text \<open>A stopped enforcer goes on granting: nothing but the stop conditions reads or sets the flag.\<close>

lemma stopped_still_grants:
  "let e = snd (record_iteration ((level_3_budget ''b'' ''t'' 0)\<lparr>bg_limits := \<lparr>li_iterations = 0, li_minutes = 1,
       li_files = 9, li_lines = 9, li_tool_calls = 9\<rparr>\<rparr>) (''e'', 1) (new_enforcer 0))
   in ec_stopped (en_context e) \<and> tool_proceeds no_pattern (level_3_budget ''b'' ''t'' 0) (''f'', 2) ''shell'' [(''command'', ''make'')] e"
  by code_simp

text \<open>An enforcer outlives the active state of its budget.\<close>

lemma completed_still_grants:
  "budget_status demo_closed ''b1'' = Some BS_Completed \<and>
   fst (enforce_command no_pattern ''b1'' ''ls'' demo_closed) = Inr EN_Allowed"
  by code_simp

text \<open>Creating the enforcer again sets all counters back.\<close>

lemma enforcer_reset:
  "let d = fold (au_step no_pattern) (take 4 demo_autonomy) (autonomy_empty None)
   in map_option (\<lambda>e. ec_tool_calls (en_context e)) (od_get (am_enforcers (live d)) ''b1'') = Some 1 \<and>
      map_option (\<lambda>e. ec_tool_calls (en_context e))
        (od_get (am_enforcers (live (au_step no_pattern (AuEnforcer 9 ''b1'') d))) ''b1'') = Some 0"
  by code_simp

text \<open>Level 1 says that \<open>python\<close> requires approval; the answer is a warning, which does not stop the call, and
  the call is not counted.  Its writes need no approval either.\<close>

lemma approval_not_needed:
  "tool_proceeds no_pattern (level_1_budget ''b'' ''t'' 0) (''e'', 1) ''shell'' [(''command'', ''python setup.py'')] (new_enforcer 0) \<and>
   counters (snd (enforce_tool_call no_pattern (level_1_budget ''b'' ''t'' 0) (''e'', 1) ''shell''
     [(''command'', ''python setup.py'')] (new_enforcer 0))) = counters (new_enforcer 0) \<and>
   tool_proceeds no_pattern (level_1_budget ''b'' ''t'' 0) (''e'', 1) ''file_write'' [(''path'', ''a.py'')] (new_enforcer 0)"
  by code_simp

text \<open>A command of white space raises instead of being refused.\<close>

lemma blank_command_raises: "fst (check_command rematch b '' '' e) = Inl EmptyCommand"
proof -
  have "py_words '' '' = []" by code_simp
  then show ?thesis by (simp add: check_command_def command_name_def svc_simps)
qed

text \<open>The tool loop passes the whole address where a domain is expected: at level 2 an address on the
  network proceeds if its text ends in a dot and an allowed name, and a local one does not.\<close>

lemma address_taken_for_domain:
  "tool_proceeds no_pattern (level_2_budget ''b'' ''t'' 0) (''e'', 1) ''web_fetch''
     [(''url'', ''https://evil.example/?q=.localhost'')] (new_enforcer 0) \<and>
   \<not> tool_proceeds no_pattern (level_2_budget ''b'' ''t'' 0) (''e'', 1) ''web_fetch''
     [(''url'', ''http://localhost:8000/'')] (new_enforcer 0)"
  by code_simp

text \<open>The pattern \<open>**/.env\<close> needs a slash, so the file at the top is not denied.\<close>

lemma top_dotenv_not_denied:
  "tool_proceeds no_pattern (level_2_budget ''b'' ''t'' 0) (''e'', 1) ''file_write'' [(''path'', ''.env'')] (new_enforcer 0) \<and>
   \<not> tool_proceeds no_pattern (level_2_budget ''b'' ''t'' 0) (''e'', 1) ''file_write'' [(''path'', ''app/.env'')] (new_enforcer 0)"
  by code_simp

end
