(* ===== verification/Breaker.thy ===== *)
theory Breaker
  imports Prelude
begin

text \<open>
  The circuit breaker of external connectors (\<open>agent33/connectors/circuit_breaker.py\<close>) and its registry.

  Clock readings are arguments; seconds are rational numbers, so the rounding of float subtraction is left
  out, while the overflow is not: \<open>2 ** exponent\<close> is an unbounded integer, and multiplying a float by one
  of 1024 bits or more raises \<open>OverflowError\<close>.  \<open>br_notified\<close> is the list of calls made to the
  \<open>on_state_change\<close> callback, which is taken not to raise.
\<close>

section \<open>The breaker\<close>

datatype circuit_state = CK_Closed | CK_Open | CK_HalfOpen

datatype breaker_error = CircuitOpen | TimeoutOverflow

record breaker =
  br_failure_threshold :: int
  br_recovery_timeout :: rat
  br_success_threshold :: int
  br_max_timeout :: rat
  br_state :: circuit_state
  br_failures :: int
  br_opened_at :: "rat option"
  br_successes :: int
  br_trips :: nat
  br_last_trip :: "rat option"
  br_notified :: "(circuit_state \<times> circuit_state) list"

type_synonym 'a breaker_svc = "(breaker, breaker_error, 'a) svc"

definition new_breaker :: "int \<Rightarrow> rat \<Rightarrow> int \<Rightarrow> rat \<Rightarrow> breaker" where
  "new_breaker failures timeout successes max_timeout =
     \<lparr>br_failure_threshold = failures, br_recovery_timeout = timeout, br_success_threshold = successes,
      br_max_timeout = max_timeout, br_state = CK_Closed, br_failures = 0, br_opened_at = None,
      br_successes = 0, br_trips = 0, br_last_trip = None, br_notified = []\<rparr>"

definition default_breaker :: breaker where
  "default_breaker = new_breaker 3 30 2 300"

definition float_exponents :: nat where "float_exponents = 1024"

definition effective_recovery_timeout :: "breaker \<Rightarrow> breaker_error + rat" where
  "effective_recovery_timeout b =
     (if br_trips b = 0 then Inr (br_recovery_timeout b)
      else let exponent = br_trips b - 1 in
        if float_exponents \<le> exponent then Inl TimeoutOverflow
        else Inr (min (br_recovery_timeout b * 2 ^ exponent) (br_max_timeout b)))"

definition br_transition :: "circuit_state \<Rightarrow> unit breaker_svc" where
  "br_transition new_state = sv_modify (\<lambda>b.
     if br_state b = new_state then b
     else b\<lparr>br_state := new_state, br_notified := br_notified b @ [(br_state b, new_state)]\<rparr>)"

definition before_call :: "rat \<Rightarrow> unit breaker_svc" where
  "before_call now = sv_bind sv_get (\<lambda>b.
     if br_state b \<noteq> CK_Open then sv_return ()
     else (case br_opened_at b of
         None \<Rightarrow> sv_raise CircuitOpen
       | Some t \<Rightarrow> sv_bind (sv_lift (effective_recovery_timeout b)) (\<lambda>timeout.
           if now - t < timeout then sv_raise CircuitOpen
           else sv_bind (br_transition CK_HalfOpen) (\<lambda>_. sv_modify (\<lambda>b. b\<lparr>br_successes := 0\<rparr>)))))"

definition record_success :: "unit breaker_svc" where
  "record_success = sv_bind sv_get (\<lambda>b.
     if br_state b = CK_HalfOpen then
       sv_bind (sv_modify (\<lambda>b. b\<lparr>br_successes := br_successes b + 1\<rparr>)) (\<lambda>_. sv_bind sv_get (\<lambda>b.
         if br_success_threshold b \<le> br_successes b then
           sv_bind (br_transition CK_Closed) (\<lambda>_.
             sv_modify (\<lambda>b. b\<lparr>br_failures := 0, br_opened_at := None, br_successes := 0\<rparr>))
         else sv_return ()))
     else sv_bind (br_transition CK_Closed) (\<lambda>_. sv_modify (\<lambda>b. b\<lparr>br_failures := 0\<rparr>)))"

text \<open>The warning that is logged last evaluates the timeout, which may raise.\<close>

definition br_open :: "rat \<Rightarrow> unit breaker_svc" where
  "br_open now = sv_bind (br_transition CK_Open) (\<lambda>_.
     sv_bind (sv_modify (\<lambda>b. b\<lparr>br_opened_at := Some now, br_trips := br_trips b + 1, br_last_trip := Some now,
       br_failures := 0, br_successes := 0\<rparr>)) (\<lambda>_.
     sv_bind sv_get (\<lambda>b. sv_bind (sv_lift (effective_recovery_timeout b)) (\<lambda>_. sv_return ()))))"

definition record_failure :: "rat \<Rightarrow> unit breaker_svc" where
  "record_failure now = sv_bind sv_get (\<lambda>b.
     if br_state b = CK_HalfOpen then br_open now
     else sv_bind (sv_modify (\<lambda>b. b\<lparr>br_failures := br_failures b + 1\<rparr>)) (\<lambda>_. sv_bind sv_get (\<lambda>b.
       if br_failure_threshold b \<le> br_failures b then br_open now else sv_return ())))"

record breaker_snapshot =
  sn_state :: circuit_state
  sn_failures :: int
  sn_trips :: nat
  sn_last_trip :: "rat option"
  sn_effective :: rat
  sn_cooldown :: rat

definition br_snapshot :: "rat \<Rightarrow> breaker_snapshot breaker_svc" where
  "br_snapshot now = sv_bind sv_get (\<lambda>b. sv_bind (sv_lift (effective_recovery_timeout b)) (\<lambda>timeout.
     sv_return \<lparr>sn_state = br_state b, sn_failures = br_failures b, sn_trips = br_trips b,
       sn_last_trip = br_last_trip b, sn_effective = timeout,
       sn_cooldown = (case br_opened_at b of
           Some t \<Rightarrow> if br_state b = CK_Open then max 0 (timeout - (now - t)) else 0
         | None \<Rightarrow> 0)\<rparr>))"

section \<open>The registry\<close>

definition get_or_create :: "string \<Rightarrow> breaker \<Rightarrow> (string, breaker) odict \<Rightarrow> breaker \<times> (string, breaker) odict" where
  "get_or_create name fresh reg = (case od_get reg name of
      Some b \<Rightarrow> (b, reg) | None \<Rightarrow> (fresh, od_put name fresh reg))"

end
