(* ===== verification/Connector.thy ===== *)
theory Connector
  imports Breaker PyText
begin

text \<open>
  The connector boundary (\<open>agent33/connectors/\<close>): requests (\<open>models.py\<close>), the blocklist policy
  (\<open>governance.py\<close>), the metrics collector (\<open>monitoring.py\<close>), the middleware (\<open>middleware.py\<close>), the
  chain that runs them (\<open>executor.py\<close>), and the factory with its policy packs (\<open>boundary.py\<close>).

  The connector call itself and the clock are fields of an environment over a world \<open>'w\<close>.  A call that is
  cancelled by an enclosing deadline ends in \<open>CE_Cancelled\<close>: \<open>asyncio.CancelledError\<close> is no
  \<open>Exception\<close>, so the \<open>except Exception\<close> clauses do not catch it.  Seconds and milliseconds are
  rational numbers; payloads, logging and the texts of errors are left out.
\<close>

section \<open>Requests, errors and state\<close>

text \<open>\<open>cq_timeout\<close>: the entry \<open>timeout_seconds\<close> of the metadata, absent, \<open>None\<close> or a number.\<close>

record conn_request =
  cq_connector :: string
  cq_operation :: string
  cq_timeout :: "rat option option"

datatype conn_error =
    CE_Permission string
  | CE_CircuitOpen
  | CE_Overflow
  | CE_Timeout
  | CE_HttpTimeout
  | CE_Http string
  | CE_Other string
  | CE_Cancelled

text \<open>\<open>boundary_metrics\<close> of the request, and the statistics of a connector.\<close>

record call_metrics =
  cm_calls :: int
  cm_success :: int
  cm_failure :: int
  cm_latency :: "rat option"

definition no_metrics :: call_metrics where
  "no_metrics = \<lparr>cm_calls = 0, cm_success = 0, cm_failure = 0, cm_latency = None\<rparr>"

record conn_stats =
  st_total :: int
  st_successes :: int
  st_failures :: int
  st_samples :: "rat list"

definition no_stats :: conn_stats where
  "no_stats = \<lparr>st_total = 0, st_successes = 0, st_failures = 0, st_samples = []\<rparr>"

text \<open>\<open>deque(maxlen=n).append\<close>\<close>

definition ring_append :: "nat \<Rightarrow> 'a \<Rightarrow> 'a list \<Rightarrow> 'a list" where
  "ring_append n x xs = (let ys = xs @ [x] in drop (length ys - n) ys)"

record circuit_event =
  ce_old :: circuit_state
  ce_new :: circuit_state
  ce_time :: rat

record collector =
  co_stats :: "(string, conn_stats) odict"
  co_events :: "(string, circuit_event list) odict"
  co_max_events :: nat

record 'w conn_st =
  cs_world :: 'w
  cs_breaker :: breaker
  cs_metrics :: call_metrics
  cs_collector :: collector

type_synonym ('w, 'a) conn_m = "('w conn_st, conn_error, 'a) svc"
type_synonym ('w, 'a) conn_handler = "conn_request \<Rightarrow> ('w, 'a) conn_m"

record ('w, 'a) conn_env =
  cv_call :: "conn_request \<Rightarrow> 'w \<Rightarrow> (conn_error + 'a) \<times> 'w"
  cv_clock :: "'w \<Rightarrow> rat"

text \<open>The innermost handler, and a clock reading.\<close>

definition conn_call :: "('w, 'a) conn_env \<Rightarrow> ('w, 'a) conn_handler" where
  "conn_call env req s = (case cv_call env req (cs_world s) of (res, w) \<Rightarrow> (res, s\<lparr>cs_world := w\<rparr>))"

definition conn_now :: "('w, 'a) conn_env \<Rightarrow> ('w, rat) conn_m" where
  "conn_now env = sv_bind sv_get (\<lambda>s. sv_return (cv_clock env (cs_world s)))"

section \<open>Metrics\<close>

text \<open>\<open>round(x, n)\<close>: half to even.\<close>

definition py_round :: "nat \<Rightarrow> rat \<Rightarrow> rat" where
  "py_round n x = (let y = x * 10 ^ n; f = \<lfloor>y\<rfloor>; d = y - of_int f
     in of_int (if d < 1/2 then f else if 1/2 < d then f + 1 else if even f then f else f + 1) / 10 ^ n)"

definition record_call :: "string \<Rightarrow> bool \<Rightarrow> rat \<Rightarrow> collector \<Rightarrow> collector" where
  "record_call cid success latency co =
     (let st = (case od_get (co_stats co) cid of Some st \<Rightarrow> st | None \<Rightarrow> no_stats);
          st = st\<lparr>st_total := st_total st + 1\<rparr>;
          st = (if success then st\<lparr>st_successes := st_successes st + 1\<rparr> else st\<lparr>st_failures := st_failures st + 1\<rparr>);
          st = st\<lparr>st_samples := ring_append 500 latency (st_samples st)\<rparr>
      in co\<lparr>co_stats := od_put cid st (co_stats co)\<rparr>)"

definition record_circuit_event :: "string \<Rightarrow> rat \<Rightarrow> circuit_state \<times> circuit_state \<Rightarrow> collector \<Rightarrow> collector" where
  "record_circuit_event cid now change co =
     (let ring = (case od_get (co_events co) cid of Some r \<Rightarrow> r | None \<Rightarrow> []);
          ring = ring_append (co_max_events co) \<lparr>ce_old = fst change, ce_new = snd change, ce_time = now\<rparr> ring;
          co = co\<lparr>co_events := od_put cid ring (co_events co)\<rparr>
      in if od_get (co_stats co) cid = None then co\<lparr>co_stats := od_put cid no_stats (co_stats co)\<rparr> else co)"

definition percentile :: "rat list \<Rightarrow> rat \<Rightarrow> rat" where
  "percentile xs pct =
     (if xs = [] then 0
      else let sorted_data = sort xs; k = pct / 100 * (of_nat (length sorted_data) - 1); f = nat \<lfloor>k\<rfloor>; c = f + 1
        in if length sorted_data \<le> c then last sorted_data
           else sorted_data ! f + (k - of_nat f) * (sorted_data ! c - sorted_data ! f))"

record conn_summary =
  su_total :: int
  su_successes :: int
  su_failures :: int
  su_success_rate :: rat
  su_avg :: rat
  su_p95 :: rat
  su_error_rate :: rat

definition get_connector_metrics :: "collector \<Rightarrow> string \<Rightarrow> conn_summary" where
  "get_connector_metrics co cid = (case od_get (co_stats co) cid of
      None \<Rightarrow> \<lparr>su_total = 0, su_successes = 0, su_failures = 0, su_success_rate = 0, su_avg = 0, su_p95 = 0, su_error_rate = 0\<rparr>
    | Some st \<Rightarrow>
        let total = of_int (if st_total st = 0 then 1 else st_total st); samples = st_samples st
        in \<lparr>su_total = st_total st, su_successes = st_successes st, su_failures = st_failures st,
            su_success_rate = py_round 4 (of_int (st_successes st) / total),
            su_avg = py_round 2 (if samples = [] then 0 else sum_list samples / of_nat (length samples)),
            su_p95 = py_round 2 (if samples = [] then 0 else percentile samples 95),
            su_error_rate = py_round 4 (of_int (st_failures st) / total)\<rparr>)"

definition get_circuit_events :: "collector \<Rightarrow> string \<Rightarrow> int \<Rightarrow> circuit_event list" where
  "get_circuit_events co cid limit = (case od_get (co_events co) cid of
      None \<Rightarrow> [] | Some ring \<Rightarrow> py_take limit (rev ring))"

definition list_known_connectors :: "collector \<Rightarrow> string list" where
  "list_known_connectors co = sort (od_keys (co_stats co))"

section \<open>Governance\<close>

record blocklist =
  bl_connectors :: "string list"
  bl_operations :: "string list"

text \<open>\<open>None\<close>: the call is allowed; else the reason.\<close>

definition policy_evaluate :: "blocklist \<Rightarrow> conn_request \<Rightarrow> string option" where
  "policy_evaluate p req =
     (if cq_connector req \<in> set (bl_connectors p) then Some (''connector blocked by policy: '' @ cq_connector req)
      else if cq_operation req \<in> set (bl_operations p) then Some (''operation blocked by policy: '' @ cq_operation req)
      else None)"

section \<open>Middleware\<close>

definition governance_mw :: "blocklist \<Rightarrow> ('w, 'a) conn_handler \<Rightarrow> ('w, 'a) conn_handler" where
  "governance_mw p call_next req = (case policy_evaluate p req of
      Some reason \<Rightarrow> sv_raise (CE_Permission reason) | None \<Rightarrow> call_next req)"

text \<open>Run a method of the breaker; its state changes go to the collector when there is one.\<close>

fun breaker_exn :: "breaker_error \<Rightarrow> conn_error" where
  "breaker_exn CircuitOpen = CE_CircuitOpen"
| "breaker_exn TimeoutOverflow = CE_Overflow"

definition on_breaker :: "('w, 'a) conn_env \<Rightarrow> string option \<Rightarrow> (rat \<Rightarrow> unit breaker_svc) \<Rightarrow> ('w, unit) conn_m" where
  "on_breaker env cid m = sv_bind (conn_now env) (\<lambda>now s.
     case m now (cs_breaker s) of (res, b) \<Rightarrow>
       let changes = drop (length (br_notified (cs_breaker s))) (br_notified b);
           co = (case cid of None \<Rightarrow> cs_collector s | Some c \<Rightarrow> fold (record_circuit_event c now) changes (cs_collector s))
       in (map_sum breaker_exn id res, s\<lparr>cs_breaker := b, cs_collector := co\<rparr>))"

text \<open>\<open>try: m; except Exception as e: h e\<close>\<close>

definition except_exception :: "('w, 'a) conn_m \<Rightarrow> (conn_error \<Rightarrow> ('w, 'a) conn_m) \<Rightarrow> ('w, 'a) conn_m" where
  "except_exception m h s = (case m s of
      (Inl e, s') \<Rightarrow> if e = CE_Cancelled then (Inl e, s') else h e s'
    | (Inr a, s') \<Rightarrow> (Inr a, s'))"

definition breaker_mw :: "('w, 'a) conn_env \<Rightarrow> string option \<Rightarrow> ('w, 'a) conn_handler \<Rightarrow> ('w, 'a) conn_handler" where
  "breaker_mw env cid call_next req =
     sv_bind (on_breaker env cid before_call) (\<lambda>_.
     sv_bind (except_exception (call_next req)
         (\<lambda>e. sv_bind (on_breaker env cid record_failure) (\<lambda>_. sv_raise e))) (\<lambda>result.
     sv_bind (on_breaker env cid (\<lambda>_. record_success)) (\<lambda>_. sv_return result)))"

definition timeout_mw :: "rat \<Rightarrow> ('w, 'a) conn_handler \<Rightarrow> ('w, 'a) conn_handler" where
  "timeout_mw fallback call_next req =
     (case (case cq_timeout req of None \<Rightarrow> Some fallback | Some t \<Rightarrow> t) of
        None \<Rightarrow> call_next req
      | Some timeout \<Rightarrow>
          if timeout \<le> 0 then call_next req
          else (\<lambda>s. case call_next req s of
              (Inl e, s') \<Rightarrow> (Inl (if e = CE_Cancelled \<or> e = CE_Timeout then CE_Timeout else e), s')
            | (Inr a, s') \<Rightarrow> (Inr a, s')))"

text \<open>\<open>left\<close> attempts to go; the last error of the attempts before is raised when there are none.\<close>

fun retry_loop :: "nat \<Rightarrow> conn_error \<Rightarrow> ('w, 'a) conn_m \<Rightarrow> ('w, 'a) conn_m" where
  "retry_loop 0 last_error m = sv_raise last_error"
| "retry_loop (Suc left) last_error m = except_exception m (\<lambda>e.
     case e of CE_Permission _ \<Rightarrow> sv_raise e | CE_CircuitOpen \<Rightarrow> sv_raise e
     | _ \<Rightarrow> retry_loop left e m)"

definition retry_mw :: "int \<Rightarrow> ('w, 'a) conn_handler \<Rightarrow> ('w, 'a) conn_handler" where
  "retry_mw max_attempts call_next req = retry_loop (nat (max 1 max_attempts)) (CE_Other []) (call_next req)"

definition metrics_update :: "(call_metrics \<Rightarrow> call_metrics) \<Rightarrow> ('w, unit) conn_m" where
  "metrics_update f = sv_modify (\<lambda>s. s\<lparr>cs_metrics := f (cs_metrics s)\<rparr>)"

definition metrics_mw :: "('w, 'a) conn_env \<Rightarrow> bool \<Rightarrow> ('w, 'a) conn_handler \<Rightarrow> ('w, 'a) conn_handler" where
  "metrics_mw env collect call_next req =
     sv_bind (conn_now env) (\<lambda>started.
     sv_bind (metrics_update (\<lambda>m. m\<lparr>cm_calls := cm_calls m + 1\<rparr>)) (\<lambda>_.
     let finish = (\<lambda>ok. sv_bind (conn_now env) (\<lambda>now.
           let latency = py_round 2 ((now - started) * 1000) in
           sv_bind (metrics_update (\<lambda>m. if ok then m\<lparr>cm_success := cm_success m + 1, cm_latency := Some latency\<rparr>
               else m\<lparr>cm_failure := cm_failure m + 1, cm_latency := Some latency\<rparr>)) (\<lambda>_.
           sv_modify (\<lambda>s. if collect then s\<lparr>cs_collector := record_call (cq_connector req) ok latency (cs_collector s)\<rparr> else s))))
     in sv_bind (except_exception (call_next req) (\<lambda>e. sv_bind (finish False) (\<lambda>_. sv_raise e))) (\<lambda>result.
        sv_bind (finish True) (\<lambda>_. sv_return result))))"

datatype middleware =
    MW_Governance blocklist
  | MW_Timeout rat
  | MW_Retry int
  | MW_Breaker "string option"
  | MW_Metrics bool

fun run_middleware :: "('w, 'a) conn_env \<Rightarrow> middleware \<Rightarrow> ('w, 'a) conn_handler \<Rightarrow> ('w, 'a) conn_handler" where
  "run_middleware env (MW_Governance p) = governance_mw p"
| "run_middleware env (MW_Timeout t) = timeout_mw t"
| "run_middleware env (MW_Retry n) = retry_mw n"
| "run_middleware env (MW_Breaker cid) = breaker_mw env cid"
| "run_middleware env (MW_Metrics collect) = metrics_mw env collect"

definition connector_execute :: "('w, 'a) conn_env \<Rightarrow> middleware list \<Rightarrow> ('w, 'a) conn_handler" where
  "connector_execute env mws = foldr (run_middleware env) mws (conn_call env)"

section \<open>The factory\<close>

definition parse_csv :: "string \<Rightarrow> string list" where
  "parse_csv value = filter (\<lambda>x. x \<noteq> []) (List.map py_strip (py_split (CHR '','') value))"

definition policy_packs :: "(string \<times> blocklist) list" where
  "policy_packs =
     [(''default'', \<lparr>bl_connectors = [], bl_operations = []\<rparr>),
      (''strict-web'', \<lparr>bl_connectors = [''tool:web_fetch'', ''workflow:http_request'', ''search:searxng'', ''tool:reader''],
         bl_operations = []\<rparr>),
      (''mcp-readonly'', \<lparr>bl_connectors = [], bl_operations = [''tools/call'']\<rparr>)]"

definition get_policy_pack :: "string option \<Rightarrow> blocklist" where
  "get_policy_pack name = (let open_pack = the (map_of policy_packs ''default'') in
     case name of None \<Rightarrow> open_pack
     | Some n \<Rightarrow> if n = [] then open_pack else (case map_of policy_packs n of Some p \<Rightarrow> p | None \<Rightarrow> open_pack))"

record conn_settings =
  cg_enabled :: bool
  cg_policy_pack :: string
  cg_blocked_connectors :: string
  cg_blocked_operations :: string
  cg_breaker_enabled :: bool
  cg_fresh_breaker :: breaker

definition resolve_blocklists :: "conn_settings \<Rightarrow> string option \<Rightarrow> blocklist" where
  "resolve_blocklists cfg pack =
     (let p = get_policy_pack (case pack of Some n \<Rightarrow> if n = [] then Some (cg_policy_pack cfg) else Some n
        | None \<Rightarrow> Some (cg_policy_pack cfg))
      in \<lparr>bl_connectors = bl_connectors p @ parse_csv (cg_blocked_connectors cfg),
          bl_operations = bl_operations p @ parse_csv (cg_blocked_operations cfg)\<rparr>)"

definition enforce_connector_governance :: "conn_settings \<Rightarrow> string option \<Rightarrow> conn_request \<Rightarrow> conn_error option" where
  "enforce_connector_governance cfg pack req =
     (if \<not> cg_enabled cfg then None
      else map_option CE_Permission (policy_evaluate (resolve_blocklists cfg pack) req))"

text \<open>The chain, or \<open>None\<close> when the boundary is off; \<open>collect\<close>: a collector is given; \<open>name\<close>: the connector.\<close>

definition build_boundary :: "conn_settings \<Rightarrow> rat option \<Rightarrow> int \<Rightarrow> string option \<Rightarrow> bool \<Rightarrow> string option \<Rightarrow> middleware list option" where
  "build_boundary cfg timeout retries pack collect name =
     (if \<not> cg_enabled cfg then None
      else Some ([MW_Governance (resolve_blocklists cfg pack)] @
        (case timeout of None \<Rightarrow> [] | Some t \<Rightarrow> [MW_Timeout t]) @
        (if 1 < retries then [MW_Retry retries] else []) @
        (if cg_breaker_enabled cfg
         then [MW_Breaker (if collect then Some (case name of Some n \<Rightarrow> if n = [] then ''unknown'' else n | None \<Rightarrow> ''unknown'') else None)]
         else []) @
        [MW_Metrics collect]))"

text \<open>The breaker of the chain: the shared one of the registry when it is given with a name, else a new one.\<close>

definition boundary_breaker ::
  "conn_settings \<Rightarrow> (string, breaker) odict option \<Rightarrow> string option \<Rightarrow> breaker \<times> (string, breaker) odict option" where
  "boundary_breaker cfg registry name = (case (registry, name) of
      (Some reg, Some n) \<Rightarrow> if n = [] then (cg_fresh_breaker cfg, registry)
        else (case get_or_create n (cg_fresh_breaker cfg) reg of (b, reg') \<Rightarrow> (b, Some reg'))
    | _ \<Rightarrow> (cg_fresh_breaker cfg, registry))"

text \<open>\<open>text e\<close> is \<open>str(exc)\<close>.\<close>

definition map_connector_exception :: "(conn_error \<Rightarrow> string) \<Rightarrow> conn_error \<Rightarrow> string \<Rightarrow> string \<Rightarrow> string" where
  "map_connector_exception str e connector operation =
     (let target = connector @ ''/'' @ operation @ '': '' @ str e in
      case e of
        CE_Permission _ \<Rightarrow> ''Connector governance blocked '' @ target
      | CE_Timeout \<Rightarrow> ''Connector timeout for '' @ target
      | CE_HttpTimeout \<Rightarrow> ''Connector timeout for '' @ target
      | CE_CircuitOpen \<Rightarrow> ''Connector circuit open for '' @ target
      | CE_Http _ \<Rightarrow> ''Connector HTTP error for '' @ target
      | _ \<Rightarrow> ''Connector failure for '' @ target)"

end
