(* ===== verification/Breaker_Correct.thy ===== *)
theory Breaker_Correct
  imports Breaker Lifecycle
begin

text \<open>
  Correctness of the circuit breaker: it opens at the first run of failures as long as the threshold and no
  sooner, its cooldown grows with the trips up to the maximum, it stays well formed, and it recovers: after
  the cooldown a call is let through and successful calls close it, until the timeout overflows.
\<close>

section \<open>Each operation as a function\<close>

lemmas breaker_ops = before_call_def record_success_def record_failure_def br_open_def br_transition_def svc_simps

definition opened :: "rat \<Rightarrow> breaker \<Rightarrow> breaker" where
  "opened now b = (let b' = (if br_state b = CK_Open then b
       else b\<lparr>br_state := CK_Open, br_notified := br_notified b @ [(br_state b, CK_Open)]\<rparr>)
     in b'\<lparr>br_opened_at := Some now, br_trips := br_trips b + 1, br_last_trip := Some now, br_failures := 0, br_successes := 0\<rparr>)"

lemma open_eq: "snd (br_open now b) = opened now b"
  by (auto simp: br_open_def br_transition_def svc_simps opened_def Let_def split: sum.split)

lemma failure_eq: "snd (record_failure now b) =
    (if br_state b = CK_HalfOpen then opened now b
     else if br_failure_threshold b \<le> br_failures b + 1 then opened now (b\<lparr>br_failures := br_failures b + 1\<rparr>)
     else b\<lparr>br_failures := br_failures b + 1\<rparr>)"
  by (simp add: record_failure_def sv_bind_def sv_get_def sv_modify_def sv_return_def open_eq)

definition closed :: "breaker \<Rightarrow> breaker" where
  "closed b = (if br_state b = CK_Closed then b
     else b\<lparr>br_state := CK_Closed, br_notified := br_notified b @ [(br_state b, CK_Closed)]\<rparr>)"

lemma success_eq: "record_success b = (Inr (),
    (if br_state b = CK_HalfOpen then
       (if br_success_threshold b \<le> br_successes b + 1
        then (closed (b\<lparr>br_successes := br_successes b + 1\<rparr>))\<lparr>br_failures := 0, br_opened_at := None, br_successes := 0\<rparr>
        else b\<lparr>br_successes := br_successes b + 1\<rparr>)
     else (closed b)\<lparr>br_failures := 0\<rparr>))"
  by (simp add: record_success_def br_transition_def svc_simps closed_def)

lemma before_eq: "before_call now b =
    (if br_state b \<noteq> CK_Open then (Inr (), b)
     else (case br_opened_at b of None \<Rightarrow> (Inl CircuitOpen, b)
       | Some t \<Rightarrow> (case effective_recovery_timeout b of Inl e \<Rightarrow> (Inl e, b)
         | Inr timeout \<Rightarrow> if now - t < timeout then (Inl CircuitOpen, b)
             else (Inr (), b\<lparr>br_state := CK_HalfOpen, br_notified := br_notified b @ [(CK_Open, CK_HalfOpen)], br_successes := 0\<rparr>))))"
  by (auto simp: before_call_def br_transition_def svc_simps split: option.split sum.split)

section \<open>Histories\<close>

datatype br_op = BrCall rat | BrSuccess | BrFailure rat

fun br_run :: "br_op \<Rightarrow> breaker \<Rightarrow> breaker" where
  "br_run (BrCall now) b = snd (before_call now b)"
| "br_run BrSuccess b = snd (record_success b)"
| "br_run (BrFailure now) b = snd (record_failure now b)"

text \<open>The settings never change; an open breaker knows when it opened and has tripped; the counters stay
  below their thresholds.\<close>

definition br_wf :: "breaker \<Rightarrow> bool" where
  "br_wf b \<longleftrightarrow> (br_state b = CK_Open \<longrightarrow> br_opened_at b \<noteq> None \<and> 0 < br_trips b) \<and>
     (br_state b = CK_HalfOpen \<longrightarrow> 0 < br_trips b) \<and> 0 \<le> br_failures b \<and> 0 \<le> br_successes b \<and>
     (br_failures b = 0 \<or> br_failures b < br_failure_threshold b) \<and>
     (br_successes b = 0 \<or> br_successes b < br_success_threshold b)"

lemma new_wf: "br_wf (new_breaker n t m mx)"
  by (simp add: br_wf_def new_breaker_def)

lemma run_wf: "br_wf b \<Longrightarrow> br_wf (br_run op b)"
  by (cases op) (auto simp: br_wf_def before_eq success_eq failure_eq opened_def closed_def Let_def
      split: option.split sum.split if_splits)

lemma run_settings: "br_failure_threshold (br_run op b) = br_failure_threshold b"
  "br_success_threshold (br_run op b) = br_success_threshold b"
  "br_recovery_timeout (br_run op b) = br_recovery_timeout b" "br_max_timeout (br_run op b) = br_max_timeout b"
  by (cases op; auto simp: before_eq success_eq failure_eq opened_def closed_def Let_def split: option.split sum.split)+

lemma history_wf: "br_wf b \<Longrightarrow> br_wf (fold br_run ops b)"
  by (rule fold_invariant [where P = br_wf]) (auto intro: run_wf)

section \<open>When it opens\<close>

text \<open>The outcomes of calls, oldest first, and the length of the run of failures they end in.\<close>

definition failing_run :: "(rat \<times> bool) list \<Rightarrow> nat" where
  "failing_run os = length (takeWhile (\<lambda>(t, ok). \<not> ok) (rev os))"

definition note_outcome :: "rat \<times> bool \<Rightarrow> breaker \<Rightarrow> breaker" where
  "note_outcome x b = (case x of (t, ok) \<Rightarrow> if ok then br_run BrSuccess b else br_run (BrFailure t) b)"

lemma failing_run_Nil [simp]: "failing_run [] = 0"
  by (simp add: failing_run_def)

lemma failing_run_snoc [simp]: "failing_run (os @ [(t, ok)]) = (if ok then 0 else failing_run os + 1)"
  by (simp add: failing_run_def)

definition short_runs :: "nat \<Rightarrow> (rat \<times> bool) list \<Rightarrow> bool" where
  "short_runs n os \<longleftrightarrow> (\<forall>k < length os. failing_run (take k os) < n)"

lemma note_closed:
  assumes "br_failure_threshold b = int n" and "br_state b = CK_Closed" and "br_failures b = int f" and "f < n"
  shows "br_failure_threshold (note_outcome (t, ok) b) = int n \<and>
    (if \<not> ok \<and> f + 1 = n then br_state (note_outcome (t, ok) b) = CK_Open
     else br_state (note_outcome (t, ok) b) = CK_Closed \<and> br_failures (note_outcome (t, ok) b) = (if ok then 0 else int f + 1))"
  using assms by (auto simp: note_outcome_def success_eq failure_eq opened_def closed_def Let_def)

lemma closed_while_short:
  assumes "0 < n" and "short_runs n os"
  shows "let b = fold note_outcome os (new_breaker (int n) timeout m mx) in
    br_failure_threshold b = int n \<and>
    (if failing_run os = n then br_state b = CK_Open
     else br_state b = CK_Closed \<and> br_failures b = int (failing_run os) \<and> failing_run os < n)"
  using assms(2)
proof (induction os rule: rev_induct)
  case Nil
  with assms(1) show ?case by (simp add: new_breaker_def)
next
  case (snoc x os)
  obtain t ok where x: "x = (t, ok)" by (cases x)
  have "short_runs n os" unfolding short_runs_def
  proof (intro allI impI)
    fix k
    assume "k < length os"
    with snoc.prems show "failing_run (take k os) < n" by (force simp: short_runs_def)
  qed
  moreover have run: "failing_run os < n" using snoc.prems by (force simp: short_runs_def)
  ultimately have IH: "br_failure_threshold (fold note_outcome os (new_breaker (int n) timeout m mx)) = int n"
    "br_state (fold note_outcome os (new_breaker (int n) timeout m mx)) = CK_Closed"
    "br_failures (fold note_outcome os (new_breaker (int n) timeout m mx)) = int (failing_run os)"
    using snoc.IH by (auto simp: Let_def split: if_splits)
  show ?case
    using note_closed [OF IH run, of t ok] run assms(1) by (simp add: x Let_def split: if_splits)
qed

text \<open>A new breaker opens exactly when its calls have for the first time failed as many times in a row as
  its failure threshold: as long as no run of failures has reached the threshold it stays closed, and the
  outcome that completes one opens it.\<close>

theorem breaker_opens_at_threshold:
  assumes "0 < n" and "short_runs n os"
  shows "br_state (fold note_outcome os (new_breaker (int n) timeout m mx)) = (if failing_run os = n then CK_Open else CK_Closed)"
  using closed_while_short [OF assms, of timeout m mx] by (auto simp: Let_def split: if_splits)

theorem breaker_opens_at_threshold_witness:
  "br_state (fold note_outcome [(1, False), (2, True), (3, False), (4, False)] (new_breaker 2 30 2 300)) = CK_Open"
proof -
  have "short_runs 2 [(1, False), (2, True), (3, False), (4, False)]"
    by (auto simp: short_runs_def failing_run_def less_Suc_eq)
  from breaker_opens_at_threshold [OF _ this, of 30 2 300] show ?thesis by (simp add: failing_run_def)
qed

section \<open>Cooldown\<close>

lemma effective_bounds:
  assumes "effective_recovery_timeout b = Inr t" and "0 \<le> br_recovery_timeout b" and "br_recovery_timeout b \<le> br_max_timeout b"
  shows "br_recovery_timeout b \<le> t" and "t \<le> br_max_timeout b"
proof -
  have "br_recovery_timeout b * 1 \<le> br_recovery_timeout b * 2 ^ (br_trips b - 1)"
    using assms(2) by (intro mult_left_mono) simp_all
  with assms show "br_recovery_timeout b \<le> t" "t \<le> br_max_timeout b"
    by (auto simp: effective_recovery_timeout_def Let_def split: if_splits)
qed

lemma effective_below_overflow: "br_trips b \<le> float_exponents \<Longrightarrow> \<exists>t. effective_recovery_timeout b = Inr t"
  by (auto simp: effective_recovery_timeout_def float_exponents_def Let_def)

lemma successes_close:
  assumes "br_state b = CK_HalfOpen" and "br_successes b = 0" and "0 < n" and "br_success_threshold b = int n"
  shows "br_state (fold br_run (replicate n BrSuccess) b) = CK_Closed \<and> br_failures (fold br_run (replicate n BrSuccess) b) = 0"
proof -
  have partial: "br_state (fold br_run (replicate k BrSuccess) b) = CK_HalfOpen \<and>
      br_successes (fold br_run (replicate k BrSuccess) b) = int k \<and>
      br_success_threshold (fold br_run (replicate k BrSuccess) b) = int n" if "k < n" for k
    using that
  proof (induction k)
    case (Suc k)
    then show ?case
      by (simp add: replicate_append_same [symmetric] del: replicate_Suc) (simp add: replicate_Suc replicate_append_same [symmetric] success_eq)
  qed (use assms in simp)
  obtain k where n: "n = Suc k" using assms(3) by (cases n) auto
  have "fold br_run (replicate n BrSuccess) b = br_run BrSuccess (fold br_run (replicate k BrSuccess) b)"
    unfolding n replicate_Suc replicate_append_same [symmetric] by simp
  with partial [of k] n show ?thesis by (simp add: success_eq closed_def)
qed

text \<open>C17: Recovery: whatever a breaker has been through, if it is open and has not tripped more than 1024 times,
  then after a wait of the maximum timeout since it opened a call is let through, and as many successful
  calls as its success threshold close it.\<close>

theorem breaker_recovers:
  assumes "b = fold br_run ops (new_breaker fails timeout (int n) mx)" and "br_state b = CK_Open"
    and "br_trips b \<le> float_exponents" and "0 \<le> timeout" and "timeout \<le> mx" and "0 < n"
  shows "\<exists>since. br_opened_at b = Some since \<and>
    (\<forall>now. since + mx \<le> now \<longrightarrow> fst (before_call now b) = Inr () \<and>
       br_state (fold br_run (replicate n BrSuccess) (br_run (BrCall now) b)) = CK_Closed)"
proof -
  have wf: "br_wf b" unfolding assms(1) by (rule history_wf) (rule new_wf)
  then obtain since where since: "br_opened_at b = Some since" using assms(2) by (auto simp: br_wf_def)
  have keep: "br_success_threshold b = int n" "br_recovery_timeout b = timeout" "br_max_timeout b = mx"
    unfolding assms(1) by (induction ops rule: rev_induct) (simp_all add: run_settings, simp_all add: new_breaker_def)
  obtain t where t: "effective_recovery_timeout b = Inr t" using effective_below_overflow [OF assms(3)] by blast
  with effective_bounds(2) [OF t] keep assms(4,5) have "t \<le> mx" by simp
  show ?thesis
  proof (intro exI conjI allI impI)
    show "br_opened_at b = Some since" by (rule since)
    fix now
    assume "since + mx \<le> now"
    with \<open>t \<le> mx\<close> have "\<not> now - since < t" by simp
    with since t assms(2) have call: "before_call now b =
        (Inr (), b\<lparr>br_state := CK_HalfOpen, br_notified := br_notified b @ [(CK_Open, CK_HalfOpen)], br_successes := 0\<rparr>)"
      by (simp add: before_eq)
    then show "fst (before_call now b) = Inr ()" by simp
    show "br_state (fold br_run (replicate n BrSuccess) (br_run (BrCall now) b)) = CK_Closed"
      using successes_close [of "br_run (BrCall now) b" n] call keep assms(6) by simp
  qed
qed

definition demo_tripped :: breaker where
  "demo_tripped = fold br_run [BrFailure 1, BrFailure 2, BrFailure 3, BrCall 40, BrFailure 41] default_breaker"

theorem breaker_recovers_witness:
  "br_opened_at demo_tripped = Some 41 \<and> fst (before_call 341 demo_tripped) = Inr ()"
proof -
  have b: "demo_tripped = fold br_run [BrFailure 1, BrFailure 2, BrFailure 3, BrCall 40, BrFailure 41] (new_breaker 3 30 (int 2) 300)"
    by (simp add: demo_tripped_def default_breaker_def)
  have facts: "br_state demo_tripped = CK_Open" "br_opened_at demo_tripped = Some 41" "br_trips demo_tripped \<le> float_exponents"
    by code_simp+
  from breaker_recovers [OF b facts(1,3)] facts(2) show ?thesis by auto
qed

text \<open>The cooldown never shrinks from one trip to the next.\<close>

lemma cooldown_grows:
  assumes "effective_recovery_timeout b = Inr t" and "effective_recovery_timeout (b\<lparr>br_trips := br_trips b + 1\<rparr>) = Inr t'"
    and "0 \<le> br_recovery_timeout b" and "br_recovery_timeout b \<le> br_max_timeout b"
  shows "t \<le> t'"
proof -
  show ?thesis
  proof (cases "br_trips b")
    case 0
    with assms show ?thesis by (auto simp: effective_recovery_timeout_def Let_def float_exponents_def)
  next
    case (Suc k)
    have "br_recovery_timeout b * 2 ^ k \<le> br_recovery_timeout b * 2 ^ Suc k"
      using assms(3) by (intro mult_left_mono) simp_all
    with Suc assms show ?thesis
      by (auto simp: effective_recovery_timeout_def Let_def min_def split: if_splits)
  qed
qed

section \<open>What the code allows\<close>

text \<open>Trips are never forgotten, so the timeout of the 1025th overflows; from then on the check before a call
  raises \<open>OverflowError\<close> at any time, and an open breaker lets nothing through any more.\<close>

lemma tripped_often: "0 < k \<Longrightarrow> br_state (fold br_run (replicate k (BrFailure 0)) (new_breaker 1 30 2 300)) = CK_Open \<and>
    br_trips (fold br_run (replicate k (BrFailure 0)) (new_breaker 1 30 2 300)) = k \<and>
    br_opened_at (fold br_run (replicate k (BrFailure 0)) (new_breaker 1 30 2 300)) = Some 0"
proof (induction k)
  case (Suc k)
  have keep: "br_failure_threshold (fold br_run ops (new_breaker 1 30 2 300)) = 1" for ops
    by (induction ops rule: rev_induct) (simp_all add: run_settings del: br_run.simps, simp add: new_breaker_def)
  have wf: "br_wf (fold br_run (replicate k (BrFailure 0)) (new_breaker 1 30 2 300))" by (rule history_wf) (rule new_wf)
  show ?case
  proof (cases "k = 0")
    case True
    then show ?thesis by (simp add: failure_eq opened_def new_breaker_def Let_def)
  next
    case False
    with Suc.IH keep [of "replicate k (BrFailure 0)"] wf show ?thesis
      unfolding replicate_Suc replicate_append_same [symmetric] fold_append
      by (simp add: failure_eq opened_def Let_def br_wf_def)
  qed
qed simp

lemma overflow_blocks_for_ever:
  assumes "b = fold br_run (replicate (Suc float_exponents) (BrFailure 0)) (new_breaker 1 30 2 300)"
  shows "before_call now b = (Inl TimeoutOverflow, b)"
proof -
  have "br_state b = CK_Open" "br_trips b = Suc float_exponents" "br_opened_at b = Some 0"
    using tripped_often [of "Suc float_exponents"] unfolding assms by simp_all
  then show ?thesis by (simp add: before_eq effective_recovery_timeout_def)
qed

text \<open>A success that arrives while the breaker is open, from a call let through before, closes it at once.\<close>

lemma late_success_closes:
  "br_state (fold br_run [BrFailure 1, BrFailure 2, BrFailure 3, BrSuccess] default_breaker) = CK_Closed"
  by code_simp

end
