(* ===== verification/Connector_Correct.thy ===== *)
theory Connector_Correct
  imports Connector Breaker_Correct
begin

text \<open>
  Correctness of the connector boundary: a call that governance blocks or that finds the circuit open does not
  leave the process, the number of calls is bounded by the retries, a result is the one of the last call and
  no call follows a success, and the collector accounts for every call it records.
\<close>

section \<open>Calls that are made\<close>

text \<open>An environment that records the outcomes of the calls it makes.\<close>

definition traced :: "('w, 'a) conn_env \<Rightarrow> ('w \<times> (conn_error + 'a) list, 'a) conn_env" where
  "traced env = \<lparr>cv_call = (\<lambda>req (w, tr). case cv_call env req w of (r, w') \<Rightarrow> (r, (w', tr @ [r]))),
     cv_clock = (\<lambda>(w, tr). cv_clock env w)\<rparr>"

type_synonym ('w, 'a) traced_st = "('w \<times> (conn_error + 'a) list) conn_st"

abbreviation calls_made :: "('w, 'a) traced_st \<Rightarrow> (conn_error + 'a) list" where
  "calls_made s \<equiv> snd (cs_world s)"

text \<open>The calls \<open>new\<close> explain the result: all but the last failed, and the result is a value exactly if the
  last call returned it.\<close>

definition explains :: "(conn_error + 'a) list \<Rightarrow> conn_error + 'a \<Rightarrow> bool" where
  "explains new res \<longleftrightarrow> (\<forall>r \<in> set (butlast new). \<exists>e. r = Inl e) \<and> (\<forall>a. res = Inr a \<longleftrightarrow> new \<noteq> [] \<and> last new = Inr a)"

definition calls_within :: "nat \<Rightarrow> ('w \<times> (conn_error + 'a) list, 'a) conn_m \<Rightarrow> bool" where
  "calls_within n m \<longleftrightarrow> (\<forall>s. \<exists>new. calls_made (snd (m s)) = calls_made s @ new \<and> length new \<le> n \<and> explains new (fst (m s)))"

lemma calls_withinE:
  assumes "calls_within n m"
  obtains new where "calls_made (snd (m s)) = calls_made s @ new" "length new \<le> n" "explains new (fst (m s))"
  using assms unfolding calls_within_def by blast

text \<open>Steps that do not touch the world.\<close>

lemma breaker_world: "cs_world (snd (on_breaker env cid m s)) = cs_world s"
  by (simp add: on_breaker_def conn_now_def svc_simps Let_def split: prod.split)

lemma now_eq: "conn_now env s = (Inr (cv_clock env (cs_world s)), s)"
  by (simp add: conn_now_def svc_simps)

lemma success_never_raises: "\<exists>s'. on_breaker env cid (\<lambda>_. record_success) s = (Inr (), s') \<and> cs_world s' = cs_world s"
  by (auto simp: on_breaker_def conn_now_def svc_simps Let_def success_eq split: prod.split)

lemma within_call: "calls_within 1 (conn_call (traced env) req)"
  by (auto simp: calls_within_def conn_call_def traced_def explains_def split: prod.split)

lemma within_raise: "calls_within n (sv_raise e)"
  by (auto simp: calls_within_def sv_raise_def explains_def)

lemma within_mono: "calls_within n m \<Longrightarrow> n \<le> k \<Longrightarrow> calls_within k m"
  unfolding calls_within_def by (meson le_trans)

lemma within_governance: "calls_within n (h req) \<Longrightarrow> calls_within n (governance_mw p h req)"
  by (simp add: governance_mw_def within_raise split: option.split)

lemma explains_raise: "explains new (Inl e) \<Longrightarrow> explains new (Inl e')"
  by (simp add: explains_def)

lemma within_timeout:
  assumes "calls_within n (h req)"
  shows "calls_within n (timeout_mw t h req)"
proof -
  have "calls_within n (\<lambda>s. case h req s of (Inl e, s') \<Rightarrow> (Inl (if e = CE_Cancelled \<or> e = CE_Timeout then CE_Timeout else e), s')
      | (Inr a, s') \<Rightarrow> (Inr a, s'))"
    unfolding calls_within_def
  proof
    fix s
    from assms obtain new where new: "calls_made (snd (h req s)) = calls_made s @ new" "length new \<le> n"
      "explains new (fst (h req s))" by (rule calls_withinE)
    then show "\<exists>new. calls_made (snd (case h req s of (Inl e, s') \<Rightarrow> (Inl (if e = CE_Cancelled \<or> e = CE_Timeout then CE_Timeout else e), s')
        | (Inr a, s') \<Rightarrow> (Inr a, s'))) = calls_made s @ new \<and> length new \<le> n \<and>
        explains new (fst (case h req s of (Inl e, s') \<Rightarrow> (Inl (if e = CE_Cancelled \<or> e = CE_Timeout then CE_Timeout else e), s')
        | (Inr a, s') \<Rightarrow> (Inr a, s')))"
      by (intro exI [of _ new]) (cases "h req s", auto split: sum.split intro: explains_raise)
  qed
  with assms show ?thesis by (simp add: timeout_mw_def split: option.split)
qed

text \<open>Around a call: a step before it, one after an error that raises again, one after a result.\<close>

lemma within_around:
  fixes m :: "('w \<times> (conn_error + 'a) list, 'a) conn_m"
  assumes m: "calls_within n m"
    and bad: "\<And>e s. \<exists>e'. fst (bad e s) = Inl e'" "\<And>e s. cs_world (snd (bad e s)) = cs_world s"
    and good: "\<And>a s. fst (good a s) = Inr a" "\<And>a s. cs_world (snd (good a s)) = cs_world s"
  shows "calls_within n (sv_bind (except_exception m bad) good)"
  unfolding calls_within_def
proof
  fix s :: "('w, 'a) traced_st"
  from m obtain new where new: "calls_made (snd (m s)) = calls_made s @ new" "length new \<le> n" "explains new (fst (m s))"
    by (rule calls_withinE)
  show "\<exists>new. calls_made (snd (sv_bind (except_exception m bad) good s)) = calls_made s @ new \<and> length new \<le> n \<and>
      explains new (fst (sv_bind (except_exception m bad) good s))"
  proof (intro exI [of _ new] conjI)
    obtain r s1 where ms: "m s = (r, s1)" by (cases "m s")
    show "length new \<le> n" by (rule new(2))
    show "calls_made (snd (sv_bind (except_exception m bad) good s)) = calls_made s @ new"
    proof (cases r)
      case (Inl e)
      obtain e' s2 where "bad e s1 = (Inl e', s2)" "cs_world s2 = cs_world s1"
        using bad [of e s1] by (cases "bad e s1") auto
      with Inl ms new(1) show ?thesis by (simp add: sv_bind_def except_exception_def)
    next
      case (Inr a)
      with ms new(1) good(2) [of a s1] show ?thesis by (simp add: sv_bind_def except_exception_def)
    qed
    show "explains new (fst (sv_bind (except_exception m bad) good s))"
    proof (cases r)
      case (Inl e)
      obtain e' s2 where "bad e s1 = (Inl e', s2)" using bad(1) [of e s1] by (cases "bad e s1") auto
      with Inl ms new(3) show ?thesis by (auto simp: sv_bind_def except_exception_def intro: explains_raise)
    next
      case (Inr a)
      with ms new(3) good(1) [of a s1] show ?thesis by (simp add: sv_bind_def except_exception_def)
    qed
  qed
qed

lemma within_after:
  fixes pre :: "('w \<times> (conn_error + 'a) list, 'b) conn_m"
  assumes "\<And>s. cs_world (snd (pre s)) = cs_world s" and "\<And>x. calls_within n (f x)"
  shows "calls_within n (sv_bind pre f)"
  unfolding calls_within_def
proof
  fix s :: "('w, 'a) traced_st"
  obtain r s1 where pre: "pre s = (r, s1)" by (cases "pre s")
  with assms(1) [of s] have w: "cs_world s1 = cs_world s" by simp
  show "\<exists>new. calls_made (snd (sv_bind pre f s)) = calls_made s @ new \<and> length new \<le> n \<and> explains new (fst (sv_bind pre f s))"
  proof (cases r)
    case (Inl e)
    with pre w show ?thesis by (intro exI [of _ "[]"]) (simp add: sv_bind_def explains_def)
  next
    case (Inr x)
    from assms(2) obtain new where "calls_made (snd (f x s1)) = calls_made s1 @ new" "length new \<le> n" "explains new (fst (f x s1))"
      by (rule calls_withinE)
    with Inr pre w show ?thesis by (intro exI [of _ new]) (simp add: sv_bind_def)
  qed
qed

lemma within_breaker:
  fixes h :: "('w \<times> (conn_error + 'a) list, 'a) conn_handler"
  assumes "calls_within n (h req)"
  shows "calls_within n (breaker_mw env cid h req)"
  unfolding breaker_mw_def
proof (rule within_after)
  fix s :: "('w, 'a) traced_st"
  show "cs_world (snd (on_breaker env cid before_call s)) = cs_world s" by (rule breaker_world)
next
  show "calls_within n (sv_bind (except_exception (h req) (\<lambda>e. sv_bind (on_breaker env cid record_failure) (\<lambda>_. sv_raise e)))
      (\<lambda>result. sv_bind (on_breaker env cid (\<lambda>_. record_success)) (\<lambda>_. sv_return result)))"
  proof (rule within_around)
    fix e and s :: "('w, 'a) traced_st"
    show "\<exists>e'. fst (sv_bind (on_breaker env cid record_failure) (\<lambda>_. sv_raise e) s) = Inl e'"
      by (simp add: sv_bind_def sv_raise_def split: prod.split sum.split)
    show "cs_world (snd (sv_bind (on_breaker env cid record_failure) (\<lambda>_. sv_raise e) s)) = cs_world s"
      using breaker_world [of env cid record_failure s]
      by (auto simp: sv_bind_def sv_raise_def split: prod.split sum.split)
  next
    fix a and s :: "('w, 'a) traced_st"
    obtain s' where "on_breaker env cid (\<lambda>_. record_success) s = (Inr (), s')" "cs_world s' = cs_world s"
      using success_never_raises by blast
    then show "fst (sv_bind (on_breaker env cid (\<lambda>_. record_success)) (\<lambda>_. sv_return a) s) = Inr a"
      "cs_world (snd (sv_bind (on_breaker env cid (\<lambda>_. record_success)) (\<lambda>_. sv_return a) s)) = cs_world s"
      by (simp_all add: sv_bind_def sv_return_def)
  qed (rule assms)
qed

lemma within_metrics: "calls_within n (h req) \<Longrightarrow> calls_within n (metrics_mw env collect h req)"
  unfolding metrics_mw_def Let_def
  by (rule within_after, simp add: now_eq, rule within_after, simp add: metrics_update_def sv_modify_def, rule within_around)
    (simp_all add: now_eq metrics_update_def sv_bind_def sv_modify_def sv_raise_def sv_return_def)

lemma within_retry_loop:
  fixes m :: "('w \<times> (conn_error + 'a) list, 'a) conn_m"
  assumes "calls_within 1 m"
  shows "calls_within k (retry_loop k e m)"
proof (induction k arbitrary: e)
  case 0
  then show ?case by (simp add: within_raise)
next
  case (Suc k)
  show ?case unfolding calls_within_def
  proof
    fix s :: "('w, 'a) traced_st"
    from assms obtain new where new: "calls_made (snd (m s)) = calls_made s @ new" "length new \<le> 1" "explains new (fst (m s))"
      by (rule calls_withinE)
    obtain r s1 where ms: "m s = (r, s1)" by (cases "m s")
    show "\<exists>new. calls_made (snd (retry_loop (Suc k) e m s)) = calls_made s @ new \<and> length new \<le> Suc k \<and>
        explains new (fst (retry_loop (Suc k) e m s))"
    proof (cases "\<exists>x. r = Inl x \<and> retry_loop (Suc k) e m s = retry_loop k x m s1")
      case True
      then obtain x where x: "r = Inl x" "retry_loop (Suc k) e m s = retry_loop k x m s1" by blast
      from Suc.IH obtain more where more: "calls_made (snd (retry_loop k x m s1)) = calls_made s1 @ more"
        "length more \<le> k" "explains more (fst (retry_loop k x m s1))" by (rule calls_withinE)
      have failed: "\<forall>r \<in> set new. \<exists>e. r = Inl e"
      proof
        fix y
        assume y: "y \<in> set new"
        with new(2) have "new = [y]" by (cases new) auto
        with new(3) ms x(1) show "\<exists>e. y = Inl e" by (cases y) (auto simp: explains_def)
      qed
      have "explains (new @ more) (fst (retry_loop k x m s1))"
      proof (cases "more = []")
        case True
        with more(3) have "\<forall>a. fst (retry_loop k x m s1) \<noteq> Inr a" by (simp add: explains_def)
        with True failed show ?thesis by (cases "new = []") (auto simp: explains_def dest!: in_set_butlastD last_in_set)
      next
        case False
        with more(3) failed show ?thesis by (auto simp: explains_def butlast_append)
      qed
      with more new ms x show ?thesis by (intro exI [of _ "new @ more"]) simp
    next
      case False
      then have "retry_loop (Suc k) e m s = (r, s1)"
        using ms by (cases r) (auto simp: except_exception_def sv_raise_def split: conn_error.split)
      with new ms show ?thesis by (intro exI [of _ new]) simp
    qed
  qed
qed

lemma within_retry: "calls_within 1 (h req) \<Longrightarrow> calls_within (nat (max 1 n)) (retry_mw n h req)"
  unfolding retry_mw_def by (rule within_retry_loop)

section \<open>The whole chain\<close>

definition boundary_chain :: "conn_settings \<Rightarrow> rat option \<Rightarrow> int \<Rightarrow> string option \<Rightarrow> bool \<Rightarrow> string option \<Rightarrow> middleware list" where
  "boundary_chain cfg timeout retries pack collect name = the (build_boundary cfg timeout retries pack collect name)"

lemma within_chain:
  assumes "build_boundary cfg timeout retries pack collect name = Some mws"
  shows "calls_within (nat (max 1 retries)) (connector_execute (traced env) mws req)"
proof -
  let ?env = "traced env"
  define h1 where "h1 = metrics_mw ?env collect (conn_call ?env)"
  have h1: "calls_within 1 (h1 req)" for req unfolding h1_def by (rule within_metrics) (rule within_call)
  define h2 where "h2 = (if cg_breaker_enabled cfg then breaker_mw ?env (if collect then Some (case name of Some n \<Rightarrow>
      if n = [] then ''unknown'' else n | None \<Rightarrow> ''unknown'') else None) h1 else h1)"
  have h2: "calls_within 1 (h2 req)" for req unfolding h2_def using h1 by (simp add: within_breaker)
  define h3 where "h3 = (if 1 < retries then retry_mw retries h2 else h2)"
  have h3: "calls_within (nat (max 1 retries)) (h3 req)" for req
    unfolding h3_def using h2 within_retry [of h2 req retries] by (auto intro: within_mono)
  define h4 where "h4 = (case timeout of None \<Rightarrow> h3 | Some t \<Rightarrow> timeout_mw t h3)"
  have h4: "calls_within (nat (max 1 retries)) (h4 req)" for req
    unfolding h4_def using h3 by (simp add: within_timeout split: option.split)
  have "connector_execute ?env mws = governance_mw (resolve_blocklists cfg pack) h4"
    using assms by (auto simp: connector_execute_def build_boundary_def h1_def h2_def h3_def h4_def split: option.splits if_splits)
  with h4 show ?thesis by (simp add: within_governance)
qed

text \<open>C18: Through the chain the factory builds, a request makes at most as many calls as the retries allow,
  all but the last of them failed, and the request returns a value exactly if the last call returned it: no
  call is made after a success, and no success is lost.\<close>

theorem boundary_calls_bounded:
  assumes "build_boundary cfg timeout retries pack collect name = Some mws"
  shows "\<exists>new. calls_made (snd (connector_execute (traced env) mws req s)) = calls_made s @ new \<and>
    int (length new) \<le> max 1 retries \<and> list_all isl (butlast new) \<and>
    (\<forall>a. fst (connector_execute (traced env) mws req s) = Inr a \<longleftrightarrow> new \<noteq> [] \<and> last new = Inr a)"
proof -
  obtain new where new: "calls_made (snd (connector_execute (traced env) mws req s)) = calls_made s @ new"
    "length new \<le> nat (max 1 retries)" "explains new (fst (connector_execute (traced env) mws req s))"
    using within_chain [OF assms] by (rule calls_withinE)
  from new(2) have "int (length new) \<le> max 1 retries" by linarith
  with new(1,3) show ?thesis
    unfolding explains_def by (intro exI [of _ new]) (auto simp: list_all_iff)
qed

definition demo_settings :: conn_settings where
  "demo_settings = \<lparr>cg_enabled = True, cg_policy_pack = ''mcp-readonly'', cg_blocked_connectors = ''a, b'',
     cg_blocked_operations = [], cg_breaker_enabled = True, cg_fresh_breaker = default_breaker\<rparr>"

text \<open>A connector that fails twice and then answers; the world counts its calls.\<close>

definition flaky :: "(nat, string) conn_env" where
  "flaky = \<lparr>cv_call = (\<lambda>req n. (if n < 2 then Inl (CE_Http ''502'') else Inr ''ok'', n + 1)), cv_clock = (\<lambda>n. of_nat n)\<rparr>"

definition demo_request :: conn_request where
  "demo_request = \<lparr>cq_connector = ''mcp:x'', cq_operation = ''resources/read'', cq_timeout = None\<rparr>"

definition conn_start :: "'w \<Rightarrow> breaker \<Rightarrow> 'w conn_st" where
  "conn_start w b = \<lparr>cs_world = w, cs_breaker = b, cs_metrics = no_metrics,
     cs_collector = \<lparr>co_stats = [], co_events = [], co_max_events = 100\<rparr>\<rparr>"

theorem boundary_calls_bounded_witness:
  "\<exists>new. calls_made (snd (connector_execute (traced flaky) (boundary_chain demo_settings (Some 5) 4 None True (Some ''mcp:x''))
      demo_request (conn_start (0, []) default_breaker))) = new \<and> length new = 3 \<and> last new = Inr ''ok''"
proof -
  let ?run = "connector_execute (traced flaky) (boundary_chain demo_settings (Some 5) 4 None True (Some ''mcp:x''))
      demo_request (conn_start (0, []) default_breaker)"
  have b: "build_boundary demo_settings (Some 5) 4 None True (Some ''mcp:x'') =
      Some (boundary_chain demo_settings (Some 5) 4 None True (Some ''mcp:x''))"
    by (simp add: boundary_chain_def build_boundary_def demo_settings_def)
  have out: "fst ?run = Inr ''ok''" "length (calls_made (snd ?run)) = 3" by code_simp+
  from boundary_calls_bounded [OF b, of flaky demo_request "conn_start (0, []) default_breaker"] out
  show ?thesis by (auto simp: conn_start_def)
qed

text \<open>What governance blocks, or what finds the circuit open in its cooldown, stays inside: the request
  raises the matching error, no call is made, and the state is untouched, whatever the retries.\<close>

theorem boundary_blocks:
  fixes env :: "('w, 'a) conn_env"
  assumes "build_boundary cfg timeout retries pack collect name = Some mws"
  shows "(\<forall>reason. policy_evaluate (resolve_blocklists cfg pack) req = Some reason \<longrightarrow>
      connector_execute env mws req s = (Inl (CE_Permission reason), s)) \<and>
    (policy_evaluate (resolve_blocklists cfg pack) req = None \<longrightarrow> cg_breaker_enabled cfg \<longrightarrow>
      fst (before_call (cv_clock env (cs_world s)) (cs_breaker s)) = Inl CircuitOpen \<longrightarrow>
      connector_execute env mws req s = (Inl CE_CircuitOpen, s))"
proof -
  define cid where "cid = (if collect then Some (case name of Some n \<Rightarrow> if n = [] then ''unknown'' else n | None \<Rightarrow> ''unknown'') else None)"
  define h3 where "h3 = (let h = (if cg_breaker_enabled cfg then breaker_mw env cid (metrics_mw env collect (conn_call env))
      else metrics_mw env collect (conn_call env)) in if 1 < retries then retry_mw retries h else h)"
  define h4 where "h4 = (case timeout of None \<Rightarrow> h3 | Some t \<Rightarrow> timeout_mw t h3)"
  have chain: "connector_execute env mws = governance_mw (resolve_blocklists cfg pack) h4"
    using assms by (auto simp: connector_execute_def build_boundary_def h3_def h4_def cid_def Let_def split: option.splits if_splits)
  have open_circuit: "h4 req s = (Inl CE_CircuitOpen, s)"
    if "cg_breaker_enabled cfg" and cooling: "fst (before_call (cv_clock env (cs_world s)) (cs_breaker s)) = Inl CircuitOpen"
  proof -
    have "before_call (cv_clock env (cs_world s)) (cs_breaker s) = (Inl CircuitOpen, cs_breaker s)"
      using cooling by (auto simp: before_eq split: if_splits option.splits sum.splits)
    then have "breaker_mw env cid h req s = (Inl CE_CircuitOpen, s)" for h :: "('w, 'a) conn_handler"
      by (cases s) (simp add: breaker_mw_def on_breaker_def sv_bind_def now_eq split: option.split)
    then have h3: "h3 req s = (Inl CE_CircuitOpen, s)"
      using that(1) by (cases "nat (max 1 retries)")
        (auto simp: h3_def retry_mw_def except_exception_def sv_raise_def Let_def max_def split: if_splits)
    then show ?thesis by (auto simp: h4_def timeout_mw_def split: option.split)
  qed
  show ?thesis
    unfolding chain using open_circuit by (auto simp: governance_mw_def sv_raise_def)
qed

theorem boundary_blocks_witness:
  "connector_execute flaky (boundary_chain demo_settings None 4 None False None)
     \<lparr>cq_connector = ''b'', cq_operation = ''get'', cq_timeout = None\<rparr> (conn_start 0 default_breaker) =
   (Inl (CE_Permission ''connector blocked by policy: b''), conn_start 0 default_breaker)"
proof -
  have b: "build_boundary demo_settings None 4 None False None = Some (boundary_chain demo_settings None 4 None False None)"
    by (simp add: boundary_chain_def build_boundary_def demo_settings_def)
  have "policy_evaluate (resolve_blocklists demo_settings None) \<lparr>cq_connector = ''b'', cq_operation = ''get'', cq_timeout = None\<rparr> =
      Some ''connector blocked by policy: b''"
    by code_simp
  with boundary_blocks [OF b, of "\<lparr>cq_connector = ''b'', cq_operation = ''get'', cq_timeout = None\<rparr>" flaky "conn_start 0 default_breaker"]
  show ?thesis by blast
qed

section \<open>The collector\<close>

definition balanced :: "collector \<Rightarrow> bool" where
  "balanced co \<longleftrightarrow> (\<forall>cid st. od_get (co_stats co) cid = Some st \<longrightarrow>
     st_total st = st_successes st + st_failures st \<and> length (st_samples st) \<le> 500)"

lemma ring_bounded: "length (ring_append n x xs) \<le> n"
  by (simp add: ring_append_def Let_def)

lemma record_balanced: "balanced co \<Longrightarrow> balanced (record_call cid ok latency co)"
  by (auto simp: balanced_def record_call_def no_stats_def od.get_put ring_bounded Let_def split: option.split if_splits)

lemma event_balanced: "balanced co \<Longrightarrow> balanced (record_circuit_event cid now change co)"
  by (auto simp: balanced_def record_circuit_event_def no_stats_def od.get_put Let_def split: if_splits)

section \<open>What the code allows\<close>

text \<open>A connector that never answers within its deadline: the deadline is outside of the breaker, and the
  cancellation it sends is no \<open>Exception\<close>, so neither the breaker nor the metrics see a failure.\<close>

definition hanging :: "(nat, string) conn_env" where
  "hanging = \<lparr>cv_call = (\<lambda>req n. (Inl CE_Cancelled, n + 1)), cv_clock = (\<lambda>n. of_nat n)\<rparr>"

lemma hanging_never_trips:
  assumes "br_state (cs_breaker s) = CK_Closed"
  shows "\<exists>s'. connector_execute hanging [MW_Governance \<lparr>bl_connectors = [], bl_operations = []\<rparr>, MW_Timeout 5, MW_Breaker None, MW_Metrics True]
      demo_request s = (Inl CE_Timeout, s') \<and> cs_breaker s' = cs_breaker s \<and> cs_collector s' = cs_collector s \<and>
      cm_calls (cs_metrics s') = cm_calls (cs_metrics s) + 1 \<and> cm_failure (cs_metrics s') = cm_failure (cs_metrics s)"
  using assms
  by (simp add: connector_execute_def governance_mw_def policy_evaluate_def timeout_mw_def breaker_mw_def metrics_mw_def
      on_breaker_def before_eq now_eq conn_call_def hanging_def demo_request_def except_exception_def metrics_update_def
      sv_bind_def sv_modify_def Let_def)

end
