(* ===== verification/Approvals.thy ===== *)
theory Approvals
  imports Lifecycle PyText
begin

text \<open>
  Operator approvals of governed tool calls (\<open>agent33/tools/approvals.py\<close>) and scope-based permissions
  (\<open>agent33/security/permissions.py\<close>).

  Every public method of the approval service first expires the stale pending requests; the clock is read
  once for that and again for a decision.  Clock readings (microseconds) and new ids are arguments.
\<close>

section \<open>Approval requests\<close>

datatype approval_status = AP_Pending | AP_Approved | AP_Rejected | AP_Consumed | AP_Expired

datatype approval_reason = AR_PolicyAsk | AR_Supervised | AR_RouteMutation

datatype risk_tier = RK_Low | RK_Medium | RK_High

text \<open>The arguments of the call are stored and never read; they are left out.\<close>

record approval =
  ap_id :: string
  ap_status :: approval_status
  ap_reason :: approval_reason
  ap_tool :: string
  ap_operation :: string
  ap_command :: string
  ap_requested_by :: string
  ap_tenant :: string
  ap_details :: string
  ap_risk :: risk_tier
  ap_created_at :: int
  ap_expires_at :: "int option"
  ap_reviewed_by :: string
  ap_reviewed_at :: "int option"
  ap_note :: string

type_synonym approval_mem = "(string, approval) odict"
type_synonym approval_st = "approval_mem durable"
type_synonym 'a approval_svc = "(approval_st, unit, 'a) svc"

definition service_ttl :: "int \<Rightarrow> int" where
  "service_ttl minutes = max 1 minutes * 60000000"

definition stale :: "int \<Rightarrow> approval \<Rightarrow> bool" where
  "stale now r \<longleftrightarrow> ap_status r = AP_Pending \<and> (case ap_expires_at r of None \<Rightarrow> False | Some t \<Rightarrow> t \<le> now)"

definition expire_one :: "int \<Rightarrow> approval \<Rightarrow> approval" where
  "expire_one now r = (if stale now r then r\<lparr>ap_status := AP_Expired, ap_note := ''Approval request expired.''\<rparr> else r)"

definition ap_modify :: "(approval_mem \<Rightarrow> approval_mem) \<Rightarrow> unit approval_svc" where
  "ap_modify f = sv_modify (\<lambda>d. d\<lparr>live := f (live d)\<rparr>)"

definition expire_pending :: "int \<Rightarrow> unit approval_svc" where
  "expire_pending now = sv_bind sv_get (\<lambda>d.
     sv_bind (ap_modify (List.map (\<lambda>(i, r). (i, expire_one now r)))) (\<lambda>_.
     if list_ex (\<lambda>(i, r). stale now r) (live d) then sv_persist else sv_return ()))"

definition approval_request ::
  "int \<Rightarrow> int \<Rightarrow> approval \<Rightarrow> approval approval_svc" where
  "approval_request ttl now r = sv_bind (expire_pending now) (\<lambda>_.
     let req = r\<lparr>ap_status := AP_Pending, ap_created_at := now, ap_expires_at := Some (now + ttl),
       ap_reviewed_by := [], ap_reviewed_at := None, ap_note := []\<rparr>
     in sv_bind (ap_modify (od_put (ap_id r) req)) (\<lambda>_. sv_bind sv_persist (\<lambda>_. sv_return req)))"

definition get_approval :: "int \<Rightarrow> string \<Rightarrow> approval option approval_svc" where
  "get_approval now i = sv_bind (expire_pending now) (\<lambda>_. sv_bind sv_get (\<lambda>d. sv_return (od_get (live d) i)))"

definition list_requests :: "int \<Rightarrow> approval_status option \<Rightarrow> string option \<Rightarrow> string \<Rightarrow> int \<Rightarrow> approval list approval_svc" where
  "list_requests now st requested_by tenant limit = sv_bind (expire_pending now) (\<lambda>_. sv_bind sv_get (\<lambda>d.
     let items = od_vals (live d);
         items = (if tenant \<noteq> [] then filter (\<lambda>r. ap_tenant r = tenant) items else items);
         items = (case st of None \<Rightarrow> items | Some s \<Rightarrow> filter (\<lambda>r. ap_status r = s) items);
         items = (case requested_by of None \<Rightarrow> items | Some u \<Rightarrow> filter (\<lambda>r. ap_requested_by r = u) items)
     in sv_return (py_take limit (sort_desc ap_created_at items))))"

definition decide :: "int \<Rightarrow> int \<Rightarrow> string \<Rightarrow> bool \<Rightarrow> string \<Rightarrow> string \<Rightarrow> approval option approval_svc" where
  "decide now later i approved reviewed_by note = sv_bind (expire_pending now) (\<lambda>_. sv_bind sv_get (\<lambda>d.
     case od_get (live d) i of
       None \<Rightarrow> sv_return None
     | Some r \<Rightarrow>
         if ap_status r \<noteq> AP_Pending then sv_return (Some r)
         else let r' = r\<lparr>ap_status := (if approved then AP_Approved else AP_Rejected), ap_reviewed_by := reviewed_by,
                ap_reviewed_at := Some later, ap_note := note\<rparr>
           in sv_bind (ap_modify (od_put i r')) (\<lambda>_. sv_bind sv_persist (\<lambda>_. sv_return (Some r')))))"

text \<open>The tests that \<open>consume_if_approved\<close> and \<open>is_approved\<close> share.\<close>

definition approval_covers :: "approval \<Rightarrow> string \<Rightarrow> string \<Rightarrow> string \<Rightarrow> bool" where
  "approval_covers r tool operation tenant \<longleftrightarrow> ap_status r = AP_Approved \<and>
     \<not> (tenant \<noteq> [] \<and> ap_tenant r \<noteq> tenant) \<and> ap_tool r = tool \<and>
     \<not> (ap_operation r \<noteq> [] \<and> ap_operation r \<noteq> operation)"

definition consumed :: "approval \<Rightarrow> approval" where
  "consumed r = (let note = ''Consumed by governed execution.'' in
     r\<lparr>ap_status := AP_Consumed, ap_note := (if ap_note r \<noteq> [] then ap_note r @ '' '' @ note else note)\<rparr>)"

definition consume_if_approved :: "int \<Rightarrow> string \<Rightarrow> string \<Rightarrow> string \<Rightarrow> string \<Rightarrow> bool approval_svc" where
  "consume_if_approved now i tool operation tenant = sv_bind (expire_pending now) (\<lambda>_. sv_bind sv_get (\<lambda>d.
     case od_get (live d) i of
       None \<Rightarrow> sv_return False
     | Some r \<Rightarrow>
         if \<not> approval_covers r tool operation tenant then sv_return False
         else sv_bind (ap_modify (od_put i (consumed r))) (\<lambda>_. sv_bind sv_persist (\<lambda>_. sv_return True))))"

definition is_approved :: "int \<Rightarrow> string \<Rightarrow> string \<Rightarrow> string \<Rightarrow> string \<Rightarrow> bool approval_svc" where
  "is_approved now i tool operation tenant = sv_bind (expire_pending now) (\<lambda>_. sv_bind sv_get (\<lambda>d.
     sv_return (case od_get (live d) i of None \<Rightarrow> False | Some r \<Rightarrow> approval_covers r tool operation tenant)))"

section \<open>Permissions\<close>

datatype permission = PD_Allow | PD_Ask | PD_Deny

definition matches_any :: "string \<Rightarrow> string list \<Rightarrow> bool" where
  "matches_any scope patterns = list_ex (fnmatch scope) patterns"

definition matches_opt :: "string \<Rightarrow> string list option \<Rightarrow> bool" where
  "matches_opt scope patterns = (case patterns of None \<Rightarrow> False | Some ps \<Rightarrow> ps \<noteq> [] \<and> matches_any scope ps)"

definition check_permission_decision ::
  "string \<Rightarrow> string list \<Rightarrow> string list option \<Rightarrow> string list option \<Rightarrow> permission" where
  "check_permission_decision required token_scopes deny_scopes ask_scopes =
     (if matches_opt required deny_scopes then PD_Deny
      else if matches_opt required ask_scopes then PD_Ask
      else if matches_any ''admin'' token_scopes then
        (if matches_opt ''admin'' deny_scopes then PD_Deny
         else if matches_opt ''admin'' ask_scopes then PD_Ask
         else PD_Allow)
      else if matches_any required token_scopes then PD_Allow
      else PD_Deny)"

definition check_permission :: "string \<Rightarrow> string list \<Rightarrow> string list option \<Rightarrow> bool" where
  "check_permission required token_scopes deny_scopes =
     (check_permission_decision required token_scopes deny_scopes None = PD_Allow)"

text \<open>The dependency of a route: 401 without a token, 403 without the scope.\<close>

datatype http_error = Unauthorized | Forbidden string

definition require_scope :: "string \<Rightarrow> string list option \<Rightarrow> http_error + string list" where
  "require_scope scope payload = (case payload of
      None \<Rightarrow> Inl Unauthorized
    | Some scopes \<Rightarrow> if \<not> check_permission scope scopes None then Inl (Forbidden scope) else Inr scopes)"

end
