(* ===== verification/ApprovalTokens.thy ===== *)
theory ApprovalTokens
  imports Approvals
begin

text \<open>
  Approval tokens (\<open>agent33/security/approval_tokens.py\<close>, \<open>security/arg_hash.py\<close>): signed claims that
  carry an operator approval, with their one-time consumption and revocation.

  Signing and reading tokens (PyJWT), JSON serialisation and SHA-256 are fields of an environment; reading
  takes the clock of the library.  The readings of the manager's own clock are arguments, in seconds.
\<close>

section \<open>Data\<close>

record claims =
  tc_typ :: string
  tc_sub :: string
  tc_jti :: string
  tc_tool :: string
  tc_op :: string
  tc_arg_hash :: string
  tc_tenant :: string
  tc_scope :: string
  tc_one_time :: bool
  tc_exp :: int
  tc_iat :: int

datatype token_error =
    NotApproved approval_status
  | TokenExpired
  | TokenInvalid
  | WrongType
  | ToolMismatch
  | HashMismatch
  | TenantMismatch
  | Revoked
  | AlreadyConsumed

record 'g token_env =
  te_encode :: "string \<Rightarrow> claims \<Rightarrow> string"
  te_decode :: "string \<Rightarrow> rat \<Rightarrow> string \<Rightarrow> token_error + claims"
  te_dumps :: "'g \<Rightarrow> string"
  te_sha256 :: "string \<Rightarrow> string"

record token_config =
  tg_secret :: string
  tg_ttl :: int
  tg_one_time :: bool

record token_mem =
  tm_consumed :: "(string, rat) odict"
  tm_revoked :: "(string, rat) odict"

type_synonym token_st = "token_mem durable"
type_synonym 'a token_svc = "(token_st, token_error, 'a) svc"

definition canonical_arg_hash :: "'g token_env \<Rightarrow> string \<Rightarrow> 'g \<Rightarrow> string" where
  "canonical_arg_hash env tool args = ''sha256:'' @ te_sha256 env (tool @ '':'' @ te_dumps env args)"

section \<open>Issuing\<close>

definition issue :: "'g token_env \<Rightarrow> token_config \<Rightarrow> rat \<Rightarrow> approval \<Rightarrow> 'g \<Rightarrow> int option \<Rightarrow> bool option \<Rightarrow> token_error + string" where
  "issue env cfg clock a args ttl one_time =
     (if ap_status a \<noteq> AP_Approved then Inl (NotApproved (ap_status a))
      else let now = \<lfloor>clock\<rfloor> in Inr (te_encode env (tg_secret cfg)
        \<lparr>tc_typ = ''a33_approval'', tc_sub = (if ap_reviewed_by a \<noteq> [] then ap_reviewed_by a else ap_requested_by a),
         tc_jti = ap_id a, tc_tool = ap_tool a, tc_op = ap_operation a,
         tc_arg_hash = canonical_arg_hash env (ap_tool a) args, tc_tenant = ap_tenant a, tc_scope = ''tools:execute'',
         tc_one_time = (case one_time of None \<Rightarrow> tg_one_time cfg | Some b \<Rightarrow> b),
         tc_exp = now + (case ttl of None \<Rightarrow> tg_ttl cfg | Some t \<Rightarrow> t), tc_iat = now\<rparr>))"

section \<open>Pruning\<close>

definition tk_modify :: "(token_mem \<Rightarrow> token_mem) \<Rightarrow> unit token_svc" where
  "tk_modify f = sv_modify (\<lambda>d. d\<lparr>live := f (live d)\<rparr>)"

definition recent :: "token_config \<Rightarrow> rat \<Rightarrow> (string, rat) odict \<Rightarrow> (string, rat) odict" where
  "recent cfg now m = filter (\<lambda>(j, ts). now - of_int (2 * tg_ttl cfg) < ts) m"

definition prune_consumed :: "token_config \<Rightarrow> rat \<Rightarrow> unit token_svc" where
  "prune_consumed cfg now = sv_bind sv_get (\<lambda>d.
     let pruned = recent cfg now (tm_consumed (live d)) in
     if pruned \<noteq> tm_consumed (live d)
     then sv_bind (tk_modify (\<lambda>m. m\<lparr>tm_consumed := pruned\<rparr>)) (\<lambda>_. sv_persist) else sv_return ())"

definition prune_revoked :: "token_config \<Rightarrow> rat \<Rightarrow> unit token_svc" where
  "prune_revoked cfg now = sv_bind sv_get (\<lambda>d.
     let pruned = recent cfg now (tm_revoked (live d)) in
     if pruned \<noteq> tm_revoked (live d)
     then sv_bind (tk_modify (\<lambda>m. m\<lparr>tm_revoked := pruned\<rparr>)) (\<lambda>_. sv_persist) else sv_return ())"

definition consume_locked :: "rat \<Rightarrow> string \<Rightarrow> unit token_svc" where
  "consume_locked now jti = sv_bind (tk_modify (\<lambda>m. m\<lparr>tm_consumed := od_put jti now (tm_consumed m)\<rparr>)) (\<lambda>_. sv_persist)"

section \<open>Validation\<close>

text \<open>The clock readings of one validation, in their order.\<close>

record readings =
  rd_consumed :: rat
  rd_revoked :: rat
  rd_decode :: rat
  rd_stamp :: rat

definition check_claims :: "'g token_env \<Rightarrow> claims \<Rightarrow> string \<Rightarrow> 'g \<Rightarrow> string \<Rightarrow> token_error + claims" where
  "check_claims env c tool args tenant =
     (if tc_typ c \<noteq> ''a33_approval'' then Inl WrongType
      else if tc_tool c \<noteq> tool then Inl ToolMismatch
      else if tc_arg_hash c \<noteq> canonical_arg_hash env tool args then Inl HashMismatch
      else if tenant \<noteq> [] \<and> tc_tenant c \<noteq> [] \<and> tc_tenant c \<noteq> tenant then Inl TenantMismatch
      else Inr c)"

definition validate ::
  "'g token_env \<Rightarrow> token_config \<Rightarrow> readings \<Rightarrow> string \<Rightarrow> string \<Rightarrow> 'g \<Rightarrow> string \<Rightarrow> bool \<Rightarrow> claims token_svc" where
  "validate env cfg rd token tool args tenant consume =
     sv_bind (prune_consumed cfg (rd_consumed rd)) (\<lambda>_.
     sv_bind (prune_revoked cfg (rd_revoked rd)) (\<lambda>_.
     sv_bind (sv_lift (te_decode env (tg_secret cfg) (rd_decode rd) token)) (\<lambda>data.
     sv_bind (sv_lift (check_claims env data tool args tenant)) (\<lambda>c. sv_bind sv_get (\<lambda>d.
       if od_get (tm_revoked (live d)) (tc_jti c) \<noteq> None then sv_raise Revoked
       else if tc_one_time c \<and> od_get (tm_consumed (live d)) (tc_jti c) \<noteq> None then sv_raise AlreadyConsumed
       else sv_bind (if consume \<and> tc_one_time c then consume_locked (rd_stamp rd) (tc_jti c) else sv_return ())
         (\<lambda>_. sv_return c))))))"

definition token_consume :: "token_config \<Rightarrow> rat \<Rightarrow> rat \<Rightarrow> string \<Rightarrow> bool token_svc" where
  "token_consume cfg now stamp jti = sv_bind (prune_consumed cfg now) (\<lambda>_. sv_bind sv_get (\<lambda>d.
     if od_get (tm_consumed (live d)) jti \<noteq> None then sv_return False
     else sv_bind (consume_locked stamp jti) (\<lambda>_. sv_return True)))"

definition revoke :: "rat \<Rightarrow> string \<Rightarrow> bool token_svc" where
  "revoke now jti = sv_bind sv_get (\<lambda>d.
     if od_get (tm_revoked (live d)) jti \<noteq> None then sv_return False
     else sv_bind (tk_modify (\<lambda>m. m\<lparr>tm_revoked := od_put jti now (tm_revoked m)\<rparr>))
       (\<lambda>_. sv_bind sv_persist (\<lambda>_. sv_return True)))"

definition is_revoked :: "string \<Rightarrow> bool token_svc" where
  "is_revoked jti = sv_bind sv_get (\<lambda>d. sv_return (od_get (tm_revoked (live d)) jti \<noteq> None))"

end
