(* ===== verification/Governance.thy ===== *)
theory Governance
  imports ApprovalTokens
begin

text \<open>
  Governance of tool calls (\<open>agent33/tools/governance.py\<close>) over the context of \<open>tools/base.py\<close>: tool policies,
  the sliding-window rate limiter, autonomy levels, scopes, allowlists and the consumption of approvals.

  A call reads several clocks and may need a new approval id; they are one argument, \<open>call_inputs\<close>.  Logging
  is left out.
\<close>

section \<open>Data\<close>

text \<open>An argument of a call: a string, or any other value with its truth and its text.\<close>

datatype arg = ArgStr string | ArgOther bool string

type_synonym call_args = "(string, arg) odict"

fun arg_true :: "arg \<Rightarrow> bool" where
  "arg_true (ArgStr s) = (s \<noteq> [])"
| "arg_true (ArgOther b s) = b"

fun arg_text :: "arg \<Rightarrow> string" where
  "arg_text (ArgStr s) = s"
| "arg_text (ArgOther b s) = s"

definition arg_get :: "call_args \<Rightarrow> string \<Rightarrow> arg" where
  "arg_get params k = (case od_get params k of None \<Rightarrow> ArgStr [] | Some a \<Rightarrow> a)"

text \<open>\<open>isinstance(x, str) and x\<close>\<close>

definition text_param :: "call_args \<Rightarrow> string \<Rightarrow> string option" where
  "text_param params k = (case od_get params k of Some (ArgStr s) \<Rightarrow> if s \<noteq> [] then Some s else None | _ \<Rightarrow> None)"

datatype agent_level = AL_ReadOnly | AL_Supervised | AL_Full

datatype gov_error = GE_Type | GE_Attribute | GE_Value

record tool_context =
  tx_scopes :: "string list"
  tx_commands :: "string list"
  tx_paths :: "string list"
  tx_domains :: "string list"
  tx_policies :: "(string, string) odict"
  tx_requested_by :: string
  tx_tenant :: string

record call_inputs =
  ci_monotonic :: rat
  ci_check :: int
  ci_check_token :: readings
  ci_request :: int
  ci_new_id :: string
  ci_consume :: int
  ci_consume_token :: readings
  ci_mark_now :: rat
  ci_mark_stamp :: rat

record gov_config =
  gc_per_minute :: nat
  gc_burst :: nat
  gc_approval_ttl :: int
  gc_token_env :: "call_args token_env"
  gc_tokens :: token_config

record gov_st =
  gs_windows :: "(string, rat list) odict"
  gs_approvals :: "approval_st option"
  gs_tokens :: "token_st option"
  gs_approved :: "string list"

type_synonym 'a gov_svc = "(gov_st, gov_error, 'a) svc"

section \<open>Rate limiting\<close>

definition limiter_check :: "nat \<Rightarrow> nat \<Rightarrow> rat \<Rightarrow> string \<Rightarrow> (string, rat list) odict \<Rightarrow> bool \<times> (string, rat list) odict" where
  "limiter_check per_minute burst now subject windows =
     (let window = filter (\<lambda>t. now - 60 < t) (case od_get windows subject of None \<Rightarrow> [] | Some w \<Rightarrow> w);
          windows = od_put subject window windows
      in if per_minute \<le> length window then (False, windows)
         else if burst \<le> length (filter (\<lambda>t. now - 1 < t) window) then (False, windows)
         else (True, od_put subject (window @ [now]) windows))"

definition rate_check :: "gov_config \<Rightarrow> rat \<Rightarrow> string \<Rightarrow> bool gov_svc" where
  "rate_check cfg now subject s = (let (ok, w) = limiter_check (gc_per_minute cfg) (gc_burst cfg) now subject (gs_windows s)
     in (Inr ok, s\<lparr>gs_windows := w\<rparr>))"

section \<open>Operations and tool policies\<close>

definition resolve_operation :: "string \<Rightarrow> call_args \<Rightarrow> string" where
  "resolve_operation tool params =
     (if tool = ''apply_patch'' then (if arg_true (arg_get params ''dry_run'') then ''preview'' else ''apply'')
      else arg_text (arg_get params ''operation''))"

definition destructive_params :: "string \<Rightarrow> string list option" where
  "destructive_params tool = (if tool = ''file_ops'' then Some [''write''] else if tool = ''apply_patch'' then Some [''apply''] else None)"

definition destructive :: "string \<Rightarrow> string \<Rightarrow> bool" where
  "destructive tool operation = (case destructive_params tool of None \<Rightarrow> False | Some ops \<Rightarrow> operation \<in> set ops)"

definition is_write_operation :: "string \<Rightarrow> string \<Rightarrow> bool" where
  "is_write_operation tool operation \<longleftrightarrow> tool \<in> {''shell'', ''browser''} \<or> destructive tool operation"

definition has_wildcard :: "string \<Rightarrow> bool" where
  "has_wildcard k \<longleftrightarrow> CHR ''*'' \<in> set k \<or> CHR ''?'' \<in> set k \<or> CHR ''['' \<in> set k"

definition exact_policy :: "string \<Rightarrow> string \<Rightarrow> (string, string) odict \<Rightarrow> string option" where
  "exact_policy tool operation policies =
     (if operation = [] then None
      else case od_get policies (tool @ '':'' @ operation) of Some p \<Rightarrow> Some p | None \<Rightarrow> od_get policies (tool @ '':*''))"

definition operation_patterns :: "(string, string) odict \<Rightarrow> string list" where
  "operation_patterns policies = sort_desc (\<lambda>k. int (length k)) (filter (\<lambda>k. CHR '':'' \<in> set k \<and> has_wildcard k) (od_keys policies))"

definition operation_pattern_matches :: "string \<Rightarrow> string \<Rightarrow> string \<Rightarrow> bool" where
  "operation_pattern_matches tool operation k \<longleftrightarrow> fnmatch tool (py_before (CHR '':'') k) \<and>
     (py_after (CHR '':'') k = ''*'' \<or> fnmatch operation (py_after (CHR '':'') k))"

definition tool_patterns :: "(string, string) odict \<Rightarrow> string list" where
  "tool_patterns policies = sort_desc (\<lambda>k. int (length k))
     (filter (\<lambda>k. CHR '':'' \<notin> set k \<and> has_wildcard k \<and> k \<noteq> ''*'') (od_keys policies))"

definition first_of :: "'a option list \<Rightarrow> 'a option" where
  "first_of xs = Option.bind (List.find (\<lambda>x. x \<noteq> None) xs) id"

definition check_tool_policy :: "string \<Rightarrow> call_args \<Rightarrow> (string, string) odict \<Rightarrow> string option" where
  "check_tool_policy tool params policies =
     (let operation = resolve_operation tool params in
      map_option py_lower (first_of
        [exact_policy tool operation policies,
         od_get policies tool,
         if operation = [] then None
         else Option.bind (List.find (operation_pattern_matches tool operation) (operation_patterns policies)) (od_get policies),
         Option.bind (List.find (fnmatch tool) (tool_patterns policies)) (od_get policies),
         od_get policies ''*'']))"

section \<open>Command validation\<close>

definition chain_char :: "char \<Rightarrow> bool" where
  "chain_char c \<longleftrightarrow> c \<in> set ''|;&''"

fun chain_split :: "string \<Rightarrow> string list" where
  "chain_split [] = [[]]"
| "chain_split (d # ds) = (if chain_char d then [] # chain_split ds
     else (case chain_split ds of p # ps \<Rightarrow> (d # p) # ps | [] \<Rightarrow> [[d]]))"

definition has_subshell :: "string \<Rightarrow> bool" where
  "has_subshell command \<longleftrightarrow> py_contains ''$('' command \<or> CHR 0x60 \<in> set command"

definition segment_ok :: "string list \<Rightarrow> string \<Rightarrow> bool" where
  "segment_ok allow segment = (case py_words (py_strip segment) of [] \<Rightarrow> True | executable # _ \<Rightarrow> executable \<in> set allow)"

definition validate_command :: "arg \<Rightarrow> tool_context \<Rightarrow> gov_error + bool" where
  "validate_command command ctx =
     (if \<not> arg_true command then Inr True
      else case command of
        ArgOther b s \<Rightarrow> Inl GE_Type
      | ArgStr c \<Rightarrow> Inr (\<not> has_subshell c \<and> (tx_commands ctx = [] \<or> list_all (segment_ok (tx_commands ctx)) (chain_split c))))"

section \<open>Allowlists\<close>

definition path_allowed :: "arg \<Rightarrow> tool_context \<Rightarrow> gov_error + bool" where
  "path_allowed path ctx =
     (if tx_paths ctx = [] then Inr True
      else case path of
        ArgOther b s \<Rightarrow> Inl GE_Attribute
      | ArgStr p \<Rightarrow> Inr (list_ex (\<lambda>a. py_startswith a p) (tx_paths ctx)))"

text \<open>\<open>urlparse\<close> of a false value that is no string has no host; of a true one it raises.\<close>

definition arg_hostname :: "arg \<Rightarrow> gov_error + string" where
  "arg_hostname url = (case url of
      ArgStr u \<Rightarrow> (case url_hostname u of None \<Rightarrow> Inl GE_Value | Some h \<Rightarrow> Inr h)
    | ArgOther b s \<Rightarrow> if b then Inl GE_Attribute else Inr [])"

definition domain_matches :: "string \<Rightarrow> string list \<Rightarrow> bool" where
  "domain_matches domain allow = list_ex (\<lambda>a. domain = a \<or> py_endswith (''.'' @ a) domain) allow"

definition domain_allowed :: "arg \<Rightarrow> tool_context \<Rightarrow> gov_error + bool" where
  "domain_allowed url ctx =
     (if tx_domains ctx = [] then Inr True
      else case arg_hostname url of Inl e \<Rightarrow> Inl e | Inr domain \<Rightarrow> Inr (domain_matches domain (tx_domains ctx)))"

section \<open>Approvals\<close>

definition sanitize_approval_arguments :: "call_args \<Rightarrow> call_args" where
  "sanitize_approval_arguments params = filter (\<lambda>(k, v). k \<notin> {''__approval_id'', ''__approval_token''}) params"

definition on_approvals :: "'a approval_svc \<Rightarrow> 'a gov_svc" where
  "on_approvals m s = (case gs_approvals s of
      None \<Rightarrow> (Inl GE_Attribute, s)
    | Some a \<Rightarrow> (case m a of (r, a') \<Rightarrow>
        ((case r of Inl _ \<Rightarrow> Inl GE_Attribute | Inr x \<Rightarrow> Inr x), s\<lparr>gs_approvals := Some a'\<rparr>)))"

text \<open>What the token manager raises is caught by its only caller: it is the result here.\<close>

definition on_tokens :: "'a token_svc \<Rightarrow> (token_error + 'a) gov_svc" where
  "on_tokens m s = (case gs_tokens s of
      None \<Rightarrow> (Inl GE_Attribute, s)
    | Some t \<Rightarrow> (case m t of (r, t') \<Rightarrow> (Inr r, s\<lparr>gs_tokens := Some t'\<rparr>)))"

definition consume_token :: "gov_config \<Rightarrow> call_inputs \<Rightarrow> string \<Rightarrow> bool gov_svc" where
  "consume_token cfg inp jti = sv_bind (on_tokens (token_consume (gc_tokens cfg) (ci_mark_now inp) (ci_mark_stamp inp) jti))
     (\<lambda>r. sv_return (r = Inr True))"

text \<open>The rest of the call with a valid token.\<close>

definition spend_token :: "gov_config \<Rightarrow> call_inputs \<Rightarrow> string \<Rightarrow> string \<Rightarrow> string \<Rightarrow> bool \<Rightarrow> claims \<Rightarrow> bool gov_svc" where
  "spend_token cfg inp tool operation tenant consume c = sv_bind sv_get (\<lambda>s.
     if gs_approvals s = None then
       (if \<not> consume \<or> \<not> tc_one_time c then sv_return True else consume_token cfg inp (tc_jti c))
     else if \<not> consume then on_approvals (is_approved (ci_check inp) (tc_jti c) tool operation tenant)
     else sv_bind (on_approvals (consume_if_approved (ci_consume inp) (tc_jti c) tool operation tenant)) (\<lambda>ok.
       if \<not> ok then sv_return False
       else if \<not> tc_one_time c then sv_return True
       else consume_token cfg inp (tc_jti c)))"

definition use_token ::
  "gov_config \<Rightarrow> call_inputs \<Rightarrow> string \<Rightarrow> call_args \<Rightarrow> string \<Rightarrow> string \<Rightarrow> string \<Rightarrow> bool \<Rightarrow> bool gov_svc" where
  "use_token cfg inp token params tool operation tenant consume =
     sv_bind (on_tokens (validate (gc_token_env cfg) (gc_tokens cfg) (if consume then ci_consume_token inp else ci_check_token inp)
       token tool (sanitize_approval_arguments params) tenant False))
       (\<lambda>r. case r of Inl _ \<Rightarrow> sv_return False | Inr c \<Rightarrow> spend_token cfg inp tool operation tenant consume c)"

definition use_approval_id ::
  "call_inputs \<Rightarrow> call_args \<Rightarrow> string \<Rightarrow> string \<Rightarrow> string \<Rightarrow> bool \<Rightarrow> bool gov_svc" where
  "use_approval_id inp params tool operation tenant consume = sv_bind sv_get (\<lambda>s.
     if gs_approvals s = None then sv_return False
     else case text_param params ''__approval_id'' of
       None \<Rightarrow> sv_return False
     | Some i \<Rightarrow>
         if \<not> consume then on_approvals (is_approved (ci_check inp) i tool operation tenant)
         else on_approvals (consume_if_approved (ci_consume inp) i tool operation tenant))"

definition try_consume_approval ::
  "gov_config \<Rightarrow> call_inputs \<Rightarrow> call_args \<Rightarrow> string \<Rightarrow> string \<Rightarrow> string \<Rightarrow> bool \<Rightarrow> bool gov_svc" where
  "try_consume_approval cfg inp params tool operation tenant consume = sv_bind sv_get (\<lambda>s.
     case text_param params ''__approval_token'' of
       Some token \<Rightarrow> if gs_tokens s \<noteq> None then use_token cfg inp token params tool operation tenant consume
         else use_approval_id inp params tool operation tenant consume
     | None \<Rightarrow> use_approval_id inp params tool operation tenant consume)"

definition ask_operator ::
  "gov_config \<Rightarrow> call_inputs \<Rightarrow> approval_reason \<Rightarrow> risk_tier \<Rightarrow> string \<Rightarrow> call_args \<Rightarrow> tool_context \<Rightarrow> string \<Rightarrow> string \<Rightarrow> unit gov_svc" where
  "ask_operator cfg inp reason risk details params ctx tool operation = sv_bind sv_get (\<lambda>s.
     if gs_approvals s = None then sv_return ()
     else sv_void (on_approvals (approval_request (gc_approval_ttl cfg) (ci_request inp)
       \<lparr>ap_id = ci_new_id inp, ap_status = AP_Pending, ap_reason = reason, ap_tool = tool, ap_operation = operation,
        ap_command = arg_text (arg_get params ''command''), ap_requested_by = tx_requested_by ctx, ap_tenant = tx_tenant ctx,
        ap_details = details, ap_risk = risk, ap_created_at = 0, ap_expires_at = None, ap_reviewed_by = [],
        ap_reviewed_at = None, ap_note = []\<rparr>)))"

section \<open>The check before execution\<close>

text \<open>The answer of a stage: refuse the call, or go on, with an approval validated so far or not.\<close>

datatype stage = Refuse | GoOn bool

text \<open>What both approval stages do: use an approval of the call, or ask for one and refuse.\<close>

definition need_approval ::
  "gov_config \<Rightarrow> call_inputs \<Rightarrow> approval_reason \<Rightarrow> risk_tier \<Rightarrow> string \<Rightarrow> call_args \<Rightarrow> tool_context \<Rightarrow> string \<Rightarrow> string \<Rightarrow> stage gov_svc" where
  "need_approval cfg inp reason risk details params ctx tool operation =
     sv_bind (try_consume_approval cfg inp params tool operation (tx_tenant ctx) False) (\<lambda>ok.
       if ok then sv_return (GoOn True)
       else sv_bind (ask_operator cfg inp reason risk details params ctx tool operation) (\<lambda>_. sv_return Refuse))"

definition policy_stage :: "gov_config \<Rightarrow> call_inputs \<Rightarrow> call_args \<Rightarrow> tool_context \<Rightarrow> string \<Rightarrow> string \<Rightarrow> stage gov_svc" where
  "policy_stage cfg inp params ctx tool operation =
     (if tx_policies ctx = [] then sv_return (GoOn False)
      else let policy = check_tool_policy tool params (tx_policies ctx) in
        if policy = Some ''deny'' then sv_return Refuse
        else if policy = Some ''ask'' then sv_bind sv_get (\<lambda>s.
          if tool \<in> set (gs_approved s) then sv_return (GoOn False)
          else need_approval cfg inp AR_PolicyAsk RK_Medium ''Tool policy requires operator approval.'' params ctx tool operation)
        else sv_return (GoOn False))"

definition autonomy_stage ::
  "gov_config \<Rightarrow> call_inputs \<Rightarrow> call_args \<Rightarrow> tool_context \<Rightarrow> agent_level option \<Rightarrow> string \<Rightarrow> string \<Rightarrow> bool \<Rightarrow> stage gov_svc" where
  "autonomy_stage cfg inp params ctx level tool operation validated =
     (if level = Some AL_ReadOnly \<and> is_write_operation tool operation then sv_return Refuse
      else if level = Some AL_Supervised \<and> destructive tool operation \<and> \<not> validated
      then need_approval cfg inp AR_Supervised RK_High ''Supervised autonomy requires operator approval.'' params ctx tool operation
      else sv_return (GoOn validated))"

definition tool_stage :: "call_args \<Rightarrow> tool_context \<Rightarrow> string \<Rightarrow> gov_error + bool" where
  "tool_stage params ctx tool =
     (if tool = ''shell'' then validate_command (arg_get params ''command'') ctx
      else if tool = ''file_ops'' then path_allowed (arg_get params ''path'') ctx
      else if tool = ''web_fetch'' then domain_allowed (arg_get params ''url'') ctx
      else Inr True)"

definition rate_subject :: "tool_context \<Rightarrow> string" where
  "rate_subject ctx = (case tx_scopes ctx of [] \<Rightarrow> ''__anon__'' | u # _ \<Rightarrow> u)"

definition pre_execute_check ::
  "gov_config \<Rightarrow> call_inputs \<Rightarrow> string \<Rightarrow> call_args \<Rightarrow> tool_context \<Rightarrow> agent_level option \<Rightarrow> bool gov_svc" where
  "pre_execute_check cfg inp tool params ctx level =
     (let operation = resolve_operation tool params in
      sv_bind (policy_stage cfg inp params ctx tool operation) (\<lambda>st1. case st1 of
        Refuse \<Rightarrow> sv_return False
      | GoOn validated \<Rightarrow>
      sv_bind (rate_check cfg (ci_monotonic inp) (rate_subject ctx)) (\<lambda>granted. if \<not> granted then sv_return False else
      sv_bind (autonomy_stage cfg inp params ctx level tool operation validated) (\<lambda>st2. case st2 of
        Refuse \<Rightarrow> sv_return False
      | GoOn validated \<Rightarrow>
      if \<not> check_permission ''tools:execute'' (tx_scopes ctx) None then sv_return False else
      sv_bind (sv_lift (tool_stage params ctx tool)) (\<lambda>ok. if \<not> ok then sv_return False else
      if \<not> validated then sv_return True
      else try_consume_approval cfg inp params tool operation (tx_tenant ctx) True)))))"

section \<open>Configuration of the service\<close>

text \<open>The file of approved tools: absent, unreadable, not an object, or an object with these keys.\<close>

datatype tools_file = TF_Missing | TF_Unreadable | TF_NotObject | TF_Object "string list"

definition load_approved_tools_file :: "tools_file \<Rightarrow> unit gov_svc" where
  "load_approved_tools_file file = (case file of
      TF_Object names \<Rightarrow> sv_modify (\<lambda>s. s\<lparr>gs_approved :=
        fold (\<lambda>n xs. if py_strip n \<noteq> [] then List.insert (py_strip n) xs else xs) names (gs_approved s)\<rparr>)
    | _ \<Rightarrow> sv_return ())"

definition set_approval_service :: "approval_st option \<Rightarrow> unit gov_svc" where
  "set_approval_service a = sv_modify (\<lambda>s. s\<lparr>gs_approvals := a\<rparr>)"

definition set_approval_token_manager :: "token_st option \<Rightarrow> unit gov_svc" where
  "set_approval_token_manager t = sv_modify (\<lambda>s. s\<lparr>gs_tokens := t\<rparr>)"

end
