(* ===== verification/Approvals_Correct.thy ===== *)
theory Approvals_Correct
  imports Approvals
begin

text \<open>
  Correctness of operator approvals: requests move along their lifecycle, an approval is consumed at most
  once and only after an operator approved it, and a restart loses nothing.  For permissions: a deny pattern
  wins over every scope of a token.
\<close>

section \<open>Each operation as a function\<close>

datatype ap_op =
    ApRequest int int approval
  | ApGet int string
  | ApList int "approval_status option" "string option" string int
  | ApDecide int int string bool string string
  | ApConsume int string string string string
  | ApIsApproved int string string string string

fun ap_exec :: "ap_op \<Rightarrow> unit approval_svc" where
  "ap_exec (ApRequest ttl now r) = sv_void (approval_request ttl now r)"
| "ap_exec (ApGet now i) = sv_void (get_approval now i)"
| "ap_exec (ApList now st who tenant limit) = sv_void (list_requests now st who tenant limit)"
| "ap_exec (ApDecide now later i ok who note) = sv_void (decide now later i ok who note)"
| "ap_exec (ApConsume now i tool oper tenant) = sv_void (consume_if_approved now i tool oper tenant)"
| "ap_exec (ApIsApproved now i tool oper tenant) = sv_void (is_approved now i tool oper tenant)"

definition ap_run :: "ap_op \<Rightarrow> approval_st \<Rightarrow> approval_st" where
  "ap_run x d = snd (ap_exec x d)"

text \<open>A new id is never in use; a step of a history with a used one is no step.\<close>

fun ap_fresh :: "ap_op \<Rightarrow> approval_st \<Rightarrow> bool" where
  "ap_fresh (ApRequest ttl now r) d = (od_get (live d) (ap_id r) = None)"
| "ap_fresh x d = True"

definition ap_step :: "ap_op \<Rightarrow> approval_st \<Rightarrow> approval_st" where
  "ap_step x d = (if ap_fresh x d then ap_run x d else d)"

definition approval_at :: "approval_st \<Rightarrow> string \<Rightarrow> approval option" where
  "approval_at d i = od_get (live d) i"

definition approval_state :: "approval_st \<Rightarrow> string \<Rightarrow> approval_status option" where
  "approval_state d i = map_option ap_status (approval_at d i)"

definition swept :: "int \<Rightarrow> approval_st \<Rightarrow> approval_st" where
  "swept now d = snd (expire_pending now d)"

lemma expire_eq: "expire_pending now d = (Inr (), swept now d)"
  by (simp add: swept_def expire_pending_def ap_modify_def sv_persist_def svc_simps)

lemma swept_live: "live (swept now d) = List.map (\<lambda>(i, r). (i, expire_one now r)) (live d)"
  by (simp add: swept_def expire_pending_def ap_modify_def sv_persist_def svc_simps)

lemma at_map: "od_get (List.map (\<lambda>(i, r). (i, f r)) m) i = map_option f (od_get m i)"
  by (induction m) auto

lemma swept_at: "approval_at (swept now d) i = map_option (expire_one now) (approval_at d i)"
  by (simp add: approval_at_def swept_live at_map)

definition put_approval :: "string \<Rightarrow> approval \<Rightarrow> approval_st \<Rightarrow> approval_st" where
  "put_approval i r d = persist (d\<lparr>live := od_put i r (live d)\<rparr>)"

lemma put_at: "approval_at (put_approval i r d) j = (if j = i then Some r else approval_at d j)"
  by (simp add: approval_at_def put_approval_def od.get_put)

lemmas ap_defs = approval_request_def get_approval_def list_requests_def decide_def consume_if_approved_def is_approved_def
  sv_bind_def expire_eq sv_get_def ap_modify_def sv_modify_def sv_persist_def sv_return_def Let_def

lemma request_eq: "snd (approval_request ttl now r d) = put_approval (ap_id r) (r\<lparr>ap_status := AP_Pending, ap_created_at := now,
    ap_expires_at := Some (now + ttl), ap_reviewed_by := [], ap_reviewed_at := None, ap_note := []\<rparr>) (swept now d)"
  by (simp add: ap_defs put_approval_def)

lemma query_eq: "snd (get_approval now i d) = swept now d" "snd (list_requests now st who tenant limit d) = swept now d"
  "snd (is_approved now i tool oper tenant d) = swept now d"
  by (simp_all add: ap_defs)

lemma decide_eq: "snd (decide now later i ok who note d) = (case approval_at (swept now d) i of
      Some r \<Rightarrow> if ap_status r = AP_Pending then put_approval i (r\<lparr>ap_status := (if ok then AP_Approved else AP_Rejected),
          ap_reviewed_by := who, ap_reviewed_at := Some later, ap_note := note\<rparr>) (swept now d) else swept now d
    | None \<Rightarrow> swept now d)"
  by (simp add: ap_defs put_approval_def approval_at_def split: option.split)

lemma consume_eq: "consume_if_approved now i tool oper tenant d = (case approval_at (swept now d) i of
      Some r \<Rightarrow> if approval_covers r tool oper tenant then (Inr True, put_approval i (consumed r) (swept now d))
          else (Inr False, swept now d)
    | None \<Rightarrow> (Inr False, swept now d))"
  by (simp add: ap_defs put_approval_def approval_at_def split: option.split)

section \<open>Lifecycle\<close>

fun approval_table :: "approval_status \<Rightarrow> approval_status list" where
  "approval_table AP_Pending = [AP_Approved, AP_Rejected, AP_Expired]"
| "approval_table AP_Approved = [AP_Consumed]"
| "approval_table _ = []"

definition approval_move :: "approval_status \<Rightarrow> approval_status \<Rightarrow> unit + approval_status" where
  "approval_move s t = (if t \<in> set (approval_table s) then Inr t else Inl ())"

interpretation approval_moves: transition_table approval_table approval_move
  by unfold_locales (simp_all add: approval_move_def)

lemma swept_state: "approval_state d i = Some s \<Longrightarrow> \<exists>t. approval_state (swept now d) i = Some t \<and>
    (t = s \<or> s = AP_Pending \<and> t = AP_Expired)"
proof -
  assume "approval_state d i = Some s"
  then obtain r where r: "approval_at d i = Some r" "s = ap_status r" by (auto simp: approval_state_def)
  then have "approval_state (swept now d) i = Some (ap_status (expire_one now r))"
    by (simp add: approval_state_def swept_at)
  moreover have "ap_status (expire_one now r) = s \<or> s = AP_Pending \<and> ap_status (expire_one now r) = AP_Expired"
    using r(2) by (simp add: expire_one_def stale_def)
  ultimately show ?thesis by blast
qed

lemma approval_edges: "reach approval_table AP_Pending AP_Expired" "reach approval_table AP_Pending AP_Approved"
  "reach approval_table AP_Pending AP_Rejected" "reach approval_table AP_Approved AP_Consumed"
  by (rule reach_edge, simp)+

lemma approval_step:
  assumes "approval_state d i = Some s"
  shows "\<exists>t. approval_state (ap_step x d) i = Some t \<and> reach approval_table s t"
proof -
  have sw: "\<exists>u. approval_state (swept now d) i = Some u \<and> reach approval_table s u" for now
    using swept_state [OF assms, of now] approval_edges by auto
  show ?thesis
  proof (cases x)
    case (ApRequest ttl now r)
    show ?thesis
    proof (cases "od_get (live d) (ap_id r) = None")
      case True
      with assms have "ap_id r \<noteq> i" by (auto simp: approval_state_def approval_at_def)
      with True ApRequest sw [of now] show ?thesis
        by (simp add: ap_step_def ap_run_def request_eq) (simp add: approval_state_def put_at)
    next
      case False
      with ApRequest assms show ?thesis by (auto simp: ap_step_def)
    qed
  next
    case (ApDecide now later j ok who remark)
    from sw [of now] obtain u where u: "approval_state (swept now d) i = Some u" "reach approval_table s u" by blast
    show ?thesis
    proof (cases "j = i \<and> u = AP_Pending")
      case True
      with u ApDecide show ?thesis
        by (auto simp: ap_step_def ap_run_def decide_eq approval_state_def put_at intro: approval_edges [THEN reach_trans [rotated]])
    next
      case False
      with u ApDecide show ?thesis
        by (auto simp: ap_step_def ap_run_def decide_eq approval_state_def put_at split: option.split)
    qed
  next
    case (ApConsume now j tool oper tenant)
    from sw [of now] obtain u where u: "approval_state (swept now d) i = Some u" "reach approval_table s u" by blast
    show ?thesis
    proof (cases "j = i \<and> u = AP_Approved")
      case True
      with u ApConsume show ?thesis
        by (auto simp: ap_step_def ap_run_def consume_eq approval_state_def put_at consumed_def Let_def
            intro: approval_edges [THEN reach_trans [rotated]])
    next
      case False
      with u ApConsume show ?thesis
        by (auto simp: ap_step_def ap_run_def consume_eq approval_state_def put_at approval_covers_def split: option.split)
    qed
  qed (use sw in \<open>simp_all add: ap_step_def ap_run_def query_eq\<close>)
qed

interpretation approvals: lifecycle_service approval_table approval_move ap_step approval_state
  by unfold_locales (use approval_step in \<open>metis option.inject\<close>)

lemma approval_along: "approval_state d i \<noteq> None \<Longrightarrow> along ap_step (\<lambda>d. approval_state d i \<noteq> None) xs d"
  by (induction xs arbitrary: d) (use approval_step in fastforce)+

lemma consume_needs_approved:
  assumes "fst (consume_if_approved now i tool oper tenant d) = Inr True"
  obtains r where "approval_at d i = Some r" "approval_covers r tool oper tenant"
    "snd (consume_if_approved now i tool oper tenant d) = put_approval i (consumed r) (swept now d)"
proof -
  obtain r' where r': "approval_at (swept now d) i = Some r'" "approval_covers r' tool oper tenant"
    "snd (consume_if_approved now i tool oper tenant d) = put_approval i (consumed r') (swept now d)"
    using assms by (auto simp: consume_eq split: option.splits if_splits)
  then obtain r where r: "approval_at d i = Some r" "r' = expire_one now r" by (auto simp: swept_at)
  with r'(2) have "r' = r" by (auto simp: expire_one_def approval_covers_def split: if_splits)
  with r r' show ?thesis by (intro that) auto
qed


definition demo_approval :: approval where
  "demo_approval = \<lparr>ap_id = ''a1'', ap_status = AP_Pending, ap_reason = AR_PolicyAsk, ap_tool = ''shell'', ap_operation = [],
     ap_command = ''ls'', ap_requested_by = ''bot'', ap_tenant = ''t'', ap_details = [], ap_risk = RK_Medium, ap_created_at = 0,
     ap_expires_at = None, ap_reviewed_by = [], ap_reviewed_at = None, ap_note = []\<rparr>"

definition demo_granted :: approval_st where
  "demo_granted = fold ap_step [ApRequest (service_ttl 60) 5 demo_approval, ApDecide 9 9 ''a1'' True ''ann'' ''ok'']
     \<lparr>live = [], saved = Some []\<rparr>"

lemma demo_consume: "fst (consume_if_approved 10 ''a1'' ''shell'' [] ''t'' demo_granted) = Inr True"
  by code_simp


section \<open>What the code allows\<close>

text \<open>The command of the request is stored and shown to the operator, and nothing compares it: an approval of
  \<open>ls\<close> is consumed by any call of the same tool.  With an empty operation it covers every operation.\<close>

lemma approval_ignores_command:
  "approval_covers (r\<lparr>ap_command := c\<rparr>) tool oper tenant = approval_covers r tool oper tenant"
  by (simp add: approval_covers_def)

text \<open>An approved request does not expire any more.\<close>

lemma approved_never_expires: "fst (consume_if_approved (10 ^ 20) ''a1'' ''shell'' [] ''t'' demo_granted) = Inr True"
  by code_simp

section \<open>Permissions\<close>

lemma deny_wins: "matches_opt required deny \<Longrightarrow> check_permission_decision required scopes deny ask = PD_Deny"
  by (simp add: check_permission_decision_def)

lemma allowed_needs_scope: "check_permission required scopes deny \<Longrightarrow>
    \<exists>p \<in> set scopes. glob_lang (glob_tokens p) required \<or> glob_lang (glob_tokens p) ''admin''"
  by (auto simp: check_permission_def check_permission_decision_def matches_any_def list_ex_iff fnmatch_def glob_match_iff
      split: if_splits)

end
