(* ===== verification/ApprovalTokens_Correct.thy ===== *)
theory ApprovalTokens_Correct
  imports ApprovalTokens
begin

text \<open>
  Correctness of approval tokens: an accepted token is bound to the tool, the arguments and the tenant of the
  call, and a one-time token is accepted once, across restarts, as long as it does not outlive its mark; the
  operations write through.  A token that lives longer than twice the default lifetime can be replayed.
\<close>

section \<open>Operations and histories\<close>

datatype 'g tk_op =
    TkValidate readings string string 'g string bool
  | TkConsume rat rat string
  | TkRevoke rat string
  | TkIsRevoked string
  | TkRestart

definition blank_tokens :: token_mem where
  "blank_tokens = \<lparr>tm_consumed = [], tm_revoked = []\<rparr>"

fun tk_exec :: "'g token_env \<Rightarrow> token_config \<Rightarrow> 'g tk_op \<Rightarrow> unit token_svc" where
  "tk_exec env cfg (TkValidate rd token tool args tenant consume) = sv_void (validate env cfg rd token tool args tenant consume)"
| "tk_exec env cfg (TkConsume now stamp jti) = sv_void (token_consume cfg now stamp jti)"
| "tk_exec env cfg (TkRevoke now jti) = sv_void (revoke now jti)"
| "tk_exec env cfg (TkIsRevoked jti) = sv_void (is_revoked jti)"
| "tk_exec env cfg TkRestart = sv_modify (restart blank_tokens)"

definition tk_run :: "'g token_env \<Rightarrow> token_config \<Rightarrow> 'g tk_op \<Rightarrow> token_st \<Rightarrow> token_st" where
  "tk_run env cfg x d = snd (tk_exec env cfg x d)"

text \<open>The clock reading by which an operation prunes the consumption marks, is at most \<open>t\<close>.\<close>

fun prunes_by :: "rat \<Rightarrow> 'g tk_op \<Rightarrow> bool" where
  "prunes_by t (TkValidate rd token tool args tenant consume) = (rd_consumed rd \<le> t)"
| "prunes_by t (TkConsume now stamp jti) = (now \<le> t)"
| "prunes_by t x = True"

section \<open>Writing through\<close>

lemma modify_then: "sv_bind (tk_modify f) g d = g () (d\<lparr>live := f (live d)\<rparr>)"
  by (simp add: tk_modify_def svc_simps)

lemma wt_modify_persist: "writes_through (sv_bind (tk_modify f) (\<lambda>_. sv_persist))"
  by (simp add: writes_through_def modify_then sv_persist_def sv_modify_def)

lemma wt_prune: "writes_through (prune_consumed cfg now)" "writes_through (prune_revoked cfg now)"
  by (simp_all add: prune_consumed_def prune_revoked_def Let_def wt_bind wt_pure wt_modify_persist)

lemma wt_mark: "writes_through (consume_locked now j)"
  by (simp add: consume_locked_def wt_modify_persist)

lemma wt_validate: "writes_through (validate env cfg rd token tool args tenant b)"
  unfolding validate_def by (intro wt_bind wt_prune wt_pure) (auto intro!: wt_bind wt_pure wt_mark)

lemma wt_token_consume: "writes_through (token_consume cfg now stamp j)"
  unfolding token_consume_def by (intro wt_bind wt_prune wt_pure) (auto intro!: wt_bind wt_pure wt_mark)

lemma wt_revoke: "writes_through (revoke now j)"
  by (simp add: writes_through_def revoke_def sv_bind_def sv_get_def sv_return_def tk_modify_def sv_modify_def sv_persist_def)

lemma wt_is_revoked: "writes_through (is_revoked j)"
  by (simp add: is_revoked_def wt_bind wt_pure)

lemma wt_restart: "writes_through (sv_modify (restart blank_tokens))"
  by (auto simp: writes_through_def sv_modify_def synced_def restart_def)

lemma wt_token_exec: "writes_through (tk_exec env cfg x)"
  by (cases x) (simp_all add: wt_void wt_validate wt_token_consume wt_revoke wt_is_revoked wt_restart)

text \<open>Whether a store is configured never changes.\<close>

definition storing :: "token_st \<Rightarrow> token_st \<Rightarrow> bool" where
  "storing d e \<longleftrightarrow> (saved e = None \<longleftrightarrow> saved d = None)"

lemma storing_bind: "related storing m \<Longrightarrow> (\<And>a. related storing (f a)) \<Longrightarrow> related storing (sv_bind m f)"
  by (rule related_bind) (auto simp: storing_def)

lemma storing_basic: "related storing (tk_modify f)" "related storing sv_persist" "related storing (sv_modify (restart b))"
    "related storing (sv_return a)" "related storing (sv_raise e)" "related storing sv_get" "related storing (sv_lift r)"
  by (auto simp: related_def storing_def tk_modify_def sv_modify_def sv_persist_def restart_def svc_simps split: option.split)

lemma storing_exec: "related storing (tk_exec env cfg x)"
  by (cases x) (auto simp: validate_def prune_consumed_def prune_revoked_def consume_locked_def token_consume_def revoke_def
      is_revoked_def sv_void_def Let_def intro!: storing_bind storing_basic)

interpretation token_store: write_through "tk_run env cfg" "\<lambda>_. True"
proof (unfold_locales, goal_cases)
  case (1 x d)
  then show ?case using wt_token_exec [of env cfg x] by (simp add: tk_run_def writes_through_def)
next
  case (2 x d)
  show ?case using storing_exec unfolding related_def storing_def tk_run_def by blast
qed
section \<open>Marks\<close>

definition prune_at :: "token_config \<Rightarrow> rat \<Rightarrow> token_st \<Rightarrow> token_st" where
  "prune_at cfg now d = snd (prune_consumed cfg now d)"

definition sweep_at :: "token_config \<Rightarrow> rat \<Rightarrow> token_st \<Rightarrow> token_st" where
  "sweep_at cfg now d = snd (prune_revoked cfg now d)"

lemma prune_eq: "prune_consumed cfg now d = (Inr (), prune_at cfg now d)"
  by (simp add: prune_at_def prune_consumed_def tk_modify_def sv_persist_def Let_def svc_simps)

lemma sweep_eq: "prune_revoked cfg now d = (Inr (), sweep_at cfg now d)"
  by (simp add: sweep_at_def prune_revoked_def tk_modify_def sv_persist_def Let_def svc_simps)

lemma prune_live: "tm_consumed (live (prune_at cfg now d)) = recent cfg now (tm_consumed (live d))"
    "tm_revoked (live (prune_at cfg now d)) = tm_revoked (live d)"
  by (simp_all add: prune_at_def prune_consumed_def tk_modify_def sv_persist_def Let_def svc_simps)

lemma sweep_live: "tm_consumed (live (sweep_at cfg now d)) = tm_consumed (live d)"
    "tm_revoked (live (sweep_at cfg now d)) = recent cfg now (tm_revoked (live d))"
  by (simp_all add: sweep_at_def prune_revoked_def tk_modify_def sv_persist_def Let_def svc_simps)

lemma validate_eq: "validate env cfg rd token tool args tenant b d =
    (let e = sweep_at cfg (rd_revoked rd) (prune_at cfg (rd_consumed rd) d) in
     case te_decode env (tg_secret cfg) (rd_decode rd) token of Inl x \<Rightarrow> (Inl x, e)
     | Inr data \<Rightarrow> (case check_claims env data tool args tenant of Inl x \<Rightarrow> (Inl x, e)
       | Inr c \<Rightarrow> if od_get (tm_revoked (live e)) (tc_jti c) \<noteq> None then (Inl Revoked, e)
           else if tc_one_time c \<and> od_get (tm_consumed (live e)) (tc_jti c) \<noteq> None then (Inl AlreadyConsumed, e)
           else (Inr c, if b \<and> tc_one_time c then snd (consume_locked (rd_stamp rd) (tc_jti c) e) else e)))"
  by (auto simp: validate_def sv_bind_def prune_eq sweep_eq sv_lift_def sv_get_def sv_raise_def sv_return_def Let_def
      consume_locked_def tk_modify_def sv_modify_def sv_persist_def split: sum.split)

lemma mark_live: "tm_consumed (live (snd (consume_locked now j d))) = od_put j now (tm_consumed (live d))"
  by (simp add: consume_locked_def tk_modify_def sv_persist_def svc_simps)

text \<open>An operation only prunes the marks and adds marks for identifiers that have none.\<close>

definition marks_after :: "token_config \<Rightarrow> rat \<Rightarrow> (string, rat) odict \<Rightarrow> (string, rat) odict \<Rightarrow> bool" where
  "marks_after cfg now m m' \<longleftrightarrow> m' = m \<or> m' = recent cfg now m \<or>
     (\<exists>j s. od_get (recent cfg now m) j = None \<and> m' = od_put j s (recent cfg now m))"

lemma validate_marks: "marks_after cfg (rd_consumed rd) (tm_consumed (live d))
    (tm_consumed (live (snd (validate env cfg rd token tool args tenant b d))))"
  by (auto simp: validate_eq Let_def mark_live sweep_live prune_live marks_after_def check_claims_def split: sum.split)

lemma token_consume_marks: "marks_after cfg now (tm_consumed (live d)) (tm_consumed (live (snd (token_consume cfg now stamp j d))))"
  by (auto simp: token_consume_def sv_bind_def prune_eq sv_get_def sv_return_def consume_locked_def tk_modify_def
      sv_modify_def sv_persist_def prune_live marks_after_def)

lemma run_marks:
  assumes "synced d" and "saved d \<noteq> None" and "prunes_by t x"
  shows "\<exists>now \<le> t. marks_after cfg now (tm_consumed (live d)) (tm_consumed (live (tk_run env cfg x d)))"
proof (cases x)
  case TkValidate
  with assms(3) show ?thesis by (auto simp: tk_run_def intro: validate_marks)
next
  case TkConsume
  with assms(3) show ?thesis by (auto simp: tk_run_def intro: token_consume_marks)
next
  case TkRestart
  with restart_synced [OF assms(1,2)] show ?thesis by (auto simp: tk_run_def sv_modify_def marks_after_def)
qed (auto simp: tk_run_def revoke_def is_revoked_def sv_bind_def sv_get_def sv_return_def tk_modify_def sv_modify_def
      sv_persist_def marks_after_def)

lemma marks_after_keep:
  "marks_after cfg now m m' \<Longrightarrow> (j, s) \<in> set m \<Longrightarrow> now < s + of_int (2 * tg_ttl cfg) \<Longrightarrow>
   (j, s) \<in> set m'"
proof -
  assume m: "marks_after cfg now m m'" "(j, s) \<in> set m" "now < s + of_int (2 * tg_ttl cfg)"
  then have kept: "(j, s) \<in> set (recent cfg now m)" by (simp add: recent_def algebra_simps)
  have put: "od_get r i = None \<Longrightarrow> od_put i v r = r @ [(i, v)]" for i v and r :: "(string, rat) odict"
    by (induction r) (auto split: if_splits)
  from m(1,2) kept show ?thesis unfolding marks_after_def by (elim disjE exE conjE) (simp_all add: put)
qed
lemma history_keeps_mark:
  assumes "(j, s) \<in> set (tm_consumed (live d))" and "synced d" and "saved d \<noteq> None"
    and "list_all (prunes_by t) xs" and "t < s + of_int (2 * tg_ttl cfg)"
  shows "(j, s) \<in> set (tm_consumed (live (fold (tk_run env cfg) xs d)))"
proof -
  have step: "(j, s) \<in> set (tm_consumed (live (tk_run env cfg x e)))"
    if "prunes_by t x" "(j, s) \<in> set (tm_consumed (live e))" "synced e" "saved e \<noteq> None" for x e
  proof -
    from run_marks [OF that(3,4,1)] obtain now where now: "now \<le> t"
      "marks_after cfg now (tm_consumed (live e)) (tm_consumed (live (tk_run env cfg x e)))" by blast
    from now(1) assms(5) have "now < s + of_int (2 * tg_ttl cfg)" by linarith
    from marks_after_keep [OF now(2) that(2) this] show ?thesis .
  qed
  have store: "saved (tk_run env cfg x e) \<noteq> None" if "saved e \<noteq> None" for x e
    using that token_store.run_saved [of env cfg x e] by simp
  have "(j, s) \<in> set (tm_consumed (live (fold (tk_run env cfg) xs d))) \<and> synced (fold (tk_run env cfg) xs d) \<and>
      saved (fold (tk_run env cfg) xs d) \<noteq> None"
    by (rule fold_invariant [where P = "\<lambda>e. (j, s) \<in> set (tm_consumed (live e)) \<and> synced e \<and> saved e \<noteq> None"])
      (use assms(1-4) step store in \<open>simp_all add: list_all_iff token_store.run_synced del: not_None_eq\<close>)
  then show ?thesis by simp
qed

lemma accepted_bound:
  assumes "fst (validate env cfg rd token tool args tenant b d) = Inr c"
  shows "te_decode env (tg_secret cfg) (rd_decode rd) token = Inr c \<and> tc_tool c = tool \<and>
    tc_arg_hash c = canonical_arg_hash env tool args \<and> (tenant = [] \<or> tc_tenant c = [] \<or> tc_tenant c = tenant)"
  using assms by (auto simp: validate_eq check_claims_def Let_def split: sum.splits if_splits)

lemma accepted_marks:
  assumes "fst (validate env cfg rd token tool args tenant True d) = Inr c" and "tc_one_time c"
  shows "(tc_jti c, rd_stamp rd) \<in> set (tm_consumed (live (snd (validate env cfg rd token tool args tenant True d))))"
proof -
  have put: "(j, v) \<in> set (od_put j v r)" for j v and r :: "(string, rat) odict"
    by (induction r) auto
  from assms show ?thesis
    by (auto simp: validate_eq Let_def mark_live put split: sum.splits if_splits)
qed

lemma marked_rejected:
  assumes "(tc_jti c, s) \<in> set (tm_consumed (live d))" and "rd_consumed rd < s + of_int (2 * tg_ttl cfg)" and "tc_one_time c"
    and "\<And>c'. te_decode env (tg_secret cfg) (rd_decode rd) token = Inr c' \<Longrightarrow> c' = c"
  shows "fst (validate env cfg rd token tool args tenant b d) \<noteq> Inr c'"
proof
  assume acc: "fst (validate env cfg rd token tool args tenant b d) = Inr c'"
  then have c': "c' = c" using accepted_bound [OF acc] assms(4) by simp
  have "(tc_jti c, s) \<in> set (recent cfg (rd_consumed rd) (tm_consumed (live d)))"
    using assms(1,2) by (simp add: recent_def algebra_simps)
  then have "od_get (recent cfg (rd_consumed rd) (tm_consumed (live d))) (tc_jti c) \<noteq> None"
    by (metis fst_conv image_eqI map_of_eq_None_iff)
  with acc c' assms(3) show False
    by (auto simp: validate_eq Let_def sweep_live prune_live check_claims_def split: sum.splits if_splits)
qed

text \<open>C22: With a state store, an accepted token was issued for the tool, the arguments and the tenant of the call.  A
  one-time token that is accepted and consumed is never accepted again, for any call and after any history of
  validations, consumptions, revocations and restarts, if it expires no later than twice the default lifetime after its
  consumption: the library reads it as the same claims, and not after its expiry, and the clock does not run back.\<close>

theorem token_accepted_once:
  assumes same_claims: "\<And>now c'. te_decode env (tg_secret cfg) now token = Inr c' \<Longrightarrow> c' = c \<and> now < of_int (tc_exp c)"
    and accepted: "fst (validate env cfg rd token tool args tenant True d) = Inr c"
    and "synced d" and "saved d \<noteq> None" and "tc_one_time c"
    and lifetime: "of_int (tc_exp c) \<le> rd_stamp rd + of_int (2 * tg_ttl cfg)"
    and clock: "list_all (prunes_by (rd_decode rd')) xs" "rd_consumed rd' \<le> rd_decode rd'"
  shows "tc_tool c = tool \<and> tc_arg_hash c = canonical_arg_hash env tool args \<and>
      (tenant = [] \<or> tc_tenant c = [] \<or> tc_tenant c = tenant) \<and>
    fst (validate env cfg rd' token tool' args' tenant' consume'
      (fold (tk_run env cfg) xs (snd (validate env cfg rd token tool args tenant True d)))) \<noteq> Inr c'"
proof -
  let ?d = "snd (validate env cfg rd token tool args tenant True d)"
  let ?e = "fold (tk_run env cfg) xs ?d"
  have mark: "(tc_jti c, rd_stamp rd) \<in> set (tm_consumed (live ?d))"
    using accepted assms(5) by (rule accepted_marks)
  have run: "?d = tk_run env cfg (TkValidate rd token tool args tenant True) d" by (simp add: tk_run_def)
  then have d: "synced ?d" "saved ?d \<noteq> None"
    using assms(3,4) token_store.run_synced token_store.run_saved by (metis, metis)
  have "fst (validate env cfg rd' token tool' args' tenant' consume' ?e) \<noteq> Inr c'"
  proof
    assume acc: "fst (validate env cfg rd' token tool' args' tenant' consume' ?e) = Inr c'"
    then have "rd_decode rd' < of_int (tc_exp c)" using accepted_bound [OF acc] same_claims by blast
    with lifetime have young: "rd_decode rd' < rd_stamp rd + of_int (2 * tg_ttl cfg)" by linarith
    have "(tc_jti c, rd_stamp rd) \<in> set (tm_consumed (live ?e))"
      using mark d clock(1) young by (rule history_keeps_mark)
    moreover have "rd_consumed rd' < rd_stamp rd + of_int (2 * tg_ttl cfg)" using clock(2) young by linarith
    ultimately have "fst (validate env cfg rd' token tool' args' tenant' consume' ?e) \<noteq> Inr c'"
      using assms(5) by (rule marked_rejected) (use same_claims in blast)
    with acc show False by simp
  qed
  with accepted_bound [OF accepted] show ?thesis by blast
qed
text \<open>An environment whose only token stands for the claims \<open>c\<close>.\<close>

definition demo_token_env :: "claims \<Rightarrow> string token_env" where
  "demo_token_env c = \<lparr>te_encode = (\<lambda>secret claims. ''tok''),
     te_decode = (\<lambda>secret now token. if token \<noteq> ''tok'' then Inl TokenInvalid
       else if of_int (tc_exp c) \<le> now then Inl TokenExpired else Inr c),
     te_dumps = (\<lambda>args. args), te_sha256 = (\<lambda>s. s)\<rparr>"

definition demo_claims :: "int \<Rightarrow> claims" where
  "demo_claims until = \<lparr>tc_typ = ''a33_approval'', tc_sub = ''ann'', tc_jti = ''a1'', tc_tool = ''shell'', tc_op = [],
     tc_arg_hash = ''sha256:shell:ls'', tc_tenant = ''t'', tc_scope = ''tools:execute'', tc_one_time = True,
     tc_exp = until, tc_iat = 1000\<rparr>"

definition demo_token_config :: token_config where
  "demo_token_config = \<lparr>tg_secret = ''k'', tg_ttl = 300, tg_one_time = True\<rparr>"

definition demo_readings :: "rat \<Rightarrow> readings" where
  "demo_readings t = \<lparr>rd_consumed = t, rd_revoked = t, rd_decode = t, rd_stamp = t\<rparr>"

definition demo_tokens :: token_st where
  "demo_tokens = \<lparr>live = blank_tokens, saved = Some blank_tokens\<rparr>"

lemma demo_decode: "te_decode (demo_token_env c) s now token = Inr c' \<Longrightarrow> c' = c \<and> now < of_int (tc_exp c)"
  by (auto simp: demo_token_env_def split: if_splits)

lemma demo_accepted: "fst (validate (demo_token_env (demo_claims 1300)) demo_token_config (demo_readings 1000) ''tok'' ''shell'' ''ls'' ''t''
    True demo_tokens) = Inr (demo_claims 1300)"
  by code_simp

theorem token_accepted_once_witness:
  "fst (validate (demo_token_env (demo_claims 1300)) demo_token_config (demo_readings 1200) ''tok'' ''shell'' ''ls'' ''t'' False
     (fold (tk_run (demo_token_env (demo_claims 1300)) demo_token_config) [TkRestart, TkRevoke 1100 ''a2'', TkConsume 1100 1100 ''a3'']
       (snd (validate (demo_token_env (demo_claims 1300)) demo_token_config (demo_readings 1000) ''tok'' ''shell'' ''ls'' ''t'' True
         demo_tokens)))) \<noteq> Inr (demo_claims 1300)"
  by (rule token_accepted_once [THEN conjunct2, THEN conjunct2, THEN conjunct2, OF demo_decode demo_accepted])
    (simp_all add: demo_tokens_def synced_def demo_claims_def demo_readings_def demo_token_config_def)

section \<open>What the code allows\<close>

text \<open>The route that issues tokens lets the caller choose a lifetime of up to a day, and the marks are pruned after
  twice the default lifetime.  A one-time token of a day is accepted again after ten minutes, and a revoked one too.\<close>

lemma long_token_replayed:
  "fst (validate (demo_token_env (demo_claims 87400)) demo_token_config (demo_readings 1600) ''tok'' ''shell'' ''ls'' ''t'' True
     (snd (validate (demo_token_env (demo_claims 87400)) demo_token_config (demo_readings 1000) ''tok'' ''shell'' ''ls'' ''t'' True
       demo_tokens))) = Inr (demo_claims 87400)"
  by code_simp

lemma revocation_forgotten:
  "fst (validate (demo_token_env (demo_claims 87400)) demo_token_config (demo_readings 1600) ''tok'' ''shell'' ''ls'' ''t'' True
     (tk_run (demo_token_env (demo_claims 87400)) demo_token_config (TkRevoke 1000 ''a1'') demo_tokens)) = Inr (demo_claims 87400)"
  by code_simp


end
