(* ===== verification/Governance_Correct.thy ===== *)
theory Governance_Correct
  imports Governance Approvals_Correct ApprovalTokens_Correct "HOL-Library.Sublist"
begin

text \<open>
  Correctness of tool governance: what a call that passes the check satisfies, and how many calls the sliding
  window lets through.
\<close>

section \<open>Effects on the state\<close>

text \<open>The rate windows are the limiter's own: no other part of the check touches them.\<close>

definition same_windows :: "gov_st \<Rightarrow> gov_st \<Rightarrow> bool" where
  "same_windows s t \<longleftrightarrow> gs_windows t = gs_windows s"

lemma sw_bind: "related same_windows m \<Longrightarrow> (\<And>a. related same_windows (f a)) \<Longrightarrow> related same_windows (sv_bind m f)"
  by (rule related_bind) (auto simp: same_windows_def)

lemma sw_pure: "related same_windows (sv_return a)" "related same_windows (sv_raise e)" "related same_windows sv_get"
    "related same_windows (sv_lift r)"
  by (rule related_pure, simp add: same_windows_def)+

lemma sw_services: "related same_windows (on_approvals m)" "related same_windows (on_tokens n)"
  by (auto simp: related_def same_windows_def on_approvals_def on_tokens_def split: option.split prod.split)

lemma sw_void: "related R m \<Longrightarrow> related R (sv_void m)"
  by (simp add: related_def)

lemmas sw_intros = sw_bind sw_pure sw_services sw_void

lemma sw_use: "related same_windows (try_consume_approval cfg inp params tool operation tenant b)"
  unfolding try_consume_approval_def use_token_def spend_token_def use_approval_id_def consume_token_def
  by (intro sw_intros; auto intro!: sw_intros split: option.split sum.split)+

lemma sw_ask: "related same_windows (ask_operator cfg inp reason risk details params ctx tool operation)"
  unfolding ask_operator_def by (auto intro!: sw_intros)

lemma sw_need: "related same_windows (need_approval cfg inp reason risk details params ctx tool operation)"
  unfolding need_approval_def by (auto intro!: sw_intros sw_use sw_ask)

lemma sw_policy: "related same_windows (policy_stage cfg inp params ctx tool operation)"
  unfolding policy_stage_def Let_def by (auto intro!: sw_intros sw_need)

lemma sw_autonomy: "related same_windows (autonomy_stage cfg inp params ctx level tool operation v)"
  unfolding autonomy_stage_def by (auto intro!: sw_intros sw_need)

text \<open>The rest of the check after the rate limiter.\<close>

definition after_rate ::
  "gov_config \<Rightarrow> call_inputs \<Rightarrow> string \<Rightarrow> call_args \<Rightarrow> tool_context \<Rightarrow> agent_level option \<Rightarrow> bool \<Rightarrow> bool gov_svc" where
  "after_rate cfg inp tool params ctx level validated =
     (let operation = resolve_operation tool params in
      sv_bind (autonomy_stage cfg inp params ctx level tool operation validated) (\<lambda>st2. case st2 of
        Refuse \<Rightarrow> sv_return False
      | GoOn validated \<Rightarrow>
      if \<not> check_permission ''tools:execute'' (tx_scopes ctx) None then sv_return False else
      sv_bind (sv_lift (tool_stage params ctx tool)) (\<lambda>ok. if \<not> ok then sv_return False else
      if \<not> validated then sv_return True
      else try_consume_approval cfg inp params tool operation (tx_tenant ctx) True)))"

lemma pre_eq: "pre_execute_check cfg inp tool params ctx level =
    sv_bind (policy_stage cfg inp params ctx tool (resolve_operation tool params)) (\<lambda>st1. case st1 of
        Refuse \<Rightarrow> sv_return False
      | GoOn v \<Rightarrow> sv_bind (rate_check cfg (ci_monotonic inp) (rate_subject ctx))
          (\<lambda>granted. if \<not> granted then sv_return False else after_rate cfg inp tool params ctx level v))"
  unfolding pre_execute_check_def after_rate_def Let_def ..

lemma sw_after: "related same_windows (after_rate cfg inp tool params ctx level v)"
  unfolding after_rate_def Let_def
  by (intro sw_bind sw_autonomy; auto intro!: sw_intros sw_use split: stage.split)

lemma rate_check_eq: "rate_check cfg now u s = (Inr (fst (limiter_check (gc_per_minute cfg) (gc_burst cfg) now u (gs_windows s))),
    s\<lparr>gs_windows := snd (limiter_check (gc_per_minute cfg) (gc_burst cfg) now u (gs_windows s))\<rparr>)"
  by (simp add: rate_check_def split: prod.split)

text \<open>A call reaches the limiter once or not at all, and is let through only if the limiter grants it.\<close>

lemma pre_windows:
  fixes s :: gov_st and cfg :: gov_config
  defines "l \<equiv> \<lambda>inp ctx. limiter_check (gc_per_minute cfg) (gc_burst cfg) (ci_monotonic inp) (rate_subject ctx) (gs_windows s)"
  shows "gs_windows (snd (pre_execute_check cfg inp tool params ctx level s)) = gs_windows s \<and>
      fst (pre_execute_check cfg inp tool params ctx level s) \<noteq> Inr True \<or>
    gs_windows (snd (pre_execute_check cfg inp tool params ctx level s)) = snd (l inp ctx) \<and>
      (fst (pre_execute_check cfg inp tool params ctx level s) = Inr True \<longrightarrow> fst (l inp ctx))"
proof -
  obtain r s1 where p: "policy_stage cfg inp params ctx tool (resolve_operation tool params) s = (r, s1)" by fastforce
  then have w: "gs_windows s1 = gs_windows s"
    using sw_policy unfolding related_def same_windows_def by (metis snd_conv)
  show ?thesis
  proof (cases r)
    case (Inr st)
    show ?thesis
    proof (cases st)
      case (GoOn v)
      let ?t = "s1\<lparr>gs_windows := snd (l inp ctx)\<rparr>"
      have "gs_windows (snd (after_rate cfg inp tool params ctx level v ?t)) = gs_windows ?t"
        using sw_after unfolding related_def same_windows_def by blast
      with p w Inr GoOn show ?thesis
        by (simp add: pre_eq sv_bind_def rate_check_eq l_def sv_return_def)
    qed (use p w Inr in \<open>simp add: pre_eq sv_bind_def sv_return_def\<close>)
  qed (use p w in \<open>simp add: pre_eq sv_bind_def\<close>)
qed

section \<open>The sliding window\<close>

text \<open>How many times of a log lie in the \<open>w\<close> seconds up to \<open>T\<close>.\<close>

definition in_window :: "rat \<Rightarrow> rat \<Rightarrow> rat list \<Rightarrow> nat" where
  "in_window w T ts = length (filter (\<lambda>t. T - w < t \<and> t \<le> T) ts)"

definition window_bound :: "rat \<Rightarrow> nat \<Rightarrow> rat list \<Rightarrow> bool" where
  "window_bound w n ts \<longleftrightarrow> (\<forall>T. in_window w T ts \<le> n)"

lemma window_bound_empty: "window_bound w n []"
  by (simp add: window_bound_def in_window_def)

lemma length_filter_mono: "(\<And>x. x \<in> set xs \<Longrightarrow> P x \<Longrightarrow> Q x) \<Longrightarrow> length (filter P xs) \<le> length (filter Q xs)"
  by (induction xs) auto

text \<open>One more grant, after all others, when fewer than \<open>n\<close> lie in the window before it.\<close>

lemma window_bound_snoc:
  assumes "window_bound w n ts" and "\<forall>t \<in> set ts. t \<le> now" and "length (filter (\<lambda>t. now - w < t) ts) < n"
  shows "window_bound w n (ts @ [now])"
  unfolding window_bound_def
proof
  fix T
  show "in_window w T (ts @ [now]) \<le> n"
  proof (cases "now \<le> T")
    case True
    have "length (filter (\<lambda>t. T - w < t \<and> t \<le> T) ts) \<le> length (filter (\<lambda>t. now - w < t) ts)"
      by (rule length_filter_mono) (use True in auto)
    with assms(3) show ?thesis by (simp add: in_window_def)
  next
    case False
    with assms(1) show ?thesis by (simp add: in_window_def window_bound_def)
  qed
qed

text \<open>What the limiter keeps of a subject is the part of its log that was recent at the last check.\<close>

definition window_log :: "(string, rat list) odict \<Rightarrow> rat \<Rightarrow> string \<Rightarrow> rat list \<Rightarrow> bool" where
  "window_log windows clock u ts \<longleftrightarrow> (\<forall>t \<in> set ts. t \<le> clock) \<and>
     (\<exists>c \<le> clock. (case od_get windows u of None \<Rightarrow> [] | Some w \<Rightarrow> w) = filter (\<lambda>t. c - 60 < t) ts)"

lemma window_log_later: "window_log windows clock u ts \<Longrightarrow> clock \<le> clock' \<Longrightarrow> window_log windows clock' u ts"
  unfolding window_log_def by (meson order_trans)

lemma filter_recent: "c \<le> (now :: rat) \<Longrightarrow> filter (\<lambda>t. now - 60 < t) (filter (\<lambda>t. c - 60 < t) ts) = filter (\<lambda>t. now - 60 < t) ts"
  by (induction ts) auto

lemma limiter_step:
  fixes v :: string
  assumes "window_log windows clock u ts" and "clock \<le> now"
    and "window_bound 60 n ts" and "window_bound 1 b ts"
  defines "r \<equiv> limiter_check n b now v windows"
  defines "ts' \<equiv> if fst r \<and> v = u then ts @ [now] else ts"
  shows "window_log (snd r) now u ts' \<and> window_bound 60 n ts' \<and> window_bound 1 b ts'"
proof (cases "v = u")
  case False
  then have "od_get (snd r) u = od_get windows u" and ts': "ts' = ts"
    by (auto simp: r_def ts'_def limiter_check_def Let_def od.get_put)
  with assms(1-4) show ?thesis by (auto simp: window_log_def intro: order_trans)
next
  case True
  let ?w = "filter (\<lambda>t. now - 60 < t) ts"
  from assms(1) obtain c where c: "c \<le> clock" "(case od_get windows u of None \<Rightarrow> [] | Some w \<Rightarrow> w) = filter (\<lambda>t. c - 60 < t) ts"
    unfolding window_log_def by blast
  from assms(1,2) have old: "\<forall>t \<in> set ts. t \<le> now" unfolding window_log_def by (meson order_trans)
  have w: "filter (\<lambda>t. now - 60 < t) (case od_get windows u of None \<Rightarrow> [] | Some w \<Rightarrow> w) = ?w"
    using filter_recent [of _ now ts] c(1) assms(2) unfolding c(2) by (metis order_trans)
  have r: "r = (if n \<le> length ?w then (False, od_put u ?w windows)
      else if b \<le> length (filter (\<lambda>t. now - 1 < t) ?w) then (False, od_put u ?w windows)
      else (True, od_put u (?w @ [now]) (od_put u ?w windows)))"
    unfolding r_def limiter_check_def Let_def True w ..
  have burst: "filter (\<lambda>t. now - 60 < t \<and> now - 1 < t) ts = filter (\<lambda>t. now - 1 < t) ts"
    by (rule filter_cong) auto
  show ?thesis
  proof (cases "fst r")
    case granted: True
    then have "length ?w < n" "length (filter (\<lambda>t. now - 1 < t) ts) < b"
      by (auto simp: r burst split: if_splits)
    with old assms(3,4) have "window_bound 60 n (ts @ [now])" "window_bound 1 b (ts @ [now])"
      by (auto intro: window_bound_snoc)
    moreover from granted have "snd r = od_put u (?w @ [now]) (od_put u ?w windows)"
      by (auto simp: r split: if_splits)
    then have "window_log (snd r) now u (ts @ [now])"
      using old by (auto simp: window_log_def od.get_put intro!: exI [of _ now])
    ultimately show ?thesis using granted True by (simp add: ts'_def)
  next
    case False
    then have "snd r = od_put u ?w windows" by (auto simp: r split: if_splits)
    then have "window_log (snd r) now u ts"
      using old by (auto simp: window_log_def od.get_put intro!: exI [of _ now])
    with False assms(3,4) show ?thesis by (simp add: ts'_def)
  qed
qed
section \<open>Histories\<close>

text \<open>The services are shared: what their own operations do to them between two checks is \<open>GvService\<close> and
  \<open>GvManager\<close>.\<close>

datatype gv_op =
    GvCall call_inputs string call_args tool_context "agent_level option"
  | GvLoad tools_file
  | GvService "approval_st option"
  | GvManager "token_st option"

fun gv_run :: "gov_config \<Rightarrow> gv_op \<Rightarrow> gov_st \<Rightarrow> gov_st" where
  "gv_run cfg (GvCall inp tool params ctx level) s = snd (pre_execute_check cfg inp tool params ctx level s)"
| "gv_run cfg (GvLoad file) s = snd (load_approved_tools_file file s)"
| "gv_run cfg (GvService a) s = snd (set_approval_service a s)"
| "gv_run cfg (GvManager t) s = snd (set_approval_token_manager t s)"

text \<open>The readings of the clock, and the times of the calls of a subject that passed.\<close>

fun gv_times :: "gv_op list \<Rightarrow> rat list" where
  "gv_times (GvCall inp tool params ctx level # xs) = ci_monotonic inp # gv_times xs"
| "gv_times (x # xs) = gv_times xs"
| "gv_times [] = []"

fun passed_times :: "gov_config \<Rightarrow> string \<Rightarrow> gv_op list \<Rightarrow> gov_st \<Rightarrow> rat list" where
  "passed_times cfg u (GvCall inp tool params ctx level # xs) s =
     (if rate_subject ctx = u \<and> fst (pre_execute_check cfg inp tool params ctx level s) = Inr True then [ci_monotonic inp] else []) @
     passed_times cfg u xs (gv_run cfg (GvCall inp tool params ctx level) s)"
| "passed_times cfg u (x # xs) s = passed_times cfg u xs (gv_run cfg x s)"
| "passed_times cfg u [] s = []"

lemma other_windows: "gs_windows (gv_run cfg (GvLoad f) s) = gs_windows s" "gs_windows (gv_run cfg (GvService a) s) = gs_windows s"
    "gs_windows (gv_run cfg (GvManager t) s) = gs_windows s"
  by (simp_all add: load_approved_tools_file_def set_approval_service_def set_approval_token_manager_def svc_simps
      split: tools_file.split)

text \<open>The limiter's log extends what has passed: each passed call adds its time, and others may.\<close>

lemma passed_in_log:
  assumes "window_log (gs_windows s) clock u ts" and "window_bound 60 (gc_per_minute cfg) ts" and "window_bound 1 (gc_burst cfg) ts"
    and "sorted (clock # gv_times xs)" and "subseq ps ts"
  shows "\<exists>ts'. subseq (ps @ passed_times cfg u xs s) ts' \<and> window_bound 60 (gc_per_minute cfg) ts' \<and> window_bound 1 (gc_burst cfg) ts'"
  using assms
proof (induction cfg u xs s arbitrary: ts ps clock rule: passed_times.induct)
  case (1 cfg u inp tool params ctx level xs s)
  let ?now = "ci_monotonic inp" and ?t = "gv_run cfg (GvCall inp tool params ctx level) s"
  let ?r = "limiter_check (gc_per_minute cfg) (gc_burst cfg) ?now (rate_subject ctx) (gs_windows s)"
  let ?ts = "if fst ?r \<and> rate_subject ctx = u then ts @ [?now] else ts"
  let ?one = "if rate_subject ctx = u \<and> fst (pre_execute_check cfg inp tool params ctx level s) = Inr True then [?now] else []"
  have now: "clock \<le> ?now" and rest: "sorted (?now # gv_times xs)" using 1(5) by auto
  note step = limiter_step [OF 1(2) now 1(3,4), of "rate_subject ctx"]
  have "\<exists>us. subseq (ps @ ?one) us \<and> window_log (gs_windows ?t) ?now u us \<and>
      window_bound 60 (gc_per_minute cfg) us \<and> window_bound 1 (gc_burst cfg) us"
    using pre_windows [of cfg inp tool params ctx level s]
  proof
    assume "gs_windows (snd (pre_execute_check cfg inp tool params ctx level s)) = gs_windows s \<and>
      fst (pre_execute_check cfg inp tool params ctx level s) \<noteq> Inr True"
    with 1(2-4,6) now show ?thesis by (auto intro: window_log_later)
  next
    assume reached: "gs_windows (snd (pre_execute_check cfg inp tool params ctx level s)) = snd ?r \<and>
      (fst (pre_execute_check cfg inp tool params ctx level s) = Inr True \<longrightarrow> fst ?r)"
    have "subseq (ps @ ?one) ?ts"
      using reached 1(6) by (auto intro: list_emb_append_mono subseq_rev_drop_many)
    with step reached show ?thesis by (intro exI [of _ ?ts]) simp
  qed
  then obtain us where "subseq (ps @ ?one) us" "window_log (gs_windows ?t) ?now u us"
    "window_bound 60 (gc_per_minute cfg) us" "window_bound 1 (gc_burst cfg) us" by blast
  with 1(1) [OF this(2-4) rest this(1)] show ?case by simp
qed (use other_windows in auto)
lemma subseq_window: "subseq xs ys \<Longrightarrow> window_bound w n ys \<Longrightarrow> in_window w T xs \<le> n"
  unfolding in_window_def window_bound_def by (meson list_emb_length order_trans subseq_filter)

text \<open>C20: Over any history of a new governance service, whatever happens to its approvals and tokens in between, at most
  the configured number of calls per minute passes for one subject in any 60 seconds, and at most the burst number in any
  second, if the clock does not run back.\<close>

theorem passed_calls_bounded:
  assumes "sorted (gv_times xs)" and "gs_windows s = []"
  shows "in_window 60 T (passed_times cfg u xs s) \<le> gc_per_minute cfg \<and>
    in_window 1 T (passed_times cfg u xs s) \<le> gc_burst cfg"
proof -
  obtain clock where clock: "sorted (clock # gv_times xs)"
    using assms(1) by (cases "gv_times xs") (auto intro: that [of "hd (gv_times xs)"])
  have "window_log (gs_windows s) clock u []"
    using assms(2) by (auto simp: window_log_def)
  from passed_in_log [OF this window_bound_empty window_bound_empty clock, of "[]"]
  show ?thesis by (auto intro: subseq_window)
qed

definition demo_context :: tool_context where
  "demo_context = \<lparr>tx_scopes = [''tools:execute''], tx_commands = [''ls''], tx_paths = [], tx_domains = [], tx_policies = [],
     tx_requested_by = ''bot'', tx_tenant = ''t''\<rparr>"

definition demo_inputs :: "rat \<Rightarrow> call_inputs" where
  "demo_inputs t = \<lparr>ci_monotonic = t, ci_check = 10, ci_check_token = demo_readings t, ci_request = 10, ci_new_id = ''n'',
     ci_consume = 11, ci_consume_token = demo_readings t, ci_mark_now = t, ci_mark_stamp = t\<rparr>"

definition demo_gov_config :: gov_config where
  "demo_gov_config = \<lparr>gc_per_minute = 2, gc_burst = 1, gc_approval_ttl = service_ttl 60,
     gc_token_env = \<lparr>te_encode = (\<lambda>s c. []), te_decode = (\<lambda>s t k. Inl TokenInvalid), te_dumps = (\<lambda>a. []), te_sha256 = (\<lambda>s. s)\<rparr>,
     gc_tokens = demo_token_config\<rparr>"

definition demo_governance :: gov_st where
  "demo_governance = \<lparr>gs_windows = [], gs_approvals = Some demo_granted, gs_tokens = None, gs_approved = []\<rparr>"

definition demo_calls :: "gv_op list" where
  "demo_calls = List.map (\<lambda>t. GvCall (demo_inputs t) ''shell'' [(''command'', ArgStr ''ls -l'')] demo_context None) [0, 1/2, 2, 3, 60]"

lemma demo_passed: "passed_times demo_gov_config ''tools:execute'' demo_calls demo_governance = [0, 2, 60]"
  by code_simp

theorem passed_calls_bounded_witness:
  "in_window 60 5 [0, 2, 60] \<le> 2 \<and> in_window 1 2 [0, 2, 60] \<le> 1"
  using passed_calls_bounded [of demo_calls demo_governance 5 demo_gov_config "''tools:execute''"]
    passed_calls_bounded [of demo_calls demo_governance 2 demo_gov_config "''tools:execute''"]
  unfolding demo_passed by (simp add: demo_calls_def demo_inputs_def demo_governance_def demo_gov_config_def)
section \<open>Approvals behind a passed call\<close>

text \<open>Until an approval is consumed, a check invents none: an approved request it leaves was there before.\<close>

definition calm :: "gov_st \<Rightarrow> gov_st \<Rightarrow> bool" where
  "calm s t \<longleftrightarrow> gs_approved t = gs_approved s \<and> (gs_approvals t = None \<longleftrightarrow> gs_approvals s = None) \<and>
     (\<forall>b i r. gs_approvals t = Some b \<longrightarrow> approval_at b i = Some r \<longrightarrow> ap_status r = AP_Approved \<longrightarrow>
       (\<exists>a. gs_approvals s = Some a \<and> approval_at a i = Some r))"

lemma calm_refl: "calm s s"
  by (simp add: calm_def)

lemma calm_trans: "calm s t \<Longrightarrow> calm t u \<Longrightarrow> calm s u"
  unfolding calm_def by metis

lemma calm_same: "gs_approvals t = gs_approvals s \<Longrightarrow> gs_approved t = gs_approved s \<Longrightarrow> calm s t"
  by (simp add: calm_def)

lemma calm_bind: "related calm m \<Longrightarrow> (\<And>a. related calm (f a)) \<Longrightarrow> related calm (sv_bind m f)"
  by (rule related_bind) (auto intro: calm_trans)

lemma calm_pure: "related calm (sv_return a)" "related calm (sv_raise e)" "related calm sv_get" "related calm (sv_lift r)"
  by (rule related_pure, rule calm_refl)+

lemma calm_tokens: "related calm (on_tokens m)"
  by (auto simp: related_def on_tokens_def intro!: calm_same split: option.split prod.split)

lemma calm_rate: "related calm (rate_check cfg now u)"
  by (simp add: related_def rate_check_eq calm_same)

lemma snd_on_approvals: "snd (on_approvals m s) = (case gs_approvals s of None \<Rightarrow> s | Some a \<Rightarrow> s\<lparr>gs_approvals := Some (snd (m a))\<rparr>)"
  by (simp add: on_approvals_def split: option.split prod.split)

lemma swept_approved: "approval_at (swept now a) j = Some r \<Longrightarrow> ap_status r = AP_Approved \<Longrightarrow> approval_at a j = Some r"
  by (auto simp: swept_at expire_one_def split: if_splits)

lemma calm_query: "related calm (on_approvals (is_approved now i tool operation tenant))"
  unfolding related_def
proof
  fix s
  show "calm s (snd (on_approvals (is_approved now i tool operation tenant) s))"
  proof (cases "gs_approvals s")
    case (Some a)
    then show ?thesis by (simp add: snd_on_approvals query_eq calm_def) (metis swept_approved)
  qed (simp add: snd_on_approvals calm_refl)
qed

lemma calm_check: "related calm (try_consume_approval cfg inp params tool operation tenant False)"
  unfolding try_consume_approval_def use_token_def spend_token_def use_approval_id_def
  by (intro calm_bind calm_pure; auto intro!: calm_bind calm_pure calm_tokens calm_query split: option.split sum.split)+

lemma need_calm: "need_approval cfg inp reason risk details params ctx tool operation s = (Inr (GoOn v), t) \<Longrightarrow> calm s t \<and> v"
  using calm_check unfolding need_approval_def related_def
  by (auto simp: sv_bind_ok_iff sv_return_def split: if_splits) (metis snd_conv)

lemma policy_calm:
  assumes "policy_stage cfg inp params ctx tool operation s = (Inr (GoOn v), t)"
  shows "calm s t \<and> check_tool_policy tool params (tx_policies ctx) \<noteq> Some ''deny'' \<and>
    (check_tool_policy tool params (tx_policies ctx) = Some ''ask'' \<and> tool \<notin> set (gs_approved s) \<longrightarrow> v)"
proof (cases "tx_policies ctx = []")
  case True
  moreover have "check_tool_policy tool params [] = None"
    by (simp add: check_tool_policy_def first_of_def exact_policy_def operation_patterns_def tool_patterns_def od_keys_def sort_desc_def Let_def)
  ultimately show ?thesis using assms by (simp add: policy_stage_def sv_return_def calm_refl)
next
  case False
  let ?p = "check_tool_policy tool params (tx_policies ctx)"
  consider "?p = Some ''deny''" | "?p = Some ''ask''" "tool \<in> set (gs_approved s)" | "?p = Some ''ask''" "tool \<notin> set (gs_approved s)"
    | "?p \<noteq> Some ''deny''" "?p \<noteq> Some ''ask''" by blast
  then show ?thesis
  proof cases
    case 3
    with False assms have "need_approval cfg inp AR_PolicyAsk RK_Medium ''Tool policy requires operator approval.'' params ctx
        tool operation s = (Inr (GoOn v), t)" by (simp add: policy_stage_def Let_def sv_bind_def sv_get_def)
    from need_calm [OF this] 3 show ?thesis by simp
  qed (use False assms in \<open>simp_all add: policy_stage_def Let_def sv_bind_def sv_get_def sv_return_def calm_refl\<close>)
qed

lemma autonomy_calm:
  assumes "autonomy_stage cfg inp params ctx level tool operation v s = (Inr (GoOn v'), t)"
  shows "calm s t \<and> \<not> (level = Some AL_ReadOnly \<and> is_write_operation tool operation) \<and>
    (v \<or> level = Some AL_Supervised \<and> destructive tool operation \<longrightarrow> v')"
  using assms need_calm [of cfg inp AR_Supervised RK_High "''Supervised autonomy requires operator approval.''" params ctx tool operation s v' t]
  by (auto simp: autonomy_stage_def sv_return_def calm_refl split: if_splits)

text \<open>What stands behind a call that needed an approval: with an approval service, a request that an operator had approved
  for it and that is consumed now; with a token manager only, a token for its tool and arguments.\<close>

definition authorised :: "gov_config \<Rightarrow> call_args \<Rightarrow> string \<Rightarrow> string \<Rightarrow> string \<Rightarrow> gov_st \<Rightarrow> gov_st \<Rightarrow> bool" where
  "authorised cfg params tool operation tenant s s' = (case gs_approvals s of
      Some a \<Rightarrow> (\<exists>i r b. approval_at a i = Some r \<and> approval_covers r tool operation tenant \<and>
        gs_approvals s' = Some b \<and> approval_state b i = Some AP_Consumed)
    | None \<Rightarrow> (\<exists>token now c. text_param params ''__approval_token'' = Some token \<and>
        te_decode (gc_token_env cfg) (tg_secret (gc_tokens cfg)) now token = Inr c \<and> tc_tool c = tool \<and>
        tc_arg_hash c = canonical_arg_hash (gc_token_env cfg) tool (sanitize_approval_arguments params)))"

lemma on_tokens_ok: "on_tokens m s = (Inr r, s') \<longleftrightarrow>
    (\<exists>t. gs_tokens s = Some t \<and> r = fst (m t) \<and> s' = s\<lparr>gs_tokens := Some (snd (m t))\<rparr>)"
  by (auto simp: on_tokens_def split: option.splits prod.splits)

lemma on_approvals_ok: "on_approvals m s = (Inr r, s') \<longleftrightarrow>
    (\<exists>a. gs_approvals s = Some a \<and> fst (m a) = Inr r \<and> s' = s\<lparr>gs_approvals := Some (snd (m a))\<rparr>)"
  by (auto simp: on_approvals_def split: option.splits prod.splits sum.splits)

lemma consumed_authorised:
  assumes "on_approvals (consume_if_approved now i tool operation tenant) s = (Inr True, s1)" and "gs_approvals s' = gs_approvals s1"
    and "gs_approvals s = gs_approvals s0"
  shows "authorised cfg params tool operation tenant s0 s'"
proof -
  from assms(1) obtain a where a: "gs_approvals s = Some a" "fst (consume_if_approved now i tool operation tenant a) = Inr True"
    and s1: "s1 = s\<lparr>gs_approvals := Some (snd (consume_if_approved now i tool operation tenant a))\<rparr>"
    by (auto simp: on_approvals_ok)
  from a(2) obtain r where r: "approval_at a i = Some r" "approval_covers r tool operation tenant"
    "snd (consume_if_approved now i tool operation tenant a) = put_approval i (consumed r) (swept now a)"
    by (rule consume_needs_approved)
  have "approval_state (put_approval i (consumed r) (swept now a)) i = Some AP_Consumed"
    by (simp add: approval_state_def put_at consumed_def Let_def)
  with a(1) r s1 assms(2,3) show ?thesis unfolding authorised_def by (auto simp: r(3))
qed
lemma use_id_authorised:
  "use_approval_id inp params tool operation tenant True s = (Inr True, s') \<Longrightarrow> authorised cfg params tool operation tenant s s'"
  unfolding use_approval_id_def
  by (auto simp: sv_bind_ok_iff sv_get_def sv_return_def intro: consumed_authorised split: if_splits option.splits)

lemma consume_token_ok: "consume_token cfg inp j s = (Inr b, s') \<Longrightarrow> gs_approvals s' = gs_approvals s"
  by (auto simp: consume_token_def sv_bind_ok_iff on_tokens_ok sv_return_def)

lemma spend_token_authorised:
  assumes "spend_token cfg inp tool operation tenant True c s = (Inr True, s')" and "gs_approvals s = Some a"
  shows "authorised cfg params tool operation tenant s s'"
proof -
  from assms obtain ok s2 where s2: "on_approvals (consume_if_approved (ci_consume inp) (tc_jti c) tool operation tenant) s = (Inr ok, s2)"
    and last: "(if \<not> ok then sv_return False else if \<not> tc_one_time c then sv_return True else consume_token cfg inp (tc_jti c)) s2
      = (Inr True, s')"
    by (auto simp: spend_token_def sv_bind_ok_iff sv_get_def)
  from last have "ok" "gs_approvals s' = gs_approvals s2"
    by (auto simp: sv_return_def dest: consume_token_ok split: if_splits)
  with s2 show ?thesis by (auto intro: consumed_authorised)
qed

lemma use_token_authorised:
  assumes "use_token cfg inp token params tool operation tenant True s = (Inr True, s')"
    and token: "text_param params ''__approval_token'' = Some token"
  shows "authorised cfg params tool operation tenant s s'"
proof -
  let ?m = "validate (gc_token_env cfg) (gc_tokens cfg) (ci_consume_token inp) token tool (sanitize_approval_arguments params) tenant False"
  from assms(1) obtain r s1 where v: "on_tokens ?m s = (Inr r, s1)"
    and rest: "(case r of Inl _ \<Rightarrow> sv_return False | Inr c \<Rightarrow> spend_token cfg inp tool operation tenant True c) s1 = (Inr True, s')"
    by (auto simp: use_token_def sv_bind_ok_iff)
  from v obtain t where t: "r = fst (?m t)" "gs_approvals s1 = gs_approvals s" by (auto simp: on_tokens_ok)
  from rest obtain c where c: "r = Inr c" "spend_token cfg inp tool operation tenant True c s1 = (Inr True, s')"
    by (cases r) (auto simp: sv_return_def)
  with t(1) have "te_decode (gc_token_env cfg) (tg_secret (gc_tokens cfg)) (rd_decode (ci_consume_token inp)) token = Inr c \<and>
      tc_tool c = tool \<and> tc_arg_hash c = canonical_arg_hash (gc_token_env cfg) tool (sanitize_approval_arguments params)"
    using accepted_bound by metis
  with token have none: "gs_approvals s = None \<Longrightarrow> ?thesis" unfolding authorised_def by auto
  have "authorised cfg params tool operation tenant s1 s'" if "gs_approvals s1 = Some a" for a
    using c(2) that by (rule spend_token_authorised)
  with t(2) have "gs_approvals s = Some a \<Longrightarrow> ?thesis" for a by (simp add: authorised_def)
  with none show ?thesis by (cases "gs_approvals s") auto
qed

lemma used_authorised:
  "try_consume_approval cfg inp params tool operation tenant True s = (Inr True, s') \<Longrightarrow> authorised cfg params tool operation tenant s s'"
  unfolding try_consume_approval_def
  by (auto simp: sv_bind_ok_iff sv_get_def intro: use_id_authorised use_token_authorised split: option.splits if_splits)

lemma authorised_earlier:
  assumes "authorised cfg params tool operation tenant t s'" and "calm s t"
  shows "authorised cfg params tool operation tenant s s'"
proof (cases "gs_approvals t")
  case None
  with assms show ?thesis by (simp add: authorised_def calm_def)
next
  case (Some b)
  with assms(1) obtain i r b' where r: "approval_at b i = Some r" "approval_covers r tool operation tenant"
    "gs_approvals s' = Some b'" "approval_state b' i = Some AP_Consumed" by (auto simp: authorised_def)
  moreover from r(2) have "ap_status r = AP_Approved" by (simp add: approval_covers_def)
  ultimately obtain a where "gs_approvals s = Some a" "approval_at a i = Some r"
    using assms(2) Some unfolding calm_def by blast
  with r show ?thesis by (auto simp: authorised_def)
qed

lemma after_rate_ok:
  assumes "after_rate cfg inp tool params ctx level v t = (Inr True, s')"
  obtains v' u where "autonomy_stage cfg inp params ctx level tool (resolve_operation tool params) v t = (Inr (GoOn v'), u)"
    "check_permission ''tools:execute'' (tx_scopes ctx) None" "tool_stage params ctx tool = Inr True"
    "v' \<longrightarrow> authorised cfg params tool (resolve_operation tool params) (tx_tenant ctx) u s'"
proof -
  let ?op = "resolve_operation tool params"
  from assms obtain st u where a: "autonomy_stage cfg inp params ctx level tool ?op v t = (Inr st, u)"
    and rest: "(case st of Refuse \<Rightarrow> sv_return False | GoOn validated \<Rightarrow>
      if \<not> check_permission ''tools:execute'' (tx_scopes ctx) None then sv_return False else
      sv_bind (sv_lift (tool_stage params ctx tool)) (\<lambda>ok. if \<not> ok then sv_return False else
      if \<not> validated then sv_return True
      else try_consume_approval cfg inp params tool ?op (tx_tenant ctx) True)) u = (Inr True, s')"
    unfolding after_rate_def Let_def by (rule sv_bind_ok_iff [THEN iffD1, THEN exE]) blast
  from rest obtain v' where st: "st = GoOn v'" by (cases st) (simp_all add: sv_return_def)
  with rest have ok: "check_permission ''tools:execute'' (tx_scopes ctx) None" "tool_stage params ctx tool = Inr True"
    and last: "v' \<Longrightarrow> try_consume_approval cfg inp params tool ?op (tx_tenant ctx) True u = (Inr True, s')"
    by (auto simp: sv_bind_ok_iff sv_return_def sv_lift_def split: if_splits)
  from last have "v' \<longrightarrow> authorised cfg params tool ?op (tx_tenant ctx) u s'" by (blast intro: used_authorised)
  with a [unfolded st] ok show ?thesis by (rule that)
qed

lemma pre_execute_ok:
  assumes "pre_execute_check cfg inp tool params ctx level s = (Inr True, s')"
  obtains v s1 s2 where "policy_stage cfg inp params ctx tool (resolve_operation tool params) s = (Inr (GoOn v), s1)"
    "rate_check cfg (ci_monotonic inp) (rate_subject ctx) s1 = (Inr True, s2)"
    "after_rate cfg inp tool params ctx level v s2 = (Inr True, s')"
proof -
  from assms obtain st s1 where p: "policy_stage cfg inp params ctx tool (resolve_operation tool params) s = (Inr st, s1)"
    and rest: "(case st of Refuse \<Rightarrow> sv_return False
      | GoOn v \<Rightarrow> sv_bind (rate_check cfg (ci_monotonic inp) (rate_subject ctx))
          (\<lambda>granted. if \<not> granted then sv_return False else after_rate cfg inp tool params ctx level v)) s1 = (Inr True, s')"
    unfolding pre_eq by (rule sv_bind_ok_iff [THEN iffD1, THEN exE]) blast
  from rest obtain v where st: "st = GoOn v" by (cases st) (simp_all add: sv_return_def)
  with rest obtain g s2 where g: "rate_check cfg (ci_monotonic inp) (rate_subject ctx) s1 = (Inr g, s2)"
    "(if \<not> g then sv_return False else after_rate cfg inp tool params ctx level v) s2 = (Inr True, s')"
    by (auto simp: sv_bind_ok_iff)
  from p st g show ?thesis by (cases g) (auto intro: that simp: sv_return_def)
qed

lemma passed_call:
  assumes "pre_execute_check cfg inp tool params ctx level s = (Inr True, s')"
  defines "operation \<equiv> resolve_operation tool params"
  shows "check_tool_policy tool params (tx_policies ctx) \<noteq> Some ''deny'' \<and> check_permission ''tools:execute'' (tx_scopes ctx) None \<and>
    \<not> (level = Some AL_ReadOnly \<and> is_write_operation tool operation) \<and> tool_stage params ctx tool = Inr True \<and>
    (check_tool_policy tool params (tx_policies ctx) = Some ''ask'' \<and> tool \<notin> set (gs_approved s) \<or>
      level = Some AL_Supervised \<and> destructive tool operation \<longrightarrow> authorised cfg params tool operation (tx_tenant ctx) s s')"
proof -
  from assms(1) obtain v s1 s2 where p: "policy_stage cfg inp params ctx tool operation s = (Inr (GoOn v), s1)"
    and r: "rate_check cfg (ci_monotonic inp) (rate_subject ctx) s1 = (Inr True, s2)"
    and rest: "after_rate cfg inp tool params ctx level v s2 = (Inr True, s')"
    unfolding operation_def by (rule pre_execute_ok)
  from rest obtain v' s3 where a: "autonomy_stage cfg inp params ctx level tool operation v s2 = (Inr (GoOn v'), s3)"
    and ok: "check_permission ''tools:execute'' (tx_scopes ctx) None" "tool_stage params ctx tool = Inr True"
    and used: "v' \<longrightarrow> authorised cfg params tool operation (tx_tenant ctx) s3 s'"
    unfolding operation_def by (rule after_rate_ok)
  have "calm s1 s2" using r calm_rate unfolding related_def by (metis snd_conv)
  with policy_calm [OF p] autonomy_calm [OF a] have "calm s s3" by (blast intro: calm_trans)
  with policy_calm [OF p] autonomy_calm [OF a] ok used show ?thesis by (blast intro: authorised_earlier)
qed
section \<open>What a passed call satisfies\<close>

lemma chain_split_nonempty [simp]: "chain_split s \<noteq> []"
  by (induction s) (auto split: list.split)

text \<open>The segments hold no chain operator, and the command is the segments with one operator between each two.\<close>

lemma chain_split_parts: "seg \<in> set (chain_split s) \<Longrightarrow> \<not> list_ex chain_char seg"
proof (induction s arbitrary: seg)
  case (Cons d ds)
  then show ?case by (cases "chain_split ds") (auto split: if_splits)
qed simp

lemma chain_split_concat: "List.concat (chain_split s) = filter (\<lambda>c. \<not> chain_char c) s"
proof (induction s)
  case (Cons d ds)
  then show ?case by (cases "chain_split ds") auto
qed simp

lemma shell_passed:
  assumes "validate_command (ArgStr c) ctx = Inr True" and "c \<noteq> []"
  shows "\<not> (\<exists>us vs. c = us @ ''$('' @ vs) \<and> CHR 0x60 \<notin> set c \<and>
    (tx_commands ctx = [] \<or> (\<forall>seg \<in> set (chain_split c). \<forall>w ws. py_words (py_strip seg) = w # ws \<longrightarrow> w \<in> set (tx_commands ctx)))"
  using assms by (auto simp: validate_command_def has_subshell_def py_contains_iff list_all_iff segment_ok_def split: if_splits)

lemma path_passed: "path_allowed p ctx = Inr True \<Longrightarrow> tx_paths ctx \<noteq> [] \<Longrightarrow>
    \<exists>t a rest. p = ArgStr t \<and> a \<in> set (tx_paths ctx) \<and> t = a @ rest"
proof -
  assume ok: "path_allowed p ctx = Inr True" "tx_paths ctx \<noteq> []"
  then obtain t where t: "p = ArgStr t" by (cases p) (auto simp: path_allowed_def)
  with ok obtain a where "a \<in> set (tx_paths ctx)" "take (length a) t = a"
    by (auto simp: path_allowed_def list_ex_iff py_startswith_def)
  with t show ?thesis by (metis append_take_drop_id)
qed

lemma domain_passed: "domain_allowed u ctx = Inr True \<Longrightarrow> tx_domains ctx \<noteq> [] \<Longrightarrow>
    \<exists>h. arg_hostname u = Inr h \<and> domain_matches h (tx_domains ctx)"
  by (auto simp: domain_allowed_def split: sum.splits)

text \<open>C19: A call that passes the check is not denied by policy and has the scope; it writes nothing at the read-only level; a
  shell command has no subshell and starts every segment with an allowed executable, a file path begins with an allowed
  prefix, a fetched host is or lies below an allowed domain; and where the policy asks or a supervised call is destructive,
  an operator's approval for it is consumed now (or, without an approval service, its token is bound to it).\<close>

theorem passed_call_is_governed:
  assumes "pre_execute_check cfg inp tool params ctx level s = (Inr True, s')"
  shows "check_tool_policy tool params (tx_policies ctx) \<noteq> Some ''deny'' \<and>
    (\<exists>p \<in> set (tx_scopes ctx). fnmatch ''tools:execute'' p \<or> fnmatch ''admin'' p) \<and>
    (level = Some AL_ReadOnly \<longrightarrow> \<not> is_write_operation tool (resolve_operation tool params)) \<and>
    (\<forall>c. tool = ''shell'' \<and> arg_get params ''command'' = ArgStr c \<and> c \<noteq> [] \<longrightarrow>
      \<not> (\<exists>us vs. c = us @ ''$('' @ vs) \<and> CHR 0x60 \<notin> set c \<and>
      (tx_commands ctx = [] \<or> (\<forall>seg \<in> set (chain_split c). \<forall>w ws. py_words (py_strip seg) = w # ws \<longrightarrow> w \<in> set (tx_commands ctx)))) \<and>
    (tool = ''file_ops'' \<and> tx_paths ctx \<noteq> [] \<longrightarrow>
      (\<exists>t a rest. arg_get params ''path'' = ArgStr t \<and> a \<in> set (tx_paths ctx) \<and> t = a @ rest)) \<and>
    (tool = ''web_fetch'' \<and> tx_domains ctx \<noteq> [] \<longrightarrow>
      (\<exists>h. arg_hostname (arg_get params ''url'') = Inr h \<and> domain_matches h (tx_domains ctx))) \<and>
    (check_tool_policy tool params (tx_policies ctx) = Some ''ask'' \<and> tool \<notin> set (gs_approved s) \<or>
      level = Some AL_Supervised \<and> destructive tool (resolve_operation tool params) \<longrightarrow>
      authorised cfg params tool (resolve_operation tool params) (tx_tenant ctx) s s')"
proof -
  note ok = passed_call [OF assms]
  have scope: "\<exists>p \<in> set (tx_scopes ctx). fnmatch ''tools:execute'' p \<or> fnmatch ''admin'' p"
    using ok allowed_needs_scope unfolding fnmatch_def glob_match_iff by blast
  from ok have stage: "tool_stage params ctx tool = Inr True" by blast
  have shell: "validate_command (arg_get params ''command'') ctx = Inr True" if "tool = ''shell''"
    using stage that by (simp add: tool_stage_def)
  have path: "\<exists>t a rest. arg_get params ''path'' = ArgStr t \<and> a \<in> set (tx_paths ctx) \<and> t = a @ rest"
    if "tool = ''file_ops''" "tx_paths ctx \<noteq> []"
    by (rule path_passed) (use stage that in \<open>simp_all add: tool_stage_def\<close>)
  have web: "\<exists>h. arg_hostname (arg_get params ''url'') = Inr h \<and> domain_matches h (tx_domains ctx)"
    if "tool = ''web_fetch''" "tx_domains ctx \<noteq> []"
    by (rule domain_passed) (use stage that in \<open>simp_all add: tool_stage_def\<close>)
  show ?thesis
  proof (intro conjI allI impI, goal_cases)
    case 4
    then show ?case using shell shell_passed by metis
  next
    case 5
    then show ?case using shell shell_passed by metis
  next
    case 6
    then show ?case using shell shell_passed by metis
  qed (use ok scope path web in blast)+
qed

definition ask_context :: tool_context where
  "ask_context = demo_context\<lparr>tx_policies := [(''shell'', ''Ask'')]\<rparr>"

definition demo_params :: call_args where
  "demo_params = [(''command'', ArgStr ''ls -l | ls''), (''__approval_id'', ArgStr ''a1'')]"

lemma demo_allowed: "pre_execute_check demo_gov_config (demo_inputs 5) ''shell'' demo_params ask_context (Some AL_Supervised)
    demo_governance = (Inr True, snd (pre_execute_check demo_gov_config (demo_inputs 5) ''shell'' demo_params ask_context
      (Some AL_Supervised) demo_governance))"
proof -
  have "fst (pre_execute_check demo_gov_config (demo_inputs 5) ''shell'' demo_params ask_context (Some AL_Supervised)
    demo_governance) = Inr True" by code_simp
  then show ?thesis by (metis prod.collapse)
qed

lemma demo_asks: "check_tool_policy ''shell'' demo_params (tx_policies ask_context) = Some ''ask''"
  by code_simp

theorem passed_call_is_governed_witness:
  "authorised demo_gov_config demo_params ''shell'' [] ''t'' demo_governance
     (snd (pre_execute_check demo_gov_config (demo_inputs 5) ''shell'' demo_params ask_context (Some AL_Supervised) demo_governance))"
proof -
  have "resolve_operation ''shell'' demo_params = []" "tx_tenant ask_context = ''t''" "gs_approved demo_governance = []"
    by (code_simp, code_simp, code_simp)
  with passed_call_is_governed [OF demo_allowed] demo_asks show ?thesis by simp
qed
section \<open>What the code allows\<close>

definition verdict :: "call_inputs \<Rightarrow> string \<Rightarrow> call_args \<Rightarrow> tool_context \<Rightarrow> gov_st \<Rightarrow> bool" where
  "verdict inp tool params ctx s = (fst (pre_execute_check demo_gov_config inp tool params ctx (Some AL_Supervised) s) = Inr True)"

text \<open>The operator approved \<open>ls\<close>; with the same approval id the agent runs another command of the tool.\<close>

lemma approved_ls_runs_rm:
  "verdict (demo_inputs 5) ''shell'' [(''command'', ArgStr ''rm -rf /data''), (''__approval_id'', ArgStr ''a1'')]
     (ask_context\<lparr>tx_commands := []\<rparr>) demo_governance"
  by code_simp

text \<open>A policy value other than deny and ask allows the call.\<close>

lemma unknown_policy_allows:
  "verdict (demo_inputs 5) ''shell'' [(''command'', ArgStr ''ls'')] (demo_context\<lparr>tx_policies := [(''shell'', ''forbid'')]\<rparr>)
     demo_governance"
  by code_simp

text \<open>The subject of the rate limit is the first scope: the calls of one user use up the limit of another.\<close>

lemma rate_shared_between_users:
  "verdict (demo_inputs 5) ''shell'' [(''command'', ArgStr ''ls'')] (demo_context\<lparr>tx_requested_by := ''bob''\<rparr>) demo_governance"
  "\<not> verdict (demo_inputs 5) ''shell'' [(''command'', ArgStr ''ls'')] (demo_context\<lparr>tx_requested_by := ''bob''\<rparr>)
     (gv_run demo_gov_config (GvCall (demo_inputs 5) ''shell'' [(''command'', ArgStr ''ls'')]
       (demo_context\<lparr>tx_requested_by := ''ann''\<rparr>) None) demo_governance)"
  by (code_simp, code_simp)

text \<open>The path allowlist compares prefixes of the text: a sibling directory and a way out pass.\<close>

lemma path_prefix_only:
  "verdict (demo_inputs 5) ''file_ops'' [(''path'', ArgStr ''/data/../etc/passwd'')] (demo_context\<lparr>tx_paths := [''/data'']\<rparr>) demo_governance"
  "verdict (demo_inputs 5) ''file_ops'' [(''path'', ArgStr ''/data2/x'')] (demo_context\<lparr>tx_paths := [''/data'']\<rparr>) demo_governance"
  by (code_simp, code_simp)


end
