(* ===== verification/Pack_Version.thy ===== *)
theory Pack_Version
  imports PyText
begin

text \<open>
  Versions, version constraints, dependency resolution and lock files of packs (\<open>agent33/packs/version.py\<close>).
  Every error of this file is a \<open>ValueError\<close>; where only its text differs the error is one constructor.
\<close>

section \<open>Versions\<close>

datatype version = Version (major: nat) (minor: nat) (patch: nat)

definition version_below :: "version \<Rightarrow> version \<Rightarrow> bool" where
  "version_below v w \<longleftrightarrow> major v < major w \<or> major v = major w \<and>
     (minor v < minor w \<or> minor v = minor w \<and> patch v < patch w)"

instantiation version :: linorder
begin

definition less_version :: "version \<Rightarrow> version \<Rightarrow> bool" where
  "less_version = version_below"

definition less_eq_version :: "version \<Rightarrow> version \<Rightarrow> bool" where
  "less_eq_version v w \<longleftrightarrow> v < w \<or> v = (w :: version)"

instance
  by standard (auto simp: less_version_def version_below_def less_eq_version_def intro: version.expand)

end

datatype version_error = BadVersion string

definition version_str :: "version \<Rightarrow> string" where
  "version_str v = py_digits (major v) @ ''.'' @ py_digits (minor v) @ ''.'' @ py_digits (patch v)"

definition digit_group :: "string \<Rightarrow> bool" where
  "digit_group s \<longleftrightarrow> s \<noteq> [] \<and> list_all py_isdigit s"

definition version_parse :: "string \<Rightarrow> version_error + version" where
  "version_parse raw = (case py_split (CHR ''.'') (py_strip raw) of
      [a, b, c] \<Rightarrow> if digit_group a \<and> digit_group b \<and> digit_group c
        then Inr (Version (py_nat a) (py_nat b) (py_nat c)) else Inl (BadVersion raw)
    | _ \<Rightarrow> Inl (BadVersion raw))"

section \<open>Constraints\<close>

datatype range_op = OpGe | OpLe | OpGt | OpLt | OpEq

datatype version_range = VersionRange range_op version

fun range_contains :: "version_range \<Rightarrow> version \<Rightarrow> bool" where
  "range_contains (VersionRange OpGe w) v = (w \<le> v)"
| "range_contains (VersionRange OpLe w) v = (v \<le> w)"
| "range_contains (VersionRange OpGt w) v = (w < v)"
| "range_contains (VersionRange OpLt w) v = (v < w)"
| "range_contains (VersionRange OpEq w) v = (v = w)"

record version_constraint =
  vc_raw :: string
  vc_ranges :: "version_range list"

definition satisfies :: "version_constraint \<Rightarrow> version \<Rightarrow> bool" where
  "satisfies c v = list_all (\<lambda>r. range_contains r v) (vc_ranges c)"

definition ranges_of :: "(version \<Rightarrow> version_range list) \<Rightarrow> string \<Rightarrow> version_error + version_range list" where
  "ranges_of f s = (case version_parse s of Inl e \<Rightarrow> Inl e | Inr v \<Rightarrow> Inr (f v))"

definition parse_single_constraint :: "string \<Rightarrow> version_error + version_range list" where
  "parse_single_constraint raw =
     (let part = py_strip raw in
      if py_startswith ''^'' part
      then ranges_of (\<lambda>v. [VersionRange OpGe v, VersionRange OpLt (Version (major v + 1) 0 0)]) (drop 1 part)
      else if py_startswith ''~'' part
      then ranges_of (\<lambda>v. [VersionRange OpGe v, VersionRange OpLt (Version (major v) (minor v + 1) 0)]) (drop 1 part)
      else if py_startswith ''>='' part then ranges_of (\<lambda>v. [VersionRange OpGe v]) (drop 2 part)
      else if py_startswith ''<='' part then ranges_of (\<lambda>v. [VersionRange OpLe v]) (drop 2 part)
      else if py_startswith ''>'' part then ranges_of (\<lambda>v. [VersionRange OpGt v]) (drop 1 part)
      else if py_startswith ''<'' part then ranges_of (\<lambda>v. [VersionRange OpLt v]) (drop 1 part)
      else if py_startswith ''='' part then ranges_of (\<lambda>v. [VersionRange OpEq v]) (drop 1 part)
      else ranges_of (\<lambda>v. [VersionRange OpEq v]) part)"

fun parse_parts :: "string list \<Rightarrow> version_error + version_range list" where
  "parse_parts [] = Inr []"
| "parse_parts (p # ps) = (case parse_single_constraint p of
      Inl e \<Rightarrow> Inl e
    | Inr rs \<Rightarrow> (case parse_parts ps of Inl e \<Rightarrow> Inl e | Inr rest \<Rightarrow> Inr (rs @ rest)))"

definition constraint_parse :: "string \<Rightarrow> version_error + version_constraint" where
  "constraint_parse raw0 =
     (let raw = py_strip raw0 in
      if raw = ''*'' then Inr \<lparr>vc_raw = raw, vc_ranges = []\<rparr>
      else case parse_parts (List.map py_strip (py_split (CHR '','') raw)) of
        Inl e \<Rightarrow> Inl e
      | Inr rs \<Rightarrow> Inr \<lparr>vc_raw = raw, vc_ranges = rs\<rparr>)"

section \<open>Dependency resolution\<close>

datatype conflict_reason =
    CircularDependency
  | VersionConflict string string
  | PackNotFound
  | NoVersionSatisfies string

record conflict_detail =
  cd_package :: string
  cd_required_by :: "(string, string) odict"
  cd_available :: "string list"
  cd_reason :: conflict_reason

record resolution_result =
  rr_resolved :: "(string, string) odict option"
  rr_conflicts :: "conflict_detail list"
  rr_graph :: "(string, string list) odict"

definition rr_success :: "resolution_result \<Rightarrow> bool" where
  "rr_success r \<longleftrightarrow> rr_resolved r \<noteq> None \<and> rr_conflicts r = []"

type_synonym available = "(string, version list) odict"

definition sort_versions :: "version list \<Rightarrow> version list" where
  "sort_versions vs = rev (sort vs)"

fun parse_versions :: "string list \<Rightarrow> version_error + version list" where
  "parse_versions [] = Inr []"
| "parse_versions (s # ss) = (case version_parse s of
      Inl e \<Rightarrow> Inl e
    | Inr v \<Rightarrow> (case parse_versions ss of Inl e \<Rightarrow> Inl e | Inr vs \<Rightarrow> Inr (v # vs)))"

fun init_available :: "(string \<times> string list) list \<Rightarrow> available \<Rightarrow> version_error + available" where
  "init_available [] a = Inr a"
| "init_available ((n, ss) # rest) a = (case parse_versions ss of
      Inl e \<Rightarrow> Inl e
    | Inr vs \<Rightarrow> init_available rest (od_put n (sort_versions vs) a))"

definition add_available :: "string \<Rightarrow> string \<Rightarrow> available \<Rightarrow> version_error + available" where
  "add_available n s a = (case version_parse s of
      Inl e \<Rightarrow> Inl e
    | Inr v \<Rightarrow>
        let vs = (case od_get a n of None \<Rightarrow> [] | Some vs \<Rightarrow> vs) in
        Inr (od_put n (if v \<in> set vs then vs else sort_versions (vs @ [v])) a))"

definition versions_of :: "available \<Rightarrow> string \<Rightarrow> version list" where
  "versions_of a n = (case od_get a n of None \<Rightarrow> [] | Some vs \<Rightarrow> vs)"

text \<open>
  The state of one call of \<open>resolve\<close>.  A conflict holds the dictionary of the requirers of its package, which
  later requirements go on changing; so it is filled in at the end.
\<close>

record resolving =
  rs_resolved :: "(string, string) odict"
  rs_required :: "(string, (string, string) odict) odict"
  rs_graph :: "(string, string list) odict"
  rs_conflicts :: "(string \<times> string list \<times> conflict_reason) list"
  rs_visited :: "string list"

definition track_requirement :: "string \<times> string \<Rightarrow> resolving \<Rightarrow> resolving" where
  "track_requirement req st = (case req of (n, c) \<Rightarrow>
     let known = (case od_get (rs_required st) n of None \<Rightarrow> [] | Some d \<Rightarrow> d)
     in st\<lparr>rs_required := od_put n (od_put ''root'' c known) (rs_required st)\<rparr>)"

definition note_conflict :: "string \<Rightarrow> string \<Rightarrow> string \<Rightarrow> string list \<Rightarrow> conflict_reason \<Rightarrow> resolving \<Rightarrow> resolving" where
  "note_conflict n c requirer avail reason st =
     (let known = (case od_get (rs_required st) n of None \<Rightarrow> [] | Some d \<Rightarrow> d)
      in st\<lparr>rs_required := od_put n (od_put requirer c known) (rs_required st),
            rs_conflicts := rs_conflicts st @ [(n, avail, reason)]\<rparr>)"

definition note_choice :: "string \<Rightarrow> string \<Rightarrow> version \<Rightarrow> resolving \<Rightarrow> resolving" where
  "note_choice n requirer v st =
     (let reqs = (case od_get (rs_graph st) requirer of None \<Rightarrow> [] | Some ns \<Rightarrow> ns)
      in st\<lparr>rs_resolved := od_put n (version_str v) (rs_resolved st),
            rs_graph := od_put requirer (reqs @ [n]) (rs_graph st)\<rparr>)"

definition resolve_one :: "available \<Rightarrow> string \<Rightarrow> string \<Rightarrow> string \<Rightarrow> resolving \<Rightarrow> version_error + resolving" where
  "resolve_one a n c requirer st0 =
     (if n \<in> set (rs_visited st0) \<and> od_get (rs_resolved st0) n = None
      then Inr (st0\<lparr>rs_conflicts := rs_conflicts st0 @ [(n, List.map version_str (versions_of a n), CircularDependency)]\<rparr>)
      else
        let st = st0\<lparr>rs_visited := List.insert n (rs_visited st0)\<rparr> in
        case constraint_parse c of
          Inl e \<Rightarrow> Inl e
        | Inr cons \<Rightarrow>
            (case od_get (rs_resolved st) n of
               Some chosen \<Rightarrow> (case version_parse chosen of
                   Inl e \<Rightarrow> Inl e
                 | Inr v \<Rightarrow> if satisfies cons v then Inr st
                     else Inr (note_conflict n c requirer (List.map version_str (versions_of a n)) (VersionConflict chosen c) st))
             | None \<Rightarrow>
                 if versions_of a n = [] then Inr (note_conflict n c requirer [] PackNotFound st)
                 else (case List.find (satisfies cons) (versions_of a n) of
                     Some v \<Rightarrow> Inr (note_choice n requirer v st)
                   | None \<Rightarrow> Inr (note_conflict n c requirer (List.map version_str (versions_of a n)) (NoVersionSatisfies c) st))))"

fun resolve_all :: "available \<Rightarrow> (string \<times> string) list \<Rightarrow> resolving \<Rightarrow> version_error + resolving" where
  "resolve_all a [] st = Inr st"
| "resolve_all a ((n, c) # reqs) st = (case resolve_one a n c ''root'' st of
      Inl e \<Rightarrow> Inl e
    | Inr st' \<Rightarrow> resolve_all a reqs st')"

definition blank_resolving :: resolving where
  "blank_resolving = \<lparr>rs_resolved = [], rs_required = [], rs_graph = [], rs_conflicts = [], rs_visited = []\<rparr>"

definition resolution_of :: "resolving \<Rightarrow> resolution_result" where
  "resolution_of st =
     (if rs_conflicts st \<noteq> [] then
        \<lparr>rr_resolved = None,
         rr_conflicts = List.map (\<lambda>(n, avail, reason). \<lparr>cd_package = n,
           cd_required_by = (case od_get (rs_required st) n of None \<Rightarrow> [] | Some d \<Rightarrow> d),
           cd_available = avail, cd_reason = reason\<rparr>) (rs_conflicts st),
         rr_graph = rs_graph st\<rparr>
      else \<lparr>rr_resolved = Some (rs_resolved st), rr_conflicts = [], rr_graph = rs_graph st\<rparr>)"

definition resolve :: "available \<Rightarrow> (string \<times> string) list \<Rightarrow> version_error + resolution_result" where
  "resolve a reqs = (case resolve_all a reqs (fold track_requirement reqs blank_resolving) of
      Inl e \<Rightarrow> Inl e
    | Inr st \<Rightarrow> Inr (resolution_of st))"

section \<open>Lock files\<close>

text \<open>What stands for a package in the lock file that is read: a mapping, a plain string, or anything else.\<close>

datatype lock_info = LockEntry "(string, string) odict" | LockVersion string | LockOther

record lock_file =
  lk_version :: string
  lk_engine :: string
  lk_resolved_at :: string
  lk_resolver :: string
  lk_packages :: "(string, lock_info) odict"

definition lookup_in :: "(string, string) odict option \<Rightarrow> string \<Rightarrow> string option" where
  "lookup_in d n = (case d of None \<Rightarrow> None | Some m \<Rightarrow> od_get m n)"

definition lock_entry ::
  "(string, string) odict option \<Rightarrow> (string, string) odict option \<Rightarrow> (string, string) odict option \<Rightarrow> string \<Rightarrow> string \<Rightarrow> lock_info" where
  "lock_entry sources constraints checksums n v = LockEntry
     ([(''version'', v)] @
      (case lookup_in checksums n of None \<Rightarrow> [] | Some s \<Rightarrow> [(''checksum'', s)]) @
      [(''source'', case lookup_in sources n of None \<Rightarrow> ''local'' | Some s \<Rightarrow> s)] @
      (case lookup_in constraints n of None \<Rightarrow> [] | Some s \<Rightarrow> [(''resolved_from'', s)]))"

definition generate_lock_content ::
  "string \<Rightarrow> (string, string) odict \<Rightarrow> string \<Rightarrow> (string, string) odict option \<Rightarrow> (string, string) odict option \<Rightarrow>
   (string, string) odict option \<Rightarrow> lock_file" where
  "generate_lock_content now resolved engine sources constraints checksums =
     \<lparr>lk_version = ''1'', lk_engine = engine, lk_resolved_at = now, lk_resolver = ''greedy-backtrack-v1'',
      lk_packages = List.map (\<lambda>(n, v). (n, lock_entry sources constraints checksums n v)) (sort_key fst resolved)\<rparr>"

definition parse_lock_content :: "lock_file \<Rightarrow> (string, string) odict" where
  "parse_lock_content f = fold (\<lambda>(n, info) d. case info of
       LockEntry m \<Rightarrow> od_put n (case od_get m ''version'' of None \<Rightarrow> [] | Some v \<Rightarrow> v) d
     | LockVersion v \<Rightarrow> od_put n v d
     | LockOther \<Rightarrow> d) (lk_packages f) []"

end
