(* ===== verification/Packs.thy ===== *)
theory Packs
  imports Lifecycle Pack_Version "HOL-Library.Product_Lexorder"
begin

text \<open>
  The pack registry (\<open>agent33/packs/registry.py\<close>) with the models of packs (\<open>packs/models.py\<close>), loading from a
  directory (\<open>packs/loader.py\<close>), trust (\<open>packs/provenance.py\<close>), the local marketplace
  (\<open>packs/marketplace.py\<close>) and the part of the skill registry it uses (\<open>skills/registry.py\<close>).

  What the file system holds for a pack directory, after the YAML and skill parsers, is a view of that directory, and
  the signature check and the resolution of a path into its components are fields of the environment.  Sets of pack
  names are lists without order.  The fields of a pack that are stored and never read are left out.
\<close>

section \<open>Models\<close>

type_synonym path = string

datatype trust_level = TL_Untrusted | TL_Community | TL_Verified | TL_Official

record provenance =
  pv_signer :: string
  pv_signature :: string
  pv_algorithm :: string
  pv_trust :: trust_level

record trust_policy =
  tp_require_signature :: bool
  tp_min_trust :: trust_level
  tp_signers :: "string list"

record skill_entry =
  se_name :: string
  se_path :: string
  se_description :: string
  se_required :: bool

record pack_dependency =
  pd_name :: string
  pd_constraint :: string

record skill =
  sk_name :: string
  sk_version :: string
  sk_description :: string
  sk_base :: "path option"

record manifest =
  mf_name :: string
  mf_version :: string
  mf_description :: string
  mf_author :: string
  mf_tags :: "string list"
  mf_category :: string
  mf_skills :: "skill_entry list"
  mf_deps :: "pack_dependency list"
  mf_addenda :: "string list"
  mf_tools :: "(string, (string, string) odict) odict"

record pack =
  pk_name :: string
  pk_version :: string
  pk_description :: string
  pk_author :: string
  pk_tags :: "string list"
  pk_category :: string
  pk_skills :: "skill_entry list"
  pk_loaded :: "string list"
  pk_deps :: "pack_dependency list"
  pk_addenda :: "string list"
  pk_tools :: "(string, (string, string) odict) odict"
  pk_source :: string
  pk_reference :: string
  pk_checksum :: string
  pk_dir :: path
  pk_provenance :: "provenance option"

datatype source_type = SourceLocal | SourceMarket | SourceOther string

record pack_source =
  so_type :: source_type
  so_path :: path
  so_name :: string
  so_version :: string

section \<open>Pack directories\<close>

datatype manifest_file = NoManifestFile | BadManifestFile string | ManifestFile manifest

datatype skill_file = SkillEscapes | SkillAbsent | SkillBroken string | SkillFile skill

datatype checked_file = FileEscapes | FileAbsent | FileHash string

record dir_view =
  dv_is_dir :: bool
  dv_manifest :: manifest_file
  dv_skill :: "string \<Rightarrow> skill_file"
  dv_checksums :: "string list option"
  dv_file :: "string \<Rightarrow> checked_file"
  dv_checksum :: string

datatype checksum_problem = MalformedLine string | TraversalIn string | ListedMissing string | HashDiffers string

datatype pack_problem =
    PackDirMissing
  | NoManifest
  | BadManifest string
  | PathTraversal string
  | SkillPathMissing string
  | SkillLoadFailed string string
  | ChecksumsFailed "checksum_problem list"
  | SkillsFailed "pack_problem list"
  | UntrustedPack
  | SignatureWrong
  | AlreadyInstalled string
  | NotInstalled string
  | RequiredBy "string list"
  | MissingDependency string
  | IncompatibleDependency string string
  | BadConstraint string
  | BreaksDependent string
  | NameMismatch string
  | VersionMismatch string
  | NoMarketplace
  | MarketNeedsName
  | NotInMarket string
  | UnsupportedSource string

definition load_pack_manifest :: "dir_view \<Rightarrow> pack_problem + manifest" where
  "load_pack_manifest dv = (case dv_manifest dv of
      NoManifestFile \<Rightarrow> Inl NoManifest
    | BadManifestFile e \<Rightarrow> Inl (BadManifest e)
    | ManifestFile m \<Rightarrow> Inr m)"

fun load_pack_skills :: "dir_view \<Rightarrow> skill_entry list \<Rightarrow> skill list \<times> pack_problem list" where
  "load_pack_skills dv [] = ([], [])"
| "load_pack_skills dv (e # es) =
     (let (loaded, errors) = load_pack_skills dv es;
          failed = (\<lambda>p. (loaded, if se_required e then p # errors else errors))
      in case dv_skill dv (se_path e) of
        SkillEscapes \<Rightarrow> failed (PathTraversal (se_name e))
      | SkillAbsent \<Rightarrow> failed (SkillLoadFailed (se_name e) (se_path e))
      | SkillBroken x \<Rightarrow> failed (SkillLoadFailed (se_name e) (se_path e))
      | SkillFile sk \<Rightarrow>
          ((if se_description e \<noteq> [] \<and> sk_description sk = [] then sk\<lparr>sk_description := se_description e\<rparr> else sk) # loaded, errors))"

definition validate_pack_directory :: "dir_view \<Rightarrow> pack_problem list" where
  "validate_pack_directory dv =
     (if \<not> dv_is_dir dv then [PackDirMissing]
      else case load_pack_manifest dv of
        Inl e \<Rightarrow> [e]
      | Inr m \<Rightarrow> List.concat (List.map (\<lambda>e. case dv_skill dv (se_path e) of
            SkillEscapes \<Rightarrow> [PathTraversal (se_name e)]
          | SkillAbsent \<Rightarrow> [SkillPathMissing (se_path e)]
          | _ \<Rightarrow> []) (mf_skills m)))"

text \<open>\<open>line.split(None, 1)\<close> of a stripped line\<close>

definition split_once :: "string \<Rightarrow> string \<times> string" where
  "split_once line = (takeWhile (\<lambda>c. \<not> py_isspace c) line, dropWhile py_isspace (dropWhile (\<lambda>c. \<not> py_isspace c) line))"

definition check_line :: "dir_view \<Rightarrow> string \<Rightarrow> checksum_problem list" where
  "check_line dv raw =
     (let line = py_strip raw in
      if line = [] \<or> py_startswith ''#'' line then []
      else let (expected, file) = split_once line in
        if file = [] then [MalformedLine line]
        else let expected = (if py_startswith ''sha256:'' expected then drop 7 expected else expected) in
          (case dv_file dv file of
             FileEscapes \<Rightarrow> [TraversalIn file]
           | FileAbsent \<Rightarrow> [ListedMissing file]
           | FileHash h \<Rightarrow> if h \<noteq> expected then [HashDiffers file] else []))"

definition verify_checksums :: "dir_view \<Rightarrow> checksum_problem list" where
  "verify_checksums dv = (case dv_checksums dv of None \<Rightarrow> [] | Some ls \<Rightarrow> List.concat (List.map (check_line dv) ls))"

section \<open>Trust\<close>

definition trust_order :: "trust_level list" where
  "trust_order = [TL_Untrusted, TL_Community, TL_Verified, TL_Official]"

definition trust_rank :: "trust_level \<Rightarrow> nat" where
  "trust_rank l = length (takeWhile (\<lambda>x. x \<noteq> l) trust_order)"

definition evaluate_trust :: "provenance option \<Rightarrow> trust_policy \<Rightarrow> bool" where
  "evaluate_trust p policy = (case p of
      None \<Rightarrow> \<not> tp_require_signature policy
    | Some pv \<Rightarrow>
        if tp_signers policy \<noteq> [] \<and> pv_signer pv \<notin> set (tp_signers policy) then False
        else if trust_rank (pv_trust pv) < trust_rank (tp_min_trust policy) then False
        else True)"

section \<open>Marketplace\<close>

record market_version =
  mv_version :: string
  mv_dir :: "path option"
  mv_description :: string
  mv_author :: string
  mv_tags :: "string list"
  mv_category :: string
  mv_source :: string
  mv_provenance :: "provenance option"

record market_record =
  mr_name :: string
  mr_description :: string
  mr_author :: string
  mr_tags :: "string list"
  mr_category :: string
  mr_latest :: string
  mr_versions :: "market_version list"

definition version_value :: "string \<Rightarrow> version" where
  "version_value s = (case version_parse s of Inr v \<Rightarrow> v | Inl _ \<Rightarrow> Version 0 0 0)"

text \<open>The manifests found, in the order of their directories; an unreadable one is skipped.\<close>

fun group_versions :: "(path \<times> manifest_file) list \<Rightarrow> (string, market_version list) odict \<Rightarrow> (string, market_version list) odict" where
  "group_versions [] g = g"
| "group_versions ((dir, file) # rest) g = (case file of
      ManifestFile m \<Rightarrow> (case version_parse (mf_version m) of
          Inl _ \<Rightarrow> group_versions rest g
        | Inr _ \<Rightarrow>
            let known = (case od_get g (mf_name m) of None \<Rightarrow> [] | Some vs \<Rightarrow> vs);
                mv = \<lparr>mv_version = mf_version m, mv_dir = Some dir, mv_description = mf_description m, mv_author = mf_author m,
                  mv_tags = mf_tags m, mv_category = mf_category m, mv_source = ''local'', mv_provenance = None\<rparr>
            in group_versions rest (od_put (mf_name m) (known @ [mv]) g))
    | _ \<Rightarrow> group_versions rest g)"

text \<open>\<open>sorted(..., reverse=True)\<close> keeps the order of equal versions.\<close>

definition newest_first :: "market_version list \<Rightarrow> market_version list" where
  "newest_first vs = rev (sort_key (\<lambda>mv. version_value (mv_version mv)) (rev vs))"

definition build_records :: "(path \<times> manifest_file) list \<Rightarrow> (string, market_record) odict" where
  "build_records found = List.map (\<lambda>(n, vs).
     let ordered = newest_first vs; latest = hd ordered in
     (n, \<lparr>mr_name = n, mr_description = mv_description latest, mr_author = mv_author latest, mr_tags = mv_tags latest,
          mr_category = mv_category latest, mr_latest = mv_version latest, mr_versions = ordered\<rparr>)) (group_versions found [])"

record resolved_pack =
  rp_dir :: path
  rp_version :: string
  rp_source :: string
  rp_provenance :: "provenance option"

definition market_entry :: "market_version \<Rightarrow> resolved_pack option" where
  "market_entry mv = map_option (\<lambda>d. \<lparr>rp_dir = d, rp_version = mv_version mv, rp_source = mv_source mv,
     rp_provenance = mv_provenance mv\<rparr>) (mv_dir mv)"

definition market_versions :: "(string, market_record) odict \<Rightarrow> string \<Rightarrow> market_version list" where
  "market_versions records n = (case od_get records n of None \<Rightarrow> [] | Some r \<Rightarrow> mr_versions r)"

definition market_resolve :: "(string, market_record) odict \<Rightarrow> string \<Rightarrow> string \<Rightarrow> resolved_pack option" where
  "market_resolve records n wanted = (case market_versions records n of
      [] \<Rightarrow> None
    | latest # _ \<Rightarrow>
        if wanted = [] then market_entry latest
        else Option.bind (List.find (\<lambda>mv. mv_version mv = wanted) (market_versions records n)) market_entry)"

definition list_packs :: "(string, market_record) odict \<Rightarrow> market_record list" where
  "list_packs records = List.map (\<lambda>n. the (od_get records n)) (sort (od_keys records))"

definition market_search :: "(string, market_record) odict \<Rightarrow> string \<Rightarrow> market_record list" where
  "market_search records query = (let q = py_lower query in
     filter (\<lambda>r. py_contains q (py_lower (mr_name r)) \<or> py_contains q (py_lower (mr_description r)) \<or>
       list_ex (\<lambda>t. py_contains q (py_lower t)) (mr_tags r)) (list_packs records))"

end
