(* ===== verification/Pack_Registry.thy ===== *)
theory Pack_Registry
  imports Packs
begin

text \<open>
  The operations of the pack registry (\<open>agent33/packs/registry.py\<close>): discovery, installation, removal, upgrade,
  and enabling packs for tenants and sessions.
\<close>

section \<open>State\<close>

datatype activation = Shared | Explicit

record registry =
  rg_installed :: "(string, pack) odict"
  rg_enabled :: "(string, string list) odict"
  rg_sessions :: "(string, string list) odict"
  rg_sources :: "(string, (string, activation) odict) odict"
  rg_sequence :: "(string, (string, nat) odict) odict"
  rg_counter :: "(string, nat) odict"
  rg_skills :: "(string, skill) odict"
  rg_policy :: trust_policy

record pack_env =
  pe_view :: "path \<Rightarrow> dir_view"
  pe_market :: "(string, market_record) odict option"
  pe_resolve :: "path \<Rightarrow> string list"
  pe_verify :: "manifest \<Rightarrow> provenance \<Rightarrow> string \<Rightarrow> bool"

record install_result =
  ir_success :: bool
  ir_name :: string
  ir_version :: string
  ir_loaded :: nat
  ir_errors :: "pack_problem list"

type_synonym 'a packs_svc = "(registry, pack_problem, 'a) svc"

definition failed_install :: "string \<Rightarrow> string \<Rightarrow> pack_problem list \<Rightarrow> install_result" where
  "failed_install n v errors = \<lparr>ir_success = False, ir_name = n, ir_version = v, ir_loaded = 0, ir_errors = errors\<rparr>"

definition installed_result :: "pack \<Rightarrow> install_result" where
  "installed_result p = \<lparr>ir_success = True, ir_name = pk_name p, ir_version = pk_version p, ir_loaded = length (pk_loaded p),
     ir_errors = []\<rparr>"

section \<open>Skills\<close>

definition skill_get :: "string \<Rightarrow> skill option packs_svc" where
  "skill_get n s = (Inr (od_get (rg_skills s) n), s)"

definition skill_register :: "skill \<Rightarrow> unit packs_svc" where
  "skill_register sk = sv_modify (\<lambda>s. s\<lparr>rg_skills := od_put (sk_name sk) sk (rg_skills s)\<rparr>)"

definition skill_remove :: "string \<Rightarrow> unit packs_svc" where
  "skill_remove n = sv_modify (\<lambda>s. s\<lparr>rg_skills := od_del n (rg_skills s)\<rparr>)"

definition qualified_name :: "string \<Rightarrow> string \<Rightarrow> string" where
  "qualified_name pack_name n = pack_name @ ''/'' @ n"

fun register_pack_skills :: "string \<Rightarrow> skill list \<Rightarrow> string list packs_svc" where
  "register_pack_skills pack_name [] = sv_return []"
| "register_pack_skills pack_name (sk # sks) =
     sv_bind (skill_register (sk\<lparr>sk_name := qualified_name pack_name (sk_name sk)\<rparr>)) (\<lambda>_.
     sv_bind (skill_get (sk_name sk)) (\<lambda>existing.
     sv_bind (if existing = None then skill_register sk else sv_return ()) (\<lambda>_.
     sv_bind (register_pack_skills pack_name sks) (\<lambda>names. sv_return (qualified_name pack_name (sk_name sk) # names)))))"

definition below :: "pack_env \<Rightarrow> path \<Rightarrow> path \<Rightarrow> bool" where
  "below env p dir \<longleftrightarrow> take (length (pe_resolve env dir)) (pe_resolve env p) = pe_resolve env dir"

fun remove_skills :: "string list \<Rightarrow> unit packs_svc" where
  "remove_skills [] = sv_return ()"
| "remove_skills (n # ns) = sv_bind (skill_remove n) (\<lambda>_. remove_skills ns)"

fun remove_aliases :: "pack_env \<Rightarrow> path \<Rightarrow> skill_entry list \<Rightarrow> unit packs_svc" where
  "remove_aliases env dir [] = sv_return ()"
| "remove_aliases env dir (e # es) = sv_bind (skill_get (se_name e)) (\<lambda>existing.
     sv_bind (case existing of
         Some sk \<Rightarrow> (case sk_base sk of
             Some base \<Rightarrow> if below env base dir then skill_remove (se_name e) else sv_return ()
           | None \<Rightarrow> sv_return ())
       | None \<Rightarrow> sv_return ()) (\<lambda>_. remove_aliases env dir es))"

definition unregister_pack_skills :: "pack_env \<Rightarrow> pack \<Rightarrow> unit packs_svc" where
  "unregister_pack_skills env p = sv_bind (remove_skills (pk_loaded p)) (\<lambda>_. remove_aliases env (pk_dir p) (pk_skills p))"

section \<open>Loading and discovery\<close>

definition load_pack :: "pack_env \<Rightarrow> path \<Rightarrow> pack packs_svc" where
  "load_pack env dir =
     (let dv = pe_view env dir in
      sv_bind (sv_lift (load_pack_manifest dv)) (\<lambda>m.
      if verify_checksums dv \<noteq> [] then sv_raise (ChecksumsFailed (verify_checksums dv))
      else let (skills, errors) = load_pack_skills dv (mf_skills m) in
      if errors \<noteq> [] then sv_raise (SkillsFailed errors)
      else sv_bind (register_pack_skills (mf_name m) skills) (\<lambda>names. sv_return
        \<lparr>pk_name = mf_name m, pk_version = mf_version m, pk_description = mf_description m, pk_author = mf_author m,
         pk_tags = mf_tags m, pk_category = mf_category m, pk_skills = mf_skills m, pk_loaded = names, pk_deps = mf_deps m,
         pk_addenda = mf_addenda m, pk_tools = mf_tools m, pk_source = ''local'', pk_reference = [],
         pk_checksum = dv_checksum dv, pk_dir = dir, pk_provenance = None\<rparr>)))"

definition put_pack :: "string \<Rightarrow> pack \<Rightarrow> unit packs_svc" where
  "put_pack n p = sv_modify (\<lambda>s. s\<lparr>rg_installed := od_put n p (rg_installed s)\<rparr>)"

text \<open>The entries of the scanned directory in their order; \<open>None\<close> if it is no directory.\<close>

fun discover_entries :: "pack_env \<Rightarrow> path list \<Rightarrow> nat packs_svc" where
  "discover_entries env [] = sv_return 0"
| "discover_entries env (dir # dirs) =
     (if \<not> dv_is_dir (pe_view env dir) \<or> dv_manifest (pe_view env dir) = NoManifestFile then discover_entries env dirs
      else sv_bind (sv_attempt (load_pack env dir)) (\<lambda>r.
        sv_bind (case r of Inl _ \<Rightarrow> sv_return 0 | Inr p \<Rightarrow> sv_bind (put_pack (pk_name p) p) (\<lambda>_. sv_return 1)) (\<lambda>k.
        sv_bind (discover_entries env dirs) (\<lambda>rest. sv_return (k + rest)))))"

definition discover :: "pack_env \<Rightarrow> path list option \<Rightarrow> nat packs_svc" where
  "discover env entries = (case entries of None \<Rightarrow> sv_return 0 | Some dirs \<Rightarrow> discover_entries env dirs)"

section \<open>Dependencies\<close>

definition check_dependency :: "(string, pack) odict \<Rightarrow> pack_dependency \<Rightarrow> pack_problem list" where
  "check_dependency installed dep = (case od_get installed (pd_name dep) of
      None \<Rightarrow> [MissingDependency (pd_name dep)]
    | Some other \<Rightarrow> (case constraint_parse (pd_constraint dep) of
        Inl _ \<Rightarrow> [BadConstraint (pd_name dep)]
      | Inr c \<Rightarrow> (case version_parse (pk_version other) of
          Inl _ \<Rightarrow> [BadConstraint (pd_name dep)]
        | Inr v \<Rightarrow> if \<not> satisfies c v then [IncompatibleDependency (pd_name dep) (pk_version other)] else [])))"

definition check_dependencies_met :: "(string, pack) odict \<Rightarrow> pack \<Rightarrow> pack_problem list" where
  "check_dependencies_met installed p = List.concat (List.map (check_dependency installed) (pk_deps p))"

definition check_dependent :: "string \<Rightarrow> version \<Rightarrow> string \<times> pack \<Rightarrow> pack_problem list" where
  "check_dependent n new_version entry =
     (if fst entry = n then []
      else List.concat (List.map (\<lambda>dep.
        if pd_name dep \<noteq> n then []
        else case constraint_parse (pd_constraint dep) of
          Inl _ \<Rightarrow> [BadConstraint n]
        | Inr c \<Rightarrow> if \<not> satisfies c new_version then [BreaksDependent (fst entry)] else []) (pk_deps (snd entry))))"

definition check_dependents_compatible :: "(string, pack) odict \<Rightarrow> string \<Rightarrow> string \<Rightarrow> pack_problem list" where
  "check_dependents_compatible installed n new_version = (case version_parse new_version of
      Inl _ \<Rightarrow> [BadConstraint n]
    | Inr v \<Rightarrow> List.concat (List.map (check_dependent n v) installed))"

definition find_dependents :: "(string, pack) odict \<Rightarrow> string \<Rightarrow> string list" where
  "find_dependents installed n = List.map fst (filter (\<lambda>(m, p). m \<noteq> n \<and> list_ex (\<lambda>dep. pd_name dep = n) (pk_deps p)) installed)"

definition dependent_packs :: "registry \<Rightarrow> string \<Rightarrow> pack list" where
  "dependent_packs s n = List.map (\<lambda>m. the (od_get (rg_installed s) m)) (find_dependents (rg_installed s) n)"

section \<open>Installation\<close>

text \<open>Directory, kind of source, reference and provenance of an installation.\<close>

definition resolve_source ::
  "pack_env \<Rightarrow> pack_source \<Rightarrow> provenance option \<Rightarrow> pack_problem + path \<times> string \<times> string \<times> provenance option" where
  "resolve_source env so prov = (case so_type so of
      SourceLocal \<Rightarrow>
        if \<not> dv_is_dir (pe_view env (so_path so)) then Inl PackDirMissing
        else Inr (so_path so, ''local'', if so_path so \<noteq> [] then so_path so else so_name so, prov)
    | SourceMarket \<Rightarrow> (case pe_market env of
        None \<Rightarrow> Inl NoMarketplace
      | Some records \<Rightarrow>
          if so_name so = [] then Inl MarketNeedsName
          else (case market_resolve records (so_name so) (so_version so) of
              None \<Rightarrow> Inl (NotInMarket (so_name so))
            | Some rp \<Rightarrow> Inr (rp_dir rp, ''marketplace'', rp_source rp,
                case rp_provenance rp of None \<Rightarrow> prov | Some p \<Rightarrow> Some p)))
    | SourceOther t \<Rightarrow> Inl (UnsupportedSource t))"

definition source_name :: "pack_source \<Rightarrow> string" where
  "source_name so = (if so_name so \<noteq> [] then so_name so else ''unknown'')"

text \<open>The name of the manifest, when a provenance and a key are given and the signature is wrong.\<close>

definition wrong_signature :: "pack_env \<Rightarrow> path \<Rightarrow> provenance option \<Rightarrow> string \<Rightarrow> pack_problem + string option" where
  "wrong_signature env dir prov key = (case prov of
      None \<Rightarrow> Inr None
    | Some pv \<Rightarrow>
        if key = [] then Inr None
        else (case load_pack_manifest (pe_view env dir) of
            Inl e \<Rightarrow> Inl e
          | Inr m \<Rightarrow> Inr (if \<not> pe_verify env m pv key then Some (mf_name m) else None)))"

definition finish_install :: "pack_env \<Rightarrow> pack \<Rightarrow> string \<Rightarrow> string \<Rightarrow> provenance option \<Rightarrow> install_result packs_svc" where
  "finish_install env p src ref prov = sv_bind sv_get (\<lambda>s.
     case od_get (rg_installed s) (pk_name p) of
       Some old \<Rightarrow> sv_return (failed_install (pk_name p) (pk_version old) [AlreadyInstalled (pk_version old)])
     | None \<Rightarrow>
         let errors = check_dependencies_met (rg_installed s) p in
         if errors \<noteq> [] then sv_bind (unregister_pack_skills env p) (\<lambda>_. sv_return (failed_install (pk_name p) (pk_version p) errors))
         else sv_bind (put_pack (pk_name p) (p\<lparr>pk_source := src, pk_reference := ref, pk_provenance := prov\<rparr>))
           (\<lambda>_. sv_return (installed_result p)))"

definition install :: "pack_env \<Rightarrow> pack_source \<Rightarrow> provenance option \<Rightarrow> string \<Rightarrow> install_result packs_svc" where
  "install env so prov key = (case resolve_source env so prov of
      Inl e \<Rightarrow> sv_return (failed_install (source_name so) [] [e])
    | Inr (dir, src, ref, eff) \<Rightarrow>
        if validate_pack_directory (pe_view env dir) \<noteq> []
        then sv_return (failed_install (source_name so) [] (validate_pack_directory (pe_view env dir)))
        else sv_bind sv_get (\<lambda>s.
          if \<not> evaluate_trust eff (rg_policy s) then sv_return (failed_install (source_name so) [] [UntrustedPack])
          else sv_bind (sv_lift (wrong_signature env dir eff key)) (\<lambda>bad. case bad of
            Some n \<Rightarrow> sv_return (failed_install n [] [SignatureWrong])
          | None \<Rightarrow> sv_bind (sv_attempt (load_pack env dir)) (\<lambda>r. case r of
              Inl e \<Rightarrow> sv_return (failed_install (source_name so) [] [e])
            | Inr p \<Rightarrow> finish_install env p src ref eff))))"

definition discard_everywhere :: "string \<Rightarrow> (string, string list) odict \<Rightarrow> (string, string list) odict" where
  "discard_everywhere n m = List.map (\<lambda>(k, names). (k, removeAll n names)) m"

definition uninstall :: "pack_env \<Rightarrow> string \<Rightarrow> bool packs_svc" where
  "uninstall env n = sv_bind sv_get (\<lambda>s. case od_get (rg_installed s) n of
      None \<Rightarrow> sv_raise (NotInstalled n)
    | Some p \<Rightarrow>
        if find_dependents (rg_installed s) n \<noteq> [] then sv_raise (RequiredBy (find_dependents (rg_installed s) n))
        else sv_bind (unregister_pack_skills env p) (\<lambda>_. sv_bind (sv_modify (\<lambda>s. s\<lparr>rg_installed := od_del n (rg_installed s),
          rg_enabled := discard_everywhere n (rg_enabled s), rg_sessions := discard_everywhere n (rg_sessions s)\<rparr>))
          (\<lambda>_. sv_return True)))"

definition finish_upgrade :: "pack_env \<Rightarrow> string \<Rightarrow> string option \<Rightarrow> pack \<Rightarrow> pack \<Rightarrow> install_result packs_svc" where
  "finish_upgrade env n target old p =
     (if pk_name p \<noteq> n then sv_return (failed_install n [] [NameMismatch (pk_name p)])
      else if target \<noteq> None \<and> the target \<noteq> [] \<and> pk_version p \<noteq> the target
      then sv_return (failed_install n [] [VersionMismatch (pk_version p)])
      else sv_bind sv_get (\<lambda>s.
        let errors = check_dependents_compatible (rg_installed s) n (pk_version p) in
        if errors \<noteq> [] then sv_bind (unregister_pack_skills env p) (\<lambda>_. sv_return (failed_install n (pk_version p) errors))
        else sv_bind (unregister_pack_skills env old) (\<lambda>_. sv_bind (put_pack n (p\<lparr>pk_source := pk_source old,
          pk_reference := pk_reference old, pk_provenance := pk_provenance old\<rparr>)) (\<lambda>_. sv_return (installed_result p)))))"

definition upgrade :: "pack_env \<Rightarrow> string \<Rightarrow> path \<Rightarrow> string option \<Rightarrow> install_result packs_svc" where
  "upgrade env n dir target = sv_bind sv_get (\<lambda>s. case od_get (rg_installed s) n of
      None \<Rightarrow> sv_return (failed_install n [] [NotInstalled n])
    | Some old \<Rightarrow> sv_bind (sv_attempt (load_pack env dir)) (\<lambda>r. case r of
        Inl e \<Rightarrow> sv_return (failed_install n [] [e])
      | Inr p \<Rightarrow> finish_upgrade env n target old p))"

definition downgrade :: "pack_env \<Rightarrow> string \<Rightarrow> path \<Rightarrow> install_result packs_svc" where
  "downgrade env n dir = upgrade env n dir None"

definition restamp :: "string \<Rightarrow> string \<Rightarrow> string \<Rightarrow> provenance option \<Rightarrow> unit packs_svc" where
  "restamp n src ref prov = sv_modify (\<lambda>s. case od_get (rg_installed s) n of
      None \<Rightarrow> s
    | Some p \<Rightarrow> s\<lparr>rg_installed := od_put n (p\<lparr>pk_source := src, pk_reference := ref, pk_provenance := prov\<rparr>) (rg_installed s)\<rparr>)"

definition upgrade_from_source ::
  "pack_env \<Rightarrow> string \<Rightarrow> pack_source \<Rightarrow> provenance option \<Rightarrow> string \<Rightarrow> install_result packs_svc" where
  "upgrade_from_source env n so0 prov key = sv_bind sv_get (\<lambda>s. case od_get (rg_installed s) n of
      None \<Rightarrow> sv_return (failed_install n [] [NotInstalled n])
    | Some current \<Rightarrow>
        let so = so0\<lparr>so_name := (if so_name so0 \<noteq> [] then so_name so0 else pk_name current)\<rparr> in
        (case resolve_source env so prov of
           Inl e \<Rightarrow> sv_return (failed_install n [] [e])
         | Inr (dir, src, ref, eff) \<Rightarrow>
             if \<not> evaluate_trust eff (rg_policy s) then sv_return (failed_install n [] [UntrustedPack])
             else sv_bind (sv_lift (wrong_signature env dir eff key)) (\<lambda>bad. case bad of
               Some m \<Rightarrow> sv_return (failed_install m [] [SignatureWrong])
             | None \<Rightarrow> sv_bind (upgrade env n dir (if so_version so \<noteq> [] then Some (so_version so) else None)) (\<lambda>res.
                 sv_bind (if ir_success res then restamp n src ref eff else sv_return ()) (\<lambda>_. sv_return res)))))"

section \<open>Enabling for tenants\<close>

definition require_installed :: "string \<Rightarrow> unit packs_svc" where
  "require_installed n = sv_bind sv_get (\<lambda>s. if od_get (rg_installed s) n = None then sv_raise (NotInstalled n) else sv_return ())"

definition names_at :: "(string, string list) odict \<Rightarrow> string \<Rightarrow> string list" where
  "names_at m k = (case od_get m k of None \<Rightarrow> [] | Some ns \<Rightarrow> ns)"

definition enable :: "string \<Rightarrow> string \<Rightarrow> bool packs_svc" where
  "enable n tenant = sv_bind (require_installed n) (\<lambda>_. sv_bind (sv_modify (\<lambda>s.
     s\<lparr>rg_enabled := od_put tenant (List.insert n (names_at (rg_enabled s) tenant)) (rg_enabled s)\<rparr>)) (\<lambda>_. sv_return True))"

definition disable :: "string \<Rightarrow> string \<Rightarrow> bool packs_svc" where
  "disable n tenant = sv_bind (require_installed n) (\<lambda>_. sv_bind (sv_modify (\<lambda>s.
     if od_get (rg_enabled s) tenant = None then s
     else s\<lparr>rg_enabled := od_put tenant (removeAll n (names_at (rg_enabled s) tenant)) (rg_enabled s)\<rparr>)) (\<lambda>_. sv_return True))"

definition is_enabled :: "registry \<Rightarrow> string \<Rightarrow> string \<Rightarrow> bool" where
  "is_enabled s n tenant \<longleftrightarrow> n \<in> set (names_at (rg_enabled s) tenant)"

definition present :: "registry \<Rightarrow> string list \<Rightarrow> pack list" where
  "present s ns = List.map (\<lambda>n. the (od_get (rg_installed s) n)) (filter (\<lambda>n. od_get (rg_installed s) n \<noteq> None) ns)"

definition list_enabled :: "registry \<Rightarrow> string \<Rightarrow> pack list" where
  "list_enabled s tenant = present s (sort (names_at (rg_enabled s) tenant))"

definition enabled_tenants :: "registry \<Rightarrow> string \<Rightarrow> string list" where
  "enabled_tenants s n = sort (List.map fst (filter (\<lambda>(t, ns). n \<in> set ns) (rg_enabled s)))"

definition enablement_matrix :: "registry \<Rightarrow> (string, (string, bool) odict) odict" where
  "enablement_matrix s = List.map (\<lambda>n. (n, List.map (\<lambda>t. (t, is_enabled s n t)) (sort (od_keys (rg_enabled s)))))
     (sort (od_keys (rg_installed s)))"

fun apply_tenant_map :: "string \<Rightarrow> (string \<times> bool) list \<Rightarrow> unit packs_svc" where
  "apply_tenant_map n [] = sv_return ()"
| "apply_tenant_map n ((t, on) # rest) = sv_bind (if on then enable n t else disable n t) (\<lambda>_. apply_tenant_map n rest)"

fun apply_enablement_matrix :: "(string \<times> (string \<times> bool) list) list \<Rightarrow> unit packs_svc" where
  "apply_enablement_matrix [] = sv_return ()"
| "apply_enablement_matrix ((n, tenants) # rest) = sv_bind (require_installed n) (\<lambda>_. sv_bind (apply_tenant_map n tenants)
     (\<lambda>_. apply_enablement_matrix rest))"

section \<open>Enabling for sessions\<close>

definition dict_at :: "(string, (string, 'v) odict) odict \<Rightarrow> string \<Rightarrow> (string, 'v) odict" where
  "dict_at m k = (case od_get m k of None \<Rightarrow> [] | Some d \<Rightarrow> d)"

definition record_activation :: "string \<Rightarrow> string \<Rightarrow> activation \<Rightarrow> registry \<Rightarrow> registry" where
  "record_activation n session src s0 =
     (let s = s0\<lparr>rg_sources := od_put session (dict_at (rg_sources s0) session) (rg_sources s0),
           rg_sequence := od_put session (dict_at (rg_sequence s0) session) (rg_sequence s0)\<rparr>;
          existing = od_get (dict_at (rg_sources s) session) n
      in if existing = Some Explicit \<and> src = Shared then s
         else if existing = Some src then s
         else let k = (case od_get (rg_counter s) session of None \<Rightarrow> 0 | Some c \<Rightarrow> c) + 1 in
           s\<lparr>rg_counter := od_put session k (rg_counter s),
             rg_sources := od_put session (od_put n src (dict_at (rg_sources s) session)) (rg_sources s),
             rg_sequence := od_put session (od_put n k (dict_at (rg_sequence s) session)) (rg_sequence s)\<rparr>)"

definition clear_session :: "string \<Rightarrow> registry \<Rightarrow> registry" where
  "clear_session session s = s\<lparr>rg_sessions := od_del session (rg_sessions s), rg_sources := od_del session (rg_sources s),
     rg_sequence := od_del session (rg_sequence s), rg_counter := od_del session (rg_counter s)\<rparr>"

definition clear_session_state :: "string \<Rightarrow> unit packs_svc" where
  "clear_session_state session = sv_modify (clear_session session)"

text \<open>The keys of \<open>_SESSION_PACK_SOURCE_PRECEDENCE\<close>\<close>

definition activation_of :: "string \<Rightarrow> activation option" where
  "activation_of src = (if src = ''shared'' then Some Shared else if src = ''explicit'' then Some Explicit else None)"

definition enable_for_session :: "string \<Rightarrow> string \<Rightarrow> string \<Rightarrow> unit packs_svc" where
  "enable_for_session n session src = sv_bind (require_installed n) (\<lambda>_. case activation_of src of
      None \<Rightarrow> sv_raise (UnsupportedSource src)
    | Some a \<Rightarrow> sv_modify (\<lambda>s. record_activation n session a
        (s\<lparr>rg_sessions := od_put session (List.insert n (names_at (rg_sessions s) session)) (rg_sessions s)\<rparr>)))"

definition disable_for_session :: "string \<Rightarrow> string \<Rightarrow> unit packs_svc" where
  "disable_for_session n session = sv_bind (require_installed n) (\<lambda>_. sv_modify (\<lambda>s.
     if od_get (rg_sessions s) session = None then s
     else let names = removeAll n (names_at (rg_sessions s) session);
              s = s\<lparr>rg_sessions := od_put session names (rg_sessions s)\<rparr>
       in if names = [] then clear_session session s
          else s\<lparr>rg_sources := (if od_get (rg_sources s) session = None then rg_sources s
                  else od_put session (od_del n (dict_at (rg_sources s) session)) (rg_sources s)),
                 rg_sequence := (if od_get (rg_sequence s) session = None then rg_sequence s
                  else od_put session (od_del n (dict_at (rg_sequence s) session)) (rg_sequence s))\<rparr>))"

definition activation_rank :: "activation \<Rightarrow> nat" where
  "activation_rank a = (case a of Shared \<Rightarrow> 0 | Explicit \<Rightarrow> 1)"

definition session_key :: "registry \<Rightarrow> string \<Rightarrow> string \<Rightarrow> nat \<times> nat \<times> string" where
  "session_key s session n =
     ((case od_get (dict_at (rg_sources s) session) n of None \<Rightarrow> 1 | Some a \<Rightarrow> activation_rank a),
      (case od_get (dict_at (rg_sequence s) session) n of None \<Rightarrow> 0 | Some k \<Rightarrow> k), n)"

definition session_pack_order :: "bool \<Rightarrow> registry \<Rightarrow> string \<Rightarrow> string \<Rightarrow> string list" where
  "session_pack_order v3 s session variant =
     (let names = filter (\<lambda>n. od_get (rg_installed s) n \<noteq> None) (names_at (rg_sessions s) session) in
      if \<not> v3 \<or> py_lower variant \<noteq> ''treatment'' then sort names else sort_key (session_key s session) names)"

definition get_session_packs :: "bool \<Rightarrow> registry \<Rightarrow> string \<Rightarrow> string \<Rightarrow> pack list" where
  "get_session_packs v3 s session variant = List.map (\<lambda>n. the (od_get (rg_installed s) n)) (session_pack_order v3 s session variant)"

definition session_prompt_addenda :: "bool \<Rightarrow> registry \<Rightarrow> string \<Rightarrow> string \<Rightarrow> string list" where
  "session_prompt_addenda v3 s session variant = List.concat (List.map pk_addenda (get_session_packs v3 s session variant))"

definition merge_tool :: "string \<times> (string, string) odict \<Rightarrow> (string, (string, string) odict) odict \<Rightarrow> (string, (string, string) odict) odict" where
  "merge_tool entry merged = od_put (fst entry) (fold (\<lambda>(k, v). od_put k v) (snd entry) (dict_at merged (fst entry))) merged"

definition session_tool_config :: "bool \<Rightarrow> registry \<Rightarrow> string \<Rightarrow> string \<Rightarrow> (string, (string, string) odict) odict" where
  "session_tool_config v3 s session variant =
     fold (\<lambda>p merged. fold merge_tool (pk_tools p) merged) (get_session_packs v3 s session variant) []"

section \<open>Queries\<close>

definition get_pack :: "registry \<Rightarrow> string \<Rightarrow> pack option" where
  "get_pack s n = od_get (rg_installed s) n"

definition list_installed :: "registry \<Rightarrow> pack list" where
  "list_installed s = List.map (\<lambda>n. the (od_get (rg_installed s) n)) (sort (od_keys (rg_installed s)))"

definition search_packs :: "registry \<Rightarrow> string \<Rightarrow> pack list" where
  "search_packs s query = (let q = py_lower query in
     sort_key pk_name (filter (\<lambda>p. py_contains q (py_lower (pk_name p)) \<or> py_contains q (py_lower (pk_description p)) \<or>
       list_ex (\<lambda>t. py_contains q (py_lower t)) (pk_tags p)) (od_vals (rg_installed s))))"

definition set_trust_policy :: "trust_policy \<Rightarrow> unit packs_svc" where
  "set_trust_policy policy = sv_modify (\<lambda>s. s\<lparr>rg_policy := policy\<rparr>)"

text \<open>The version the hub offers for each pack, if any.\<close>

definition check_for_updates :: "registry \<Rightarrow> (string \<Rightarrow> string option) \<Rightarrow> (pack \<times> string) list" where
  "check_for_updates s hub = List.concat (List.map (\<lambda>p. case hub (pk_name p) of
      None \<Rightarrow> []
    | Some offered \<Rightarrow> (case (version_parse (pk_version p), version_parse offered) of
        (Inr mine, Inr theirs) \<Rightarrow> if mine < theirs then [(p, offered)] else []
      | _ \<Rightarrow> [])) (od_vals (rg_installed s)))"

record dry_run_report =
  dr_name :: string
  dr_version :: string
  dr_addenda :: nat
  dr_preview :: "string list"
  dr_tools :: "string list"
  dr_config :: "(string, (string, string) odict) odict"
  dr_skills :: "string list"
  dr_agent :: string
  dr_session :: string
  dr_scan :: string

definition dry_run :: "string \<Rightarrow> string \<Rightarrow> string \<Rightarrow> dry_run_report packs_svc" where
  "dry_run n agent session = sv_bind (require_installed n) (\<lambda>_. sv_bind sv_get (\<lambda>s.
     let p = the (od_get (rg_installed s) n) in sv_return
       \<lparr>dr_name = n, dr_version = pk_version p, dr_addenda = length (pk_addenda p), dr_preview = List.map (take 100) (pk_addenda p),
        dr_tools = od_keys (pk_tools p), dr_config = pk_tools p, dr_skills = List.map se_name (pk_skills p),
        dr_agent = (if agent \<noteq> [] then agent else ''(all agents)''),
        dr_session = (if session \<noteq> [] then session else ''(all sessions in tenant)''), dr_scan = ''clean''\<rparr>))"

end
