(* ===== verification/Pack_Version_Correct.thy ===== *)
theory Pack_Version_Correct
  imports Pack_Version
begin

text \<open>
  Correctness of pack versions: printing and parsing are inverse, constraints mean what their documentation says,
  the resolver takes the highest version that the first requirement of a pack allows, and a lock file is read back as
  it was written.
\<close>

section \<open>Printing and parsing\<close>

lemma digits_group: "digit_group (py_digits n)"
  using digits_digits [of n] by (simp add: digit_group_def)

lemma group_free: "digit_group s \<Longrightarrow> CHR ''.'' \<notin> set s \<and> CHR '','' \<notin> set s"
  using digit_values by (auto simp: digit_group_def list_all_iff)

lemma version_str_ends: "\<exists>c cs d ds. version_str v = c # cs \<and> py_isdigit c \<and> version_str v = ds @ [d] \<and> py_isdigit d"
proof -
  obtain c cs where c: "py_digits (major v) = c # cs" "py_isdigit c"
    using digits_digits [of "major v"] by (cases "py_digits (major v)") auto
  obtain ds d where "py_digits (patch v) = ds @ [d]" "py_isdigit d"
    using digits_digits [of "patch v"] by (cases "py_digits (patch v)" rule: rev_cases) auto
  with c show ?thesis by (auto simp: version_str_def)
qed

lemma version_str_chars: "c \<in> set (version_str v) \<Longrightarrow> py_isdigit c \<or> c = CHR ''.''"
  using digits_digits by (auto simp: version_str_def list_all_iff)

lemma strip_version: "py_strip (version_str v) = version_str v"
proof -
  obtain c cs d ds where "version_str v = c # cs" "py_isdigit c" "version_str v = ds @ [d]" "py_isdigit d"
    using version_str_ends by blast
  then show ?thesis by (metis append_is_Nil_conv digit_not_space last_snoc list.sel(1) not_Cons_self2 strip_solid)
qed

lemma version_roundtrip: "version_parse (version_str v) = Inr v"
proof -
  have "py_split (CHR ''.'') (version_str v) = [py_digits (major v), py_digits (minor v), py_digits (patch v)]"
    using group_free [OF digits_group] by (simp add: version_str_def split_append split_solid)
  then show ?thesis
    by (simp add: version_parse_def strip_version digits_group digits_value)
qed

lemma strip_operator: "oper \<noteq> [] \<Longrightarrow> \<not> py_isspace (hd oper) \<Longrightarrow> py_strip (oper @ version_str v) = oper @ version_str v"
proof (rule strip_solid)
  obtain d ds where "version_str v = ds @ [d]" "py_isdigit d" using version_str_ends by blast
  then show "\<not> py_isspace (last (oper @ version_str v))" by (simp add: digit_not_space)
qed auto

lemma version_first: "\<exists>c cs. version_str v = c # cs \<and> py_isdigit c"
  using version_str_ends by blast

text \<open>One constraint, for each operator.\<close>

lemma single_constraint:
  "parse_single_constraint (''^'' @ version_str v) = Inr [VersionRange OpGe v, VersionRange OpLt (Version (major v + 1) 0 0)]"
  "parse_single_constraint (''~'' @ version_str v) = Inr [VersionRange OpGe v, VersionRange OpLt (Version (major v) (minor v + 1) 0)]"
  "parse_single_constraint (''>='' @ version_str v) = Inr [VersionRange OpGe v]"
  "parse_single_constraint (''<='' @ version_str v) = Inr [VersionRange OpLe v]"
  "parse_single_constraint (''='' @ version_str v) = Inr [VersionRange OpEq v]"
  using strip_operator [of "''^''" v] strip_operator [of "''~''" v] strip_operator [of "''>=''" v]
    strip_operator [of "''<=''" v] strip_operator [of "''=''" v]
  by (simp_all add: parse_single_constraint_def ranges_of_def py_startswith_def version_roundtrip py_isspace_def)

lemma single_strict:
  "parse_single_constraint (''>'' @ version_str v) = Inr [VersionRange OpGt v]"
  "parse_single_constraint (''<'' @ version_str v) = Inr [VersionRange OpLt v]"
  "parse_single_constraint (version_str v) = Inr [VersionRange OpEq v]"
proof -
  obtain c cs where c: "version_str v = c # cs" "py_isdigit c" using version_first by blast
  then have other: "c \<noteq> CHR ''=''" "c \<noteq> CHR ''^''" "c \<noteq> CHR ''~''" "c \<noteq> CHR ''<''" "c \<noteq> CHR ''>''"
    by (auto simp: py_isdigit_def)
  show "parse_single_constraint (''>'' @ version_str v) = Inr [VersionRange OpGt v]"
    "parse_single_constraint (''<'' @ version_str v) = Inr [VersionRange OpLt v]"
    "parse_single_constraint (version_str v) = Inr [VersionRange OpEq v]"
    using strip_operator [of "''>''" v] strip_operator [of "''<''" v] strip_version [of v] version_roundtrip [of v] c other
    by (simp_all add: parse_single_constraint_def ranges_of_def py_startswith_def py_isspace_def)
qed
section \<open>What constraints mean\<close>

lemma version_no_comma: "CHR '','' \<notin> set (version_str v)"
  using version_str_chars digit_values by fastforce

lemma constraint_single:
  "py_strip s = s \<Longrightarrow> CHR '','' \<notin> set s \<Longrightarrow> s \<noteq> ''*'' \<Longrightarrow> parse_single_constraint s = Inr rs \<Longrightarrow>
   constraint_parse s = Inr \<lparr>vc_raw = s, vc_ranges = rs\<rparr>"
  by (simp add: constraint_parse_def split_solid Let_def)

lemma constraint_range:
  assumes "py_strip s = s" "py_strip t = t" "CHR '','' \<notin> set s" "CHR '','' \<notin> set t" "s \<noteq> []"
    and "parse_single_constraint s = Inr rs" "parse_single_constraint t = Inr ts" "py_strip (s @ '', '' @ t) = s @ '', '' @ t"
  shows "constraint_parse (s @ '', '' @ t) = Inr \<lparr>vc_raw = s @ '', '' @ t, vc_ranges = rs @ ts\<rparr>"
proof -
  have "py_strip (CHR '' '' # t) = t" using assms(2) by (simp add: py_strip_def py_isspace_def)
  moreover have "s @ '', '' @ t \<noteq> ''*''" using assms(5) by (cases s) auto
  ultimately show ?thesis using assms by (simp add: constraint_parse_def split_append split_solid Let_def)
qed

lemma caret_range: "v \<le> w \<and> w < Version (major v + 1) 0 0 \<longleftrightarrow> v \<le> w \<and> major w = major v"
  by (cases v; cases w) (auto simp: less_eq_version_def less_version_def version_below_def)

lemma tilde_range: "v \<le> w \<and> w < Version (major v) (minor v + 1) 0 \<longleftrightarrow> v \<le> w \<and> major w = major v \<and> minor w = minor v"
  by (cases v; cases w) (auto simp: less_eq_version_def less_version_def version_below_def)

lemma accepted_by:
  "constraint_parse s = Inr \<lparr>vc_raw = s, vc_ranges = rs\<rparr> \<Longrightarrow>
   \<exists>c. constraint_parse s = Inr c \<and> (\<forall>w. satisfies c w \<longleftrightarrow> list_all (\<lambda>r. range_contains r w) rs)"
  by (simp add: satisfies_def)

definition accepts :: "string \<Rightarrow> version \<Rightarrow> bool" where
  "accepts s w \<longleftrightarrow> (case constraint_parse s of Inl e \<Rightarrow> False | Inr c \<Rightarrow> satisfies c w)"

lemma accepts_single:
  "oper \<noteq> [] \<Longrightarrow> \<not> py_isspace (hd oper) \<Longrightarrow> CHR '','' \<notin> set oper \<Longrightarrow>
   parse_single_constraint (oper @ version_str v) = Inr rs \<Longrightarrow>
   accepts (oper @ version_str v) w \<longleftrightarrow> list_all (\<lambda>r. range_contains r w) rs"
  using version_first [of v] constraint_single [OF strip_operator, of oper v rs] version_no_comma [of v]
  by (cases oper) (auto simp: accepts_def satisfies_def)

lemma accepts_exact: "accepts (version_str v) w \<longleftrightarrow> w = v"
proof -
  obtain c cs where c: "version_str v = c # cs" "py_isdigit c" using version_first by blast
  then have "version_str v \<noteq> ''*''" by (auto simp: py_isdigit_def)
  then have "constraint_parse (version_str v) = Inr \<lparr>vc_raw = version_str v, vc_ranges = [VersionRange OpEq v]\<rparr>"
    by (rule constraint_single [OF strip_version version_no_comma _ single_strict(3)])
  then show ?thesis by (simp add: accepts_def satisfies_def)
qed

lemma accepts_between: "accepts (''>='' @ version_str u @ '', <'' @ version_str v) w \<longleftrightarrow> u \<le> w \<and> w < v"
proof -
  obtain d ds where "version_str v = ds @ [d]" "py_isdigit d" using version_str_ends by blast
  then have ends: "py_strip (''>='' @ version_str u @ '', <'' @ version_str v) = ''>='' @ version_str u @ '', <'' @ version_str v"
    by (intro strip_solid) (auto simp: py_isspace_def dest: digit_not_space)
  have "constraint_parse ((''>='' @ version_str u) @ '', '' @ (''<'' @ version_str v)) =
      Inr \<lparr>vc_raw = (''>='' @ version_str u) @ '', '' @ (''<'' @ version_str v), vc_ranges = [VersionRange OpGe u] @ [VersionRange OpLt v]\<rparr>"
    using ends version_no_comma [of u] version_no_comma [of v]
    by (intro constraint_range single_constraint single_strict strip_operator) (auto simp: py_isspace_def)
  then show ?thesis by (simp add: accepts_def satisfies_def)
qed

section \<open>The resolver\<close>

text \<open>The choice the resolver makes for a pack: what its first requirement selects.\<close>

definition choice :: "available \<Rightarrow> (string \<times> string) list \<Rightarrow> string \<Rightarrow> version option" where
  "choice a reqs n = (case od_get reqs n of None \<Rightarrow> None | Some c \<Rightarrow> List.find (accepts c) (versions_of a n))"

definition met :: "available \<Rightarrow> (string \<times> string) list \<Rightarrow> string \<times> string \<Rightarrow> bool" where
  "met a reqs req \<longleftrightarrow> (case choice a reqs (fst req) of None \<Rightarrow> False | Some v \<Rightarrow> accepts (snd req) v)"

definition readable :: "string \<times> string \<Rightarrow> bool" where
  "readable req \<longleftrightarrow> (\<exists>c. constraint_parse (snd req) = Inr c)"

text \<open>The state of the resolver after some requirements.\<close>

definition resolves :: "available \<Rightarrow> (string \<times> string) list \<Rightarrow> resolving \<Rightarrow> bool" where
  "resolves a reqs st \<longleftrightarrow> set (rs_visited st) = fst ` set reqs \<and>
     (\<forall>n. od_get (rs_resolved st) n = map_option version_str (choice a reqs n)) \<and>
     (rs_conflicts st = [] \<longleftrightarrow> list_all (met a reqs) reqs)"

lemma satisfies_accepts: "constraint_parse c = Inr k \<Longrightarrow> satisfies k = accepts c"
  by (rule ext) (simp add: accepts_def)

lemma choice_snoc: "choice a (reqs @ [(n, c)]) m =
    (if m = n \<and> n \<notin> fst ` set reqs then List.find (accepts c) (versions_of a n) else choice a reqs m)"
proof -
  have "od_get reqs m = None \<longleftrightarrow> m \<notin> fst ` set reqs" by (simp add: map_of_eq_None_iff)
  then show ?thesis by (auto simp: choice_def map_add_def split: option.split)
qed

lemma met_snoc: "req \<in> set reqs \<Longrightarrow> met a (reqs @ [(n, c)]) req = met a reqs req"
  by (force simp: met_def choice_snoc)

lemma all_met_snoc: "list_all (met a (reqs @ [(n, c)])) reqs = list_all (met a reqs) reqs"
  using met_snoc [of _ reqs a n c] by (auto simp: list_all_iff)

lemma unmet_none: "n \<in> fst ` set reqs \<Longrightarrow> choice a reqs n = None \<Longrightarrow> \<not> list_all (met a reqs) reqs"
  by (force simp: list_all_iff met_def)

lemma resolve_step:
  assumes "resolves a reqs st" and "readable (n, c)"
  shows "\<exists>st'. resolve_one a n c ''root'' st = Inr st' \<and> resolves a (reqs @ [(n, c)]) st'"
proof -
  from assms(2) obtain k where k: "constraint_parse c = Inr k" by (auto simp: readable_def)
  note sat = satisfies_accepts [OF k]
  from assms(1) have vis: "set (rs_visited st) = fst ` set reqs"
    and res: "\<And>m. od_get (rs_resolved st) m = map_option version_str (choice a reqs m)"
    and conf: "rs_conflicts st = [] \<longleftrightarrow> list_all (met a reqs) reqs" by (simp_all add: resolves_def)
  note defs = resolve_one_def resolves_def note_conflict_def note_choice_def all_met_snoc
  consider "n \<in> fst ` set reqs" "choice a reqs n = None" | v where "n \<in> fst ` set reqs" "choice a reqs n = Some v"
    | "n \<notin> fst ` set reqs" by blast
  then show ?thesis
  proof cases
    case 1
    have same: "choice a (reqs @ [(n, c)]) m = choice a reqs m" for m using 1(1) by (simp add: choice_snoc)
    from 1 have "met a (reqs @ [(n, c)]) (n, c) \<longleftrightarrow> False" by (simp add: met_def same)
    with 1 vis res same show ?thesis by (auto simp: defs)
  next
    case 2
    have same: "choice a (reqs @ [(n, c)]) m = choice a reqs m" for m using 2(1) by (simp add: choice_snoc)
    from 2 have "met a (reqs @ [(n, c)]) (n, c) \<longleftrightarrow> accepts c v" by (simp add: met_def same)
    with 2 vis res conf same k sat show ?thesis by (auto simp: defs version_roundtrip Let_def)
  next
    case 3
    then have "od_get reqs n = None" by (simp add: map_of_eq_None_iff)
    then have none: "choice a reqs n = None" by (simp add: choice_def)
    have same: "choice a (reqs @ [(n, c)]) m = (if m = n then List.find (accepts c) (versions_of a n) else choice a reqs m)" for m
      using 3 by (simp add: choice_snoc)
    show ?thesis
    proof (cases "List.find (accepts c) (versions_of a n)")
      case None
      then have "met a (reqs @ [(n, c)]) (n, c) \<longleftrightarrow> False" by (simp add: met_def same)
      with None 3 vis res none same k sat show ?thesis by (auto simp: defs Let_def)
    next
      case (Some v)
      then have "accepts c v" "versions_of a n \<noteq> []" by (auto simp: find_Some_iff)
      moreover from Some \<open>accepts c v\<close> have "met a (reqs @ [(n, c)]) (n, c) \<longleftrightarrow> True" by (simp add: met_def same)
      ultimately show ?thesis using Some 3 vis res conf none same k sat by (auto simp: defs Let_def od.get_put)
    qed
  qed
qed

lemma resolve_all_steps:
  "resolves a pre st \<Longrightarrow> list_all readable reqs \<Longrightarrow>
   \<exists>st'. resolve_all a reqs st = Inr st' \<and> resolves a (pre @ reqs) st'"
proof (induction reqs arbitrary: pre st)
  case Nil
  then show ?case by simp
next
  case (Cons req reqs)
  obtain n c where req: "req = (n, c)" by (cases req)
  with Cons.prems obtain st1 where st1: "resolve_one a n c ''root'' st = Inr st1" "resolves a (pre @ [(n, c)]) st1"
    using resolve_step [of a pre st n c] by auto
  with Cons.IH [OF st1(2)] Cons.prems(2) req show ?case by auto
qed

lemma track_required:
  "rs_visited (fold track_requirement reqs st) = rs_visited st \<and> rs_resolved (fold track_requirement reqs st) = rs_resolved st \<and>
   rs_conflicts (fold track_requirement reqs st) = rs_conflicts st"
  by (induction reqs arbitrary: st) (auto simp: track_requirement_def Let_def split: prod.splits)

text \<open>Available versions are kept in descending order.\<close>

definition descending :: "available \<Rightarrow> bool" where
  "descending a \<longleftrightarrow> list_all (\<lambda>(n, vs). sorted (rev vs)) a"

lemma descending_put: "descending a \<Longrightarrow> sorted (rev vs) \<Longrightarrow> descending (od_put n vs a)"
  by (induction a) (auto simp: descending_def)

lemma sorted_sort_versions [simp]: "sorted (rev (sort_versions vs))"
  by (simp add: sort_versions_def)

lemma descending_init: "init_available inits a = Inr a' \<Longrightarrow> descending a \<Longrightarrow> descending a'"
  by (induction inits a rule: init_available.induct) (auto simp: descending_put split: sum.splits)

lemma descending_versions: "descending a \<Longrightarrow> sorted (rev (versions_of a n))"
  by (auto simp: descending_def versions_of_def list_all_iff dest!: map_of_SomeD split: option.split)

lemma descending_add: "add_available n s a = Inr a' \<Longrightarrow> descending a \<Longrightarrow> descending a'"
  using descending_versions [of a n]
  by (auto simp: add_available_def Let_def versions_of_def intro!: descending_put split: sum.splits option.splits if_splits)

lemma find_highest:
  fixes vs :: "version list"
  shows "sorted (rev vs) \<Longrightarrow> List.find P vs = Some v \<longleftrightarrow> v \<in> set vs \<and> P v \<and> (\<forall>w \<in> set vs. P w \<longrightarrow> w \<le> v)"
  by (induction vs) (auto simp: sorted_append intro: order.antisym)

text \<open>The highest version of a pack that the first requirement of it accepts.\<close>

definition greatest_for :: "available \<Rightarrow> (string \<times> string) list \<Rightarrow> string \<Rightarrow> version \<Rightarrow> bool" where
  "greatest_for a reqs n v \<longleftrightarrow> (\<exists>c. od_get reqs n = Some c \<and> v \<in> set (versions_of a n) \<and> accepts c v \<and>
     (\<forall>w \<in> set (versions_of a n). accepts c w \<longrightarrow> w \<le> v))"

lemma choice_greatest: "descending a \<Longrightarrow> choice a reqs n = Some v \<longleftrightarrow> greatest_for a reqs n v"
  using find_highest [OF descending_versions] by (auto simp: choice_def greatest_for_def split: option.split)

lemma met_greatest: "descending a \<Longrightarrow> met a reqs (n, c) \<longleftrightarrow> (\<exists>v. greatest_for a reqs n v \<and> accepts c v)"
  unfolding choice_greatest [symmetric] by (simp add: met_def split: option.split)

text \<open>C25: On constraints that can be read, the resolver answers; it succeeds exactly if, for every requirement, the highest
  available version that the first requirement of the pack accepts exists and is accepted by this one too; and then it
  resolves every required pack to that version and no other pack.\<close>

theorem resolver_takes_highest:
  assumes "descending a" and "list_all readable reqs"
  shows "\<exists>r. resolve a reqs = Inr r \<and>
    (rr_success r \<longleftrightarrow> (\<forall>(n, c) \<in> set reqs. \<exists>v. greatest_for a reqs n v \<and> accepts c v)) \<and>
    (rr_success r \<longrightarrow> (\<forall>n s. od_get (the (rr_resolved r)) n = Some s \<longleftrightarrow> (\<exists>v. greatest_for a reqs n v \<and> s = version_str v)))"
proof -
  have "resolves a [] (fold track_requirement reqs blank_resolving)"
    using track_required [of reqs blank_resolving] by (simp add: resolves_def choice_def blank_resolving_def)
  from resolve_all_steps [OF this assms(2)] obtain st where
    st: "resolve_all a reqs (fold track_requirement reqs blank_resolving) = Inr st" "resolves a reqs st" by auto
  have "list_all (met a reqs) reqs \<longleftrightarrow> (\<forall>(n, c) \<in> set reqs. \<exists>v. greatest_for a reqs n v \<and> accepts c v)"
    using met_greatest [OF assms(1)] by (auto simp: list_all_iff)
  with st(2) have succ: "rs_conflicts st = [] \<longleftrightarrow> (\<forall>(n, c) \<in> set reqs. \<exists>v. greatest_for a reqs n v \<and> accepts c v)"
    by (simp add: resolves_def)
  have res: "od_get (rs_resolved st) n = Some s \<longleftrightarrow> (\<exists>v. greatest_for a reqs n v \<and> s = version_str v)" for n s
  proof -
    have "od_get (rs_resolved st) n = map_option version_str (choice a reqs n)"
      using st(2) by (simp add: resolves_def)
    then show ?thesis unfolding choice_greatest [OF assms(1), symmetric] by auto
  qed
  have "resolve a reqs = Inr (resolution_of st)" using st(1) by (simp add: resolve_def)
  with succ res show ?thesis by (intro exI [of _ "resolution_of st"]) (simp add: resolution_of_def rr_success_def)
qed
definition demo_available :: available where
  "demo_available = [(''a'', [Version 2 0 0, Version 1 2 0, Version 1 0 0]), (''b'', [Version 0 1 0])]"

definition demo_requirements :: "(string \<times> string) list" where
  "demo_requirements = [(''a'', ''^1.0.0''), (''b'', ''*''), (''a'', ''<2.0.0'')]"

lemma demo_readable: "list_all readable demo_requirements"
proof -
  have "list_all (\<lambda>req. case constraint_parse (snd req) of Inl e \<Rightarrow> False | Inr c \<Rightarrow> True) demo_requirements" by code_simp
  moreover have "readable req" if "case constraint_parse (snd req) of Inl e \<Rightarrow> False | Inr c \<Rightarrow> True" for req
    using that by (auto simp: readable_def split: sum.splits)
  ultimately show ?thesis by (simp add: list_all_iff)
qed

lemma demo_choice: "greatest_for demo_available demo_requirements ''a'' (Version 1 2 0)"
proof -
  have "choice demo_available demo_requirements ''a'' = Some (Version 1 2 0)" by code_simp
  then show ?thesis by (subst choice_greatest [symmetric]) (code_simp, simp)
qed

theorem resolver_takes_highest_witness:
  "\<exists>r. resolve demo_available demo_requirements = Inr r \<and> rr_success r = True \<and>
     od_get (the (rr_resolved r)) ''a'' = Some ''1.2.0''"
proof -
  obtain r where r: "resolve demo_available demo_requirements = Inr r"
    "rr_success r \<longrightarrow> (\<forall>n s. od_get (the (rr_resolved r)) n = Some s \<longleftrightarrow>
      (\<exists>v. greatest_for demo_available demo_requirements n v \<and> s = version_str v))"
    using resolver_takes_highest [OF _ demo_readable, of demo_available] by (auto simp: descending_def demo_available_def less_eq_version_def less_version_def version_below_def)
  have "(case resolve demo_available demo_requirements of Inl e \<Rightarrow> False | Inr r \<Rightarrow> rr_success r)" by code_simp
  with r(1) have ok: "rr_success r" by simp
  have "version_str (Version 1 2 0) = ''1.2.0''" by code_simp
  with r ok demo_choice show ?thesis by auto
qed

section \<open>What the code allows\<close>

text \<open>There is no backtracking: the first requirement settles the version, and two requirements that the lower version
  would meet fail.  A second requirement for a pack that failed is reported as a cycle.\<close>

definition resolve_outcome :: "available \<Rightarrow> (string \<times> string) list \<Rightarrow> bool \<times> conflict_reason list" where
  "resolve_outcome a reqs = (case resolve a reqs of Inl e \<Rightarrow> (False, []) | Inr r \<Rightarrow> (rr_success r, List.map cd_reason (rr_conflicts r)))"

lemma solvable_but_rejected:
  "resolve_outcome demo_available [(''a'', ''>=1.0.0''), (''a'', ''<2.0.0'')] = (False, [VersionConflict ''2.0.0'' ''<2.0.0''])"
  "resolve_outcome demo_available [(''a'', ''<2.0.0''), (''a'', ''>=1.0.0'')] = (True, [])"
  by (code_simp, code_simp)

lemma repeated_requirement_called_cycle:
  "resolve_outcome demo_available [(''c'', ''*''), (''c'', ''*'')] = (False, [PackNotFound, CircularDependency])"
  by code_simp

section \<open>Lock files\<close>

lemma parse_locked:
  "distinct (List.map fst ps) \<Longrightarrow> set (List.map fst ps) \<inter> set (List.map fst d) = {} \<Longrightarrow>
   fold (\<lambda>(n, info) d. case info of LockEntry m \<Rightarrow> od_put n (case od_get m ''version'' of None \<Rightarrow> [] | Some v \<Rightarrow> v) d
     | LockVersion v \<Rightarrow> od_put n v d | LockOther \<Rightarrow> d) (List.map (\<lambda>(n, v). (n, lock_entry so co ch n v)) ps) d = d @ ps"
proof (induction ps arbitrary: d)
  case (Cons p ps)
  obtain n v where p: "p = (n, v)" by (cases p)
  have put: "n \<notin> set (List.map fst d) \<Longrightarrow> od_put n v d = d @ [(n, v)]" by (induction d) auto
  from Cons.prems p have "od_put n v d = d @ [(n, v)]" using put by auto
  moreover have "fold (\<lambda>(n, info) d. case info of LockEntry m \<Rightarrow> od_put n (case od_get m ''version'' of None \<Rightarrow> [] | Some v \<Rightarrow> v) d
     | LockVersion v \<Rightarrow> od_put n v d | LockOther \<Rightarrow> d) (List.map (\<lambda>(n, v). (n, lock_entry so co ch n v)) ps) (d @ [(n, v)]) = (d @ [(n, v)]) @ ps"
    by (rule Cons.IH) (use Cons.prems p in auto)
  ultimately show ?case by (simp add: p lock_entry_def)
qed simp

text \<open>Reading a lock file that was generated for a resolution gives the resolution back, in the order of the names,
  whatever sources, constraints and checksums were recorded with it.\<close>

theorem lock_roundtrip:
  assumes "distinct (od_keys resolved)"
  shows "parse_lock_content (generate_lock_content now resolved engine sources constraints checksums) = sort_key fst resolved \<and>
    od_get (parse_lock_content (generate_lock_content now resolved engine sources constraints checksums)) n = od_get resolved n"
proof -
  have d: "distinct (List.map fst (sort_key fst resolved))"
    using assms by (simp add: od_keys_def distinct_map inj_on_def)
  have "parse_lock_content (generate_lock_content now resolved engine sources constraints checksums) = sort_key fst resolved"
    using parse_locked [OF d, of "[]"] by (simp add: parse_lock_content_def generate_lock_content_def)
  moreover have "od_get (sort_key fst resolved) n = od_get resolved n"
    using assms d by (metis map_of_eqI od_keys_def set_sort weak_map_of_SomeI map_of_inject_set)
  ultimately show ?thesis by simp
qed
theorem lock_roundtrip_witness:
  "od_get (parse_lock_content (generate_lock_content ''now'' [(''b'', ''0.1.0''), (''a'', ''1.2.0'')] ''0.1.0''
     (Some [(''a'', ''market'')]) None None)) ''a'' = Some ''1.2.0''"
proof -
  have "distinct (od_keys [(''b'', ''0.1.0''), (''a'', ''1.2.0'')])" by (simp add: od_keys_def)
  from lock_roundtrip [OF this, of "''now''" "''0.1.0''" "Some [(''a'', ''market'')]" None None "''a''"] show ?thesis by simp
qed


end
