(* ===== verification/Pack_Registry_Correct.thy ===== *)
theory Pack_Registry_Correct
  imports Pack_Registry Pack_Version_Correct
begin

text \<open>
  Correctness of the pack registry: what is enabled is installed, dependencies stay met, and what an upgrade does to
  the skills of a pack.
\<close>

section \<open>Operations and histories\<close>

datatype pr_op =
    PrDiscover "path list option"
  | PrInstall pack_source "provenance option" string
  | PrUninstall string
  | PrUpgrade string path "string option"
  | PrUpgradeFrom string pack_source "provenance option" string
  | PrEnable string string
  | PrDisable string string
  | PrMatrix "(string \<times> (string \<times> bool) list) list"
  | PrEnableSession string string string
  | PrDisableSession string string
  | PrClearSession string
  | PrPolicy trust_policy
  | PrDryRun string string string

fun pr_exec :: "pack_env \<Rightarrow> pr_op \<Rightarrow> unit packs_svc" where
  "pr_exec env (PrDiscover entries) = sv_void (discover env entries)"
| "pr_exec env (PrInstall so prov key) = sv_void (install env so prov key)"
| "pr_exec env (PrUninstall n) = sv_void (uninstall env n)"
| "pr_exec env (PrUpgrade n dir target) = sv_void (upgrade env n dir target)"
| "pr_exec env (PrUpgradeFrom n so prov key) = sv_void (upgrade_from_source env n so prov key)"
| "pr_exec env (PrEnable n t) = sv_void (enable n t)"
| "pr_exec env (PrDisable n t) = sv_void (disable n t)"
| "pr_exec env (PrMatrix m) = apply_enablement_matrix m"
| "pr_exec env (PrEnableSession n ses a) = enable_for_session n ses a"
| "pr_exec env (PrDisableSession n ses) = disable_for_session n ses"
| "pr_exec env (PrClearSession ses) = clear_session_state ses"
| "pr_exec env (PrPolicy policy) = set_trust_policy policy"
| "pr_exec env (PrDryRun n agent ses) = sv_void (dry_run n agent ses)"

text \<open>The file system and the marketplace may change between operations.\<close>

definition pr_run :: "pack_env \<times> pr_op \<Rightarrow> registry \<Rightarrow> registry" where
  "pr_run x s = snd (pr_exec (fst x) (snd x) s)"

definition blank_registry :: "trust_policy \<Rightarrow> registry" where
  "blank_registry policy = \<lparr>rg_installed = [], rg_enabled = [], rg_sessions = [], rg_sources = [], rg_sequence = [],
     rg_counter = [], rg_skills = [], rg_policy = policy\<rparr>"

section \<open>What touches the skills only\<close>

definition skills_only :: "registry \<Rightarrow> registry \<Rightarrow> bool" where
  "skills_only s t \<longleftrightarrow> (\<exists>k. t = s\<lparr>rg_skills := k\<rparr>)"

lemma so_refl: "skills_only s s"
  unfolding skills_only_def by (rule exI [of _ "rg_skills s"]) simp

lemma so_bind: "related skills_only m \<Longrightarrow> (\<And>a. related skills_only (f a)) \<Longrightarrow> related skills_only (sv_bind m f)"
  by (rule related_bind) (auto simp: skills_only_def)

lemma so_pure: "related skills_only (sv_return a)" "related skills_only (sv_raise e)" "related skills_only sv_get"
    "related skills_only (sv_lift r)"
  by (rule related_pure, rule so_refl)+

lemma so_skills: "related skills_only (skill_get n)" "related skills_only (skill_register sk)" "related skills_only (skill_remove n)"
proof -
  show "related skills_only (skill_get n)" by (simp add: related_def skill_get_def so_refl)
qed (auto simp: related_def skills_only_def skill_register_def skill_remove_def sv_modify_def)

lemma so_attempt: "related R m \<Longrightarrow> related R (sv_attempt m)"
  by (simp add: related_def sv_attempt_def split_beta)

lemma so_register: "related skills_only (register_pack_skills n sks)"
  by (induction sks) (auto intro!: so_bind so_pure so_skills)

lemma so_remove: "related skills_only (remove_skills ns)"
  by (induction ns) (auto intro!: so_bind so_pure so_skills)

lemma so_aliases: "related skills_only (remove_aliases env dir es)"
  by (induction es) (auto intro!: so_bind so_pure so_skills split: option.split)

lemma so_unregister: "related skills_only (unregister_pack_skills env p)"
  by (simp add: unregister_pack_skills_def so_bind so_remove so_aliases)

lemma so_load: "related skills_only (load_pack env dir)"
  unfolding load_pack_def Let_def by (auto intro!: so_bind so_pure so_register split: prod.split)

lemma skills_onlyD: "related skills_only m \<Longrightarrow> m s = (r, t) \<Longrightarrow> t = s\<lparr>rg_skills := rg_skills t\<rparr>"
  unfolding related_def skills_only_def by (metis (no_types, lifting) registry.select_convs(7) registry.surjective registry.update_convs(7) snd_conv)

lemma unregister_eq: "unregister_pack_skills env p s = (Inr (), s\<lparr>rg_skills := rg_skills (snd (unregister_pack_skills env p s))\<rparr>)"
proof -
  have "never_raises (remove_skills ns)" for ns
    by (induction ns) (auto simp: never_raises_def skill_remove_def svc_simps)
  moreover have "never_raises (remove_aliases env dir es)" for dir es
    by (induction es) (auto simp: never_raises_def skill_remove_def skill_get_def svc_simps split: option.split)
  ultimately have "never_raises (unregister_pack_skills env p)"
    unfolding never_raises_def unregister_pack_skills_def sv_bind_def by (auto split: prod.split sum.split) (metis Inl_Inr_False Pair_inject)
  then obtain t where "unregister_pack_skills env p s = (Inr (), t)" unfolding never_raises_def by (metis (full_types) unit.exhaust)
  with skills_onlyD [OF so_unregister this] show ?thesis by simp
qed

definition skills_left :: "pack_env \<Rightarrow> pack \<Rightarrow> registry \<Rightarrow> (string, skill) odict" where
  "skills_left env p s = rg_skills (snd (unregister_pack_skills env p s))"

lemma unregister_then: "sv_bind (unregister_pack_skills env p) f s = f () (s\<lparr>rg_skills := skills_left env p s\<rparr>)"
  unfolding sv_bind_def by (subst unregister_eq) (simp add: skills_left_def)

lemma put_then: "sv_bind (put_pack n p) f s = f () (s\<lparr>rg_installed := od_put n p (rg_installed s)\<rparr>)"
  by (simp add: put_pack_def sv_bind_def sv_modify_def)

lemma get_then: "sv_bind sv_get f s = f s s"
  by (simp add: sv_bind_def sv_get_def)

section \<open>Well-formed registries\<close>

text \<open>Packs are stored under their names, and what is enabled for a tenant or a session is installed.\<close>

definition names_installed :: "(string, pack) odict \<Rightarrow> (string, string list) odict \<Rightarrow> bool" where
  "names_installed installed m \<longleftrightarrow> list_all (\<lambda>(k, ns). list_all (\<lambda>n. od_get installed n \<noteq> None) ns) m"

definition registry_ok :: "registry \<Rightarrow> bool" where
  "registry_ok s \<longleftrightarrow> od_wf (rg_installed s) \<and> list_all (\<lambda>(n, p). pk_name p = n) (rg_installed s) \<and>
     names_installed (rg_installed s) (rg_enabled s) \<and> names_installed (rg_installed s) (rg_sessions s)"

lemma names_put: "names_installed i m \<Longrightarrow> names_installed (od_put n p i) m"
  by (auto simp: names_installed_def list_all_iff od.get_put)

lemma names_at_installed:
  assumes "names_installed i m" and "n \<in> set (names_at m k)"
  shows "od_get i n \<noteq> None"
proof -
  from assms(2) obtain ns where "od_get m k = Some ns" "n \<in> set ns"
    by (cases "od_get m k") (auto simp: names_at_def)
  with assms(1) show ?thesis by (auto simp: names_installed_def list_all_iff dest!: map_of_SomeD)
qed

lemma names_insert: "names_installed i m \<Longrightarrow> list_all (\<lambda>n. od_get i n \<noteq> None) ns \<Longrightarrow> names_installed i (od_put k ns m)"
  by (induction m) (auto simp: names_installed_def)

lemma names_del: "names_installed i m \<Longrightarrow> names_installed i (od_del k m)"
  by (induction m) (auto simp: names_installed_def)

lemma names_discard: "names_installed i m \<Longrightarrow> names_installed (od_del n i) (discard_everywhere n m)"
  by (fastforce simp: names_installed_def discard_everywhere_def list_all_iff od.get_del)

lemma keyed_put: "list_all (\<lambda>(n, p). pk_name p = n) i \<Longrightarrow> pk_name p = n \<Longrightarrow> list_all (\<lambda>(n, p). pk_name p = n) (od_put n p i)"
  by (induction i) auto

lemma keyed_del: "list_all (\<lambda>(n, p). pk_name p = n) i \<Longrightarrow> list_all (\<lambda>(n, p). pk_name p = n) (od_del k i)"
  by (induction i) auto

lemma ok_put: "registry_ok s \<Longrightarrow> pk_name p = n \<Longrightarrow> registry_ok (s\<lparr>rg_installed := od_put n p (rg_installed s)\<rparr>)"
  by (simp add: registry_ok_def od.wf_put keyed_put names_put)

lemma ok_skills: "registry_ok (s\<lparr>rg_skills := k\<rparr>) = registry_ok s"
  by (simp add: registry_ok_def)

lemma ok_keeps: "related skills_only m \<Longrightarrow> keeps registry_ok m"
  unfolding keeps_def related_def skills_only_def by (metis ok_skills)
section \<open>Installing and upgrading, as changes of the registry\<close>

text \<open>A new pack with met dependencies, and a new version that all dependents accept; the skills may differ.\<close>

definition adds_pack :: "registry \<Rightarrow> registry \<Rightarrow> bool" where
  "adds_pack s t \<longleftrightarrow> (\<exists>p k. od_get (rg_installed s) (pk_name p) = None \<and> check_dependencies_met (rg_installed s) p = [] \<and>
     t = s\<lparr>rg_skills := k, rg_installed := od_put (pk_name p) p (rg_installed s)\<rparr>)"

definition replaces_pack :: "string \<Rightarrow> registry \<Rightarrow> registry \<Rightarrow> bool" where
  "replaces_pack n s t \<longleftrightarrow> (\<exists>p k. od_get (rg_installed s) n \<noteq> None \<and> pk_name p = n \<and>
     check_dependents_compatible (rg_installed s) n (pk_version p) = [] \<and>
     t = s\<lparr>rg_skills := k, rg_installed := od_put n p (rg_installed s)\<rparr>)"

lemma skills_only_field: "skills_only s t \<Longrightarrow> rg_installed t = rg_installed s"
  by (auto simp: skills_only_def)

lemma so_result: "related skills_only m \<Longrightarrow> skills_only s (snd (m s))"
  by (simp add: related_def)

lemma deps_restamped: "check_dependencies_met i (p\<lparr>pk_source := src, pk_reference := ref, pk_provenance := prov\<rparr>) =
    check_dependencies_met i p"
  by (simp add: check_dependencies_met_def)

lemma finish_install_cases: "skills_only s (snd (finish_install env p src ref prov s)) \<or>
    adds_pack s (snd (finish_install env p src ref prov s))"
proof (cases "od_get (rg_installed s) (pk_name p) = None \<and> check_dependencies_met (rg_installed s) p = []")
  case True
  let ?p = "p\<lparr>pk_source := src, pk_reference := ref, pk_provenance := prov\<rparr>"
  from True have "snd (finish_install env p src ref prov s) =
      s\<lparr>rg_skills := rg_skills s, rg_installed := od_put (pk_name ?p) ?p (rg_installed s)\<rparr>"
    by (simp add: finish_install_def sv_bind_def sv_get_def put_pack_def sv_modify_def sv_return_def)
  with True have "adds_pack s (snd (finish_install env p src ref prov s))"
    unfolding adds_pack_def by (intro exI [of _ ?p] exI [of _ "rg_skills s"]) (simp add: deps_restamped)
  then show ?thesis ..
next
  case False
  show ?thesis
  proof (cases "od_get (rg_installed s) (pk_name p)")
    case None
    with False have "finish_install env p src ref prov s =
        sv_bind (unregister_pack_skills env p) (\<lambda>_. sv_return (failed_install (pk_name p) (pk_version p)
          (check_dependencies_met (rg_installed s) p))) s"
      by (simp add: finish_install_def sv_bind_def [of sv_get] sv_get_def)
    moreover have "skills_only s (snd (sv_bind (unregister_pack_skills env p) (\<lambda>_. sv_return (failed_install (pk_name p)
        (pk_version p) (check_dependencies_met (rg_installed s) p))) s))"
      by (rule so_result) (rule so_bind [OF so_unregister so_pure(1)])
    ultimately show ?thesis by simp
  next
    case (Some old)
    then show ?thesis by (simp add: finish_install_def sv_bind_def sv_get_def sv_return_def so_refl)
  qed
qed

lemma adds_after:
  assumes "skills_only s t" and "adds_pack t u"
  shows "adds_pack s u"
proof -
  from assms(1) obtain k where t: "t = s\<lparr>rg_skills := k\<rparr>" by (auto simp: skills_only_def)
  from assms(2) obtain p k' where p: "od_get (rg_installed t) (pk_name p) = None" "check_dependencies_met (rg_installed t) p = []"
    "u = t\<lparr>rg_skills := k', rg_installed := od_put (pk_name p) p (rg_installed t)\<rparr>" unfolding adds_pack_def by blast
  with t show ?thesis unfolding adds_pack_def by (intro exI [of _ p] exI [of _ k']) simp
qed

lemma so_trans: "skills_only s t \<Longrightarrow> skills_only t u \<Longrightarrow> skills_only s u"
  by (auto simp: skills_only_def)

lemma install_cases: "skills_only s (snd (install env so prov key s)) \<or> adds_pack s (snd (install env so prov key s))"
proof -
  let ?P = "\<lambda>t. skills_only s t \<or> adds_pack s t"
  have finish: "?P (snd (finish_install env p src ref eff t))" if "skills_only s t" for p src ref eff t
    using finish_install_cases [of t env p src ref eff] that by (auto intro: so_trans adds_after)
  have load: "skills_only s (snd (sv_attempt (load_pack env dir) s))" for dir
    by (rule so_result) (rule so_attempt [OF so_load])
  have "?P (snd (sv_bind (sv_attempt (load_pack env dir)) (\<lambda>r. case r of
              Inl e \<Rightarrow> sv_return (failed_install (source_name so) [] [e])
            | Inr p \<Rightarrow> finish_install env p src ref eff) s))" for dir src ref eff
  proof -
    obtain r t where r: "sv_attempt (load_pack env dir) s = (Inr r, t)"
      by (cases "load_pack env dir s") (simp add: sv_attempt_def)
    with load [of dir] have "skills_only s t" by simp
    with r finish [of t] show ?thesis by (cases r) (simp_all add: sv_bind_def sv_return_def)
  qed
  then show ?thesis
    by (auto simp: install_def sv_bind_def [of sv_get] sv_bind_def [of "sv_lift _"] sv_get_def sv_lift_def sv_return_def so_refl
        split: sum.split option.split prod.split)
qed
lemma replaces_after:
  assumes "skills_only s t" and "replaces_pack n t u"
  shows "replaces_pack n s u"
proof -
  from assms(1) obtain k where t: "t = s\<lparr>rg_skills := k\<rparr>" by (auto simp: skills_only_def)
  from assms(2) obtain p k' where p: "od_get (rg_installed t) n \<noteq> None" "pk_name p = n"
    "check_dependents_compatible (rg_installed t) n (pk_version p) = []"
    "u = t\<lparr>rg_skills := k', rg_installed := od_put n p (rg_installed t)\<rparr>" unfolding replaces_pack_def by blast
  with t show ?thesis unfolding replaces_pack_def by (intro exI [of _ p] exI [of _ k']) simp
qed

lemma failed_unregister: "skills_only s (snd (sv_bind (unregister_pack_skills env p) (\<lambda>_. sv_return a) s))"
  by (rule so_result) (rule so_bind [OF so_unregister so_pure(1)])

lemma finish_upgrade_cases:
  assumes "od_get (rg_installed s) n \<noteq> None"
  shows "skills_only s (snd (finish_upgrade env n target old p s)) \<or> replaces_pack n s (snd (finish_upgrade env n target old p s))"
proof (cases "pk_name p \<noteq> n \<or> target \<noteq> None \<and> the target \<noteq> [] \<and> pk_version p \<noteq> the target")
  case True
  then have "snd (finish_upgrade env n target old p s) = s"
    by (simp add: finish_upgrade_def sv_return_def)
  then show ?thesis by (simp add: so_refl)
next
  case False
  then have ok: "\<not> pk_name p \<noteq> n" "\<not> (target \<noteq> None \<and> the target \<noteq> [] \<and> pk_version p \<noteq> the target)" by blast+
  let ?errors = "check_dependents_compatible (rg_installed s) n (pk_version p)"
  show ?thesis
  proof (cases "?errors = []")
    case True
    let ?p = "p\<lparr>pk_source := pk_source old, pk_reference := pk_reference old, pk_provenance := pk_provenance old\<rparr>"
    from False True have "snd (finish_upgrade env n target old p s) =
        s\<lparr>rg_skills := skills_left env old s, rg_installed := od_put n ?p (rg_installed s)\<rparr>"
      unfolding finish_upgrade_def if_not_P [OF ok(1)] if_not_P [OF ok(2)]
      by (simp add: get_then unregister_then put_then sv_return_def)
    with assms False True show ?thesis unfolding replaces_pack_def
      by (intro disjI2 exI [of _ ?p] exI [of _ "skills_left env old s"]) simp
  next
    case errors: False
    with False have "finish_upgrade env n target old p s =
        sv_bind (unregister_pack_skills env p) (\<lambda>_. sv_return (failed_install n (pk_version p) ?errors)) s"
      unfolding finish_upgrade_def if_not_P [OF ok(1)] if_not_P [OF ok(2)] by (simp add: get_then)
    then show ?thesis using failed_unregister [of s env p "failed_install n (pk_version p) ?errors"] by simp
  qed
qed

lemma upgrade_cases: "skills_only s (snd (upgrade env n dir target s)) \<or> replaces_pack n s (snd (upgrade env n dir target s))"
proof (cases "od_get (rg_installed s) n")
  case None
  then show ?thesis by (simp add: upgrade_def sv_bind_def sv_get_def sv_return_def so_refl)
next
  case (Some old)
  obtain r t where r: "sv_attempt (load_pack env dir) s = (Inr r, t)"
    by (cases "load_pack env dir s") (simp add: sv_attempt_def)
  have t: "skills_only s t" using so_result [OF so_attempt [OF so_load], of s env dir] r by simp
  show ?thesis
  proof (cases r)
    case (Inl e)
    with Some r t show ?thesis by (simp add: upgrade_def sv_bind_def sv_get_def sv_return_def)
  next
    case (Inr p)
    with Some r have "upgrade env n dir target s = finish_upgrade env n target old p t"
      by (simp add: upgrade_def sv_bind_def sv_get_def)
    moreover have "od_get (rg_installed t) n \<noteq> None" using Some skills_only_field [OF t] by simp
    ultimately show ?thesis using finish_upgrade_cases [of t n env target old p] t by (auto intro: so_trans replaces_after)
  qed
qed
section \<open>Well-formedness is kept\<close>

lemma ok_adds: "adds_pack s t \<Longrightarrow> registry_ok s \<Longrightarrow> registry_ok t"
  by (auto simp: adds_pack_def registry_ok_def od.wf_put keyed_put names_put)

lemma ok_replaces: "replaces_pack n s t \<Longrightarrow> registry_ok s \<Longrightarrow> registry_ok t"
  by (auto simp: replaces_pack_def registry_ok_def od.wf_put keyed_put names_put)

lemma ok_skills_only: "skills_only s t \<Longrightarrow> registry_ok s \<Longrightarrow> registry_ok t"
  by (auto simp: skills_only_def ok_skills)

lemma installed_name: "registry_ok s \<Longrightarrow> od_get (rg_installed s) n = Some p \<Longrightarrow> pk_name p = n"
  by (auto simp: registry_ok_def list_all_iff dest!: map_of_SomeD)

lemma ok_put_pack: "keeps registry_ok (put_pack (pk_name p) p)"
  unfolding put_pack_def by (rule keeps_modify) (simp add: ok_put)

lemma ok_restamp: "keeps registry_ok (restamp n src ref prov)"
  unfolding restamp_def by (rule keeps_modify) (auto simp: ok_put installed_name split: option.split)

lemma ok_discover_entries: "keeps registry_ok (discover_entries env dirs)"
proof (induction dirs)
  case (Cons dir dirs)
  show ?case
    by (auto intro!: keeps_intro Cons ok_put_pack ok_keeps [OF so_attempt [OF so_load]] split: sum.split)
qed (simp add: keeps_return)

lemma ok_discover: "keeps registry_ok (discover env entries)"
  unfolding discover_def by (auto intro!: keeps_intro ok_discover_entries split: option.split)

lemma ok_install: "keeps registry_ok (install env so prov key)"
  unfolding keeps_def using install_cases ok_adds ok_skills_only by blast

lemma ok_upgrade: "keeps registry_ok (upgrade env n dir target)"
  unfolding keeps_def using upgrade_cases ok_replaces ok_skills_only by blast

lemma ok_upgrade_from: "keeps registry_ok (upgrade_from_source env n so prov key)"
  unfolding upgrade_from_source_def Let_def
  by (intro keeps_bind keeps_get) (auto intro!: keeps_intro ok_upgrade ok_restamp split: option.split sum.split)

lemma ok_uninstall: "keeps registry_ok (uninstall env n)"
proof -
  have "registry_ok (s\<lparr>rg_installed := od_del n (rg_installed s), rg_enabled := discard_everywhere n (rg_enabled s),
      rg_sessions := discard_everywhere n (rg_sessions s)\<rparr>)" if "registry_ok s" for s
    using that by (simp add: registry_ok_def od.wf_del keyed_del names_discard)
  then show ?thesis
    unfolding uninstall_def
    by (intro keeps_bind keeps_get) (auto intro!: keeps_intro ok_keeps [OF so_unregister] split: option.split)
qed

lemma require_then: "sv_bind (require_installed n) f s = (if od_get (rg_installed s) n = None then (Inl (NotInstalled n), s) else f () s)"
  by (simp add: require_installed_def sv_bind_def sv_get_def sv_raise_def sv_return_def)

lemma modify_snd: "snd (sv_bind (sv_modify f) (\<lambda>_. sv_return a) s) = f s" "snd (sv_modify f s) = f s"
  by (simp_all add: sv_bind_def sv_modify_def sv_return_def)

lemma names_at_all: "names_installed i m \<Longrightarrow> list_all (\<lambda>n. od_get i n \<noteq> None) (names_at m k)"
  using names_at_installed by (fastforce simp: list_all_iff)

lemma ok_enable: "keeps registry_ok (enable n t)" "keeps registry_ok (disable n t)"
proof -
  have ins: "list_all (\<lambda>n. od_get i n \<noteq> None) (List.insert n (names_at m k))"
    if "names_installed i m" "od_get i n \<noteq> None" for i and m :: "(string, string list) odict" and k
    using names_at_all [OF that(1)] that(2) by (auto simp: list_all_iff)
  have rem: "list_all (\<lambda>n. od_get i n \<noteq> None) (removeAll n (names_at m k))"
    if "names_installed i m" for i and m :: "(string, string list) odict" and k
    using names_at_all [OF that] by (auto simp: list_all_iff)
  show "keeps registry_ok (enable n t)" "keeps registry_ok (disable n t)"
    unfolding keeps_def enable_def disable_def require_then
    using ins rem by (auto simp: modify_snd registry_ok_def intro!: names_insert simp del: not_None_eq not_Some_eq)
qed

lemma ok_matrix: "keeps registry_ok (apply_enablement_matrix m)"
proof -
  have "keeps registry_ok (apply_tenant_map n ts)" for n ts
    by (induction n ts rule: apply_tenant_map.induct) (auto intro!: keeps_intro ok_enable)
  moreover have "keeps registry_ok (require_installed n)" for n
    unfolding require_installed_def by (intro keeps_bind keeps_get) (auto intro: keeps_intro)
  ultimately show ?thesis by (induction m rule: apply_enablement_matrix.induct) (auto intro!: keeps_intro)
qed

lemma ok_record: "registry_ok (record_activation n ses a s) = registry_ok s"
  by (simp add: registry_ok_def record_activation_def Let_def)

lemma ok_clear: "registry_ok s \<Longrightarrow> registry_ok (clear_session ses s)"
  by (simp add: registry_ok_def clear_session_def names_del)

lemma ok_session: "keeps registry_ok (enable_for_session n ses a)" "keeps registry_ok (disable_for_session n ses)"
proof -
  show "keeps registry_ok (enable_for_session n ses a)"
    unfolding keeps_def enable_for_session_def require_then
    by (auto simp: modify_snd ok_record sv_raise_def split: option.split) (auto simp: registry_ok_def list_all_iff intro!: names_insert dest: names_at_installed)
  have put: "registry_ok (s\<lparr>rg_sessions := od_put ses (removeAll n (names_at (rg_sessions s) ses)) (rg_sessions s)\<rparr>)"
    if "registry_ok s" for s
    using that by (auto simp: registry_ok_def list_all_iff intro!: names_insert dest: names_at_installed)
  have none: "registry_ok (s\<lparr>rg_sessions := od_put ses [] (rg_sessions s)\<rparr>)" if "registry_ok s" for s
    using that by (auto simp: registry_ok_def intro!: names_insert)
  have other: "registry_ok (s\<lparr>rg_sources := a, rg_sequence := b\<rparr>) = registry_ok s" for s a b by (simp add: registry_ok_def)
  show "keeps registry_ok (disable_for_session n ses)"
    unfolding keeps_def disable_for_session_def require_then
    by (auto simp: modify_snd Let_def other put none intro!: ok_clear)
qed
lemma ok_step: "registry_ok s \<Longrightarrow> registry_ok (pr_run x s)"
proof -
  have void: "keeps registry_ok (sv_void m)" if "keeps registry_ok m" for m :: "'a packs_svc"
    using that by (simp add: keeps_def)
  have policy: "keeps registry_ok (set_trust_policy p)" for p
    unfolding set_trust_policy_def by (rule keeps_modify) (simp add: registry_ok_def)
  have clear: "keeps registry_ok (clear_session_state ses)" for ses
    unfolding clear_session_state_def by (rule keeps_modify) (rule ok_clear)
  have dry: "keeps registry_ok (dry_run n agent ses)" for n agent ses
    unfolding keeps_def dry_run_def require_then by (simp add: get_then Let_def sv_return_def)
  have "keeps registry_ok (pr_exec env y)" for env y
    by (cases y) (auto intro!: void ok_discover ok_install ok_uninstall ok_upgrade ok_upgrade_from ok_enable ok_matrix ok_session
        policy clear dry)
  then show "registry_ok s \<Longrightarrow> registry_ok (pr_run x s)" by (simp add: pr_run_def keeps_def)
qed

lemma ok_blank: "registry_ok (blank_registry policy)"
  by (simp add: registry_ok_def blank_registry_def names_installed_def od_wf_def od_keys_def)

lemma ok_history: "registry_ok s \<Longrightarrow> registry_ok (fold pr_run xs s)"
  by (rule fold_invariant) (auto intro: ok_step)

text \<open>After any history of a new registry, with any change of the file system and the marketplace in between, packs are
  stored once and under their own names, and every pack that is enabled for a tenant or a session is installed.\<close>

theorem enabled_packs_are_installed:
  "let s = fold pr_run xs (blank_registry policy) in
   distinct (od_keys (rg_installed s)) \<and> list_all (\<lambda>(n, p). pk_name p = n) (rg_installed s) \<and>
   list_all (\<lambda>(tenant, ns). list_all (\<lambda>n. od_get (rg_installed s) n \<noteq> None) ns) (rg_enabled s) \<and>
   list_all (\<lambda>(session, ns). list_all (\<lambda>n. od_get (rg_installed s) n \<noteq> None) ns) (rg_sessions s)"
  using ok_history [OF ok_blank, of xs policy] unfolding registry_ok_def names_installed_def od_wf_def Let_def by blast

section \<open>Dependencies\<close>

definition dep_met :: "(string, pack) odict \<Rightarrow> pack_dependency \<Rightarrow> bool" where
  "dep_met i dep \<longleftrightarrow> (\<exists>q v. od_get i (pd_name dep) = Some q \<and> version_parse (pk_version q) = Inr v \<and> accepts (pd_constraint dep) v)"

definition deps_met :: "(string, pack) odict \<Rightarrow> pack \<Rightarrow> bool" where
  "deps_met i p \<longleftrightarrow> (\<forall>dep \<in> set (pk_deps p). dep_met i dep)"

definition all_met_but :: "string set \<Rightarrow> registry \<Rightarrow> bool" where
  "all_met_but X s \<longleftrightarrow> (\<forall>n p. od_get (rg_installed s) n = Some p \<longrightarrow> n \<in> X \<or> deps_met (rg_installed s) p)"

lemma check_dependency_met: "check_dependency i dep = [] \<longleftrightarrow> dep_met i dep"
  by (auto simp: check_dependency_def dep_met_def accepts_def split: option.split sum.split)

lemma check_met: "check_dependencies_met i p = [] \<longleftrightarrow> deps_met i p"
  by (simp add: check_dependencies_met_def deps_met_def check_dependency_met)

lemma dependent_accepts:
  assumes "check_dependent n v (m, p) = []" "m \<noteq> n" "dep \<in> set (pk_deps p)" "pd_name dep = n"
  shows "accepts (pd_constraint dep) v"
proof -
  let ?f = "\<lambda>d. if pd_name d \<noteq> n then []
      else case constraint_parse (pd_constraint d) of Inl _ \<Rightarrow> [BadConstraint n]
        | Inr c \<Rightarrow> if \<not> satisfies c v then [BreaksDependent m] else []"
  from assms(1) have "List.concat (List.map ?f (pk_deps p)) = []"
    unfolding check_dependent_def fst_conv snd_conv if_not_P [OF assms(2)] .
  then have "?f dep = []" using assms(3) by (simp only: concat_eq_Nil_conv set_map ball_simps)
  with assms(4) show ?thesis by (simp add: accepts_def split: sum.splits if_splits)
qed

lemma dependents_accept:
  assumes "check_dependents_compatible i n w = []"
  shows "\<exists>v. version_parse w = Inr v \<and>
    (\<forall>m p dep. od_get i m = Some p \<longrightarrow> m \<noteq> n \<longrightarrow> dep \<in> set (pk_deps p) \<longrightarrow> pd_name dep = n \<longrightarrow> accepts (pd_constraint dep) v)"
proof (cases "version_parse w")
  case (Inr v)
  with assms have "\<forall>x \<in> set i. check_dependent n v x = []" by (simp add: check_dependents_compatible_def)
  with Inr show ?thesis by (blast intro: dependent_accepts dest: map_of_SomeD)
qed (use assms in \<open>simp add: check_dependents_compatible_def\<close>)

lemma no_dependents: "find_dependents i n = [] \<Longrightarrow> od_get i m = Some p \<Longrightarrow> m \<noteq> n \<Longrightarrow> dep \<in> set (pk_deps p) \<Longrightarrow> pd_name dep \<noteq> n"
  by (force simp: find_dependents_def filter_empty_conv list_ex_iff dest!: map_of_SomeD)
text \<open>How the changes of the registry act on met dependencies.\<close>

lemma met_adds:
  assumes "adds_pack s t" and "all_met_but X s"
  shows "all_met_but X t"
proof -
  from assms(1) obtain p k where p: "od_get (rg_installed s) (pk_name p) = None" "check_dependencies_met (rg_installed s) p = []"
    and t: "t = s\<lparr>rg_skills := k, rg_installed := od_put (pk_name p) p (rg_installed s)\<rparr>" by (auto simp: adds_pack_def)
  have grow: "dep_met (rg_installed s) dep \<Longrightarrow> dep_met (rg_installed t) dep" for dep
    using p(1) unfolding dep_met_def t by (auto simp: od.get_put)
  moreover have "deps_met (rg_installed s) p" using p(2) by (simp add: check_met)
  ultimately show ?thesis using assms(2) grow unfolding all_met_but_def deps_met_def
    by (simp add: t od.get_put) blast
qed

lemma met_replaces:
  assumes "replaces_pack n s t" and "all_met_but {} s"
  shows "all_met_but {n} t"
proof -
  from assms(1) obtain p k where p: "check_dependents_compatible (rg_installed s) n (pk_version p) = []"
    and t: "t = s\<lparr>rg_skills := k, rg_installed := od_put n p (rg_installed s)\<rparr>" by (auto simp: replaces_pack_def)
  from dependents_accept [OF p] obtain v where v: "version_parse (pk_version p) = Inr v"
    and ok: "\<And>m q dep. od_get (rg_installed s) m = Some q \<Longrightarrow> m \<noteq> n \<Longrightarrow> dep \<in> set (pk_deps q) \<Longrightarrow> pd_name dep = n \<Longrightarrow>
      accepts (pd_constraint dep) v" by blast
  have "dep_met (rg_installed t) dep" if "od_get (rg_installed s) m = Some q" "m \<noteq> n" "dep \<in> set (pk_deps q)" for m q dep
  proof (cases "pd_name dep = n")
    case True
    with ok [OF that] v show ?thesis by (simp add: dep_met_def t)
  next
    case False
    from that assms(2) have "dep_met (rg_installed s) dep" unfolding all_met_but_def deps_met_def by blast
    with False show ?thesis by (simp add: dep_met_def t)
  qed
  then show ?thesis unfolding all_met_but_def deps_met_def by (simp add: t od.get_put)
qed

lemma met_same: "rg_installed t = rg_installed s \<Longrightarrow> all_met_but X t = all_met_but X s"
  by (simp add: all_met_but_def)

lemma met_weaken: "all_met_but {} s \<Longrightarrow> all_met_but X s"
  by (auto simp: all_met_but_def)

lemma met_skills_only: "skills_only s t \<Longrightarrow> all_met_but X s \<Longrightarrow> all_met_but X t"
  by (simp add: met_same [OF skills_only_field])

lemma met_install: "keeps (all_met_but X) (install env so prov key)"
  unfolding keeps_def using install_cases met_adds met_skills_only by blast

lemma met_upgrade: "all_met_but {} s \<Longrightarrow> all_met_but {n} (snd (upgrade env n dir target s))"
  using upgrade_cases met_replaces met_skills_only met_weaken by blast

lemma met_restamp: "keeps (all_met_but {n}) (restamp n src ref prov)"
proof -
  have "all_met_but {n} (s\<lparr>rg_installed := od_put n (p\<lparr>pk_source := src, pk_reference := ref, pk_provenance := prov\<rparr>) (rg_installed s)\<rparr>)"
    if "all_met_but {n} s" "od_get (rg_installed s) n = Some p" for s p
  proof -
    have "dep_met (od_put n (p\<lparr>pk_source := src, pk_reference := ref, pk_provenance := prov\<rparr>) (rg_installed s)) dep =
        dep_met (rg_installed s) dep" for dep
      using that(2) by (auto simp: dep_met_def od.get_put)
    with that show ?thesis by (auto simp: all_met_but_def deps_met_def od.get_put)
  qed
  then show ?thesis unfolding restamp_def by (intro keeps_modify) (simp split: option.split)
qed

lemma met_upgrade_from:
  assumes "all_met_but {} s"
  shows "all_met_but {n} (snd (upgrade_from_source env n so prov key s))"
proof -
  have up: "all_met_but {n} (snd (sv_bind (upgrade env n dir target) (\<lambda>res.
      sv_bind (if ir_success res then restamp n src ref eff else sv_return ()) (\<lambda>_. sv_return res)) s))" for dir target src ref eff
  proof -
    have k: "keeps (all_met_but {n}) (sv_bind (if ir_success res then restamp n src ref eff else sv_return ()) (\<lambda>_. sv_return res))" for res
      by (intro keeps_bind keeps_if met_restamp keeps_return)
    from met_upgrade [OF assms] have m: "all_met_but {n} (snd (upgrade env n dir target s))" .
    show ?thesis
    proof (cases "upgrade env n dir target s")
      case (Pair r t)
      with m have t: "all_met_but {n} t" by simp
      show ?thesis
      proof (cases r)
        case (Inl e)
        with Pair t show ?thesis by (simp add: sv_bind_def [of "upgrade env n dir target"])
      next
        case (Inr res)
        with Pair show ?thesis
          unfolding sv_bind_def [of "upgrade env n dir target"] using keepsD [OF k t] by (simp only: prod.case sum.case)
      qed
    qed
  qed
  show ?thesis
    using met_weaken [OF assms] up
    by (simp add: upgrade_from_source_def get_then Let_def sv_bind_def [of "sv_lift _"] sv_lift_def sv_return_def
        split: option.split sum.split)
qed

lemma uninstall_cases: "rg_installed (snd (uninstall env n s)) = rg_installed s \<or>
    find_dependents (rg_installed s) n = [] \<and> rg_installed (snd (uninstall env n s)) = od_del n (rg_installed s)"
  by (simp add: uninstall_def get_then sv_raise_def unregister_then modify_snd split: option.split)

lemma met_uninstall: "keeps (all_met_but {}) (uninstall env n)"
  unfolding keeps_def
proof (intro allI impI)
  fix s
  assume met: "all_met_but {} s"
  show "all_met_but {} (snd (uninstall env n s))"
    using uninstall_cases [of env n s]
  proof
    assume gone: "find_dependents (rg_installed s) n = [] \<and> rg_installed (snd (uninstall env n s)) = od_del n (rg_installed s)"
    have "dep_met (od_del n (rg_installed s)) dep"
      if "od_get (rg_installed s) m = Some p" "m \<noteq> n" "dep \<in> set (pk_deps p)" for m p dep
    proof -
      have "pd_name dep \<noteq> n" using gone that by (blast dest: no_dependents)
      moreover have "dep_met (rg_installed s) dep" using met that unfolding all_met_but_def deps_met_def by blast
      ultimately show ?thesis by (simp add: dep_met_def od.get_del)
    qed
    with gone show ?thesis unfolding all_met_but_def deps_met_def by (simp add: od.get_del)
  qed (use met met_same in blast)
qed

lemma installed_same:
  "keeps (all_met_but {}) (enable n t)" "keeps (all_met_but {}) (disable n t)"
  "keeps (all_met_but {}) (enable_for_session n ses a)" "keeps (all_met_but {}) (disable_for_session n ses)"
  "keeps (all_met_but {}) (clear_session_state ses)" "keeps (all_met_but {}) (set_trust_policy policy)"
  "keeps (all_met_but {}) (dry_run n agent ses)" "keeps (all_met_but {}) (require_installed n)"
  by (simp_all add: keeps_def enable_def disable_def enable_for_session_def disable_for_session_def clear_session_state_def
      set_trust_policy_def dry_run_def require_then modify_snd get_then Let_def sv_return_def record_activation_def
      clear_session_def all_met_but_def sv_raise_def split: option.split) (simp add: require_installed_def get_then sv_raise_def sv_return_def)

lemma met_matrix: "keeps (all_met_but {}) (apply_enablement_matrix m)"
proof -
  have "keeps (all_met_but {}) (apply_tenant_map n ts)" for n ts
    by (induction n ts rule: apply_tenant_map.induct) (auto intro!: keeps_intro installed_same)
  then show ?thesis by (induction m rule: apply_enablement_matrix.induct) (auto intro!: keeps_intro installed_same)
qed

text \<open>
  Discovery checks no dependency, and an upgrade checks those of the other packs only.  \<open>careful\<close> is what the caller has to
  see to: no discovery, and after an upgrade the pack's own dependencies are met.
\<close>

definition deps_met_of :: "string \<Rightarrow> (string, pack) odict \<Rightarrow> bool" where
  "deps_met_of n i = (case od_get i n of None \<Rightarrow> True | Some p \<Rightarrow> check_dependencies_met i p = [])"

definition careful :: "pack_env \<times> pr_op \<Rightarrow> registry \<Rightarrow> bool" where
  "careful x s = (case snd x of
      PrDiscover entries \<Rightarrow> False
    | PrUpgrade n dir target \<Rightarrow> deps_met_of n (rg_installed (pr_run x s))
    | PrUpgradeFrom n so prov key \<Rightarrow> deps_met_of n (rg_installed (pr_run x s))
    | _ \<Rightarrow> True)"

lemma met_step: "careful x s \<Longrightarrow> all_met_but {} s \<Longrightarrow> all_met_but {} (pr_run x s)"
proof -
  assume ok: "careful x s" and met: "all_met_but {} s"
  obtain env oper where x: "x = (env, oper)" by fastforce
  have own: "all_met_but {} t" if "all_met_but {n} t" "deps_met_of n (rg_installed t)" for n t
    using that unfolding all_met_but_def deps_met_of_def check_met by (metis option.simps(5) singletonD)
  show ?thesis
  proof (cases oper)
    case (PrUpgrade n dir target)
    with ok own met_upgrade [OF met, of n env dir target] x show ?thesis by (simp add: careful_def pr_run_def)
  next
    case (PrUpgradeFrom n so prov key)
    with ok own met_upgrade_from [OF met, of n env so prov key] x show ?thesis by (simp add: careful_def pr_run_def)
  next
    case (PrMatrix m)
    with met x show ?thesis by (simp add: pr_run_def keepsD [OF met_matrix])
  qed (use ok met x in \<open>simp_all add: careful_def pr_run_def keepsD [OF installed_same(1)] keepsD [OF installed_same(2)]
      keepsD [OF installed_same(3)] keepsD [OF installed_same(4)] keepsD [OF installed_same(5)] keepsD [OF installed_same(6)]
      keepsD [OF installed_same(7)] keepsD [OF met_install] keepsD [OF met_uninstall]\<close>)
qed

lemma met_history: "allowed careful pr_run xs s \<Longrightarrow> all_met_but {} s \<Longrightarrow> all_met_but {} (fold pr_run xs s)"
  by (induction xs arbitrary: s) (auto intro: met_step)

text \<open>C23: A history that starts with a new registry, discovers nothing, and upgrades packs only to versions whose own
  dependencies are met leaves every dependency of every installed pack met: the pack it names is installed, at a version
  that its constraint accepts.  Installation, removal and the check of an upgrade against the dependents see to it.\<close>

theorem dependencies_stay_met:
  assumes "allowed careful pr_run xs (blank_registry policy)"
    and "od_get (rg_installed (fold pr_run xs (blank_registry policy))) n = Some p" and "dep \<in> set (pk_deps p)"
  shows "\<exists>q v. od_get (rg_installed (fold pr_run xs (blank_registry policy))) (pd_name dep) = Some q \<and>
    version_parse (pk_version q) = Inr v \<and> accepts (pd_constraint dep) v"
proof -
  have "all_met_but {} (blank_registry policy)" by (simp add: all_met_but_def blank_registry_def)
  from met_history [OF assms(1) this] assms(2,3) show ?thesis unfolding all_met_but_def deps_met_def dep_met_def by blast
qed

section \<open>A concrete file system\<close>

definition plain_manifest :: "string \<Rightarrow> string \<Rightarrow> pack_dependency list \<Rightarrow> manifest" where
  "plain_manifest n v deps = \<lparr>mf_name = n, mf_version = v, mf_description = [], mf_author = [], mf_tags = [], mf_category = [],
     mf_skills = [\<lparr>se_name = ''run'', se_path = ''run'', se_description = [], se_required = True\<rparr>],
     mf_deps = deps, mf_addenda = [], mf_tools = []\<rparr>"

definition plain_dir :: "path \<Rightarrow> manifest \<Rightarrow> dir_view" where
  "plain_dir dir m = \<lparr>dv_is_dir = True, dv_manifest = ManifestFile m,
     dv_skill = (\<lambda>_. SkillFile \<lparr>sk_name = ''run'', sk_version = mf_version m, sk_description = [], sk_base = Some (dir @ ''/run'')\<rparr>),
     dv_checksums = None, dv_file = (\<lambda>_. FileAbsent), dv_checksum = []\<rparr>"

text \<open>Directories \<open>lib1\<close> and \<open>lib2\<close> hold two versions of a library, \<open>app\<close> and \<open>app2\<close> two versions of a pack
  that needs it; the second wants a pack that exists nowhere.\<close>

definition demo_view :: "path \<Rightarrow> dir_view" where
  "demo_view dir =
     (if dir = ''lib1'' then plain_dir dir (plain_manifest ''lib'' ''1.0.0'' [])
      else if dir = ''lib2'' then plain_dir dir (plain_manifest ''lib'' ''2.0.0'' [])
      else if dir = ''app2'' then plain_dir dir (plain_manifest ''app'' ''2.0.0'' [\<lparr>pd_name = ''nowhere'', pd_constraint = ''*''\<rparr>])
      else plain_dir dir (plain_manifest ''app'' ''1.0.0'' [\<lparr>pd_name = ''lib'', pd_constraint = ''>=1.0.0,<2.0.0''\<rparr>]))"

definition packs_env :: pack_env where
  "packs_env = \<lparr>pe_view = demo_view, pe_market = None, pe_resolve = (\<lambda>p. py_split (CHR ''/'') p), pe_verify = (\<lambda>_ _ _. False)\<rparr>"

definition from_dir :: "path \<Rightarrow> pack_source" where
  "from_dir dir = \<lparr>so_type = SourceLocal, so_path = dir, so_name = [], so_version = []\<rparr>"

definition lax_policy :: trust_policy where
  "lax_policy = \<lparr>tp_require_signature = False, tp_min_trust = TL_Untrusted, tp_signers = []\<rparr>"

definition packs_run :: "pr_op list \<Rightarrow> registry" where
  "packs_run ops = fold pr_run (List.map (Pair packs_env) ops) (blank_registry lax_policy)"

definition demo_ops :: "pr_op list" where
  "demo_ops = [PrInstall (from_dir ''app'') None [], PrInstall (from_dir ''lib1'') None [], PrInstall (from_dir ''app'') None [],
     PrUninstall ''lib'', PrUpgrade ''lib'' ''lib2'' None]"

lemma demo_careful: "allowed careful pr_run (List.map (Pair packs_env) demo_ops) (blank_registry lax_policy)"
  by code_simp

lemma demo_app: "(case od_get (rg_installed (packs_run demo_ops)) ''app'' of None \<Rightarrow> False
    | Some p \<Rightarrow> pk_deps p = [\<lparr>pd_name = ''lib'', pd_constraint = ''>=1.0.0,<2.0.0''\<rparr>])"
  by code_simp

theorem dependencies_stay_met_witness:
  "\<exists>q v. od_get (rg_installed (packs_run demo_ops)) ''lib'' = Some q \<and> version_parse (pk_version q) = Inr v \<and>
     accepts ''>=1.0.0,<2.0.0'' v"
proof -
  obtain p where p: "od_get (rg_installed (packs_run demo_ops)) ''app'' = Some p"
      "pk_deps p = [\<lparr>pd_name = ''lib'', pd_constraint = ''>=1.0.0,<2.0.0''\<rparr>]"
    using demo_app by (auto split: option.splits)
  then show ?thesis
    using dependencies_stay_met [OF demo_careful, of "''app''" p "\<lparr>pd_name = ''lib'', pd_constraint = ''>=1.0.0,<2.0.0''\<rparr>"]
    by (simp add: packs_run_def)
qed

section \<open>What the code allows\<close>

definition installed_versions :: "registry \<Rightarrow> (string \<times> string) list" where
  "installed_versions s = List.map (\<lambda>(n, p). (n, pk_version p)) (rg_installed s)"

text \<open>An upgrade does not look at the dependencies of the new version: \<open>app\<close> ends at a version whose dependency is not
  installed, which an installation would have refused.\<close>

lemma upgrade_ignores_own_dependencies:
  "installed_versions (packs_run [PrInstall (from_dir ''lib1'') None [], PrInstall (from_dir ''app'') None [],
     PrUpgrade ''app'' ''app2'' None]) = [(''lib'', ''1.0.0''), (''app'', ''2.0.0'')]"
  "installed_versions (packs_run [PrInstall (from_dir ''lib1'') None [], PrInstall (from_dir ''app2'') None []]) = [(''lib'', ''1.0.0'')]"
  by (code_simp, code_simp)

text \<open>A successful upgrade registers the new skills and then removes the old ones by name; the names are the same, so the
  qualified skills of the upgraded pack are gone.  A refused upgrade and a refused second installation remove or replace the
  skills of the pack that stays installed.\<close>

lemma upgrade_loses_skills:
  "od_keys (rg_skills (packs_run [PrInstall (from_dir ''lib1'') None []])) = [''lib/run'', ''run'']"
  "od_keys (rg_skills (packs_run [PrInstall (from_dir ''lib1'') None [], PrUpgrade ''lib'' ''lib2'' None])) = []"
  by (code_simp, code_simp)

lemma refused_upgrade_loses_skills:
  "od_keys (rg_skills (packs_run [PrInstall (from_dir ''lib1'') None [], PrInstall (from_dir ''app'') None [],
     PrUpgrade ''lib'' ''lib2'' None])) = [''run'', ''app/run'']"
  "installed_versions (packs_run [PrInstall (from_dir ''lib1'') None [], PrInstall (from_dir ''app'') None [],
     PrUpgrade ''lib'' ''lib2'' None]) = [(''lib'', ''1.0.0''), (''app'', ''1.0.0'')]"
  by (code_simp, code_simp)

lemma refused_install_replaces_skills:
  "List.map (\<lambda>(n, sk). (n, sk_version sk)) (rg_skills (packs_run [PrInstall (from_dir ''lib1'') None [], PrInstall (from_dir ''lib2'') None []])) =
     [(''lib/run'', ''2.0.0''), (''run'', ''1.0.0'')]"
  "installed_versions (packs_run [PrInstall (from_dir ''lib1'') None [], PrInstall (from_dir ''lib2'') None []]) = [(''lib'', ''1.0.0'')]"
  by (code_simp, code_simp)

text \<open>A policy that requires a signature is met by any provenance when no key is given: the signature is not verified.\<close>

lemma unverified_signature_accepted:
  "installed_versions (packs_run [PrPolicy (lax_policy\<lparr>tp_require_signature := True\<rparr>),
     PrInstall (from_dir ''lib1'') (Some \<lparr>pv_signer = ''me'', pv_signature = ''forged'', pv_algorithm = ''hmac-sha256'',
       pv_trust = TL_Official\<rparr>) []]) = [(''lib'', ''1.0.0'')]"
  by code_simp

end
