(* ===== verification/Ingestion.thy ===== *)
theory Ingestion
  imports Lifecycle PyText
begin

text \<open>
  The candidate asset pipeline (\<open>agent33/ingestion\<close>): the lifecycle of an asset (\<open>state_machine.py\<close>), its table in the
  database (\<open>persistence.py\<close>), the transition journal (\<open>journal.py\<close>), notification hooks (\<open>notifications.py\<close>), the service
  over them (\<open>service.py\<close>), the intake pipeline (\<open>intake.py\<close>) and the mailbox (\<open>mailbox.py\<close>,
  \<open>mailbox_persistence.py\<close>).

  A clock reading (microseconds) and the ids drawn are arguments; a call reads the clock once.  A row of a table is the
  record stored in it: the conversion to text columns and back is not modelled.  A closed connection makes the tables
  ignore writes and read as empty, as the handlers of \<open>ProgrammingError\<close> do.  HTTP, the HMAC, the JSON text of a payload
  and the parsers of skill definitions are fields of the environment.
\<close>

section \<open>Assets and their lifecycle\<close>

datatype meta = MetaBool bool | MetaText string | MetaNull | MetaOther string

type_synonym meta_dict = "(string, meta) odict"

datatype candidate_status = CT_Candidate | CT_Validated | CT_Published | CT_Revoked

datatype confidence = CF_High | CF_Medium | CF_Low

record asset =
  as_id :: string
  as_name :: string
  as_type :: string
  as_status :: candidate_status
  as_confidence :: confidence
  as_source :: "string option"
  as_tenant :: string
  as_created :: int
  as_updated :: int
  as_validated :: "int option"
  as_published :: "int option"
  as_revoked :: "int option"
  as_reason :: "string option"
  as_metadata :: meta_dict

fun candidate_table :: "candidate_status \<Rightarrow> candidate_status list" where
  "candidate_table CT_Candidate = [CT_Validated, CT_Revoked]"
| "candidate_table CT_Validated = [CT_Published, CT_Revoked]"
| "candidate_table CT_Published = [CT_Revoked]"
| "candidate_table CT_Revoked = []"

datatype ingest_error =
    NoAsset string
  | BadMove candidate_status candidate_status
  | InvalidAsset
  | UnknownConfidence string
  | NoNameGiven
  | BadEventType
  | BadPayload

definition candidate_move :: "candidate_status \<Rightarrow> candidate_status \<Rightarrow> ingest_error + candidate_status" where
  "candidate_move s t = (if t \<notin> set (candidate_table s) then Inl (BadMove s t) else Inr t)"

definition transition :: "int \<Rightarrow> asset \<Rightarrow> candidate_status \<Rightarrow> string option \<Rightarrow> ingest_error + asset" where
  "transition now a target reason = (case candidate_move (as_status a) target of
      Inl e \<Rightarrow> Inl e
    | Inr _ \<Rightarrow>
        let a = a\<lparr>as_status := target, as_updated := now\<rparr> in
        Inr (if target = CT_Validated then a\<lparr>as_validated := Some now\<rparr>
          else if target = CT_Published then a\<lparr>as_published := Some now\<rparr>
          else if target = CT_Revoked
          then a\<lparr>as_revoked := Some now, as_reason := (case reason of None \<Rightarrow> as_reason a | Some r \<Rightarrow> Some r)\<rparr>
          else a))"

definition flag :: "string \<Rightarrow> meta_dict \<Rightarrow> bool" where
  "flag key m \<longleftrightarrow> od_get m key = Some (MetaBool True)"

section \<open>The table of candidates\<close>

record asset_db =
  db_rows :: "(string, asset) odict"
  db_open :: bool

text \<open>\<open>INSERT OR REPLACE\<close> deletes the old row and appends the new one.\<close>

definition db_save :: "asset \<Rightarrow> asset_db \<Rightarrow> asset_db" where
  "db_save a db = (if db_open db then db\<lparr>db_rows := od_del (as_id a) (db_rows db) @ [(as_id a, a)]\<rparr> else db)"

definition db_delete :: "string \<Rightarrow> asset_db \<Rightarrow> asset_db" where
  "db_delete i db = (if db_open db then db\<lparr>db_rows := od_del i (db_rows db)\<rparr> else db)"

definition db_load :: "string \<Rightarrow> asset_db \<Rightarrow> asset option" where
  "db_load i db = (if db_open db then od_get (db_rows db) i else None)"

definition load_by_status :: "candidate_status \<Rightarrow> asset_db \<Rightarrow> asset list" where
  "load_by_status st db =
     (if db_open db then sort_key as_created (filter (\<lambda>a. as_status a = st) (od_vals (db_rows db))) else [])"

definition load_by_tenant :: "string \<Rightarrow> asset_db \<Rightarrow> asset list" where
  "load_by_tenant tenant db =
     (if db_open db then sort_key as_created (filter (\<lambda>a. as_tenant a = tenant) (od_vals (db_rows db))) else [])"

definition db_close :: "asset_db \<Rightarrow> asset_db" where
  "db_close db = db\<lparr>db_open := False\<rparr>"

section \<open>The journal\<close>

record journal_entry =
  je_asset :: string
  je_tenant :: string
  je_from :: candidate_status
  je_to :: candidate_status
  je_event :: string
  je_operator :: string
  je_reason :: string
  je_details :: meta_dict
  je_at :: int

record journal =
  jn_rows :: "journal_entry list"
  jn_entries :: "journal_entry list"
  jn_retention :: "int option"
  jn_cleaned :: "int option"
  jn_open :: bool

definition day :: int where
  "day = 86400000000"

text \<open>\<open>_CLEANUP_INTERVAL_SECONDS\<close>\<close>

definition cleanup_interval :: int where
  "cleanup_interval = 300000000"

definition retention :: "int option \<Rightarrow> journal \<Rightarrow> int option" where
  "retention days j = (case days of None \<Rightarrow> jn_retention j | Some d \<Rightarrow> Some d)"

definition cleanup_expired :: "int \<Rightarrow> int option \<Rightarrow> journal \<Rightarrow> nat \<times> journal" where
  "cleanup_expired now days j = (case retention days j of
      None \<Rightarrow> (0, j)
    | Some d \<Rightarrow>
        if d \<le> 0 \<or> \<not> jn_open j then (0, j)
        else let cutoff = now - d * day;
                 kept = filter (\<lambda>e. \<not> je_at e < cutoff) (jn_rows j);
                 deleted = length (jn_rows j) - length kept;
                 j = j\<lparr>jn_rows := kept, jn_cleaned := Some now\<rparr>
          in (deleted, if 0 < deleted then j\<lparr>jn_entries := filter (\<lambda>e. cutoff \<le> je_at e) (jn_entries j)\<rparr> else j))"

definition cleanup_if_due :: "int \<Rightarrow> journal \<Rightarrow> journal" where
  "cleanup_if_due now j = (case retention None j of
      None \<Rightarrow> j
    | Some d \<Rightarrow>
        if d \<le> 0 then j
        else (case jn_cleaned j of
            None \<Rightarrow> snd (cleanup_expired now None j)
          | Some t \<Rightarrow> if now - t < cleanup_interval then j else snd (cleanup_expired now None j)))"

definition record_entry ::
  "int \<Rightarrow> asset \<Rightarrow> candidate_status \<Rightarrow> string \<Rightarrow> string \<Rightarrow> string \<Rightarrow> meta_dict \<Rightarrow> journal \<Rightarrow> journal" where
  "record_entry now a from_status operator reason event details j0 =
     (let j = cleanup_if_due now j0;
          e = \<lparr>je_asset = as_id a, je_tenant = as_tenant a, je_from = from_status, je_to = as_status a, je_event = event,
               je_operator = operator, je_reason = reason, je_details = details, je_at = now\<rparr>
      in j\<lparr>jn_rows := (if jn_open j then jn_rows j @ [e] else jn_rows j), jn_entries := jn_entries j @ [e]\<rparr>)"

definition record_event :: "int \<Rightarrow> asset \<Rightarrow> string \<Rightarrow> string \<Rightarrow> string \<Rightarrow> meta_dict \<Rightarrow> journal \<Rightarrow> journal" where
  "record_event now a event operator reason details = record_entry now a (as_status a) operator reason event details"

definition entries_for :: "int \<Rightarrow> string \<Rightarrow> journal \<Rightarrow> journal_entry list \<times> journal" where
  "entries_for now i j0 = (let j = cleanup_if_due now j0 in (filter (\<lambda>e. je_asset e = i) (jn_entries j), j))"

definition entries_for_tenant :: "int \<Rightarrow> string \<Rightarrow> int \<Rightarrow> journal \<Rightarrow> journal_entry list \<times> journal" where
  "entries_for_tenant now tenant limit j0 =
     (let j = cleanup_if_due now j0
      in (py_take limit (sort_desc je_at (filter (\<lambda>e. je_tenant e = tenant) (jn_entries j))), j))"

text \<open>A new journal over the rows of an old one\<close>

definition reopen_journal :: "journal \<Rightarrow> journal" where
  "reopen_journal j = j\<lparr>jn_entries := sort_key je_at (jn_rows j), jn_cleaned := None, jn_open := True\<rparr>"

definition close_journal :: "journal \<Rightarrow> journal" where
  "close_journal j = j\<lparr>jn_open := False\<rparr>"

section \<open>Notification hooks\<close>

datatype notify_event = NE_ReviewRequired | NE_Quarantined | NE_Approved | NE_Rejected

record hook =
  hk_id :: string
  hk_tenant :: string
  hk_name :: string
  hk_url :: string
  hk_events :: "notify_event list"
  hk_secret :: "string option"
  hk_enabled :: bool
  hk_created :: int
  hk_updated :: int
  hk_last_at :: "int option"
  hk_delivered :: "bool option"
  hk_code :: "int option"
  hk_error :: "string option"

record dispatch =
  di_hook :: string
  di_event :: notify_event
  di_delivered :: bool
  di_at :: int
  di_code :: "int option"
  di_error :: "string option"

record message =
  ms_event :: notify_event
  ms_at :: int
  ms_operator :: string
  ms_reason :: string
  ms_path :: string
  ms_asset :: asset
  ms_details :: meta_dict

text \<open>\<open>ie_shown\<close> is \<open>str\<close> of an exception.\<close>

datatype http_answer = HttpFails string | HttpAnswer int string

record run_skill =
  rn_name :: string
  rn_provenance :: string
  rn_category :: string
  rn_body :: string

record ingest_env =
  ie_inline :: "meta_dict \<Rightarrow> unit + run_skill option"
  ie_source :: "string \<Rightarrow> unit + run_skill option"
  ie_post :: "string \<Rightarrow> string \<Rightarrow> (string \<times> string) list \<Rightarrow> http_answer"
  ie_json :: "message \<Rightarrow> string"
  ie_hmac :: "string \<Rightarrow> string \<Rightarrow> string"
  ie_shown :: "ingest_error \<Rightarrow> string"

record request =
  rq_hook :: string
  rq_url :: string
  rq_body :: string
  rq_headers :: "(string \<times> string) list"

definition event_value :: "notify_event \<Rightarrow> string" where
  "event_value e = (case e of NE_ReviewRequired \<Rightarrow> ''review_required'' | NE_Quarantined \<Rightarrow> ''quarantined''
     | NE_Approved \<Rightarrow> ''approved'' | NE_Rejected \<Rightarrow> ''rejected'')"

definition transport_send :: "ingest_env \<Rightarrow> int \<Rightarrow> request \<Rightarrow> notify_event \<Rightarrow> dispatch" where
  "transport_send env now rq event = (case ie_post env (rq_url rq) (rq_body rq) (rq_headers rq) of
      HttpFails e \<Rightarrow> \<lparr>di_hook = rq_hook rq, di_event = event, di_delivered = False, di_at = now, di_code = None, di_error = Some e\<rparr>
    | HttpAnswer code body \<Rightarrow>
        let ok = (200 \<le> code \<and> code < 300) in
        \<lparr>di_hook = rq_hook rq, di_event = event, di_delivered = ok, di_at = now, di_code = Some code,
         di_error = (if ok then None else if body \<noteq> [] then Some (take 500 body) else Some (''HTTP '' @ py_str_int code))\<rparr>)"

definition hook_create :: "int \<Rightarrow> string \<Rightarrow> string \<Rightarrow> string \<Rightarrow> string \<Rightarrow> notify_event list \<Rightarrow> string option \<Rightarrow> bool \<Rightarrow> hook list \<Rightarrow> hook list" where
  "hook_create now i tenant name url events secret enabled hooks = hooks @
     [\<lparr>hk_id = i, hk_tenant = tenant, hk_name = name, hk_url = url, hk_events = events, hk_secret = secret,
       hk_enabled = enabled, hk_created = now, hk_updated = now, hk_last_at = None, hk_delivered = None, hk_code = None,
       hk_error = None\<rparr>]"

definition hooks_of :: "string \<Rightarrow> hook list \<Rightarrow> hook list" where
  "hooks_of tenant hooks = sort_key hk_created (filter (\<lambda>h. hk_tenant h = tenant) hooks)"

definition hook_get :: "string \<Rightarrow> string option \<Rightarrow> hook list \<Rightarrow> hook option" where
  "hook_get i tenant hooks = List.find (\<lambda>h. hk_id h = i \<and> (tenant = None \<or> tenant = Some (hk_tenant h))) hooks"

definition keep_or :: "'a \<Rightarrow> 'a option \<Rightarrow> 'a" where
  "keep_or old new = (case new of None \<Rightarrow> old | Some x \<Rightarrow> x)"

definition hook_update ::
  "int \<Rightarrow> string \<Rightarrow> string option \<Rightarrow> string option \<Rightarrow> string option \<Rightarrow> notify_event list option \<Rightarrow> bool option \<Rightarrow>
   string option \<Rightarrow> bool \<Rightarrow> hook list \<Rightarrow> hook option \<times> hook list" where
  "hook_update now i tenant name url events enabled secret replace_secret hooks = (case hook_get i tenant hooks of
      None \<Rightarrow> (None, hooks)
    | Some h \<Rightarrow>
        let change = (\<lambda>x. x\<lparr>hk_name := keep_or (hk_name h) name, hk_url := keep_or (hk_url h) url,
              hk_events := keep_or (hk_events h) events, hk_secret := (if replace_secret then secret else hk_secret h),
              hk_enabled := keep_or (hk_enabled h) enabled, hk_updated := now\<rparr>)
        in (Some (change h), List.map (\<lambda>x. if hk_id x = i then change x else x) hooks))"

definition record_delivery :: "string \<Rightarrow> dispatch \<Rightarrow> hook list \<Rightarrow> hook list" where
  "record_delivery i d hooks = List.map (\<lambda>h. if hk_id h = i
     then h\<lparr>hk_last_at := Some (di_at d), hk_delivered := Some (di_delivered d), hk_code := di_code d, hk_error := di_error d\<rparr>
     else h) hooks"

definition request_for :: "ingest_env \<Rightarrow> message \<Rightarrow> hook \<Rightarrow> request" where
  "request_for env m h =
     (let body = ie_json env m;
          headers = [(''Content-Type'', ''application/json''), (''X-Agent33-Event-Type'', event_value (ms_event m)),
            (''X-Agent33-Hook-Id'', hk_id h)]
      in \<lparr>rq_hook = hk_id h, rq_url = hk_url h, rq_body = body,
          rq_headers = (case hk_secret h of
              None \<Rightarrow> headers
            | Some s \<Rightarrow> if s = [] then headers else headers @ [(''X-Agent33-Signature'', ''sha256='' @ ie_hmac env s body)])\<rparr>)"

section \<open>The service\<close>

record mail_event =
  me_type :: string
  me_id :: string
  me_received :: int
  me_sender :: string
  me_tenant :: string
  me_body :: string

record mail_db =
  ml_rows :: "mail_event list"
  ml_open :: bool

text \<open>\<open>ig_skills\<close> is the skill registry, \<open>ig_sent\<close> the requests that left the process.\<close>

record ingestion =
  ig_store :: "(string, asset) odict"
  ig_db :: "asset_db option"
  ig_journal :: "journal option"
  ig_hooks :: "hook list option"
  ig_sent :: "request list"
  ig_skills :: "(string, run_skill) odict option"
  ig_inbox :: "(string, mail_event list) odict"
  ig_mail :: "mail_db option"

type_synonym 'a ingest_svc = "(ingestion, ingest_error, 'a) svc"

definition store_asset :: "asset \<Rightarrow> unit ingest_svc" where
  "store_asset a = sv_modify (\<lambda>s. s\<lparr>ig_store := od_put (as_id a) a (ig_store s), ig_db := map_option (db_save a) (ig_db s)\<rparr>)"

definition log_entry :: "(journal \<Rightarrow> journal) \<Rightarrow> unit ingest_svc" where
  "log_entry f = sv_modify (\<lambda>s. s\<lparr>ig_journal := map_option f (ig_journal s)\<rparr>)"

fun deliver :: "ingest_env \<Rightarrow> int \<Rightarrow> message \<Rightarrow> hook list \<Rightarrow> ingestion \<Rightarrow> dispatch list \<times> ingestion" where
  "deliver env now m [] s = ([], s)"
| "deliver env now m (h # hs) s =
     (let rq = request_for env m h;
          d = transport_send env now rq (ms_event m);
          (ds, t) = deliver env now m hs (s\<lparr>ig_sent := ig_sent s @ [rq], ig_hooks := map_option (record_delivery (hk_id h) d) (ig_hooks s)\<rparr>)
      in (d # ds, t))"

definition matching_hooks :: "string \<Rightarrow> notify_event \<Rightarrow> hook list \<Rightarrow> hook list" where
  "matching_hooks tenant event hooks = filter (\<lambda>h. hk_enabled h \<and> event \<in> set (hk_events h)) (hooks_of tenant hooks)"

definition emit_notification :: "ingest_env \<Rightarrow> int \<Rightarrow> asset \<Rightarrow> notify_event \<Rightarrow> string \<Rightarrow> string \<Rightarrow> meta_dict \<Rightarrow> unit ingest_svc" where
  "emit_notification env now a event operator reason details = sv_modify (\<lambda>s. case ig_hooks s of
      None \<Rightarrow> s
    | Some hooks \<Rightarrow>
        snd (deliver env now \<lparr>ms_event = event, ms_at = now, ms_operator = operator, ms_reason = reason,
          ms_path = ''/v1/ingestion/candidates/'' @ as_id a @ ''/history'', ms_asset = a, ms_details = details\<rparr>
          (matching_hooks (as_tenant a) event hooks) s))"

definition require_asset :: "string \<Rightarrow> asset ingest_svc" where
  "require_asset i = sv_bind sv_get (\<lambda>s. case od_get (ig_store s) i of None \<Rightarrow> sv_raise (NoAsset i) | Some a \<Rightarrow> sv_return a)"

text \<open>The journal event and the notification for a flag of the metadata\<close>

definition announce_review :: "ingest_env \<Rightarrow> int \<Rightarrow> asset \<Rightarrow> unit ingest_svc" where
  "announce_review env now a =
     (let reason = ''Asset requires operator review before promotion.''; details = [(''review_required'', MetaBool True)]
      in sv_bind (log_entry (record_event now a ''review_required'' ''intake_pipeline'' reason details)) (\<lambda>_.
         emit_notification env now a NE_ReviewRequired ''intake_pipeline'' reason details))"

definition announce_quarantine :: "ingest_env \<Rightarrow> int \<Rightarrow> asset \<Rightarrow> unit ingest_svc" where
  "announce_quarantine env now a =
     (let reason = ''Asset was quarantined for manual inspection.''; details = [(''quarantine'', MetaBool True)]
      in sv_bind (log_entry (record_event now a ''quarantined'' ''intake_pipeline'' reason details)) (\<lambda>_.
         emit_notification env now a NE_Quarantined ''intake_pipeline'' reason details))"

definition confidence_value :: "confidence \<Rightarrow> string" where
  "confidence_value c = (case c of CF_High \<Rightarrow> ''high'' | CF_Medium \<Rightarrow> ''medium'' | CF_Low \<Rightarrow> ''low'')"

definition new_asset ::
  "int \<Rightarrow> string \<Rightarrow> string \<Rightarrow> string \<Rightarrow> string option \<Rightarrow> string \<Rightarrow> confidence \<Rightarrow> meta_dict \<Rightarrow> ingest_error + asset" where
  "new_asset now i name ty uri tenant conf md =
     (if name = [] \<or> 128 < length name then Inl InvalidAsset
      else Inr \<lparr>as_id = i, as_name = name, as_type = ty, as_status = CT_Candidate, as_confidence = conf, as_source = uri,
        as_tenant = tenant, as_created = now, as_updated = now, as_validated = None, as_published = None, as_revoked = None,
        as_reason = None, as_metadata = md\<rparr>)"

definition ingest ::
  "ingest_env \<Rightarrow> int \<Rightarrow> string \<Rightarrow> string \<Rightarrow> string \<Rightarrow> string option \<Rightarrow> string \<Rightarrow> confidence \<Rightarrow> meta_dict \<Rightarrow> asset ingest_svc" where
  "ingest env now i name ty uri tenant conf md = sv_bind (sv_lift (new_asset now i name ty uri tenant conf md)) (\<lambda>a.
     sv_bind (store_asset a) (\<lambda>_.
     sv_bind (log_entry (record_event now a ''ingested'' ''system'' ''Asset entered the ingestion lifecycle.''
       [(''asset_type'', MetaText ty), (''confidence'', MetaText (confidence_value conf)),
        (''source_uri'', case uri of None \<Rightarrow> MetaNull | Some u \<Rightarrow> MetaText u)])) (\<lambda>_.
     sv_bind (if flag ''review_required'' (as_metadata a) then announce_review env now a else sv_return ()) (\<lambda>_.
     sv_bind (if flag ''quarantine'' (as_metadata a) then announce_quarantine env now a else sv_return ()) (\<lambda>_.
     sv_return a)))))"

definition or_system :: "string option \<Rightarrow> string" where
  "or_system operator = (case operator of None \<Rightarrow> ''system'' | Some s \<Rightarrow> if s = [] then ''system'' else s)"

text \<open>The common part of \<open>validate\<close>, \<open>promote\<close> and \<open>revoke\<close>\<close>

definition move_asset :: "int \<Rightarrow> string \<Rightarrow> candidate_status \<Rightarrow> string option \<Rightarrow> string option \<Rightarrow> string \<Rightarrow> asset ingest_svc" where
  "move_asset now i target revocation operator reason = sv_bind (require_asset i) (\<lambda>a.
     sv_bind (sv_lift (transition now a target revocation)) (\<lambda>updated.
     sv_bind (store_asset updated) (\<lambda>_.
     sv_bind (log_entry (record_entry now updated (as_status a) (or_system operator) reason ''transition'' [])) (\<lambda>_.
     sv_return updated))))"

definition skill_definition :: "ingest_env \<Rightarrow> asset \<Rightarrow> unit + run_skill option" where
  "skill_definition env a =
     (let add = (\<lambda>sk.
            let sk = (if rn_provenance sk \<noteq> [] then sk else sk\<lparr>rn_provenance := (case as_source a of
                Some u \<Rightarrow> if u \<noteq> [] then u else ''ingestion:'' @ as_id a
              | None \<Rightarrow> ''ingestion:'' @ as_id a)\<rparr>)
            in case od_get (as_metadata a) ''skill_category'' of
                Some (MetaText c) \<Rightarrow> if rn_category sk = [] then sk\<lparr>rn_category := c\<rparr> else sk
              | _ \<Rightarrow> sk)
      in if as_type a \<noteq> ''skill'' then Inr None
         else case ie_inline env (as_metadata a) of
           Inl e \<Rightarrow> Inl e
         | Inr (Some sk) \<Rightarrow> Inr (Some (add sk))
         | Inr None \<Rightarrow> (case as_source a of
             None \<Rightarrow> Inr None
           | Some u \<Rightarrow> if py_strip u = [] then Inr None else (case ie_source env u of
               Inl e \<Rightarrow> Inl e
             | Inr sk \<Rightarrow> Inr (map_option add sk))))"

definition register_published :: "ingest_env \<Rightarrow> asset \<Rightarrow> unit ingest_svc" where
  "register_published env a =
     (if as_type a \<noteq> ''skill'' then sv_return ()
      else case skill_definition env a of
        Inl e \<Rightarrow> sv_return ()
      | Inr None \<Rightarrow> sv_return ()
      | Inr (Some sk) \<Rightarrow> sv_modify (\<lambda>s. s\<lparr>ig_skills := map_option (od_put (rn_name sk) sk) (ig_skills s)\<rparr>))"

definition validate_asset :: "int \<Rightarrow> string \<Rightarrow> string option \<Rightarrow> string \<Rightarrow> asset ingest_svc" where
  "validate_asset now i operator reason = move_asset now i CT_Validated None operator reason"

definition promote :: "ingest_env \<Rightarrow> int \<Rightarrow> string \<Rightarrow> string option \<Rightarrow> string \<Rightarrow> asset ingest_svc" where
  "promote env now i operator reason = sv_bind (move_asset now i CT_Published None operator reason) (\<lambda>updated.
     sv_bind (register_published env updated) (\<lambda>_. sv_return updated))"

definition revoke_asset :: "int \<Rightarrow> string \<Rightarrow> string \<Rightarrow> string option \<Rightarrow> asset ingest_svc" where
  "revoke_asset now i reason operator = move_asset now i CT_Revoked (Some reason) operator reason"

definition merge_meta :: "meta_dict \<Rightarrow> meta_dict \<Rightarrow> meta_dict" where
  "merge_meta old updates = fold (\<lambda>(k, v). od_put k v) updates old"

definition patch_metadata :: "ingest_env \<Rightarrow> int \<Rightarrow> string \<Rightarrow> meta_dict \<Rightarrow> asset ingest_svc" where
  "patch_metadata env now i updates = sv_bind (require_asset i) (\<lambda>a.
     let merged = merge_meta (as_metadata a) updates;
         updated = a\<lparr>as_metadata := merged, as_updated := now\<rparr>;
         raised = (\<lambda>key. \<not> flag key (as_metadata a) \<and> flag key merged)
     in sv_bind (store_asset updated) (\<lambda>_.
        sv_bind (if raised ''review_required'' then announce_review env now updated else sv_return ()) (\<lambda>_.
        sv_bind (if raised ''quarantine'' then announce_quarantine env now updated else sv_return ()) (\<lambda>_.
        sv_return updated))))"

definition cleared_flags :: meta_dict where
  "cleared_flags = [(''review_required'', MetaBool False), (''quarantine'', MetaBool False)]"

definition approve :: "ingest_env \<Rightarrow> int \<Rightarrow> string \<Rightarrow> string \<Rightarrow> string \<Rightarrow> asset ingest_svc" where
  "approve env now i operator reason = sv_bind (validate_asset now i (Some operator) reason) (\<lambda>_.
     sv_bind (patch_metadata env now i cleared_flags) (\<lambda>cleared.
     sv_bind (log_entry (record_event now cleared ''approved'' operator reason cleared_flags)) (\<lambda>_.
     sv_bind (emit_notification env now cleared NE_Approved operator reason cleared_flags) (\<lambda>_. sv_return cleared))))"

definition reject :: "ingest_env \<Rightarrow> int \<Rightarrow> string \<Rightarrow> string \<Rightarrow> string \<Rightarrow> asset ingest_svc" where
  "reject env now i operator reason = sv_bind (revoke_asset now i reason (Some operator)) (\<lambda>revoked.
     sv_bind (log_entry (record_event now revoked ''rejected'' operator reason [])) (\<lambda>_.
     sv_bind (emit_notification env now revoked NE_Rejected operator reason []) (\<lambda>_. sv_return revoked)))"

section \<open>Queries and start\<close>

definition get_asset :: "ingestion \<Rightarrow> string \<Rightarrow> asset option" where
  "get_asset s i = od_get (ig_store s) i"

definition list_by_status :: "ingestion \<Rightarrow> candidate_status \<Rightarrow> asset list" where
  "list_by_status s st = filter (\<lambda>a. as_status a = st) (od_vals (ig_store s))"

definition list_by_tenant :: "ingestion \<Rightarrow> string \<Rightarrow> asset list" where
  "list_by_tenant s tenant = filter (\<lambda>a. as_tenant a = tenant) (od_vals (ig_store s))"

definition list_pending_review :: "ingestion \<Rightarrow> string \<Rightarrow> asset list" where
  "list_pending_review s tenant =
     filter (\<lambda>a. as_status a = CT_Candidate \<and> flag ''review_required'' (as_metadata a)) (list_by_tenant s tenant)"

definition get_journal :: "int \<Rightarrow> string \<Rightarrow> journal_entry list ingest_svc" where
  "get_journal now i s = (case ig_journal s of
      None \<Rightarrow> (Inr [], s)
    | Some j \<Rightarrow> (case entries_for now i j of (es, j') \<Rightarrow> (Inr es, s\<lparr>ig_journal := Some j'\<rparr>)))"

definition get_tenant_journal :: "int \<Rightarrow> string \<Rightarrow> int \<Rightarrow> journal_entry list ingest_svc" where
  "get_tenant_journal now tenant limit s = (case ig_journal s of
      None \<Rightarrow> (Inr [], s)
    | Some j \<Rightarrow> (case entries_for_tenant now tenant limit j of (es, j') \<Rightarrow> (Inr es, s\<lparr>ig_journal := Some j'\<rparr>)))"

definition all_status :: "candidate_status list" where
  "all_status = [CT_Candidate, CT_Validated, CT_Published, CT_Revoked]"

fun hydrate_assets :: "ingest_env \<Rightarrow> asset list \<Rightarrow> unit ingest_svc" where
  "hydrate_assets env [] = sv_return ()"
| "hydrate_assets env (a # as) = sv_bind (sv_modify (\<lambda>s. s\<lparr>ig_store := od_put (as_id a) a (ig_store s)\<rparr>)) (\<lambda>_.
     sv_bind (register_published env a) (\<lambda>_. hydrate_assets env as))"

definition hydrate :: "ingest_env \<Rightarrow> unit ingest_svc" where
  "hydrate env = sv_bind sv_get (\<lambda>s. case ig_db s of
      None \<Rightarrow> sv_return ()
    | Some db \<Rightarrow> hydrate_assets env (List.concat (List.map (\<lambda>st. load_by_status st db) all_status)))"

text \<open>
  A new process: the tables are reopened and what was held in memory only is gone; the skill registry starts without the
  skills of assets.
\<close>

definition new_process :: "ingestion \<Rightarrow> ingestion" where
  "new_process s = s\<lparr>ig_store := [], ig_db := map_option (\<lambda>db. db\<lparr>db_open := True\<rparr>) (ig_db s),
     ig_journal := map_option reopen_journal (ig_journal s), ig_skills := map_option (\<lambda>_. []) (ig_skills s), ig_inbox := [],
     ig_mail := map_option (\<lambda>m. m\<lparr>ml_open := True\<rparr>) (ig_mail s)\<rparr>"

definition start_service :: "ingest_env \<Rightarrow> ingestion \<Rightarrow> ingestion" where
  "start_service env s = snd (hydrate env (new_process s))"

section \<open>Intake\<close>

text \<open>The raw payload after \<open>str\<close>; \<open>None\<close> is an absent key.\<close>

record payload =
  pl_name :: "string option"
  pl_type :: "string option"
  pl_source :: "string option"
  pl_confidence :: "string option"
  pl_metadata :: "meta_dict option"

definition parse_confidence :: "string \<Rightarrow> confidence option" where
  "parse_confidence s = (let s = py_lower s in
     if s = ''high'' then Some CF_High else if s = ''medium'' then Some CF_Medium else if s = ''low'' then Some CF_Low else None)"

definition text_or :: "string \<Rightarrow> string option \<Rightarrow> string" where
  "text_or default_text t = (case t of None \<Rightarrow> default_text | Some s \<Rightarrow> s)"

definition apply_routing :: "ingest_env \<Rightarrow> int \<Rightarrow> asset \<Rightarrow> confidence \<Rightarrow> asset ingest_svc" where
  "apply_routing env now a conf =
     (if conf = CF_High then validate_asset now (as_id a) (Some ''intake_pipeline'') ''validated''
      else patch_metadata env now (as_id a)
        ((''review_required'', MetaBool True) # (if conf = CF_Low then [(''quarantine'', MetaBool True)] else [])))"

definition submit :: "ingest_env \<Rightarrow> int \<Rightarrow> string \<Rightarrow> payload \<Rightarrow> string \<Rightarrow> string \<Rightarrow> asset ingest_svc" where
  "submit env now i p source tenant =
     (let md = od_put ''intake_source'' (MetaText source) (case pl_metadata p of None \<Rightarrow> [] | Some m \<Rightarrow> m);
          raw = text_or ''low'' (pl_confidence p)
      in case parse_confidence raw of
           None \<Rightarrow> sv_raise (UnknownConfidence raw)
         | Some conf \<Rightarrow> (case pl_name p of
             None \<Rightarrow> sv_raise NoNameGiven
           | Some name \<Rightarrow>
               sv_bind (ingest env now i name (text_or [] (pl_type p)) (Some (text_or [] (pl_source p))) tenant conf md) (\<lambda>a.
               apply_routing env now a conf)))"

definition error_record ::
  "ingest_env \<Rightarrow> int \<Rightarrow> string \<Rightarrow> payload \<Rightarrow> string \<Rightarrow> string \<Rightarrow> ingest_error \<Rightarrow> asset ingest_svc" where
  "error_record env now i p source tenant e =
     ingest env now i (if text_or [] (pl_name p) = [] then ''<unknown>'' else text_or [] (pl_name p)) (text_or [] (pl_type p))
       (if text_or [] (pl_source p) = [] then None else pl_source p) tenant CF_Low
       [(''intake_source'', MetaText source), (''intake_error'', MetaText (ie_shown env e))]"

text \<open>Each payload comes with the id of its asset and the id of the record that stands for it when it fails.\<close>

fun batch_submit ::
  "ingest_env \<Rightarrow> int \<Rightarrow> (string \<times> string \<times> payload) list \<Rightarrow> string \<Rightarrow> string \<Rightarrow> asset list ingest_svc" where
  "batch_submit env now [] source tenant = sv_return []"
| "batch_submit env now ((i, k, p) # rest) source tenant =
     sv_bind (sv_attempt (submit env now i p source tenant)) (\<lambda>r.
     sv_bind (case r of Inr a \<Rightarrow> sv_return a | Inl e \<Rightarrow> error_record env now k p source tenant e) (\<lambda>a.
     sv_bind (batch_submit env now rest source tenant) (\<lambda>as. sv_return (a # as))))"

definition pipeline_stats :: "ingestion \<Rightarrow> string \<Rightarrow> (candidate_status \<times> nat) list" where
  "pipeline_stats s tenant =
     List.map (\<lambda>st. (st, length (filter (\<lambda>a. as_tenant a = tenant) (list_by_status s st)))) all_status"

section \<open>The mailbox\<close>

text \<open>An event as posted: its type if that is a string, its payload if that is a mapping, and its text.\<close>

record raw_event =
  rw_type :: "string option"
  rw_payload :: "payload option"
  rw_text :: string

definition mail_enqueue :: "mail_event \<Rightarrow> mail_db \<Rightarrow> mail_db" where
  "mail_enqueue e m = (if ml_open m then m\<lparr>ml_rows := ml_rows m @ [e]\<rparr> else m)"

definition mail_drain :: "string \<Rightarrow> mail_db \<Rightarrow> mail_event list \<times> mail_db" where
  "mail_drain tenant m =
     (if ml_open m
      then (filter (\<lambda>e. me_tenant e = tenant) (ml_rows m), m\<lparr>ml_rows := filter (\<lambda>e. me_tenant e \<noteq> tenant) (ml_rows m)\<rparr>)
      else ([], m))"

definition mail_depth :: "mail_db \<Rightarrow> nat" where
  "mail_depth m = (if ml_open m then length (ml_rows m) else 0)"

definition inbox_of :: "ingestion \<Rightarrow> string \<Rightarrow> mail_event list" where
  "inbox_of s tenant = (case od_get (ig_inbox s) tenant of None \<Rightarrow> [] | Some es \<Rightarrow> es)"

definition enqueue_event :: "mail_event \<Rightarrow> ingestion \<Rightarrow> ingestion" where
  "enqueue_event e s = (case ig_mail s of
      Some m \<Rightarrow> s\<lparr>ig_mail := Some (mail_enqueue e m)\<rparr>
    | None \<Rightarrow> s\<lparr>ig_inbox := od_put (me_tenant e) (inbox_of s (me_tenant e) @ [e]) (ig_inbox s)\<rparr>)"

definition post :: "ingest_env \<Rightarrow> int \<Rightarrow> string \<Rightarrow> string \<Rightarrow> raw_event \<Rightarrow> string \<Rightarrow> string \<Rightarrow> string ingest_svc" where
  "post env now event_id asset_id e sender tenant = (case rw_type e of
      None \<Rightarrow> sv_raise BadEventType
    | Some ty \<Rightarrow>
        if py_strip ty = [] then sv_raise BadEventType
        else (case rw_payload e of
            None \<Rightarrow> sv_raise BadPayload
          | Some p \<Rightarrow>
              sv_bind (if ty = ''candidate_asset'' then sv_void (submit env now asset_id p sender tenant)
                else sv_modify (enqueue_event \<lparr>me_type = ty, me_id = event_id, me_received = now, me_sender = sender,
                  me_tenant = tenant, me_body = rw_text e\<rparr>)) (\<lambda>_. sv_return event_id)))"

definition drain :: "string \<Rightarrow> mail_event list ingest_svc" where
  "drain tenant s = (case ig_mail s of
      Some m \<Rightarrow> (case mail_drain tenant m of (es, m') \<Rightarrow> (Inr es, s\<lparr>ig_mail := Some m'\<rparr>))
    | None \<Rightarrow> (Inr (inbox_of s tenant), s\<lparr>ig_inbox := od_del tenant (ig_inbox s)\<rparr>))"

definition inbox_depth :: "ingestion \<Rightarrow> nat" where
  "inbox_depth s = (case ig_mail s of Some m \<Rightarrow> mail_depth m | None \<Rightarrow> sum_list (List.map length (od_vals (ig_inbox s))))"

section \<open>Validation of raw payloads\<close>

datatype raw_value = RawText string | RawNone | RawOther string

datatype schema_error = NameRequired | SourceRequired | ConfidenceRequired | ConfidenceUnknown string | TenantRequired | TypeBlank

definition raw_get :: "(string, raw_value) odict \<Rightarrow> string \<Rightarrow> raw_value" where
  "raw_get d k = (case od_get d k of None \<Rightarrow> RawNone | Some v \<Rightarrow> v)"

definition blank_or_other :: "raw_value \<Rightarrow> bool" where
  "blank_or_other v = (case v of RawText s \<Rightarrow> py_strip s = [] | _ \<Rightarrow> True)"

definition raw_str :: "raw_value \<Rightarrow> string" where
  "raw_str v = (case v of RawText s \<Rightarrow> s | RawNone \<Rightarrow> ''None'' | RawOther s \<Rightarrow> s)"

definition validate_schema :: "(string, raw_value) odict \<Rightarrow> schema_error list" where
  "validate_schema d =
     (if blank_or_other (raw_get d ''name'') then [NameRequired] else []) @
     (if blank_or_other (raw_get d ''source_uri'') then [SourceRequired] else []) @
     (case raw_get d ''confidence'' of
        RawNone \<Rightarrow> [ConfidenceRequired]
      | v \<Rightarrow> if parse_confidence (raw_str v) = None then [ConfidenceUnknown (raw_str v)] else []) @
     (if od_get d ''tenant_id'' = None then [TenantRequired] else []) @
     (if raw_get d ''asset_type'' \<noteq> RawNone \<and> blank_or_other (raw_get d ''asset_type'') then [TypeBlank] else [])"

definition known_schemes :: "string list" where
  "known_schemes = [''http://'', ''https://'', ''file://'', ''skill://'', ''agent://'']"

definition validate_source_uri :: "string \<Rightarrow> bool" where
  "validate_source_uri uri \<longleftrightarrow> uri \<noteq> [] \<and> py_strip uri \<noteq> [] \<and> list_ex (\<lambda>p. py_startswith p uri) known_schemes"

section \<open>Diagnosis\<close>

datatype check_result = CkPass | CkWarn | CkFail | CkCritical
datatype overall = Healthy | Warning | Critical
datatype asset_check = AssetExists | SchemaValid | SourceUriValid | ConfidenceLevel | StaleCandidate | ReviewFlag | QuarantineFlag

definition overall_from_checks :: "(asset_check \<times> check_result) list \<Rightarrow> overall" where
  "overall_from_checks checks =
     (let results = List.map snd checks in
      if CkFail \<in> set results \<or> CkCritical \<in> set results then Critical
      else if CkWarn \<in> set results then Warning else Healthy)"

text \<open>\<open>model_dump\<close>, as far as the validator looks at it\<close>

definition dump :: "asset \<Rightarrow> (string, raw_value) odict" where
  "dump a = [(''name'', RawText (as_name a)), (''asset_type'', RawText (as_type a)),
     (''confidence'', RawText (confidence_value (as_confidence a))),
     (''source_uri'', case as_source a of None \<Rightarrow> RawNone | Some u \<Rightarrow> RawText u), (''tenant_id'', RawText (as_tenant a))]"

definition stale_days :: int where
  "stale_days = 7"

definition asset_checks :: "int \<Rightarrow> asset \<Rightarrow> (asset_check \<times> check_result) list" where
  "asset_checks now a =
     [(AssetExists, CkPass),
      (SchemaValid, if validate_schema (dump a) \<noteq> [] then CkFail else CkPass),
      (SourceUriValid, case as_source a of None \<Rightarrow> CkWarn | Some u \<Rightarrow> if \<not> validate_source_uri u then CkWarn else CkPass),
      (ConfidenceLevel, if as_confidence a = CF_Low then CkWarn else CkPass),
      (StaleCandidate, if as_status a = CT_Candidate \<and> stale_days < (now - as_created a) div day then CkWarn else CkPass),
      (ReviewFlag, if flag ''review_required'' (as_metadata a) then CkWarn else CkPass),
      (QuarantineFlag, if flag ''quarantine'' (as_metadata a) then CkCritical else CkPass)]"

record diagnosis =
  dg_asset :: string
  dg_tenant :: string
  dg_status :: overall
  dg_checks :: "(asset_check \<times> check_result) list"

definition diagnose_asset :: "int \<Rightarrow> ingestion \<Rightarrow> string \<Rightarrow> string \<Rightarrow> diagnosis" where
  "diagnose_asset now s i tenant = (case get_asset s i of
      None \<Rightarrow> \<lparr>dg_asset = i, dg_tenant = tenant, dg_status = Critical, dg_checks = [(AssetExists, CkFail)]\<rparr>
    | Some a \<Rightarrow> \<lparr>dg_asset = i, dg_tenant = tenant, dg_status = overall_from_checks (asset_checks now a),
        dg_checks = asset_checks now a\<rparr>)"

record tenant_report =
  tr_tenant :: string
  tr_total :: nat
  tr_healthy :: nat
  tr_warning :: nat
  tr_critical :: nat
  tr_assets :: "diagnosis list"

definition diagnose_tenant :: "int \<Rightarrow> ingestion \<Rightarrow> string \<Rightarrow> tenant_report" where
  "diagnose_tenant now s tenant =
     (let reports = List.map (\<lambda>a. diagnose_asset now s (as_id a) tenant) (list_by_tenant s tenant);
          tally = (\<lambda>st. length (filter (\<lambda>r. dg_status r = st) reports))
      in \<lparr>tr_tenant = tenant, tr_total = length reports, tr_healthy = tally Healthy, tr_warning = tally Warning,
          tr_critical = tally Critical, tr_assets = reports\<rparr>)"

definition summary_report :: "int \<Rightarrow> ingestion \<Rightarrow> string \<Rightarrow> tenant_report" where
  "summary_report now s tenant =
     (let full = diagnose_tenant now s tenant in full\<lparr>tr_assets := filter (\<lambda>r. dg_status r \<noteq> Healthy) (tr_assets full)\<rparr>)"

end
