(* ===== verification/Ingestion_Correct.thy ===== *)
theory Ingestion_Correct
  imports Ingestion
begin

text \<open>
  Correctness of the asset pipeline: the journal is a complete trail of every asset, a restart loses no asset, only a
  promotion brings a skill into the registry of a process, and the mailbox hands out every event once.
\<close>

section \<open>Operations and histories\<close>

datatype ig_op =
    IgIngest int string string string "string option" string confidence meta_dict
  | IgValidate int string "string option" string
  | IgPromote int string "string option" string
  | IgRevoke int string string "string option"
  | IgPatch int string meta_dict
  | IgApprove int string string string
  | IgReject int string string string
  | IgSubmit int string payload string string
  | IgBatch int "(string \<times> string \<times> payload) list" string string
  | IgPost int string string raw_event string string
  | IgDrain string
  | IgJournal int string
  | IgTenantJournal int string int
  | IgHookCreate int string string string string "notify_event list" "string option" bool
  | IgHookUpdate int string string "string option" "string option" "notify_event list option" "bool option" "string option" bool
  | IgRestart

definition hook_call :: "(hook list \<Rightarrow> hook list) \<Rightarrow> unit ingest_svc" where
  "hook_call f = sv_modify (\<lambda>s. s\<lparr>ig_hooks := map_option f (ig_hooks s)\<rparr>)"

fun ig_exec :: "ingest_env \<Rightarrow> ig_op \<Rightarrow> unit ingest_svc" where
  "ig_exec env (IgIngest now i name ty uri tenant conf md) = sv_void (ingest env now i name ty uri tenant conf md)"
| "ig_exec env (IgValidate now i who reason) = sv_void (validate_asset now i who reason)"
| "ig_exec env (IgPromote now i who reason) = sv_void (promote env now i who reason)"
| "ig_exec env (IgRevoke now i reason who) = sv_void (revoke_asset now i reason who)"
| "ig_exec env (IgPatch now i updates) = sv_void (patch_metadata env now i updates)"
| "ig_exec env (IgApprove now i who reason) = sv_void (approve env now i who reason)"
| "ig_exec env (IgReject now i who reason) = sv_void (reject env now i who reason)"
| "ig_exec env (IgSubmit now i p source tenant) = sv_void (submit env now i p source tenant)"
| "ig_exec env (IgBatch now items source tenant) = sv_void (batch_submit env now items source tenant)"
| "ig_exec env (IgPost now event i e sender tenant) = sv_void (post env now event i e sender tenant)"
| "ig_exec env (IgDrain tenant) = sv_void (drain tenant)"
| "ig_exec env (IgJournal now i) = sv_void (get_journal now i)"
| "ig_exec env (IgTenantJournal now tenant limit) = sv_void (get_tenant_journal now tenant limit)"
| "ig_exec env (IgHookCreate now i tenant name url events secret on) = hook_call (hook_create now i tenant name url events secret on)"
| "ig_exec env (IgHookUpdate now i tenant name url events on secret new_secret) =
     hook_call (\<lambda>hs. snd (hook_update now i (Some tenant) name url events on secret new_secret hs))"
| "ig_exec env IgRestart = sv_modify (start_service env)"

definition ig_run :: "ingest_env \<times> ig_op \<Rightarrow> ingestion \<Rightarrow> ingestion" where
  "ig_run x s = snd (ig_exec (fst x) (snd x) s)"

text \<open>The ids a call draws are new.\<close>

fun drawn_ids :: "ig_op \<Rightarrow> string list" where
  "drawn_ids (IgIngest now i name ty uri tenant conf md) = [i]"
| "drawn_ids (IgSubmit now i p source tenant) = [i]"
| "drawn_ids (IgPost now event i e sender tenant) = [i]"
| "drawn_ids (IgBatch now items source tenant) = List.concat (List.map (\<lambda>(i, k, p). [i, k]) items)"
| "drawn_ids x = []"

definition new_ids :: "ingest_env \<times> ig_op \<Rightarrow> ingestion \<Rightarrow> bool" where
  "new_ids x s \<longleftrightarrow> distinct (drawn_ids (snd x)) \<and> list_all (\<lambda>i. get_asset s i = None) (drawn_ids (snd x))"

text \<open>A service on an empty database with a journal that keeps everything\<close>

definition empty_service :: ingestion where
  "empty_service = \<lparr>ig_store = [], ig_db = Some \<lparr>db_rows = [], db_open = True\<rparr>,
     ig_journal = Some \<lparr>jn_rows = [], jn_entries = [], jn_retention = None, jn_cleaned = None, jn_open = True\<rparr>,
     ig_hooks = Some [], ig_sent = [], ig_skills = Some [], ig_inbox = [], ig_mail = Some \<lparr>ml_rows = [], ml_open = True\<rparr>\<rparr>"

section \<open>The table agrees with the memory\<close>

definition stored :: "ingestion \<Rightarrow> bool" where
  "stored s \<longleftrightarrow> (\<forall>i a. get_asset s i = Some a \<longrightarrow> as_id a = i) \<and>
     (\<exists>db. ig_db s = Some db \<and> db_open db \<and> od_wf (db_rows db) \<and> (\<forall>i. od_get (db_rows db) i = get_asset s i))"

lemma get_asset_frame [simp]:
  "get_asset (s\<lparr>ig_journal := j\<rparr>) i = get_asset s i" "get_asset (s\<lparr>ig_hooks := h\<rparr>) i = get_asset s i"
  "get_asset (s\<lparr>ig_sent := r\<rparr>) i = get_asset s i" "get_asset (s\<lparr>ig_skills := k\<rparr>) i = get_asset s i"
  "get_asset (s\<lparr>ig_inbox := b\<rparr>) i = get_asset s i" "get_asset (s\<lparr>ig_mail := m\<rparr>) i = get_asset s i"
  by (simp_all add: get_asset_def)

lemma stored_frame [simp]:
  "stored (s\<lparr>ig_journal := j\<rparr>) = stored s" "stored (s\<lparr>ig_hooks := h\<rparr>) = stored s" "stored (s\<lparr>ig_sent := r\<rparr>) = stored s"
  "stored (s\<lparr>ig_skills := k\<rparr>) = stored s" "stored (s\<lparr>ig_inbox := b\<rparr>) = stored s" "stored (s\<lparr>ig_mail := m\<rparr>) = stored s"
  by (simp_all add: stored_def)

definition put_asset :: "asset \<Rightarrow> ingestion \<Rightarrow> ingestion" where
  "put_asset a s = s\<lparr>ig_store := od_put (as_id a) a (ig_store s), ig_db := map_option (db_save a) (ig_db s)\<rparr>"

lemma store_asset_eq: "store_asset a = sv_modify (put_asset a)"
  by (simp add: store_asset_def put_asset_def [abs_def])

lemma get_put_asset: "get_asset (put_asset a s) i = (if i = as_id a then Some a else get_asset s i)"
  by (simp add: get_asset_def put_asset_def od.get_put)

lemma stored_put: "stored s \<Longrightarrow> stored (put_asset a s)"
proof -
  assume ok: "stored s"
  then obtain db where db: "ig_db s = Some db" "db_open db" "od_wf (db_rows db)" "\<And>i. od_get (db_rows db) i = get_asset s i"
    by (auto simp: stored_def)
  have "ig_db (put_asset a s) = Some (db_save a db)" by (simp add: put_asset_def db)
  moreover have "od_get (db_rows (db_save a db)) i = get_asset (put_asset a s) i" for i
    using db(2,4) by (simp add: db_save_def get_put_asset map_add_def od.get_del split: option.split)
  moreover have "od_wf (db_rows (db_save a db))"
    using od.wf_del [OF db(3), of "as_id a"] od.keys_del [of "as_id a" "db_rows db"] db(2)
    by (auto simp: db_save_def od_wf_def od_keys_def)
  moreover have "db_open (db_save a db)" using db(2) by (simp add: db_save_def)
  moreover have "\<forall>i b. get_asset (put_asset a s) i = Some b \<longrightarrow> as_id b = i"
    using ok by (auto simp: stored_def get_put_asset)
  ultimately show ?thesis by (auto simp: stored_def)
qed

lemma keeps_emit:
  assumes "\<And>s f. P s \<Longrightarrow> P (s\<lparr>ig_hooks := f\<rparr>)" and "\<And>s f. P s \<Longrightarrow> P (s\<lparr>ig_sent := f\<rparr>)"
  shows "keeps P (emit_notification env now a event who reason details)"
proof -
  have "P (snd (deliver env now m hs s))" if "P s" for m hs s
    using that
  proof (induction hs arbitrary: s)
    case (Cons h hs)
    let ?t = "\<lambda>rq d. s\<lparr>ig_sent := ig_sent s @ [rq], ig_hooks := map_option (record_delivery (hk_id h) d) (ig_hooks s)\<rparr>"
    have "P (?t rq d)" for rq d using Cons.prems assms by blast
    then show ?case using Cons.IH by (simp add: Let_def split: prod.split) (metis snd_conv)
  qed simp
  then show ?thesis unfolding emit_notification_def by (intro keeps_modify) (simp split: option.split)
qed

definition logged :: "(journal \<Rightarrow> journal) \<Rightarrow> ingestion \<Rightarrow> ingestion" where
  "logged f s = s\<lparr>ig_journal := map_option f (ig_journal s)\<rparr>"

lemma log_entry_eq: "log_entry f = sv_modify (logged f)"
  by (simp add: log_entry_def logged_def [abs_def])

lemma attempt_snd: "snd (sv_attempt m s) = snd (m s)"
  by (simp add: sv_attempt_def split: prod.split)

text \<open>
  \<open>asset_calls\<close>: a predicate that survives what the calls of the service are made of, an asset stored, an entry in the journal,
  a notification.  Every call that does not register a skill or touch the mailbox keeps it.
\<close>

locale asset_calls =
  fixes P :: "ingestion \<Rightarrow> bool"
  assumes entry: "P s \<Longrightarrow> P (logged (record_entry now a st who reason event details) s)"
    and sweep: "P s \<Longrightarrow> P (logged (cleanup_if_due now) s)"
    and hooks: "P s \<Longrightarrow> P (s\<lparr>ig_hooks := h\<rparr>)"
    and sent: "P s \<Longrightarrow> P (s\<lparr>ig_sent := r\<rparr>)"
    and asset: "P s \<Longrightarrow> P (put_asset a s)"
begin

lemma keeps_store: "keeps P (store_asset a)"
  unfolding store_asset_eq by (rule keeps_modify) (rule asset)

lemma keeps_log: "keeps P (log_entry (record_entry now a st who reason event details))"
  unfolding log_entry_eq by (rule keeps_modify) (rule entry)

lemma keeps_event: "keeps P (log_entry (record_event now a event who reason details))"
  unfolding record_event_def by (rule keeps_log)

lemma keeps_note: "keeps P (emit_notification env now a event who reason details)"
  using hooks sent by (rule keeps_emit)

lemma keeps_require: "keeps P (require_asset i)"
  unfolding require_asset_def by (intro keeps_bind keeps_get) (auto intro: keeps_raise keeps_return split: option.split)

lemma keeps_announce: "keeps P (announce_review env now a)" "keeps P (announce_quarantine env now a)"
  by (simp_all add: announce_review_def announce_quarantine_def Let_def keeps_bind keeps_event keeps_note)

lemma keeps_move: "keeps P (move_asset now i target revocation who reason)"
  unfolding move_asset_def by (intro keeps_bind keeps_require keeps_lift keeps_return keeps_store keeps_log)

lemma keeps_ingest: "keeps P (ingest env now i name ty uri tenant conf md)"
  unfolding ingest_def by (intro keeps_bind keeps_lift keeps_store keeps_event keeps_if keeps_announce keeps_return)

lemma keeps_patch: "keeps P (patch_metadata env now i updates)"
  unfolding patch_metadata_def Let_def by (intro keeps_bind keeps_require keeps_store keeps_if keeps_announce keeps_return)

lemma keeps_submit: "keeps P (submit env now i p source tenant)"
  unfolding submit_def apply_routing_def validate_asset_def Let_def
  by (auto intro!: keeps_raise keeps_bind keeps_ingest keeps_move keeps_patch split: option.split)

lemma keeps_batch: "keeps P (batch_submit env now items source tenant)"
proof (induction items)
  case (Cons x items)
  obtain i k p where x: "x = (i, k, p)" by (cases x)
  have "keeps P (sv_attempt (submit env now i p source tenant))" by (intro keeps_attempt keeps_submit)
  moreover have "keeps P (error_record env now k p source tenant e)" for e unfolding error_record_def by (rule keeps_ingest)
  ultimately show ?case using x Cons by (auto intro!: keeps_bind keeps_return split: sum.split)
qed (simp add: keeps_return)

lemma keeps_read: "keeps P (get_journal now i)" "keeps P (get_tenant_journal now tenant limit)"
proof -
  have "P (s\<lparr>ig_journal := Some (cleanup_if_due now j)\<rparr>)" if "P s" "ig_journal s = Some j" for s j
    using sweep [OF that(1), of now] that(2) by (simp add: logged_def)
  then show "keeps P (get_journal now i)" "keeps P (get_tenant_journal now tenant limit)"
    by (simp_all add: keeps_def get_journal_def get_tenant_journal_def entries_for_def entries_for_tenant_def Let_def split: option.split)
qed

lemma keeps_promote: "(\<And>s k. P s \<Longrightarrow> P (s\<lparr>ig_skills := k\<rparr>)) \<Longrightarrow> keeps P (promote env now i who reason)"
  unfolding promote_def register_published_def
  by (intro keeps_bind keeps_move keeps_return) (auto intro!: keeps_return keeps_modify split: sum.split option.split)

lemma keeps_post: "(\<And>s e. P s \<Longrightarrow> P (enqueue_event e s)) \<Longrightarrow> keeps P (post env now event i e sender tenant)"
  unfolding post_def
  by (auto intro!: keeps_raise keeps_bind keeps_if keeps_modify keeps_return keeps_void keeps_submit split: option.split)

lemma keeps_plain:
  assumes "case x of IgPromote _ _ _ _ \<Rightarrow> False | IgPost _ _ _ _ _ _ \<Rightarrow> False | IgDrain _ \<Rightarrow> False | IgRestart \<Rightarrow> False | _ \<Rightarrow> True"
  shows "keeps P (ig_exec env x)"
proof -
  have "keeps P (approve env now i who reason)" for now i who reason
    unfolding approve_def validate_asset_def by (intro keeps_bind keeps_move keeps_patch keeps_event keeps_note keeps_return)
  moreover have "keeps P (reject env now i who reason)" for now i who reason
    unfolding reject_def revoke_asset_def by (intro keeps_bind keeps_move keeps_event keeps_note keeps_return)
  moreover have "keeps P (hook_call f)" for f unfolding hook_call_def by (rule keeps_modify) (rule hooks)
  ultimately show ?thesis
    using assms keeps_ingest keeps_patch keeps_submit keeps_batch keeps_read keeps_move
    by (cases x) (simp_all add: keeps_void validate_asset_def revoke_asset_def)
qed

lemma keeps_step:
  assumes "\<And>s k. P s \<Longrightarrow> P (s\<lparr>ig_skills := k\<rparr>)" and "\<And>s e. P s \<Longrightarrow> P (enqueue_event e s)"
    and "\<And>tenant. keeps P (drain tenant)" and "\<And>env s. P s \<Longrightarrow> P (start_service env s)"
  shows "keeps P (ig_exec env x)"
  using keeps_plain [of x env] keeps_promote [OF assms(1)] keeps_post [OF assms(2)] assms(3,4)
  by (cases x) (auto simp: keeps_def sv_modify_def)

end

section \<open>Restart\<close>

lemma register_frame: "\<exists>k. snd (register_published env a s) = s\<lparr>ig_skills := k\<rparr>"
proof -
  have same: "\<exists>k. s = s\<lparr>ig_skills := k\<rparr>" by (rule exI [of _ "ig_skills s"]) simp
  then show ?thesis
    by (auto simp: register_published_def sv_return_def sv_modify_def split: sum.split option.split)
qed

lemma hydrate_assets_eq:
  "\<exists>k. snd (hydrate_assets env as s) = s\<lparr>ig_store := fold (\<lambda>a. od_put (as_id a) a) as (ig_store s), ig_skills := k\<rparr>"
proof (induction as arbitrary: s)
  case Nil
  show ?case by (rule exI [of _ "ig_skills s"]) (simp add: sv_return_def)
next
  case (Cons a as)
  let ?t = "s\<lparr>ig_store := od_put (as_id a) a (ig_store s)\<rparr>"
  obtain r u where u: "register_published env a ?t = (r, u)" by fastforce
  obtain k where k: "u = ?t\<lparr>ig_skills := k\<rparr>" using register_frame [of env a ?t] u by auto
  have "\<exists>e. r = Inr e" using u by (auto simp: register_published_def sv_return_def sv_modify_def split: sum.splits option.splits if_splits)
  then obtain e where "r = Inr e" ..
  with u k Cons.IH [of u] show ?case by (auto simp: svc_simps)
qed

lemma fold_put_get:
  "distinct (List.map as_id as) \<Longrightarrow> od_get (fold (\<lambda>a. od_put (as_id a) a) as d) i =
     (case List.find (\<lambda>a. as_id a = i) as of Some a \<Rightarrow> Some a | None \<Rightarrow> od_get d i)"
proof (induction as arbitrary: d)
  case (Cons a as)
  have none: "List.find (\<lambda>b. as_id b = as_id a) as = None" using Cons.prems by (auto simp: find_None_iff intro: rev_image_eqI)
  show ?case
  proof (cases "as_id a = i")
    case True
    with Cons none show ?thesis by (simp add: od.get_put)
  next
    case False
    with Cons show ?thesis by (simp add: od.get_put split: option.split)
  qed
qed simp

lemma loaded_set:
  assumes "db_open db"
  shows "set (List.concat (List.map (\<lambda>st. load_by_status st db) all_status)) = set (od_vals (db_rows db))"
proof -
  have "as_status a \<in> set all_status" for a by (cases "as_status a") (simp_all add: all_status_def)
  with assms show ?thesis by (auto simp: load_by_status_def)
qed

lemma loaded_distinct:
  assumes "db_open db" and "od_wf (db_rows db)" and keyed: "\<And>i a. od_get (db_rows db) i = Some a \<Longrightarrow> as_id a = i"
  shows "distinct (List.map as_id (List.concat (List.map (\<lambda>st. load_by_status st db) all_status)))"
proof -
  have "List.map as_id (od_vals (db_rows db)) = od_keys (db_rows db)"
    using assms(2) by (simp add: od_vals_def od_keys_def od_wf_def keyed)
  then have base: "distinct (List.map as_id (od_vals (db_rows db)))" using assms(2) by (simp add: od_wf_def)
  then have vals: "distinct (od_vals (db_rows db))" and inj: "inj_on as_id (set (od_vals (db_rows db)))" by (simp_all add: distinct_map)
  have "distinct (load_by_status st db)" for st using vals assms(1) by (simp add: load_by_status_def)
  moreover have "set (load_by_status s1 db) \<inter> set (load_by_status s2 db) = {}" if "s1 \<noteq> s2" for s1 s2
    using that assms(1) by (auto simp: load_by_status_def)
  ultimately have "distinct (List.concat (List.map (\<lambda>st. load_by_status st db) all_status))"
    unfolding all_status_def by (simp add: Int_Un_distrib)
  with inj show ?thesis by (simp only: distinct_map loaded_set [OF assms(1)])
qed

text \<open>The table of a state whose table and memory agree\<close>

definition table_of :: "ingestion \<Rightarrow> asset_db" where
  "table_of s = the (ig_db s)"

lemma stored_table:
  assumes "stored s"
  shows "ig_db s = Some (table_of s)" "db_open (table_of s)" "od_wf (db_rows (table_of s))"
    "od_get (db_rows (table_of s)) i = get_asset s i"
  using assms by (auto simp: stored_def table_of_def)

lemma stored_key: "stored s \<Longrightarrow> get_asset s i = Some a \<Longrightarrow> as_id a = i"
  by (auto simp: stored_def)

lemma table_reopened: "stored s \<Longrightarrow> table_of s\<lparr>db_open := True\<rparr> = table_of s"
  using stored_table(2) [of s] by (cases "table_of s") simp

lemma start_asset:
  assumes "stored s"
  shows "get_asset (start_service env s) i = get_asset s i"
proof -
  let ?db = "table_of s"
  note db = stored_table [OF assms]
  note key = stored_key [OF assms]
  let ?as = "List.concat (List.map (\<lambda>st. load_by_status st ?db) all_status)"
  have mem: "a \<in> set ?as \<longleftrightarrow> (\<exists>i. get_asset s i = Some a)" for a
    by (simp only: loaded_set [OF db(2)] od_vals_conv [OF db(3)] db(4))
  have dis: "distinct (List.map as_id ?as)" by (rule loaded_distinct [OF db(2,3)]) (simp only: db(4) key)
  have "start_service env s = snd (hydrate_assets env ?as (new_process s))"
    by (simp add: start_service_def hydrate_def svc_simps new_process_def db(1) table_reopened [OF assms])
  then have "get_asset (start_service env s) i = od_get (fold (\<lambda>a. od_put (as_id a) a) ?as []) i"
    using hydrate_assets_eq [of env ?as "new_process s"] by (auto simp: get_asset_def new_process_def)
  also have "\<dots> = List.find (\<lambda>a. as_id a = i) ?as"
    using dis by (simp add: fold_put_get split: option.split)
  also have "\<dots> = get_asset s i"
  proof (cases "get_asset s i")
    case None
    have "a \<notin> set ?as" if "as_id a = i" for a
    proof
      assume "a \<in> set ?as"
      from iffD1 [OF mem this] obtain j where j: "get_asset s j = Some a" ..
      with key [OF j] that None show False by simp
    qed
    then have "List.find (\<lambda>a. as_id a = i) ?as = None" by (simp only: find_None_iff) blast
    with None show ?thesis by simp
  next
    case (Some a)
    then have "\<exists>i. get_asset s i = Some a" ..
    then have a: "a \<in> set ?as" by (rule iffD2 [OF mem])
    have ai: "as_id a = i" by (rule key [OF Some])
    from a ai have "List.find (\<lambda>a. as_id a = i) ?as \<noteq> None" unfolding find_None_iff by blast
    then obtain b where b: "List.find (\<lambda>a. as_id a = i) ?as = Some b" by blast
    then obtain k where "k < length ?as" "as_id b = i" "b = ?as ! k" unfolding find_Some_iff by blast
    then have "b \<in> set ?as" "as_id b = as_id a" using ai by (simp_all only: nth_mem)
    moreover have "inj_on as_id (set ?as)" using dis by (simp only: distinct_map)
    ultimately have "b = a" using a by (auto dest: inj_onD simp del: set_concat)
    with b Some show ?thesis by simp
  qed
  finally show ?thesis .
qed

lemma start_frame:
  "\<exists>st k. start_service env s = (new_process s)\<lparr>ig_store := st, ig_skills := k\<rparr>"
proof -
  have same: "\<exists>st k. t = t\<lparr>ig_store := st, ig_skills := k\<rparr>" for t :: ingestion
    by (rule exI [of _ "ig_store t"], rule exI [of _ "ig_skills t"]) simp
  show ?thesis
  proof (cases "ig_db (new_process s)")
    case None
    with same show ?thesis by (simp add: start_service_def hydrate_def svc_simps)
  next
    case (Some db)
    with hydrate_assets_eq show ?thesis by (fastforce simp: start_service_def hydrate_def svc_simps)
  qed
qed

lemma stored_start: "stored s \<Longrightarrow> stored (start_service env s)"
proof -
  assume ok: "stored s"
  obtain st k where t: "start_service env s = (new_process s)\<lparr>ig_store := st, ig_skills := k\<rparr>" using start_frame by blast
  have "ig_db (start_service env s) = ig_db s"
    by (simp add: t new_process_def stored_table(1) [OF ok] table_reopened [OF ok])
  then show ?thesis using ok start_asset [OF ok, of env] by (simp add: stored_def)
qed

interpretation stored_calls: asset_calls stored
  by unfold_locales (simp_all add: stored_put logged_def)

lemma stored_mail: "stored s \<Longrightarrow> stored (enqueue_event e s)" "keeps stored (drain tenant)"
  by (simp_all add: enqueue_event_def keeps_def drain_def split: option.split prod.split)

lemma stored_step: "stored s \<Longrightarrow> stored (ig_run x s)"
  using stored_calls.keeps_step [OF _ stored_mail stored_start] by (simp add: ig_run_def keeps_def)

lemma stored_empty: "stored empty_service"
  by (simp add: stored_def empty_service_def get_asset_def od_wf_def od_keys_def)

lemma stored_history: "stored s \<Longrightarrow> stored (fold ig_run xs s)"
  by (rule fold_invariant) (auto intro: stored_step)

section \<open>The journal is a trail of every asset\<close>

text \<open>Following entries from a status: a transition takes an edge of the lifecycle, any other event stays.\<close>

definition entry_fits :: "candidate_status \<Rightarrow> journal_entry \<Rightarrow> bool" where
  "entry_fits st e \<longleftrightarrow> je_from e = st \<and>
     (if je_event e = ''transition'' then je_to e \<in> set (candidate_table st) else je_to e = st)"

fun follows :: "candidate_status \<Rightarrow> journal_entry list \<Rightarrow> candidate_status option" where
  "follows st [] = Some st"
| "follows st (e # es) = (if entry_fits st e then follows (je_to e) es else None)"

lemma follows_append: "follows st (es @ [e]) = (case follows st es of None \<Rightarrow> None | Some t \<Rightarrow> if entry_fits t e then Some (je_to e) else None)"
  by (induction st es rule: follows.induct) auto

definition trail :: "ingestion \<Rightarrow> string \<Rightarrow> journal_entry list" where
  "trail s i = (case ig_journal s of None \<Rightarrow> [] | Some j \<Rightarrow> filter (\<lambda>e. je_asset e = i) (jn_rows j))"

definition trail_ok :: "asset option \<Rightarrow> journal_entry list \<Rightarrow> bool" where
  "trail_ok a es \<longleftrightarrow> (case a of
      None \<Rightarrow> es = []
    | Some x \<Rightarrow> es \<noteq> [] \<and> je_event (hd es) = ''ingested'' \<and> follows CT_Candidate es = Some (as_status x))"

definition keeps_all :: "ingestion \<Rightarrow> bool" where
  "keeps_all s \<longleftrightarrow> (case ig_journal s of None \<Rightarrow> False | Some j \<Rightarrow> jn_open j \<and> jn_retention j = None)"

definition audited :: "ingestion \<Rightarrow> bool" where
  "audited s \<longleftrightarrow> stored s \<and> keeps_all s \<and> (\<forall>i. trail_ok (get_asset s i) (trail s i))"

lemma get_logged [simp]: "get_asset (logged f s) i = get_asset s i" "stored (logged f s) = stored s"
  by (simp_all add: logged_def)

lemma logged_entry:
  assumes "keeps_all s"
  shows "keeps_all (logged (record_entry now a from_status who reason event details) s)"
    "trail (logged (record_entry now a from_status who reason event details) s) i =
      trail s i @ (if as_id a = i then [\<lparr>je_asset = as_id a, je_tenant = as_tenant a, je_from = from_status, je_to = as_status a,
        je_event = event, je_operator = who, je_reason = reason, je_details = details, je_at = now\<rparr>] else [])"
  using assms
  by (auto simp: keeps_all_def logged_def trail_def record_entry_def cleanup_if_due_def retention_def Let_def split: option.splits)

lemma keeps_all_frame [simp]:
  "keeps_all (s\<lparr>ig_hooks := h\<rparr>) = keeps_all s" "keeps_all (s\<lparr>ig_sent := r\<rparr>) = keeps_all s"
  "keeps_all (s\<lparr>ig_skills := k\<rparr>) = keeps_all s" "keeps_all (put_asset u s) = keeps_all s"
  by (simp_all add: keeps_all_def put_asset_def)

lemma trail_frame [simp]:
  "trail (s\<lparr>ig_hooks := h\<rparr>) i = trail s i" "trail (s\<lparr>ig_sent := r\<rparr>) i = trail s i"
  "trail (s\<lparr>ig_skills := k\<rparr>) i = trail s i" "trail (put_asset u s) i = trail s i"
  by (simp_all add: trail_def put_asset_def)

text \<open>The stored asset with the id of \<open>a\<close> has its status.\<close>

definition tracked :: "asset \<Rightarrow> ingestion \<Rightarrow> bool" where
  "tracked a s \<longleftrightarrow> audited s \<and> map_option as_status (get_asset s (as_id a)) = Some (as_status a)"

lemma trail_ok_append:
  "trail_ok (Some a) es \<Longrightarrow> entry_fits (as_status a) e \<Longrightarrow> je_to e = as_status b \<Longrightarrow> trail_ok (Some b) (es @ [e])"
  by (simp add: trail_ok_def follows_append)

lemma trail_ok_same: "trail_ok (Some a) es \<Longrightarrow> as_status b = as_status a \<Longrightarrow> trail_ok (Some b) es"
  by (simp add: trail_ok_def)

lemma audited_at: "audited s \<Longrightarrow> trail_ok (get_asset s i) (trail s i)"
  by (simp add: audited_def)

lemma audited_change:
  assumes "audited s" and "stored t" and "keeps_all t" and "\<And>i. i \<noteq> k \<Longrightarrow> get_asset t i = get_asset s i \<and> trail t i = trail s i"
    and "trail_ok (get_asset t k) (trail t k)"
  shows "audited t"
  unfolding audited_def using assms(2,3,5) assms(4) audited_at [OF assms(1)] by metis

lemma audited_parts: "audited s \<Longrightarrow> stored s" "audited s \<Longrightarrow> keeps_all s"
  by (simp_all add: audited_def)

lemma tracked_event:
  assumes "tracked a s" and "event \<noteq> ''transition''"
  shows "tracked a (logged (record_event now a event who reason details) s)"
proof -
  from assms(1) obtain b where b: "audited s" "get_asset s (as_id a) = Some b" "as_status b = as_status a"
    by (auto simp: tracked_def)
  note parts = audited_parts [OF b(1)]
  have "audited (logged (record_event now a event who reason details) s)"
    using audited_at [OF b(1), of "as_id a"] b parts assms(2)
    by (intro audited_change [OF b(1), where k = "as_id a"])
      (simp_all add: record_event_def logged_entry trail_ok_append entry_fits_def)
  with b show ?thesis by (simp add: tracked_def)
qed

lemma tracked_put:
  assumes "tracked u s"
  shows "tracked u (put_asset u s)"
proof -
  from assms obtain b where b: "audited s" "get_asset s (as_id u) = Some b" "as_status b = as_status u"
    by (auto simp: tracked_def)
  have "audited (put_asset u s)"
    using audited_at [OF b(1), of "as_id u"] b audited_parts [OF b(1)]
    by (intro audited_change [OF b(1), where k = "as_id u"]) (simp_all add: get_put_asset stored_put trail_ok_same [of b])
  then show ?thesis by (simp add: tracked_def get_put_asset)
qed

lemma tracked_move:
  assumes "audited s" and "get_asset s i = Some a" and "transition now a target revocation = Inr u"
  shows "tracked u (logged (record_entry now u (as_status a) who reason ''transition'' []) (put_asset u s))"
proof -
  note parts = audited_parts [OF assms(1)]
  have a: "as_id a = i" using parts(1) assms(2) by (rule stored_key)
  have u: "as_id u = i" "as_status u \<in> set (candidate_table (as_status a))"
    using assms(3) a by (auto simp: transition_def candidate_move_def Let_def split: if_splits sum.splits)
  have "audited (logged (record_entry now u (as_status a) who reason ''transition'' []) (put_asset u s))"
    using audited_at [OF assms(1), of i] assms(2) parts u
    by (intro audited_change [OF assms(1), where k = i])
      (simp_all add: logged_entry get_put_asset stored_put trail_ok_append [of a] entry_fits_def)
  with u show ?thesis by (simp add: tracked_def get_put_asset)
qed

lemma tracked_new:
  assumes "audited s" and "get_asset s i = None" and "new_asset now i name ty uri tenant conf md = Inr a"
  shows "tracked a (logged (record_event now a ''ingested'' who reason details) (put_asset a s))"
proof -
  note parts = audited_parts [OF assms(1)]
  have a: "as_id a = i" "as_status a = CT_Candidate" using assms(3) by (auto simp: new_asset_def split: if_splits)
  have "trail s i = []" using audited_at [OF assms(1), of i] assms(2) by (simp add: trail_ok_def)
  then have "audited (logged (record_event now a ''ingested'' who reason details) (put_asset a s))"
    using a parts
    by (intro audited_change [OF assms(1), where k = i])
      (simp_all add: record_event_def logged_entry get_put_asset stored_put trail_ok_def entry_fits_def)
  with a show ?thesis by (simp add: tracked_def get_put_asset)
qed

text \<open>Calls that announce a flag keep an asset tracked.\<close>

lemma tracked_frame [simp]:
  "tracked a (s\<lparr>ig_hooks := h\<rparr>) = tracked a s" "tracked a (s\<lparr>ig_sent := r\<rparr>) = tracked a s"
  "tracked a (s\<lparr>ig_skills := k\<rparr>) = tracked a s"
  by (simp_all add: tracked_def audited_def)

lemma tracked_log: "event \<noteq> ''transition'' \<Longrightarrow> keeps (tracked a) (log_entry (record_event now a event who reason details))"
  unfolding log_entry_eq by (rule keeps_modify) (rule tracked_event)

lemma tracked_emit: "keeps (tracked a) (emit_notification env now b event who reason details)"
  by (rule keeps_emit) simp_all

lemma tracked_announce: "keeps (tracked a) (announce_review env now a)" "keeps (tracked a) (announce_quarantine env now a)"
  by (simp_all add: announce_review_def announce_quarantine_def Let_def keeps_bind tracked_log tracked_emit)

lemma tracked_audited: "tracked a s \<Longrightarrow> audited s"
  by (simp add: tracked_def)

lemma require_asset_then:
  "sv_bind (require_asset i) f s = (case get_asset s i of None \<Rightarrow> (Inl (NoAsset i), s) | Some a \<Rightarrow> f a s)"
  by (simp add: require_asset_def get_asset_def svc_simps split: option.split)

lemma store_then: "sv_bind (store_asset a) f s = f () (put_asset a s)"
  by (simp add: store_asset_eq svc_simps)

lemma log_then: "sv_bind (log_entry g) f s = f () (logged g s)"
  by (simp add: log_entry_eq svc_simps)

lemma move_eq: "move_asset now i target revocation who reason s = (case get_asset s i of
    None \<Rightarrow> (Inl (NoAsset i), s)
  | Some a \<Rightarrow> (case transition now a target revocation of
      Inl e \<Rightarrow> (Inl e, s)
    | Inr u \<Rightarrow> (Inr u, logged (record_entry now u (as_status a) (or_system who) reason ''transition'' []) (put_asset u s))))"
  by (simp add: move_asset_def require_asset_then store_then log_then sv_bind_def [of "sv_lift _"] sv_lift_def sv_return_def
      split: option.split sum.split)

lemma audited_move:
  assumes "audited s" and "move_asset now i target revocation who reason s = (r, t)"
  shows "audited t \<and> (\<forall>u. r = Inr u \<longrightarrow> tracked u t)"
proof (cases "get_asset s i")
  case None
  with assms show ?thesis by (auto simp: move_eq)
next
  case (Some a)
  show ?thesis
  proof (cases "transition now a target revocation")
    case (Inl e)
    with Some assms show ?thesis by (auto simp: move_eq)
  next
    case (Inr u)
    with tracked_move [OF assms(1) Some Inr] Some assms(2) show ?thesis by (auto simp: move_eq intro: tracked_audited)
  qed
qed

lemma patch_eq: "patch_metadata env now i updates s = (case get_asset s i of
    None \<Rightarrow> (Inl (NoAsset i), s)
  | Some a \<Rightarrow>
      let u = a\<lparr>as_metadata := merge_meta (as_metadata a) updates, as_updated := now\<rparr>;
          raised = (\<lambda>key. \<not> flag key (as_metadata a) \<and> flag key (as_metadata u))
      in sv_bind (if raised ''review_required'' then announce_review env now u else sv_return ()) (\<lambda>_.
         sv_bind (if raised ''quarantine'' then announce_quarantine env now u else sv_return ()) (\<lambda>_. sv_return u)) (put_asset u s))"
  by (simp add: patch_metadata_def require_asset_then store_then Let_def split: option.split)

lemma tracked_patched:
  assumes "audited s" and "get_asset s i = Some a"
  shows "tracked (a\<lparr>as_metadata := m, as_updated := now\<rparr>) (put_asset (a\<lparr>as_metadata := m, as_updated := now\<rparr>) s)"
  using assms stored_key [OF audited_parts(1) [OF assms(1)] assms(2)] by (intro tracked_put) (simp add: tracked_def)

text \<open>A method that keeps a predicate and returns \<open>u\<close> keeps it however it ends.\<close>

lemma keeps_if_announce: "keeps (tracked u) (if b then announce_review env now u else sv_return ())"
  "keeps (tracked u) (if b then announce_quarantine env now u else sv_return ())"
  by (simp_all add: tracked_announce keeps_return)

lemma audited_patch:
  assumes "audited s" and "patch_metadata env now i updates s = (r, t)"
  shows "audited t \<and> (\<forall>u. r = Inr u \<longrightarrow> tracked u t)"
proof (cases "get_asset s i")
  case None
  with assms show ?thesis by (auto simp: patch_eq)
next
  case (Some a)
  let ?u = "a\<lparr>as_metadata := merge_meta (as_metadata a) updates, as_updated := now\<rparr>"
  let ?raised = "\<lambda>key. \<not> flag key (as_metadata a) \<and> flag key (as_metadata ?u)"
  let ?rest = "sv_bind (if ?raised ''review_required'' then announce_review env now ?u else sv_return ()) (\<lambda>_.
    sv_bind (if ?raised ''quarantine'' then announce_quarantine env now ?u else sv_return ()) (\<lambda>_. sv_return ?u))"
  have run: "?rest (put_asset ?u s) = (r, t)" using assms(2) Some by (simp add: patch_eq Let_def)
  have "keeps (tracked ?u) ?rest" by (intro keeps_bind keeps_if_announce keeps_return)
  from keepsD [OF this tracked_patched [OF assms(1) Some]] run have t: "tracked ?u t" by simp
  have "r = Inr u \<Longrightarrow> u = ?u" for u
    using run by (auto simp: sv_bind_def sv_return_def split: prod.splits sum.splits)
  with t show ?thesis using tracked_audited by blast
qed

definition announce_both :: "ingest_env \<Rightarrow> int \<Rightarrow> asset \<Rightarrow> asset ingest_svc" where
  "announce_both env now a =
     sv_bind (if flag ''review_required'' (as_metadata a) then announce_review env now a else sv_return ()) (\<lambda>_.
     sv_bind (if flag ''quarantine'' (as_metadata a) then announce_quarantine env now a else sv_return ()) (\<lambda>_.
     sv_return a))"

definition ingested :: "int \<Rightarrow> asset \<Rightarrow> ingestion \<Rightarrow> ingestion" where
  "ingested now a s = logged (record_event now a ''ingested'' ''system'' ''Asset entered the ingestion lifecycle.''
     [(''asset_type'', MetaText (as_type a)), (''confidence'', MetaText (confidence_value (as_confidence a))),
      (''source_uri'', case as_source a of None \<Rightarrow> MetaNull | Some u \<Rightarrow> MetaText u)]) (put_asset a s)"

lemma ingest_eq: "ingest env now i name ty uri tenant conf md s = (case new_asset now i name ty uri tenant conf md of
    Inl e \<Rightarrow> (Inl e, s)
  | Inr a \<Rightarrow> announce_both env now a (ingested now a s))"
proof (cases "new_asset now i name ty uri tenant conf md")
  case (Inr a)
  then have a: "as_type a = ty" "as_confidence a = conf" "as_source a = uri" by (auto simp: new_asset_def split: if_splits)
  have lift: "sv_bind (sv_lift (Inr a)) f s = f a s" for f :: "asset \<Rightarrow> asset ingest_svc"
    by (simp add: sv_bind_def sv_lift_def)
  show ?thesis unfolding ingest_def Inr lift store_then log_then sum.case announce_both_def ingested_def a ..
qed (simp add: ingest_def sv_bind_def sv_lift_def)

lemma audited_ingest:
  assumes "audited s" and "get_asset s i = None" and "ingest env now i name ty uri tenant conf md s = (r, t)"
  shows "audited t"
proof (cases "new_asset now i name ty uri tenant conf md")
  case (Inl e)
  with assms show ?thesis by (simp add: ingest_eq)
next
  case (Inr a)
  have "keeps (tracked a) (announce_both env now a)"
    unfolding announce_both_def by (intro keeps_bind keeps_if_announce keeps_return)
  moreover have "tracked a (ingested now a s)"
    unfolding ingested_def by (rule tracked_new [OF assms(1,2) Inr])
  ultimately have "tracked a (snd (announce_both env now a (ingested now a s)))" by (rule keepsD)
  with assms(3) Inr show ?thesis using tracked_audited by (simp add: ingest_eq)
qed

lemma keeps_audited:
  "keeps audited (move_asset now i target revocation who reason)" "keeps audited (patch_metadata env now i updates)"
  unfolding keeps_def using audited_move audited_patch by (metis prod.collapse)+

lemma snd_bind: "P (snd (m s)) \<Longrightarrow> (\<And>a. keeps P (f a)) \<Longrightarrow> P (snd (sv_bind m f s))"
  by (cases "m s") (auto simp: sv_bind_def keeps_def split: sum.split)

lemma audited_submit:
  assumes "audited s" and "get_asset s i = None"
  shows "audited (snd (submit env now i p source tenant s))"
proof -
  have ing: "audited (snd (ingest env now i name ty uri tenant conf md s))" for name ty uri conf md
    using audited_ingest [OF assms] by (metis prod.collapse)
  have route: "keeps audited (apply_routing env now a conf)" for a conf
    by (simp add: apply_routing_def validate_asset_def keeps_audited)
  show ?thesis
  proof (cases "parse_confidence (text_or ''low'' (pl_confidence p))")
    case None
    with assms(1) show ?thesis by (simp add: submit_def Let_def sv_raise_def)
  next
    case (Some conf)
    show ?thesis
    proof (cases "pl_name p")
      case None
      with Some assms(1) show ?thesis by (simp add: submit_def Let_def sv_raise_def)
    next
      case (Some name)
      with \<open>parse_confidence _ = Some conf\<close> show ?thesis
        unfolding submit_def Let_def by (simp only: option.case) (rule snd_bind [where P = audited], rule ing, rule route)
    qed
  qed
qed

text \<open>Only the intake of an id makes it known.\<close>

definition unknown :: "string \<Rightarrow> ingestion \<Rightarrow> bool" where
  "unknown j s \<longleftrightarrow> stored s \<and> get_asset s j = None"

lemma unknown_frame [simp]:
  "unknown j (s\<lparr>ig_journal := x\<rparr>) = unknown j s" "unknown j (s\<lparr>ig_hooks := h\<rparr>) = unknown j s"
  "unknown j (s\<lparr>ig_sent := q\<rparr>) = unknown j s" "unknown j (s\<lparr>ig_skills := k\<rparr>) = unknown j s" "unknown j (logged g s) = unknown j s"
  by (simp_all add: unknown_def)

lemma unknown_put: "unknown j s \<Longrightarrow> as_id u \<noteq> j \<Longrightarrow> unknown j (put_asset u s)"
  by (simp add: unknown_def stored_put get_put_asset)

lemma unknown_announce: "keeps (unknown j) (announce_review env now a)" "keeps (unknown j) (announce_quarantine env now a)"
proof -
  have "keeps (unknown j) (log_entry f)" for f unfolding log_entry_eq by (rule keeps_modify) simp
  moreover have "keeps (unknown j) (emit_notification env now a event who reason details)" for event who reason details
    by (rule keeps_emit) simp_all
  ultimately show "keeps (unknown j) (announce_review env now a)" "keeps (unknown j) (announce_quarantine env now a)"
    by (simp_all add: announce_review_def announce_quarantine_def Let_def keeps_bind)
qed

lemma unknown_both: "keeps (unknown j) (announce_both env now a)"
  unfolding announce_both_def by (intro keeps_bind keeps_if unknown_announce keeps_return)

lemma known_apart: "unknown j s \<Longrightarrow> get_asset s i = Some a \<Longrightarrow> as_id a \<noteq> j"
  using stored_key by (auto simp: unknown_def)

lemma unknown_move: "keeps (unknown j) (move_asset now i target revocation who reason)"
  unfolding keeps_def
proof (intro allI impI)
  fix s
  assume un: "unknown j s"
  have "as_id u \<noteq> j" if "get_asset s i = Some a" "transition now a target revocation = Inr u" for a u
    using known_apart [OF un that(1)] that(2)
    by (auto simp: transition_def candidate_move_def Let_def split: if_splits sum.splits)
  with un show "unknown j (snd (move_asset now i target revocation who reason s))"
    by (simp add: move_eq unknown_put split: option.split sum.split)
qed

lemma unknown_patch: "keeps (unknown j) (patch_metadata env now i updates)"
  unfolding keeps_def
proof (intro allI impI)
  fix s
  assume un: "unknown j s"
  show "unknown j (snd (patch_metadata env now i updates s))"
  proof (cases "get_asset s i")
    case (Some a)
    let ?u = "a\<lparr>as_metadata := merge_meta (as_metadata a) updates, as_updated := now\<rparr>"
    have "unknown j (put_asset ?u s)" using unknown_put [OF un] known_apart [OF un Some] by simp
    then have "unknown j (snd (sv_bind (if b then announce_review env now ?u else sv_return ()) (\<lambda>_.
        sv_bind (if c then announce_quarantine env now ?u else sv_return ()) (\<lambda>_. sv_return ?u)) (put_asset ?u s)))" for b c
      by (rule keepsD [rotated]) (intro keeps_bind keeps_if unknown_announce keeps_return)
    with Some show ?thesis by (simp only: patch_eq Let_def option.case)
  qed (simp add: patch_eq un)
qed

lemma unknown_ingest: "i \<noteq> j \<Longrightarrow> keeps (unknown j) (ingest env now i name ty uri tenant conf md)"
  unfolding keeps_def
proof (intro allI impI)
  fix s
  assume un: "unknown j s" and ne: "i \<noteq> j"
  show "unknown j (snd (ingest env now i name ty uri tenant conf md s))"
  proof (cases "new_asset now i name ty uri tenant conf md")
    case (Inr a)
    then have "as_id a \<noteq> j" using ne by (auto simp: new_asset_def split: if_splits)
    with un have "unknown j (ingested now a s)" by (simp add: ingested_def unknown_put)
    with Inr show ?thesis by (simp add: ingest_eq keepsD [OF unknown_both])
  qed (simp add: ingest_eq un)
qed

lemma unknown_submit: "i \<noteq> j \<Longrightarrow> keeps (unknown j) (submit env now i p source tenant)"
  unfolding submit_def apply_routing_def validate_asset_def Let_def
  by (auto intro!: keeps_raise keeps_bind unknown_ingest unknown_move unknown_patch split: option.split)

lemma unknown_batch:
  "j \<notin> set (List.concat (List.map (\<lambda>(i, k, p). [i, k]) items)) \<Longrightarrow> keeps (unknown j) (batch_submit env now items source tenant)"
proof (induction items)
  case (Cons x items)
  obtain i k p where x: "x = (i, k, p)" by (cases x)
  have ij: "i \<noteq> j" using Cons.prems x by auto
  have att: "keeps (unknown j) (sv_attempt (submit env now i p source tenant))"
    using unknown_submit [OF ij] unfolding keeps_def attempt_snd .
  have "keeps (unknown j) (error_record env now k p source tenant e)" for e
    unfolding error_record_def using Cons.prems x by (intro unknown_ingest) auto
  with x Cons att show ?case by (auto intro!: keeps_bind keeps_return split: sum.split)
qed (simp add: keeps_return)

lemma audited_batch:
  "audited s \<Longrightarrow> distinct (List.concat (List.map (\<lambda>(i, k, p). [i, k]) items)) \<Longrightarrow>
   (\<And>j. j \<in> set (List.concat (List.map (\<lambda>(i, k, p). [i, k]) items)) \<Longrightarrow> get_asset s j = None) \<Longrightarrow>
   audited (snd (batch_submit env now items source tenant s))"
proof (induction items arbitrary: s)
  case (Cons x items)
  obtain i k p where x: "x = (i, k, p)" by (cases x)
  let ?ids = "List.concat (List.map (\<lambda>(i, k, p). [i, k]) items)"
  have un: "unknown j s" if "j = k \<or> j \<in> set ?ids" for j
    using Cons.prems(1,3) that x by (auto simp: unknown_def audited_parts)
  have apart: "i \<noteq> k" "i \<notin> set ?ids" "k \<notin> set ?ids" "distinct ?ids" using Cons.prems(2) x by auto
  obtain r t where sub: "submit env now i p source tenant s = (r, t)" by fastforce
  have t: "audited t" using audited_submit [OF Cons.prems(1), of i env now p source tenant] Cons.prems(3) x sub by simp
  have unt: "unknown j t" if "j = k \<or> j \<in> set ?ids" for j
  proof -
    have "i \<noteq> j" using that apart by blast
    then have "keeps (unknown j) (submit env now i p source tenant)" by (rule unknown_submit)
    from keepsD [OF this un [OF that]] sub show ?thesis by simp
  qed
  define fix_up where "fix_up = (case r of Inr a \<Rightarrow> sv_return a | Inl e \<Rightarrow> error_record env now k p source tenant e)"
  obtain q u where fx: "fix_up t = (q, u)" by fastforce
  have u: "audited u \<and> (\<forall>j \<in> set ?ids. unknown j u)"
  proof (cases r)
    case (Inl e)
    then have fx': "error_record env now k p source tenant e t = (q, u)" using fx by (simp add: fix_up_def)
    have "audited u" using audited_ingest [OF t] unt [of k] fx' unfolding error_record_def unknown_def by blast
    moreover have "unknown j u" if "j \<in> set ?ids" for j
    proof -
      have "k \<noteq> j" using that apart by blast
      then have "keeps (unknown j) (error_record env now k p source tenant e)" unfolding error_record_def by (rule unknown_ingest)
      from keepsD [OF this unt] that fx' show ?thesis by simp
    qed
    ultimately show ?thesis by blast
  next
    case (Inr a)
    with fx t unt show ?thesis by (simp add: fix_up_def sv_return_def)
  qed
  have "audited (snd (batch_submit env now items source tenant u))"
    using u apart by (intro Cons.IH) (auto simp: unknown_def)
  moreover have "snd (batch_submit env now (x # items) source tenant s) =
      (case q of Inl e \<Rightarrow> u | Inr a \<Rightarrow> snd (batch_submit env now items source tenant u))"
    using fx by (simp add: x sv_bind_def sv_attempt_def sub fix_up_def sv_return_def split: sum.split prod.split)
  ultimately show ?case using u by (simp split: sum.split)
qed (simp add: sv_return_def)

lemma audited_frame [simp]:
  "audited (s\<lparr>ig_hooks := h\<rparr>) = audited s" "audited (s\<lparr>ig_sent := r\<rparr>) = audited s" "audited (s\<lparr>ig_skills := k\<rparr>) = audited s"
  "audited (s\<lparr>ig_inbox := b\<rparr>) = audited s" "audited (s\<lparr>ig_mail := m\<rparr>) = audited s"
  by (simp_all add: audited_def keeps_all_def trail_def)

lemma audited_read:
  assumes "audited s" and "ig_journal s = Some j"
  shows "cleanup_if_due now j = j" "s\<lparr>ig_journal := Some j\<rparr> = s"
  using assms by (simp_all add: audited_def keeps_all_def cleanup_if_due_def retention_def)

lemma audited_start: "audited s \<Longrightarrow> audited (start_service env s)"
proof -
  assume ok: "audited s"
  note st = audited_parts(1) [OF ok]
  obtain x k where t: "start_service env s = (new_process s)\<lparr>ig_store := x, ig_skills := k\<rparr>" using start_frame by blast
  have "trail (start_service env s) i = trail s i" for i
    by (simp add: t trail_def new_process_def reopen_journal_def split: option.split)
  moreover have "keeps_all (start_service env s)"
    using ok by (auto simp: t audited_def keeps_all_def new_process_def reopen_journal_def split: option.splits)
  ultimately show ?thesis using ok start_asset [OF st] stored_start [OF st] by (simp add: audited_def)
qed

lemma keeps_audited_more:
  "keeps audited (register_published env a)" "keeps audited (emit_notification env now a event who reason details)"
  "keeps audited (drain tenant)" "keeps audited (get_journal now i)" "keeps audited (get_tenant_journal now tenant limit)"
proof -
  show "keeps audited (register_published env a)"
    using register_frame by (metis audited_frame(3) keeps_def)
  show "keeps audited (emit_notification env now a event who reason details)" by (rule keeps_emit) simp_all
  show "keeps audited (drain tenant)" by (simp add: keeps_def drain_def split: option.split prod.split)
  show "keeps audited (get_journal now i)" "keeps audited (get_tenant_journal now tenant limit)"
    by (auto simp: keeps_def get_journal_def get_tenant_journal_def entries_for_def entries_for_tenant_def Let_def audited_read
        split: option.split)
qed

lemma tracked_log_then: "tracked a s \<Longrightarrow> event \<noteq> ''transition'' \<Longrightarrow> (\<And>u. keeps (tracked a) (f u)) \<Longrightarrow>
    audited (snd (sv_bind (log_entry (record_event now a event who reason details)) f s))"
  by (metis keepsD keeps_bind tracked_audited tracked_log)

text \<open>One call of the service, with new ids, keeps the trails.\<close>

lemma audited_approve: "audited s \<Longrightarrow> audited (snd (approve env now i who reason s))"
proof -
  assume ok: "audited s"
  obtain r t where v: "validate_asset now i (Some who) reason s = (r, t)" by fastforce
  have t: "audited t" using audited_move [OF ok] v unfolding validate_asset_def by blast
  obtain q u where p: "patch_metadata env now i cleared_flags t = (q, u)" by fastforce
  have u: "audited u \<and> (\<forall>a. q = Inr a \<longrightarrow> tracked a u)" using audited_patch [OF t p] .
  have "keeps (tracked a) (sv_bind (emit_notification env now a NE_Approved who reason cleared_flags) (\<lambda>_. sv_return a))" for a
    by (intro keeps_bind tracked_emit keeps_return)
  then have "audited (snd (sv_bind (log_entry (record_event now a ''approved'' who reason cleared_flags)) (\<lambda>_.
      sv_bind (emit_notification env now a NE_Approved who reason cleared_flags) (\<lambda>_. sv_return a)) u))" if "q = Inr a" for a
    using u that by (intro tracked_log_then) simp_all
  with t u show ?thesis
    by (cases r; cases q) (simp_all add: approve_def sv_bind_def [of "validate_asset _ _ _ _"] sv_bind_def [of "patch_metadata _ _ _ _"] v p)
qed

lemma audited_reject: "audited s \<Longrightarrow> audited (snd (reject env now i who reason s))"
proof -
  assume ok: "audited s"
  obtain r t where v: "revoke_asset now i reason (Some who) s = (r, t)" by fastforce
  have t: "audited t \<and> (\<forall>a. r = Inr a \<longrightarrow> tracked a t)" using audited_move [OF ok] v unfolding revoke_asset_def by blast
  have "keeps (tracked a) (sv_bind (emit_notification env now a NE_Rejected who reason []) (\<lambda>_. sv_return a))" for a
    by (intro keeps_bind tracked_emit keeps_return)
  then have "audited (snd (sv_bind (log_entry (record_event now a ''rejected'' who reason [])) (\<lambda>_.
      sv_bind (emit_notification env now a NE_Rejected who reason []) (\<lambda>_. sv_return a)) t))" if "r = Inr a" for a
    using t that by (intro tracked_log_then) simp_all
  with t show ?thesis by (cases r) (simp_all add: reject_def sv_bind_def [of "revoke_asset _ _ _ _"] v)
qed

lemma audited_post: "audited s \<Longrightarrow> get_asset s i = None \<Longrightarrow> audited (snd (post env now event i e sender tenant s))"
proof -
  assume ok: "audited s" "get_asset s i = None"
  have sub: "audited (snd (submit env now i p sender tenant s))" for p using audited_submit [OF ok] .
  have enq: "audited (enqueue_event x s)" for x using ok(1) by (simp add: enqueue_event_def split: option.split)
  have "audited (snd (sv_bind (if b then sv_void (submit env now i p sender tenant) else sv_modify (enqueue_event x)) (\<lambda>_. sv_return event) s))"
    for b p x by (rule snd_bind [where P = audited]) (simp_all add: sub enq keeps_return sv_modify_def)
  with ok(1) show ?thesis by (simp add: post_def sv_raise_def split: option.split)
qed

lemma audited_step: "new_ids x s \<Longrightarrow> audited s \<Longrightarrow> audited (ig_run x s)"
proof -
  assume ids: "new_ids x s" and ok: "audited s"
  obtain env y where x: "x = (env, y)" by fastforce
  have mv: "audited (snd (move_asset now i target rev who reason s))" for now i target rev who reason
    using keepsD [OF keeps_audited(1) ok] .
  have pr: "keeps audited (promote env now i who reason)" for now i who reason
    unfolding promote_def by (intro keeps_bind keeps_audited keeps_audited_more keeps_return)
  have ing: "get_asset s i = None \<Longrightarrow> audited (snd (ingest env now i name ty uri tenant conf md s))" for now i name ty uri tenant conf md
    using audited_ingest [OF ok] by (metis prod.collapse)
  have "audited (snd (ig_exec env y s))"
  proof (cases y)
    case (IgBatch now items source tenant)
    let ?ids = "List.concat (List.map (\<lambda>(i, k, p). [i, k]) items)"
    have "distinct ?ids" "\<And>j. j \<in> set ?ids \<Longrightarrow> get_asset s j = None"
      using ids unfolding x IgBatch new_ids_def list_all_iff snd_conv drawn_ids.simps by blast+
    with audited_batch [OF ok this] IgBatch show ?thesis by simp
  next
    case (IgPost now event i e sender tenant)
    with ids x ok show ?thesis by (simp add: new_ids_def audited_post)
  qed (use ids x ok in \<open>simp_all add: new_ids_def validate_asset_def revoke_asset_def hook_call_def mv ing audited_submit audited_approve audited_reject
      keepsD [OF keeps_audited(2)] keepsD [OF pr] keepsD [OF keeps_audited_more(3)] keepsD [OF keeps_audited_more(4)]
      keepsD [OF keeps_audited_more(5)] sv_modify_def audited_start\<close>)
  then show ?thesis by (simp add: ig_run_def x)
qed

lemma audited_empty: "audited empty_service"
  using stored_empty by (simp add: audited_def keeps_all_def empty_service_def get_asset_def trail_def trail_ok_def)

lemma audited_history: "allowed new_ids ig_run xs s \<Longrightarrow> audited s \<Longrightarrow> audited (fold ig_run xs s)"
  by (induction xs arbitrary: s) (auto intro: audited_step)



section \<open>The lifecycle of an asset\<close>

interpretation candidates: transition_table candidate_table candidate_move
  by unfold_locales (simp_all add: candidate_move_def)

text \<open>Journal rows are only ever appended.\<close>

definition grown :: "journal_entry list \<Rightarrow> string \<Rightarrow> ingestion \<Rightarrow> bool" where
  "grown es i s \<longleftrightarrow> keeps_all s \<and> (\<exists>fs. trail s i = es @ fs)"

interpretation grown_calls: asset_calls "grown es i" for es i
proof unfold_locales
  fix s now a st who reason event details
  assume "grown es i s"
  then show "grown es i (logged (record_entry now a st who reason event details) s)"
    by (auto simp: grown_def logged_entry)
next
  fix s now
  assume "grown es i s"
  moreover have "keeps_all s \<Longrightarrow> logged (cleanup_if_due now) s = s"
    by (auto simp: keeps_all_def logged_def cleanup_if_due_def retention_def split: option.splits)
  ultimately show "grown es i (logged (cleanup_if_due now) s)" by (simp add: grown_def)
qed (simp_all add: grown_def)

lemma trail_start: "keeps_all s \<Longrightarrow> keeps_all (start_service env s)" "trail (start_service env s) i = trail s i"
proof -
  obtain x k where t: "start_service env s = (new_process s)\<lparr>ig_store := x, ig_skills := k\<rparr>" using start_frame by blast
  show "trail (start_service env s) i = trail s i"
    by (simp add: t trail_def new_process_def reopen_journal_def split: option.split)
  show "keeps_all s \<Longrightarrow> keeps_all (start_service env s)"
    by (auto simp: t keeps_all_def new_process_def reopen_journal_def split: option.splits)
qed

lemma grown_step: "grown es i s \<Longrightarrow> grown es i (ig_run x s)"
proof -
  have "grown es i s \<Longrightarrow> grown es i (s\<lparr>ig_skills := k\<rparr>)" "grown es i s \<Longrightarrow> grown es i (start_service env s)" for s k env
    by (auto simp: grown_def trail_start)
  moreover have "grown es i s \<Longrightarrow> grown es i (enqueue_event e s)" for s e
    by (cases "ig_mail s") (simp_all add: grown_def keeps_all_def trail_def enqueue_event_def)
  moreover have "keeps (grown es i) (drain tenant)" for tenant
    by (simp add: keeps_def drain_def grown_def keeps_all_def trail_def split: option.split prod.split)
  ultimately have "keeps (grown es i) (ig_exec env y)" for env y by (intro grown_calls.keeps_step)
  then show "grown es i s \<Longrightarrow> grown es i (ig_run x s)" by (simp add: ig_run_def keeps_def)
qed

lemma follows_split: "follows st (es @ fs) = (case follows st es of None \<Rightarrow> None | Some t \<Rightarrow> follows t fs)"
  by (induction st es rule: follows.induct) auto

lemma follows_reach: "follows st es = Some t \<Longrightarrow> reach candidate_table st t"
  by (induction st es rule: follows.induct) (auto simp: entry_fits_def split: if_splits intro: reach_step)

lemma audited_reach:
  assumes "audited s" and "allowed new_ids ig_run xs s" and "get_asset s i = Some a"
  shows "\<exists>b. get_asset (fold ig_run xs s) i = Some b \<and> reach candidate_table (as_status a) (as_status b)"
proof -
  let ?t = "fold ig_run xs s"
  have "grown (trail s i) i s" using audited_parts(2) [OF assms(1)] by (simp add: grown_def)
  then have "grown (trail s i) i ?t" by (rule fold_invariant [where P = "grown (trail s i) i"]) (rule grown_step)
  then obtain fs where fs: "trail ?t i = trail s i @ fs" by (auto simp: grown_def)
  have a: "follows CT_Candidate (trail s i) = Some (as_status a)" "trail s i \<noteq> []"
    using audited_at [OF assms(1), of i] assms(3) by (simp_all add: trail_ok_def)
  have t: "trail_ok (get_asset ?t i) (trail ?t i)" using audited_at [OF audited_history [OF assms(2,1)]] .
  with fs a(2) obtain b where "get_asset ?t i = Some b" by (cases "get_asset ?t i") (auto simp: trail_ok_def)
  moreover from this t fs a(1) have "follows (as_status a) fs = Some (as_status b)" by (simp add: trail_ok_def follows_split)
  ultimately show ?thesis using follows_reach by blast
qed

lemma allowed_append: "allowed ok run (xs @ ys) s \<longleftrightarrow> allowed ok run xs s \<and> allowed ok run ys (fold run xs s)"
  by (induction xs arbitrary: s) auto

text \<open>Over any history with restarts an asset is never lost and only moves along the lifecycle; in particular a revoked one
  stays revoked, and one that was published stays published or is revoked.\<close>

theorem asset_history_lifecycle:
  assumes "allowed new_ids ig_run (xs @ ys) empty_service" and "get_asset (fold ig_run xs empty_service) i = Some a"
  shows "\<exists>b. get_asset (fold ig_run (xs @ ys) empty_service) i = Some b \<and> reach candidate_table (as_status a) (as_status b) \<and>
    (as_status a = CT_Revoked \<longrightarrow> as_status b = CT_Revoked) \<and>
    (as_status a = CT_Published \<longrightarrow> as_status b \<in> {CT_Published, CT_Revoked})"
proof -
  have ok: "audited (fold ig_run xs empty_service)" and ys: "allowed new_ids ig_run ys (fold ig_run xs empty_service)"
    using assms(1) audited_history audited_empty by (auto simp: allowed_append)
  obtain b where b: "get_asset (fold ig_run (xs @ ys) empty_service) i = Some b" "reach candidate_table (as_status a) (as_status b)"
    using audited_reach [OF ok ys assms(2)] by auto
  have "as_status b \<in> {CT_Published, CT_Revoked}" if "as_status a = CT_Published"
    using b(2) that by (rule_tac reach_closed [where table = candidate_table]) auto
  moreover have "as_status b = CT_Revoked" if "as_status a = CT_Revoked"
    using candidates.terminal_reach [of "as_status a"] b(2) that by simp
  ultimately show ?thesis using b by blast
qed

section \<open>Skills\<close>

interpretation skills_calls: asset_calls "\<lambda>s. ig_skills s = k" for k
  by unfold_locales (simp_all add: logged_def put_asset_def)

lemma promote_skills:
  assumes "ig_skills (snd (promote env now i who reason s)) \<noteq> ig_skills s"
  shows "\<exists>a u sk. get_asset s i = Some a \<and> as_status a = CT_Validated \<and> transition now a CT_Published None = Inr u \<and>
    skill_definition env u = Inr (Some sk) \<and>
    ig_skills (snd (promote env now i who reason s)) = map_option (od_put (rn_name sk) sk) (ig_skills s)"
proof (cases "get_asset s i")
  case None
  with assms show ?thesis by (simp add: promote_def sv_bind_def [of "move_asset _ _ _ _ _ _"] move_eq)
next
  case (Some a)
  show ?thesis
  proof (cases "transition now a CT_Published None")
    case (Inl e)
    with Some assms show ?thesis by (simp add: promote_def sv_bind_def [of "move_asset _ _ _ _ _ _"] move_eq)
  next
    case (Inr u)
    let ?t = "logged (record_entry now u (as_status a) (or_system who) reason ''transition'' []) (put_asset u s)"
    have val: "as_status a = CT_Validated"
      using Inr by (cases "as_status a") (auto simp: transition_def candidate_move_def split: if_splits)
    have run: "snd (promote env now i who reason s) = snd (register_published env u ?t)"
      using Some Inr by (simp add: promote_def sv_bind_def move_eq sv_return_def split: prod.split sum.split)
    have same: "ig_skills (logged f (put_asset u s)) = ig_skills s" for f by (simp add: logged_def put_asset_def)
    show ?thesis
      using assms Some Inr val unfolding run register_published_def
      by (auto simp: same sv_return_def sv_modify_def split: if_splits sum.splits option.splits)
  qed
qed

lemma skills_step:
  assumes "snd x \<noteq> IgRestart" and "ig_skills (ig_run x s) \<noteq> ig_skills s"
  shows "\<exists>now i who reason. snd x = IgPromote now i who reason"
proof -
  obtain env y where x: "x = (env, y)" by fastforce
  have "ig_skills (snd (ig_exec env y s)) = ig_skills s" if "\<nexists>now i who reason. y = IgPromote now i who reason"
  proof (cases "\<exists>now event i e sender tenant. y = IgPost now event i e sender tenant")
    case True
    then obtain now event i e sender tenant where y: "y = IgPost now event i e sender tenant" by blast
    have "ig_skills (enqueue_event m t) = ig_skills t" for m t by (simp add: enqueue_event_def split: option.split)
    then show ?thesis using keepsD [OF skills_calls.keeps_post, of "ig_skills s" s] by (simp add: y)
  next
    case False
    show ?thesis
    proof (cases "\<exists>tenant. y = IgDrain tenant")
      case True
      then show ?thesis by (auto simp: drain_def split: option.split prod.split)
    next
      case drain: False
      have "keeps (\<lambda>t. ig_skills t = ig_skills s) (ig_exec env y)"
        using that False drain assms(1) x by (intro skills_calls.keeps_plain) (cases y; auto)
      from keepsD [OF this] show ?thesis by simp
    qed
  qed
  with assms(2) x show ?thesis by (auto simp: ig_run_def)
qed

lemma skills_from_promotion:
  assumes "list_all (\<lambda>x. snd x \<noteq> IgRestart) xs" and "ig_skills s = Some []"
    and "ig_skills (fold ig_run xs s) = Some k" and "od_get k n = Some sk"
  shows "\<exists>ys env now i who reason zs a u. xs = ys @ (env, IgPromote now i who reason) # zs \<and>
    get_asset (fold ig_run ys s) i = Some a \<and> as_status a = CT_Validated \<and> transition now a CT_Published None = Inr u \<and>
    skill_definition env u = Inr (Some sk) \<and> rn_name sk = n"
  using assms(1,3,4)
proof (induction xs arbitrary: k rule: rev_induct)
  case Nil
  with assms(2) show ?case by simp
next
  case (snoc x xs)
  let ?s = "fold ig_run xs s"
  have rest: "list_all (\<lambda>x. snd x \<noteq> IgRestart) xs" "snd x \<noteq> IgRestart" using snoc.prems(1) by simp_all
  have step: "ig_skills (ig_run x ?s) = Some k" using snoc.prems(2) by simp
  have old: ?case if "ig_skills ?s = Some k'" "od_get k' n = Some sk" for k'
  proof -
    from snoc.IH [OF rest(1) that] obtain ys env now i who reason zs a u
      where "xs = ys @ (env, IgPromote now i who reason) # zs" "get_asset (fold ig_run ys s) i = Some a" "as_status a = CT_Validated"
        "transition now a CT_Published None = Inr u" "skill_definition env u = Inr (Some sk)" "rn_name sk = n" by blast
    then show ?thesis by (intro exI [of _ ys] exI [of _ env] exI [of _ now] exI [of _ i] exI [of _ who] exI [of _ reason] exI [of _ "zs @ [x]"]) simp
  qed
  show ?case
  proof (cases "ig_skills (ig_run x ?s) = ig_skills ?s")
    case True
    with step old snoc.prems(3) show ?thesis by simp
  next
    case False
    from skills_step [OF rest(2) False] obtain env now i who reason where x: "x = (env, IgPromote now i who reason)"
      by (metis surjective_pairing)
    with False have "ig_skills (snd (promote env now i who reason ?s)) \<noteq> ig_skills ?s" by (simp add: ig_run_def)
    from promote_skills [OF this] obtain a u sk' where p: "get_asset ?s i = Some a" "as_status a = CT_Validated"
        "transition now a CT_Published None = Inr u" "skill_definition env u = Inr (Some sk')"
        "ig_skills (ig_run x ?s) = map_option (od_put (rn_name sk') sk') (ig_skills ?s)" by (auto simp: x ig_run_def)
    from p(5) step obtain k' where k': "ig_skills ?s = Some k'" "k = od_put (rn_name sk') sk' k'"
      by (cases "ig_skills ?s") simp_all
    show ?thesis
    proof (cases "n = rn_name sk'")
      case True
      with k' snoc.prems(3) have "sk' = sk" by simp
      with p(1-4) x True show ?thesis by blast
    next
      case False
      with k' snoc.prems(3) have "od_get k' n = Some sk" by (simp add: od.get_put)
      with old k'(1) show ?thesis by blast
    qed
  qed
qed

text \<open>C26: In a process that started on an empty database, every skill that the pipeline put into the registry was put there by
  the promotion of a skill asset that was validated and is published by this very call: neither intake, a change of
  metadata, an approval nor a mailbox event activates one.\<close>

theorem only_promotion_activates_skills:
  assumes "list_all (\<lambda>x. snd x \<noteq> IgRestart) xs" and "ig_skills (fold ig_run xs empty_service) = Some k" and "od_get k n = Some sk"
  shows "\<exists>ys env now i who reason zs a u. xs = ys @ (env, IgPromote now i who reason) # zs \<and>
    get_asset (fold ig_run ys empty_service) i = Some a \<and> as_status a = CT_Validated \<and>
    transition now a CT_Published None = Inr u \<and> skill_definition env u = Inr (Some sk) \<and> rn_name sk = n"
  using assms(1) _ assms(2,3) by (rule skills_from_promotion) (simp add: empty_service_def)

section \<open>The mailbox\<close>

definition pending :: "ingestion \<Rightarrow> string \<Rightarrow> mail_event list" where
  "pending s tenant = (case ig_mail s of None \<Rightarrow> inbox_of s tenant | Some m \<Rightarrow> filter (\<lambda>e. me_tenant e = tenant) (ml_rows m))"

text \<open>What a call hands out for a tenant, and what it takes in\<close>

fun handed_out :: "string \<Rightarrow> ig_op \<Rightarrow> ingestion \<Rightarrow> mail_event list" where
  "handed_out tenant (IgDrain t) s = (if t = tenant then (case fst (drain t s) of Inl e \<Rightarrow> [] | Inr es \<Rightarrow> es) else [])"
| "handed_out tenant x s = []"

fun taken_in :: "string \<Rightarrow> ig_op \<Rightarrow> mail_event list" where
  "taken_in tenant (IgPost now event i e sender t) = (case (rw_type e, rw_payload e) of
     (Some ty, Some p) \<Rightarrow>
       if t = tenant \<and> py_strip ty \<noteq> [] \<and> ty \<noteq> ''candidate_asset''
       then [\<lparr>me_type = ty, me_id = event, me_received = now, me_sender = sender, me_tenant = t, me_body = rw_text e\<rparr>] else []
   | _ \<Rightarrow> [])"
| "taken_in tenant x = []"

fun all_handed_out :: "string \<Rightarrow> (ingest_env \<times> ig_op) list \<Rightarrow> ingestion \<Rightarrow> mail_event list" where
  "all_handed_out tenant [] s = []"
| "all_handed_out tenant (x # xs) s = handed_out tenant (snd x) s @ all_handed_out tenant xs (ig_run x s)"

definition mail_works :: "ingestion \<Rightarrow> bool" where
  "mail_works s \<longleftrightarrow> (case ig_mail s of None \<Rightarrow> False | Some m \<Rightarrow> ml_open m)"

interpretation mail_calls: asset_calls "\<lambda>s. ig_mail s = m" for m
  by unfold_locales (simp_all add: logged_def put_asset_def)

lemma mail_start: "mail_works s \<Longrightarrow> ig_mail (start_service env s) = ig_mail s"
proof -
  assume ok: "mail_works s"
  obtain x k where "start_service env s = (new_process s)\<lparr>ig_store := x, ig_skills := k\<rparr>" using start_frame by blast
  moreover have "m\<lparr>ml_open := True\<rparr> = m" if "ig_mail s = Some m" for m using ok that by (cases m) (simp add: mail_works_def)
  ultimately show ?thesis using ok by (auto simp: new_process_def mail_works_def split: option.splits)
qed

lemma mail_other:
  assumes "mail_works s" and "case y of IgPost _ _ _ _ _ _ \<Rightarrow> False | IgDrain _ \<Rightarrow> False | _ \<Rightarrow> True"
  shows "ig_mail (snd (ig_exec env y s)) = ig_mail s"
proof (cases "y = IgRestart \<or> (\<exists>now i who reason. y = IgPromote now i who reason)")
  case True
  have "keeps (\<lambda>t. ig_mail t = ig_mail s) (promote env now i who reason)" for now i who reason
    by (rule mail_calls.keeps_promote) simp
  from keepsD [OF this] True show ?thesis by (auto simp: sv_modify_def mail_start [OF assms(1)])
next
  case False
  then have "keeps (\<lambda>t. ig_mail t = ig_mail s) (ig_exec env y)"
    using assms(2) by (intro mail_calls.keeps_plain) (cases y; simp)
  from keepsD [OF this] show ?thesis by simp
qed

lemma mail_post:
  assumes "mail_works s"
  shows "pending (snd (post env now event i e sender t s)) tenant = pending s tenant @ taken_in tenant (IgPost now event i e sender t)"
    and "mail_works (snd (post env now event i e sender t s))"
proof -
  obtain m where m: "ig_mail s = Some m" "ml_open m" using assms by (auto simp: mail_works_def split: option.splits)
  have sub: "ig_mail (snd (submit env now i p sender t s)) = Some m" for p
    using keepsD [OF mail_calls.keeps_submit, of s "Some m"] m(1) by simp
  have run: "snd (sv_bind (sv_void (submit env now i p sender t)) (\<lambda>_. sv_return event) s) = snd (submit env now i p sender t s)" for p
    by (simp add: sv_void_def sv_bind_def sv_return_def split: prod.split sum.split)
  have "pending (snd (post env now event i e sender t s)) tenant = pending s tenant @ taken_in tenant (IgPost now event i e sender t) \<and>
      mail_works (snd (post env now event i e sender t s))"
    by (auto simp: post_def pending_def mail_works_def m sub run sv_raise_def sv_bind_def [of "sv_modify _"] sv_modify_def sv_return_def enqueue_event_def mail_enqueue_def split: option.split)
  then show "pending (snd (post env now event i e sender t s)) tenant = pending s tenant @ taken_in tenant (IgPost now event i e sender t)"
    and "mail_works (snd (post env now event i e sender t s))" by blast+
qed

lemma mail_step:
  assumes "mail_works s"
  shows "mail_works (ig_run x s) \<and>
    handed_out tenant (snd x) s @ pending (ig_run x s) tenant = pending s tenant @ taken_in tenant (snd x)"
proof -
  obtain env y where x: "x = (env, y)" by fastforce
  show ?thesis
  proof (cases "case y of IgPost _ _ _ _ _ _ \<Rightarrow> False | IgDrain _ \<Rightarrow> False | _ \<Rightarrow> True")
    case True
    then have "handed_out tenant y s = []" "taken_in tenant y = []" by (cases y; simp)+
    with mail_other [OF assms True, of env] assms show ?thesis
      by (simp add: x ig_run_def pending_def mail_works_def inbox_of_def split: option.splits)
  next
    case False
    show ?thesis
    proof (cases y)
      case (IgPost now event i e sender t)
      have "handed_out tenant y s = []" by (simp add: IgPost)
      then show ?thesis using mail_post [OF assms, of env now event i e sender t] by (simp add: x IgPost ig_run_def del: taken_in.simps)
    next
      case (IgDrain t)
      obtain m where m: "ig_mail s = Some m" "ml_open m" using assms by (auto simp: mail_works_def split: option.splits)
      have "filter (\<lambda>e. me_tenant e = tenant \<and> me_tenant e \<noteq> t) (ml_rows m) =
          (if t = tenant then [] else filter (\<lambda>e. me_tenant e = tenant) (ml_rows m))"
        by (auto intro: filter_cong)
      with m show ?thesis
        by (simp add: x IgDrain ig_run_def drain_def mail_drain_def pending_def mail_works_def conj_commute)
    qed (use False in simp_all)
  qed
qed

text \<open>C29: With the mailbox table, over any history with restarts, what the mailbox handed out for a tenant followed by what it
  still holds is exactly what it held at the start followed by the events posted for that tenant, each once and in order.
  (Candidate assets go to the pipeline and malformed events are refused.)\<close>

theorem mailbox_delivers_once_in_order:
  assumes "ig_mail s = Some m" and "ml_open m"
  shows "all_handed_out tenant xs s @ pending (fold ig_run xs s) tenant =
    pending s tenant @ List.concat (List.map (\<lambda>x. taken_in tenant (snd x)) xs)"
proof -
  have "mail_works s" using assms by (simp add: mail_works_def)
  then show ?thesis
  proof (induction xs arbitrary: s)
    case (Cons x xs)
    from mail_step [OF Cons.prems, of x tenant] Cons.IH [of "ig_run x s"]
    have "handed_out tenant (snd x) s @ (all_handed_out tenant xs (ig_run x s) @ pending (fold ig_run xs (ig_run x s)) tenant) =
        (pending s tenant @ taken_in tenant (snd x)) @ List.concat (List.map (\<lambda>x. taken_in tenant (snd x)) xs)"
      by (metis append.assoc)
    then show ?case by simp
  qed simp
qed

section \<open>A concrete pipeline\<close>

text \<open>The skill definition is inline in the metadata, every hook answers.\<close>

definition pipe_env :: ingest_env where
  "pipe_env = \<lparr>ie_inline = (\<lambda>m. case od_get m ''skill_definition'' of
       Some (MetaText n) \<Rightarrow> Inr (Some \<lparr>rn_name = n, rn_provenance = [], rn_category = [], rn_body = []\<rparr>) | _ \<Rightarrow> Inr None),
     ie_source = (\<lambda>_. Inr None), ie_post = (\<lambda>_ _ _. HttpAnswer 200 []), ie_json = (\<lambda>m. event_value (ms_event m)),
     ie_hmac = (\<lambda>k b. k @ b), ie_shown = (\<lambda>_. ''error'')\<rparr>"

definition skill_payload :: "string \<Rightarrow> string \<Rightarrow> payload" where
  "skill_payload name conf = \<lparr>pl_name = Some name, pl_type = Some ''skill'', pl_source = None, pl_confidence = Some conf,
     pl_metadata = Some [(''skill_definition'', MetaText name)]\<rparr>"

definition pipe_run :: "ig_op list \<Rightarrow> ingestion" where
  "pipe_run ops = fold ig_run (List.map (Pair pipe_env) ops) empty_service"

definition skill_names :: "ingestion \<Rightarrow> string list" where
  "skill_names s = (case ig_skills s of None \<Rightarrow> [] | Some k \<Rightarrow> od_keys k)"

definition raw_note :: "string \<Rightarrow> raw_event" where
  "raw_note ty = \<lparr>rw_type = Some ty, rw_payload = Some (skill_payload ''tidy'' ''low''), rw_text = ty\<rparr>"

definition published_ops :: "ig_op list" where
  "published_ops = [IgHookCreate 1 ''h'' ''t'' ''ops'' ''https://x'' [NE_Approved] (Some ''k'') True,
     IgSubmit 2 ''a'' (skill_payload ''tidy'' ''low'') ''feed'' ''t'', IgPost 3 ''e'' ''b'' (raw_note ''metric'') ''feed'' ''t'',
     IgApprove 4 ''a'' ''ann'' ''fine'', IgPromote 5 ''a'' None ''promoted'']"

lemma published_new_ids: "allowed new_ids ig_run (List.map (Pair pipe_env) (published_ops @ [IgRestart, IgRevoke 6 ''a'' ''bad'' None])) empty_service"
  by code_simp


lemma published_state: "map_option as_status (get_asset (pipe_run published_ops) ''a'') = Some CT_Published"
  by code_simp

theorem asset_history_lifecycle_witness:
  "map_option as_status (get_asset (pipe_run (published_ops @ [IgRestart, IgRevoke 6 ''a'' ''bad'' None])) ''a'')
     \<in> {Some CT_Published, Some CT_Revoked}"
proof -
  obtain a where a: "get_asset (pipe_run published_ops) ''a'' = Some a" "as_status a = CT_Published"
    using published_state by auto
  have "allowed new_ids ig_run (List.map (Pair pipe_env) published_ops @
      List.map (Pair pipe_env) [IgRestart, IgRevoke 6 ''a'' ''bad'' None]) empty_service"
    using published_new_ids by simp
  from asset_history_lifecycle [OF this, of "''a''" a] a show ?thesis by (auto simp: pipe_run_def)
qed

theorem only_promotion_activates_skills_witness:
  "\<exists>ys now who reason zs. List.map (Pair pipe_env) published_ops = ys @ (pipe_env, IgPromote now ''a'' who reason) # zs"
proof -
  have plain: "list_all (\<lambda>x. snd x \<noteq> IgRestart) (List.map (Pair pipe_env) published_ops)" by code_simp
  have "(case ig_skills (pipe_run published_ops) of None \<Rightarrow> False | Some k \<Rightarrow> od_get k ''tidy'' \<noteq> None)" by code_simp
  then obtain k sk where k: "ig_skills (fold ig_run (List.map (Pair pipe_env) published_ops) empty_service) = Some k"
      "od_get k ''tidy'' = Some sk" by (auto simp: pipe_run_def split: option.splits)
  from only_promotion_activates_skills [OF plain this] obtain ys env now i who reason zs
    where xs: "List.map (Pair pipe_env) published_ops = ys @ (env, IgPromote now i who reason) # zs" by blast
  then have "(env, IgPromote now i who reason) \<in> set (List.map (Pair pipe_env) published_ops)" by simp
  then have "env = pipe_env" "i = ''a''" by (auto simp: published_ops_def)
  with xs show ?thesis by blast
qed

theorem mailbox_delivers_once_in_order_witness:
  "List.map me_type (pending (pipe_run [IgPost 3 ''e'' ''b'' (raw_note ''metric'') ''feed'' ''t'', IgRestart,
     IgPost 4 ''f'' ''c'' (raw_note ''audit'') ''feed'' ''t'']) ''t'') = [''metric'', ''audit'']"
proof -
  have m: "ig_mail empty_service = Some \<lparr>ml_rows = [], ml_open = True\<rparr>" "ml_open \<lparr>ml_rows = [], ml_open = True\<rparr>"
    by (simp_all add: empty_service_def)
  show ?thesis
    using mailbox_delivers_once_in_order [OF m, of "''t''" "List.map (Pair pipe_env)
      [IgPost 3 ''e'' ''b'' (raw_note ''metric'') ''feed'' ''t'', IgRestart, IgPost 4 ''f'' ''c'' (raw_note ''audit'') ''feed'' ''t'']"]
    by (simp add: pipe_run_def raw_note_def pending_def empty_service_def py_strip_def py_isspace_def)
qed

section \<open>What the code allows\<close>

text \<open>Hydration registers the skill of every asset, whatever its status: after a restart the skill of a quarantined candidate
  is active, and so is that of a revoked asset.\<close>

lemma restart_activates_quarantined:
  "skill_names (pipe_run [IgSubmit 2 ''a'' (skill_payload ''evil'' ''low'') ''feed'' ''t'']) = []"
  "skill_names (pipe_run [IgSubmit 2 ''a'' (skill_payload ''evil'' ''low'') ''feed'' ''t'', IgRestart]) = [''evil'']"
  "map_option as_status (get_asset (pipe_run [IgSubmit 2 ''a'' (skill_payload ''evil'' ''low'') ''feed'' ''t'', IgRestart]) ''a'') =
     Some CT_Candidate"
  by (code_simp, code_simp, code_simp)

lemma revoked_skill_stays:
  "skill_names (pipe_run (published_ops @ [IgRevoke 6 ''a'' ''bad'' None])) = [''tidy'']"
  "skill_names (pipe_run (published_ops @ [IgRevoke 6 ''a'' ''bad'' None, IgRestart])) = [''tidy'']"
  by (code_simp, code_simp)

text \<open>The flags do not stop an operator: a quarantined asset is validated and promoted without an approval.\<close>

lemma quarantined_asset_published:
  "map_option (\<lambda>a. (as_status a, flag ''quarantine'' (as_metadata a))) (get_asset (pipe_run
     [IgSubmit 2 ''a'' (skill_payload ''evil'' ''low'') ''feed'' ''t'', IgValidate 3 ''a'' None ''validated'',
      IgPromote 4 ''a'' None ''promoted'']) ''a'') = Some (CT_Published, True)"
  by code_simp

text \<open>The confidence that the sender claims decides: a payload that says \<open>high\<close> is validated without a review.\<close>

lemma claimed_confidence_validates:
  "map_option as_status (get_asset (pipe_run [IgSubmit 2 ''a'' (skill_payload ''evil'' ''HIGH'') ''feed'' ''t'']) ''a'') = Some CT_Validated"
  by code_simp

text \<open>A name that is too long fails again in the record that stands for the failure, and the rest of the batch is dropped.\<close>

lemma long_name_aborts_batch:
  "od_keys (ig_store (pipe_run [IgBatch 2 [(''a'', ''b'', skill_payload (replicate 129 (CHR ''x'')) ''low''),
     (''c'', ''d'', skill_payload ''tidy'' ''low'')] ''feed'' ''t''])) = []"
  by code_simp

end
