(* ===== verification/Plugins.thy ===== *)
theory Plugins
  imports Lifecycle Dag PyText "HOL-Library.Product_Lexorder"
begin

text \<open>
  Plugins: version constraints (\<open>agent33/plugins/version.py\<close>), the registry with discovery, load order and lifecycle
  (\<open>plugins/registry.py\<close>), lifecycle events (\<open>plugins/events.py\<close>), configuration (\<open>plugins/config_store.py\<close>) and the
  installer (\<open>plugins/installer.py\<close>).

  The code of a plugin is not under src: whether creating its context, importing it and \<open>on_load\<close> raise, and whether
  \<open>on_enable\<close>, \<open>on_disable\<close> and \<open>on_unload\<close> raise, are fields of the environment.  A call runs to its end before the next
  one starts.  The file system is the manifest found in each directory.  Where the registry's queue is a \<open>while\<close> loop it
  carries fuel, \<open>None\<close> for running out.
\<close>

section \<open>Version constraints\<close>

text \<open>\<open>int(s)\<close>: surrounding white space, a sign, and single underscores between digits\<close>

fun digit_run :: "string \<Rightarrow> bool" where
  "digit_run [] = False"
| "digit_run [c] = py_isdigit c"
| "digit_run (c # d # cs) = (py_isdigit c \<and> (if d = CHR ''_'' then cs \<noteq> [] \<and> digit_run cs else digit_run (d # cs)))"

definition py_int :: "string \<Rightarrow> int option" where
  "py_int raw = (let s = py_strip raw; body = (if s \<noteq> [] \<and> hd s \<in> {CHR ''+'', CHR ''-''} then tl s else s) in
     if digit_run body
     then Some ((if s \<noteq> [] \<and> hd s = CHR ''-'' then -1 else 1) * int (py_nat (filter (\<lambda>c. c \<noteq> CHR ''_'') body)))
     else None)"

datatype semver_error = BadSemver string

type_synonym semver = "int \<times> int \<times> int"

definition parse_semver :: "string \<Rightarrow> semver_error + semver" where
  "parse_semver s = (case py_split (CHR ''.'') (py_strip s) of
      [a, b, c] \<Rightarrow> (case (py_int a, py_int b, py_int c) of
          (Some x, Some y, Some z) \<Rightarrow> Inr (x, y, z)
        | _ \<Rightarrow> Inl (BadSemver s))
    | _ \<Rightarrow> Inl (BadSemver s))"

definition compare_with :: "(semver \<Rightarrow> bool) \<Rightarrow> string \<Rightarrow> semver_error + bool" where
  "compare_with f s = (case parse_semver s of Inl e \<Rightarrow> Inl e | Inr required \<Rightarrow> Inr (f required))"

definition satisfies_constraint :: "string \<Rightarrow> string \<Rightarrow> semver_error + bool" where
  "satisfies_constraint ver raw =
     (let c = py_strip raw in
      if c = ''*'' then Inr True
      else case parse_semver ver of
        Inl e \<Rightarrow> Inr True
      | Inr actual \<Rightarrow>
          if py_startswith ''>='' c then compare_with (\<lambda>r. r \<le> actual) (drop 2 c)
          else if py_startswith ''<='' c then compare_with (\<lambda>r. actual \<le> r) (drop 2 c)
          else if py_startswith ''>'' c then compare_with (\<lambda>r. r < actual) (drop 1 c)
          else if py_startswith ''<'' c then compare_with (\<lambda>r. actual < r) (drop 1 c)
          else if py_startswith ''^'' c then compare_with (\<lambda>r. fst actual = fst r \<and> r \<le> actual) (drop 1 c)
          else if py_startswith ''~'' c
          then compare_with (\<lambda>r. fst actual = fst r \<and> fst (snd actual) = fst (snd r) \<and> r \<le> actual) (drop 1 c)
          else (case parse_semver c of Inl e \<Rightarrow> Inr True | Inr r \<Rightarrow> Inr (actual = r)))"

section \<open>State\<close>

datatype plugin_state =
  PS_Discovered | PS_Loading | PS_Loaded | PS_Enabling | PS_Active | PS_Disabled | PS_Unloading | PS_Unloaded | PS_Error

record plugin_dep =
  dp_name :: string
  dp_constraint :: string
  dp_optional :: bool

record plugin_manifest =
  pm_name :: string
  pm_version :: string
  pm_description :: string
  pm_skills :: "string list"
  pm_tools :: "string list"
  pm_agents :: "string list"
  pm_hooks :: "string list"
  pm_deps :: "plugin_dep list"
  pm_tags :: "string list"

record plugin_entry =
  en_manifest :: plugin_manifest
  en_dir :: string
  en_state :: plugin_state
  en_instance :: bool
  en_error :: "string option"
  en_tenant :: string

record plugin_event =
  pv_type :: string
  pv_plugin :: string
  pv_version :: string
  pv_details :: "(string \<times> string) list"

datatype plugin_file = NoPluginFile | BadPluginFile string | PluginFile plugin_manifest

record event_store =
  es_events :: "plugin_event list"
  es_max :: nat

record install_record =
  in_source :: string
  in_path :: string
  in_copy :: bool
  in_version :: string
  in_by :: string
  in_hash :: string

text \<open>\<open>pg_files\<close> is the file system: \<open>None\<close> is no directory.\<close>

record plugins =
  pg_plugins :: "(string, plugin_entry) odict"
  pg_allow :: "string list"
  pg_events :: "event_store option"
  pg_files :: "string \<Rightarrow> plugin_file option"
  pg_records :: "(string, install_record) odict"

record plugin_env =
  px_load :: "plugin_manifest \<Rightarrow> string \<Rightarrow> string option"
  px_enable :: "plugin_manifest \<Rightarrow> string option"
  px_hash :: "plugin_file option \<Rightarrow> string"

datatype plugin_error =
    ManifestMissing string
  | ManifestBad string
  | NotOnAllowlist string
  | AlreadyDiscovered string
  | NotDiscovered string
  | WrongTenant string
  | WrongState string plugin_state
  | DependencyMissing string string
  | PluginCycle "string list"
  | PluginLoadFailed string
  | PluginEnableFailed string
  | PluginsOutOfFuel

type_synonym 'a plugin_svc = "(plugins, plugin_error, 'a) svc"

definition is_allowed :: "plugins \<Rightarrow> string \<Rightarrow> bool" where
  "is_allowed s n \<longleftrightarrow> pg_allow s = [] \<or> n \<in> set (pg_allow s)"

definition foreign :: "string \<Rightarrow> string \<Rightarrow> bool" where
  "foreign caller owner \<longleftrightarrow> caller \<noteq> [] \<and> owner \<noteq> [] \<and> owner \<noteq> caller"

definition check_tenant_write :: "string \<Rightarrow> string \<Rightarrow> string \<Rightarrow> unit plugin_svc" where
  "check_tenant_write caller owner n = (if foreign caller owner then sv_raise (WrongTenant n) else sv_return ())"

text \<open>The last \<open>max_events\<close> events are kept.\<close>

definition store_event :: "plugin_event \<Rightarrow> event_store \<Rightarrow> event_store" where
  "store_event e st = (let es = es_events st @ [e] in st\<lparr>es_events := drop (length es - max 1 (es_max st)) es\<rparr>)"

definition list_events :: "event_store \<Rightarrow> string \<Rightarrow> int \<Rightarrow> plugin_event list" where
  "list_events st n limit =
     (let es = (if n \<noteq> [] then filter (\<lambda>e. pv_plugin e = n) (es_events st) else es_events st)
      in rev (drop (length es - nat (max 1 limit)) es))"

definition note_event :: "string \<Rightarrow> string \<Rightarrow> string \<Rightarrow> (string \<times> string) list \<Rightarrow> unit plugin_svc" where
  "note_event ty n v details = sv_modify (\<lambda>s. s\<lparr>pg_events := map_option (store_event
     \<lparr>pv_type = ty, pv_plugin = n, pv_version = v, pv_details = details\<rparr>) (pg_events s)\<rparr>)"

definition put_entry :: "string \<Rightarrow> plugin_entry \<Rightarrow> unit plugin_svc" where
  "put_entry n e = sv_modify (\<lambda>s. s\<lparr>pg_plugins := od_put n e (pg_plugins s)\<rparr>)"

definition require_plugin :: "string \<Rightarrow> plugin_entry plugin_svc" where
  "require_plugin n = sv_bind sv_get (\<lambda>s. case od_get (pg_plugins s) n of None \<Rightarrow> sv_raise (NotDiscovered n) | Some e \<Rightarrow> sv_return e)"

section \<open>Discovery\<close>

definition load_plugin_manifest :: "string \<Rightarrow> plugin_manifest plugin_svc" where
  "load_plugin_manifest dir = sv_bind sv_get (\<lambda>s. case pg_files s dir of
      None \<Rightarrow> sv_raise (ManifestMissing dir)
    | Some NoPluginFile \<Rightarrow> sv_raise (ManifestMissing dir)
    | Some (BadPluginFile e) \<Rightarrow> sv_raise (ManifestBad e)
    | Some (PluginFile m) \<Rightarrow> sv_return m)"

definition discover_plugin :: "string \<Rightarrow> string \<Rightarrow> plugin_manifest plugin_svc" where
  "discover_plugin dir tenant = sv_bind (load_plugin_manifest dir) (\<lambda>m. sv_bind sv_get (\<lambda>s.
     if \<not> is_allowed s (pm_name m) then sv_raise (NotOnAllowlist (pm_name m))
     else if od_get (pg_plugins s) (pm_name m) \<noteq> None then sv_raise (AlreadyDiscovered (pm_name m))
     else sv_bind (put_entry (pm_name m) \<lparr>en_manifest = m, en_dir = dir, en_state = PS_Discovered, en_instance = False,
            en_error = None, en_tenant = tenant\<rparr>) (\<lambda>_.
          sv_bind (note_event ''discovered'' (pm_name m) (pm_version m) [(''plugin_dir'', dir), (''tenant_id'', tenant)]) (\<lambda>_.
          sv_return m))))"

text \<open>The subdirectories in order; \<open>None\<close> if the path is no directory.\<close>

fun discover_dirs :: "string list \<Rightarrow> nat plugin_svc" where
  "discover_dirs [] = sv_return 0"
| "discover_dirs (d # ds) = sv_bind (sv_attempt (discover_plugin d [])) (\<lambda>r. sv_bind (discover_dirs ds) (\<lambda>k.
     sv_return (case r of Inl _ \<Rightarrow> k | Inr _ \<Rightarrow> Suc k)))"

definition discover_plugins :: "string list option \<Rightarrow> nat plugin_svc" where
  "discover_plugins dirs = (case dirs of None \<Rightarrow> sv_return 0 | Some ds \<Rightarrow> discover_dirs ds)"

section \<open>Load order\<close>

definition missing_dependency :: "(string, plugin_entry) odict \<Rightarrow> (string \<times> string) option" where
  "missing_dependency ps = (case List.concat (List.map (\<lambda>(n, e). List.map (\<lambda>d. (n, dp_name d))
       (filter (\<lambda>d. \<not> dp_optional d \<and> od_get ps (dp_name d) = None) (pm_deps (en_manifest e)))) ps) of
     [] \<Rightarrow> None | p # _ \<Rightarrow> Some p)"

definition add_plugin_edges :: "(string, plugin_entry) odict \<Rightarrow> string \<times> plugin_entry \<Rightarrow>
  (string \<Rightarrow> string list) \<times> (string \<Rightarrow> int) \<Rightarrow> (string \<Rightarrow> string list) \<times> (string \<Rightarrow> int)" where
  "add_plugin_edges ps x g = fold (\<lambda>d (adj, indeg).
       if od_get ps (dp_name d) \<noteq> None
       then (adj(dp_name d := adj (dp_name d) @ [fst x]), indeg(fst x := indeg (fst x) + 1)) else (adj, indeg))
     (pm_deps (en_manifest (snd x))) g"

fun drain_queue :: "nat \<Rightarrow> (string \<Rightarrow> string list) \<Rightarrow> (string \<Rightarrow> int) \<Rightarrow> string list \<Rightarrow> string list \<Rightarrow> string list option" where
  "drain_queue fuel adj indeg [] order = Some order"
| "drain_queue 0 adj indeg (node # queue) order = None"
| "drain_queue (Suc fuel) adj indeg (node # queue) order =
     (case fold relax_one (adj node) (indeg, queue) of (indeg', queue') \<Rightarrow> drain_queue fuel adj indeg' queue' (order @ [node]))"

definition resolve_load_order :: "(string, plugin_entry) odict \<Rightarrow> plugin_error + string list" where
  "resolve_load_order ps = (case missing_dependency ps of
      Some (n, d) \<Rightarrow> Inl (DependencyMissing n d)
    | None \<Rightarrow>
        (case fold (add_plugin_edges ps) ps (\<lambda>_. [], \<lambda>_. 0) of (adj, indeg) \<Rightarrow>
          (case drain_queue (Suc (length ps)) adj indeg (filter (\<lambda>n. indeg n = 0) (od_keys ps)) [] of
             None \<Rightarrow> Inl PluginsOutOfFuel
           | Some order \<Rightarrow>
               if length order \<noteq> length ps
               then let remaining = filter (\<lambda>n. n \<notin> set order) (od_keys ps) in Inl (PluginCycle (remaining @ [hd remaining]))
               else Inr order)))"

datatype violation = MissingPlugin string string | VersionViolation string string

fun dep_violations :: "(string, plugin_entry) odict \<Rightarrow> string \<Rightarrow> plugin_dep list \<Rightarrow> semver_error + violation list" where
  "dep_violations ps n [] = Inr []"
| "dep_violations ps n (d # ds) =
     (case (case od_get ps (dp_name d) of
          None \<Rightarrow> Inr (if \<not> dp_optional d then [MissingPlugin n (dp_name d)] else [])
        | Some e \<Rightarrow>
            if dp_constraint d = ''*'' then Inr []
            else (case satisfies_constraint (pm_version (en_manifest e)) (dp_constraint d) of
              Inl x \<Rightarrow> Inl x
            | Inr ok \<Rightarrow> Inr (if ok then [] else [VersionViolation n (dp_name d)]))) of
        Inl x \<Rightarrow> Inl x
      | Inr vs \<Rightarrow> (case dep_violations ps n ds of Inl x \<Rightarrow> Inl x | Inr ws \<Rightarrow> Inr (vs @ ws)))"

fun violations_in :: "(string, plugin_entry) odict \<Rightarrow> (string \<times> plugin_entry) list \<Rightarrow> semver_error + violation list" where
  "violations_in ps [] = Inr []"
| "violations_in ps ((n, e) # rest) = (case dep_violations ps n (pm_deps (en_manifest e)) of
      Inl x \<Rightarrow> Inl x
    | Inr vs \<Rightarrow> (case violations_in ps rest of Inl x \<Rightarrow> Inl x | Inr ws \<Rightarrow> Inr (vs @ ws)))"

definition check_version_constraints :: "plugins \<Rightarrow> semver_error + violation list" where
  "check_version_constraints s = violations_in (pg_plugins s) (pg_plugins s)"

section \<open>Lifecycle\<close>

definition fail_entry :: "string \<Rightarrow> plugin_entry \<Rightarrow> string \<Rightarrow> string \<Rightarrow> plugin_error \<Rightarrow> unit plugin_svc" where
  "fail_entry n e what err x = sv_bind (put_entry n (e\<lparr>en_state := PS_Error, en_error := Some err\<rparr>)) (\<lambda>_.
     sv_bind (note_event ''error'' n (pm_version (en_manifest e)) [(''operation'', what), (''error'', err)]) (\<lambda>_. sv_raise x))"

definition load_plugin :: "plugin_env \<Rightarrow> string \<Rightarrow> string \<Rightarrow> unit plugin_svc" where
  "load_plugin env n tenant = sv_bind (require_plugin n) (\<lambda>e0.
     if en_state e0 \<notin> {PS_Discovered, PS_Unloaded} then sv_return ()
     else let e = e0\<lparr>en_tenant := (if tenant \<noteq> [] then tenant else en_tenant e0), en_state := PS_Loading\<rparr> in
       sv_bind (put_entry n e) (\<lambda>_.
       case px_load env (en_manifest e) (en_dir e) of
         Some err \<Rightarrow> fail_entry n e ''load'' err (PluginLoadFailed err)
       | None \<Rightarrow> sv_bind (put_entry n (e\<lparr>en_instance := True, en_state := PS_Loaded\<rparr>)) (\<lambda>_.
           note_event ''loaded'' n (pm_version (en_manifest e)) [])))"

fun load_each :: "plugin_env \<Rightarrow> string list \<Rightarrow> nat plugin_svc" where
  "load_each env [] = sv_return 0"
| "load_each env (n # ns) = sv_bind (sv_attempt (load_plugin env n [])) (\<lambda>r. sv_bind (load_each env ns) (\<lambda>k.
     sv_return (case r of Inl _ \<Rightarrow> k | Inr _ \<Rightarrow> Suc k)))"

definition load_all :: "plugin_env \<Rightarrow> nat plugin_svc" where
  "load_all env = sv_bind sv_get (\<lambda>s. sv_bind (sv_lift (resolve_load_order (pg_plugins s))) (load_each env))"

definition enable_plugin :: "plugin_env \<Rightarrow> string \<Rightarrow> string \<Rightarrow> unit plugin_svc" where
  "enable_plugin env n tenant = sv_bind (require_plugin n) (\<lambda>e.
     sv_bind (check_tenant_write tenant (en_tenant e) n) (\<lambda>_.
     if en_state e \<notin> {PS_Loaded, PS_Disabled} then sv_raise (WrongState n (en_state e))
     else sv_bind (put_entry n (e\<lparr>en_state := PS_Enabling\<rparr>)) (\<lambda>_.
       case (if en_instance e then px_enable env (en_manifest e) else None) of
         Some err \<Rightarrow> fail_entry n e ''enable'' err (PluginEnableFailed err)
       | None \<Rightarrow> sv_bind (put_entry n (e\<lparr>en_state := PS_Active\<rparr>)) (\<lambda>_.
           note_event ''enabled'' n (pm_version (en_manifest e)) []))))"

text \<open>An exception of \<open>on_disable\<close> or \<open>on_unload\<close> is logged only.\<close>

definition disable_plugin :: "string \<Rightarrow> string \<Rightarrow> unit plugin_svc" where
  "disable_plugin n tenant = sv_bind (require_plugin n) (\<lambda>e.
     sv_bind (check_tenant_write tenant (en_tenant e) n) (\<lambda>_.
     if en_state e \<noteq> PS_Active then sv_raise (WrongState n (en_state e))
     else sv_bind (put_entry n (e\<lparr>en_state := PS_Disabled\<rparr>)) (\<lambda>_.
       note_event ''disabled'' n (pm_version (en_manifest e)) [])))"

definition unload_plugin :: "string \<Rightarrow> string \<Rightarrow> unit plugin_svc" where
  "unload_plugin n tenant = sv_bind (require_plugin n) (\<lambda>e.
     sv_bind (check_tenant_write tenant (en_tenant e) n) (\<lambda>_.
     sv_bind (if en_state e = PS_Active then disable_plugin n [] else sv_return ()) (\<lambda>_.
     sv_bind (put_entry n (e\<lparr>en_state := PS_Unloading\<rparr>)) (\<lambda>_.
     sv_bind (put_entry n (e\<lparr>en_state := PS_Unloaded, en_instance := False\<rparr>)) (\<lambda>_.
     note_event ''unloaded'' n (pm_version (en_manifest e)) [])))))"

fun unload_each :: "string list \<Rightarrow> unit plugin_svc" where
  "unload_each [] = sv_return ()"
| "unload_each (n # ns) = sv_bind sv_get (\<lambda>s.
     sv_bind (case od_get (pg_plugins s) n of
         None \<Rightarrow> sv_return ()
       | Some e \<Rightarrow> if en_state e \<in> {PS_Active, PS_Loaded, PS_Disabled}
           then sv_void (sv_attempt (unload_plugin n [])) else sv_return ()) (\<lambda>_. unload_each ns))"

definition unload_all :: "unit plugin_svc" where
  "unload_all = sv_bind sv_get (\<lambda>s. unload_each (rev (case resolve_load_order (pg_plugins s) of
     Inl _ \<Rightarrow> od_keys (pg_plugins s) | Inr order \<Rightarrow> order)))"

definition remove_plugin :: "string \<Rightarrow> string \<Rightarrow> bool plugin_svc" where
  "remove_plugin n tenant = sv_bind sv_get (\<lambda>s. case od_get (pg_plugins s) n of
      None \<Rightarrow> sv_return False
    | Some e \<Rightarrow> sv_bind (check_tenant_write tenant (en_tenant e) n) (\<lambda>_.
        if en_state e \<notin> {PS_Discovered, PS_Unloaded} then sv_raise (WrongState n (en_state e))
        else sv_bind (sv_modify (\<lambda>s. s\<lparr>pg_plugins := od_del n (pg_plugins s)\<rparr>)) (\<lambda>_.
          sv_bind (note_event ''removed'' n (pm_version (en_manifest e)) []) (\<lambda>_. sv_return True))))"

section \<open>Queries\<close>

definition get_plugin :: "plugins \<Rightarrow> string \<Rightarrow> string \<Rightarrow> plugin_entry option" where
  "get_plugin s n tenant = (case od_get (pg_plugins s) n of
      None \<Rightarrow> None
    | Some e \<Rightarrow> if foreign tenant (en_tenant e) then None else Some e)"

definition visible_to :: "string \<Rightarrow> plugin_entry \<Rightarrow> bool" where
  "visible_to tenant e \<longleftrightarrow> tenant = [] \<or> en_tenant e = [] \<or> en_tenant e = tenant"

definition list_plugins :: "plugins \<Rightarrow> string \<Rightarrow> plugin_manifest list" where
  "list_plugins s tenant = sort_key pm_name (List.map en_manifest (filter (visible_to tenant) (od_vals (pg_plugins s))))"

definition list_active :: "plugins \<Rightarrow> string \<Rightarrow> plugin_manifest list" where
  "list_active s tenant = sort_key pm_name (List.map en_manifest
     (filter (\<lambda>e. en_state e = PS_Active \<and> visible_to tenant e) (od_vals (pg_plugins s))))"

definition get_state :: "plugins \<Rightarrow> string \<Rightarrow> string \<Rightarrow> plugin_state option" where
  "get_state s n tenant = map_option en_state (get_plugin s n tenant)"

definition active_count :: "plugins \<Rightarrow> nat" where
  "active_count s = length (filter (\<lambda>e. en_state e = PS_Active) (od_vals (pg_plugins s)))"

definition find_plugins_by_tag :: "plugins \<Rightarrow> string \<Rightarrow> plugin_manifest list" where
  "find_plugins_by_tag s tag = filter (\<lambda>m. tag \<in> set (pm_tags m)) (List.map en_manifest (od_vals (pg_plugins s)))"

definition find_by_contribution :: "plugins \<Rightarrow> string \<Rightarrow> string \<Rightarrow> plugin_manifest list" where
  "find_by_contribution s ty n = filter (\<lambda>m. (ty = ''skills'' \<and> n \<in> set (pm_skills m)) \<or> (ty = ''tools'' \<and> n \<in> set (pm_tools m)) \<or>
     (ty = ''agents'' \<and> n \<in> set (pm_agents m)) \<or> (ty = ''hooks'' \<and> n \<in> set (pm_hooks m)))
     (List.map en_manifest (od_vals (pg_plugins s)))"

definition search_plugins :: "plugins \<Rightarrow> string \<Rightarrow> plugin_manifest list" where
  "search_plugins s query = (let q = py_lower query in
     sort_key pm_name (filter (\<lambda>m. py_contains q (py_lower (pm_name m)) \<or> py_contains q (py_lower (pm_description m)) \<or>
       list_ex (\<lambda>t. py_contains q (py_lower t)) (pm_tags m)) (List.map en_manifest (od_vals (pg_plugins s)))))"

section \<open>Installation\<close>

record plugin_result =
  pr_success :: bool
  pr_name :: string
  pr_version :: string
  pr_problem :: string

definition refused :: "string \<Rightarrow> string \<Rightarrow> string \<Rightarrow> plugin_result" where
  "refused n v problem = \<lparr>pr_success = False, pr_name = n, pr_version = v, pr_problem = problem\<rparr>"

definition set_files :: "string \<Rightarrow> plugin_file option \<Rightarrow> unit plugin_svc" where
  "set_files dir content = sv_modify (\<lambda>s. s\<lparr>pg_files := (pg_files s)(dir := content)\<rparr>)"

definition activate_plugin :: "plugin_env \<Rightarrow> string \<Rightarrow> string \<Rightarrow> bool \<Rightarrow> unit plugin_svc" where
  "activate_plugin env dir n on = sv_bind (discover_plugin dir []) (\<lambda>_. sv_bind (load_plugin env n []) (\<lambda>_.
     if on then enable_plugin env n [] else sv_return ()))"

text \<open>\<open>target\<close> is \<open>plugins_dir / name\<close>; \<open>on\<close> is \<open>enable\<close>, else \<open>auto_enable\<close>.\<close>

definition install_from_local :: "plugin_env \<Rightarrow> (string \<Rightarrow> string) \<Rightarrow> string \<Rightarrow> bool \<Rightarrow> string \<Rightarrow> bool \<Rightarrow> plugin_result plugin_svc" where
  "install_from_local env target source copy by_whom on = sv_bind sv_get (\<lambda>s.
     if pg_files s source = None then sv_return (refused [] [] ''source not found'')
     else sv_bind (load_plugin_manifest source) (\<lambda>m.
       let n = pm_name m; dir = (if copy then target n else source) in
       if od_get (pg_plugins s) n \<noteq> None then sv_return (refused n (pm_version m) ''already installed'')
       else if copy \<and> pg_files s dir \<noteq> None then sv_return (refused n (pm_version m) ''target exists'')
       else sv_bind (if copy then set_files dir (pg_files s source) else sv_return ()) (\<lambda>_.
         sv_bind (activate_plugin env dir n on) (\<lambda>_.
         sv_bind (sv_modify (\<lambda>s. s\<lparr>pg_records := od_put n \<lparr>in_source = source, in_path = dir, in_copy = copy,
           in_version = pm_version m, in_by = by_whom, in_hash = px_hash env (pg_files s dir)\<rparr> (pg_records s)\<rparr>)) (\<lambda>_.
         sv_bind (note_event (if copy then ''installed'' else ''linked'') n (pm_version m)
           [(''source_path'', source), (''installed_path'', dir), (''requested_by'', by_whom)]) (\<lambda>_.
         sv_return \<lparr>pr_success = True, pr_name = n, pr_version = pm_version m, pr_problem = []\<rparr>))))))"

definition update_plugin :: "plugin_env \<Rightarrow> string \<Rightarrow> string \<Rightarrow> bool \<Rightarrow> plugin_result plugin_svc" where
  "update_plugin env n by_whom on = sv_bind sv_get (\<lambda>s. case od_get (pg_records s) n of
      None \<Rightarrow> sv_return (refused n [] ''no install metadata'')
    | Some r \<Rightarrow>
        if pg_files s (in_source r) = None then sv_return (refused n (in_version r) ''source not found'')
        else sv_bind (if od_get (pg_plugins s) n \<noteq> None
            then sv_bind (unload_plugin n []) (\<lambda>_. sv_void (remove_plugin n [])) else sv_return ()) (\<lambda>_.
          let dir = (if in_copy r then in_path r else in_source r) in
          sv_bind (if in_copy r then set_files dir (pg_files s (in_source r)) else sv_return ()) (\<lambda>_.
          sv_bind (load_plugin_manifest dir) (\<lambda>m.
          sv_bind (activate_plugin env dir n on) (\<lambda>_.
          sv_bind (sv_modify (\<lambda>s. s\<lparr>pg_records := od_put n (r\<lparr>in_version := pm_version m, in_path := dir,
            in_by := (if by_whom \<noteq> [] then by_whom else in_by r), in_hash := px_hash env (pg_files s dir)\<rparr>) (pg_records s)\<rparr>)) (\<lambda>_.
          sv_bind (note_event ''updated'' n (pm_version m) [(''source_path'', in_source r), (''installed_path'', dir),
            (''requested_by'', by_whom), (''mode'', if in_copy r then ''copy'' else ''link'')]) (\<lambda>_.
          sv_return \<lparr>pr_success = True, pr_name = n, pr_version = pm_version m, pr_problem = []\<rparr>)))))))"

section \<open>Configuration\<close>

record plugin_config =
  cf_tenant :: string
  cf_plugin :: string
  cf_enabled :: bool
  cf_overrides :: "(string, string) odict"
  cf_permissions :: "(string, bool) odict"

type_synonym config_st = "(string, plugin_config) odict durable"

definition config_key :: "string \<Rightarrow> string \<Rightarrow> string" where
  "config_key n tenant = (if tenant = [] then ''__global__'' else tenant) @ '':'' @ n"

definition config_get :: "config_st \<Rightarrow> string \<Rightarrow> string \<Rightarrow> plugin_config option" where
  "config_get d n tenant = od_get (live d) (config_key n tenant)"

definition override :: "('k \<times> 'v) list \<Rightarrow> ('k, 'v) odict \<Rightarrow> ('k, 'v) odict" where
  "override updates d = fold (\<lambda>(k, v). od_put k v) updates d"

definition config_put ::
  "string \<Rightarrow> string \<Rightarrow> bool option \<Rightarrow> (string \<times> string) list \<Rightarrow> (string \<times> bool) list \<Rightarrow> config_st \<Rightarrow> plugin_config \<times> config_st" where
  "config_put n tenant enabled overrides permissions d =
     (let base = (case config_get d n tenant of
            None \<Rightarrow> \<lparr>cf_tenant = tenant, cf_plugin = n, cf_enabled = True, cf_overrides = [], cf_permissions = []\<rparr>
          | Some c \<Rightarrow> c\<lparr>cf_tenant := tenant, cf_plugin := n\<rparr>);
          rec = base\<lparr>cf_enabled := (case enabled of None \<Rightarrow> cf_enabled base | Some b \<Rightarrow> b),
            cf_overrides := override overrides (cf_overrides base), cf_permissions := override permissions (cf_permissions base)\<rparr>
      in (rec, persist (d\<lparr>live := od_put (config_key n tenant) rec (live d)\<rparr>)))"

definition config_delete :: "string \<Rightarrow> string \<Rightarrow> config_st \<Rightarrow> config_st" where
  "config_delete n tenant d = persist (d\<lparr>live := od_del (config_key n tenant) (live d)\<rparr>)"

definition granted_permissions :: "config_st \<Rightarrow> string \<Rightarrow> string \<Rightarrow> string list \<Rightarrow> string list" where
  "granted_permissions d n tenant wanted = (case config_get d n tenant of
      None \<Rightarrow> wanted
    | Some c \<Rightarrow> filter (\<lambda>p. case od_get (cf_permissions c) p of None \<Rightarrow> True | Some b \<Rightarrow> b) wanted)"

end
