(* ===== verification/Plugins_Correct.thy ===== *)
theory Plugins_Correct
  imports Plugins Dag_Correct
begin

text \<open>
  Correctness of plugins: the load order is a topological order and its failures are what they say, a tenant cannot act on
  the plugin of another one, and what the registry holds after any history of calls.
\<close>

section \<open>The dependency graph\<close>

definition discovered_deps :: "(string, plugin_entry) odict \<Rightarrow> plugin_entry \<Rightarrow> string list" where
  "discovered_deps ps e = List.map dp_name (filter (\<lambda>d. od_get ps (dp_name d) \<noteq> None) (pm_deps (en_manifest e)))"

definition plugin_deps :: "(string, plugin_entry) odict \<Rightarrow> string \<Rightarrow> string list" where
  "plugin_deps ps n = (case od_get ps n of None \<Rightarrow> [] | Some e \<Rightarrow> discovered_deps ps e)"

lemma edges_of_deps:
  "fold (\<lambda>d (adj, indeg). if od_get ps (dp_name d) \<noteq> None
       then (adj(dp_name d := adj (dp_name d) @ [n]), indeg(n := indeg n + 1)) else (adj, indeg)) ds (adj, indeg) = (adj', indeg') \<Longrightarrow>
   count_list (adj' d) m = count_list (adj d) m +
     (if m = n then count_list (List.map dp_name (filter (\<lambda>d. od_get ps (dp_name d) \<noteq> None) ds)) d else 0) \<and>
   indeg' m = indeg m + (if m = n then int (length (filter (\<lambda>d. od_get ps (dp_name d) \<noteq> None) ds)) else 0)"
proof (induction ds arbitrary: adj indeg)
  case (Cons x ds)
  show ?case
  proof (cases "od_get ps (dp_name x)")
    case None
    with Cons show ?thesis by simp
  next
    case (Some e)
    with Cons.prems have "fold (\<lambda>d (adj, indeg). if od_get ps (dp_name d) \<noteq> None
       then (adj(dp_name d := adj (dp_name d) @ [n]), indeg(n := indeg n + 1)) else (adj, indeg)) ds
       (adj(dp_name x := adj (dp_name x) @ [n]), indeg(n := indeg n + 1)) = (adj', indeg')" by simp
    from Cons.IH [OF this] Some show ?thesis by (auto split: if_splits)
  qed
qed simp

lemma edges_of_plugin:
  assumes "add_plugin_edges ps (n, e) (adj, indeg) = (adj', indeg')"
  shows "count_list (adj' d) m = count_list (adj d) m + (if m = n then count_list (discovered_deps ps e) d else 0)"
    and "indeg' m = indeg m + (if m = n then int (length (discovered_deps ps e)) else 0)"
  using edges_of_deps [of ps n "pm_deps (en_manifest e)" adj indeg adj' indeg' d m] assms
  unfolding add_plugin_edges_def discovered_deps_def fst_conv snd_conv length_map by blast+

lemma edges_of_plugins:
  "distinct (List.map fst xs) \<Longrightarrow> fold (add_plugin_edges ps) xs (adj, indeg) = (adj', indeg') \<Longrightarrow>
   count_list (adj' d) m = count_list (adj d) m + (case od_get xs m of None \<Rightarrow> 0 | Some e \<Rightarrow> count_list (discovered_deps ps e) d) \<and>
   indeg' m = indeg m + (case od_get xs m of None \<Rightarrow> 0 | Some e \<Rightarrow> int (length (discovered_deps ps e)))"
proof (induction xs arbitrary: adj indeg)
  case (Cons x xs)
  obtain n e where x: "x = (n, e)" by (cases x)
  obtain adj1 indeg1 where one: "add_plugin_edges ps (n, e) (adj, indeg) = (adj1, indeg1)" by fastforce
  have rest: "fold (add_plugin_edges ps) xs (adj1, indeg1) = (adj', indeg')" using Cons.prems(2) by (simp add: x one)
  have "od_get xs n = None" using Cons.prems(1) by (simp add: x map_of_eq_None_iff)
  with Cons.IH [OF _ rest] Cons.prems(1) edges_of_plugin [OF one] show ?case by (auto simp: x split: option.splits)
qed simp

lemma plugin_graph:
  assumes "od_wf ps" and "fold (add_plugin_edges ps) ps (\<lambda>_. [], \<lambda>_. 0) = (adj, indeg)"
  shows "wf_graph (od_keys ps) (plugin_deps ps) adj" and "indeg n = int (length (plugin_deps ps n))"
proof -
  have dis: "distinct (List.map fst ps)" using assms(1) by (simp add: od_wf_def od_keys_def)
  note e = edges_of_plugins [OF dis assms(2)]
  have cnt: "count_list (adj d) m = count_list (plugin_deps ps m) d" for d m
    using e by (simp add: plugin_deps_def split: option.split)
  show "indeg n = int (length (plugin_deps ps n))" using e by (simp add: plugin_deps_def split: option.split)
  have "set (plugin_deps ps m) \<subseteq> set (od_keys ps)" for m
    by (auto simp: plugin_deps_def discovered_deps_def od.key_iff split: option.splits)
  moreover have "m \<notin> set (od_keys ps) \<Longrightarrow> plugin_deps ps m = []" for m
    using od.key_iff [of m ps] by (simp add: plugin_deps_def)
  ultimately show "wf_graph (od_keys ps) (plugin_deps ps) adj" using dis cnt by (simp add: wf_graph_def od_keys_def)
qed

section \<open>The queue\<close>

definition queue_inv :: "string list \<Rightarrow> (string \<Rightarrow> string list) \<Rightarrow> (string \<Rightarrow> int) \<Rightarrow> string list \<Rightarrow> string list \<Rightarrow> bool" where
  "queue_inv ids deps f queue order \<longleftrightarrow>
     (\<forall>n. f n = int (length (filter (\<lambda>d. d \<notin> set order) (deps n)))) \<and>
     distinct order \<and> set order \<subseteq> set ids \<and> topo deps order \<and> distinct queue \<and> set queue = ready ids deps (set order)"

lemma queue_start:
  assumes "wf_graph ids deps adj" and "\<And>n. f n = int (length (deps n))"
  shows "queue_inv ids deps f (filter (\<lambda>n. f n = 0) ids) []"
  using assms by (auto simp: queue_inv_def topo_def ready_def wf_graph_def)

lemma queue_step:
  assumes g: "wf_graph ids deps adj" and inv: "queue_inv ids deps f (q # qs) order"
    and step: "fold relax_one (adj q) (f, qs) = (f', qs')"
  shows "queue_inv ids deps f' qs' (order @ [q])"
proof -
  let ?O = "set order"
  from inv have f: "f n = int (length (filter (\<lambda>d. d \<notin> ?O) (deps n)))" and q: "distinct (q # qs)" "set (q # qs) = ready ids deps ?O"
    and topo: "topo deps order" and order: "distinct order" "?O \<subseteq> set ids" for n by (auto simp: queue_inv_def)
  have ready: "q \<in> set ids" "q \<notin> ?O" "set (deps q) \<subseteq> ?O" using q(2) by (auto simp: ready_def)
  have cnt: "count_list (adj q) n = count_list (deps n) q" for n using g by (simp add: wf_graph_def)
  have split: "length (filter (\<lambda>d. d \<notin> ?O) xs) = count_list xs q + length (filter (\<lambda>d. d \<notin> set (order @ [q])) xs)" for xs
    using ready(2) by (induction xs) auto
  have f': "f' n = int (length (filter (\<lambda>d. d \<notin> set (order @ [q])) (deps n)))" for n
    using relax_indeg [of "adj q" f qs] step split [of "deps n"] by (simp add: f cnt)
  have "int (count_list (adj q) n) \<le> f n" for n using split [of "deps n"] by (simp add: f cnt)
  then obtain new where new: "qs' = qs @ new" "distinct new" "set new = {n \<in> set (adj q). int (count_list (adj q) n) = f n}"
    using relax_queue [of "adj q" f qs] step by auto
  have zero: "int (count_list (adj q) n) = f n \<longleftrightarrow> set (deps n) \<subseteq> insert q ?O" for n
  proof -
    have "int (count_list (adj q) n) = f n \<longleftrightarrow> filter (\<lambda>d. d \<notin> set (order @ [q])) (deps n) = []"
      using split [of "deps n"] by (simp add: f cnt)
    then show ?thesis by (auto simp: filter_empty_conv)
  qed
  have mem: "n \<in> set new \<longleftrightarrow> q \<in> set (deps n) \<and> set (deps n) \<subseteq> insert q ?O" for n
    by (simp add: new(3) zero adj_iff [OF g])
  have fresh: "n \<notin> ?O" "n \<noteq> q" "n \<notin> set qs" "n \<in> set ids" if "q \<in> set (deps n)" for n
  proof -
    show "n \<notin> ?O" using that topo_closed [OF topo] ready(2) by blast
    show "n \<noteq> q" using that ready by blast
    show "n \<notin> set qs" using that q(2) ready(2) by (auto simp: ready_def)
    show "n \<in> set ids" using that g by (force simp: wf_graph_def)
  qed
  have "set qs' = ready ids deps (set (order @ [q]))"
  proof (intro equalityI subsetI)
    fix n assume "n \<in> set qs'"
    then consider "n \<in> set qs" | "n \<in> set new" by (auto simp: new(1))
    then show "n \<in> ready ids deps (set (order @ [q]))"
    proof cases
      case 1
      then have "n \<in> ready ids deps ?O" "n \<noteq> q" using q by auto
      then show ?thesis by (auto simp: ready_def)
    next
      case 2
      with fresh show ?thesis by (auto simp: mem ready_def)
    qed
  next
    fix n assume n: "n \<in> ready ids deps (set (order @ [q]))"
    show "n \<in> set qs'"
    proof (cases "q \<in> set (deps n)")
      case True
      with n show ?thesis by (auto simp: new(1) mem ready_def)
    next
      case False
      with n have "n \<in> ready ids deps ?O" "n \<noteq> q" by (auto simp: ready_def)
      with q(2) show ?thesis by (auto simp: new(1))
    qed
  qed
  moreover have "distinct qs'" using q(1) new(2) fresh by (auto simp: new(1) mem)
  moreover have "topo deps (order @ [q])" using topo by (rule topo_append) (use ready in auto)
  ultimately show ?thesis using f' order ready by (simp add: queue_inv_def)
qed

lemma drain_total:
  assumes g: "wf_graph ids deps adj"
  shows "queue_inv ids deps f queue order \<Longrightarrow> card (set ids - set order) < fuel \<Longrightarrow>
    \<exists>f' order'. drain_queue fuel adj f queue order = Some order' \<and> queue_inv ids deps f' [] order'"
proof (induction fuel arbitrary: f order queue)
  case (Suc fuel)
  show ?case
  proof (cases queue)
    case Nil
    with Suc.prems(1) show ?thesis by auto
  next
    case (Cons q qs)
    obtain f' qs' where step: "fold relax_one (adj q) (f, qs) = (f', qs')" by fastforce
    have inv: "queue_inv ids deps f' qs' (order @ [q])" using queue_step [OF g _ step] Suc.prems(1) Cons by simp
    have "q \<in> set ids - set order" using Suc.prems(1) Cons by (auto simp: queue_inv_def ready_def)
    then have "set ids - set (order @ [q]) \<subset> set ids - set order" by auto
    then have "card (set ids - set (order @ [q])) < card (set ids - set order)" by (simp add: psubset_card_mono)
    with Suc.prems(2) have "card (set ids - set (order @ [q])) < fuel" by simp
    from Suc.IH [OF inv this] show ?thesis using step Cons by simp
  qed
qed simp
section \<open>The load order\<close>

definition unmet :: "(string, plugin_entry) odict \<Rightarrow> string \<Rightarrow> string \<Rightarrow> bool" where
  "unmet ps n d \<longleftrightarrow> (\<exists>e dep. od_get ps n = Some e \<and> dep \<in> set (pm_deps (en_manifest e)) \<and> \<not> dp_optional dep \<and> dp_name dep = d \<and>
     od_get ps d = None)"

definition unmet_deps :: "(string, plugin_entry) odict \<Rightarrow> (string \<times> string) list" where
  "unmet_deps ps = List.concat (List.map (\<lambda>(n, e). List.map (\<lambda>d. (n, dp_name d))
     (filter (\<lambda>d. \<not> dp_optional d \<and> od_get ps (dp_name d) = None) (pm_deps (en_manifest e)))) ps)"

lemma unmet_deps_iff:
  assumes "od_wf ps" shows "(n, d) \<in> set (unmet_deps ps) \<longleftrightarrow> unmet ps n d"
proof -
  have "(n, d) \<in> set (unmet_deps ps) \<longleftrightarrow> (\<exists>e. (n, e) \<in> set ps \<and> (\<exists>dep \<in> set (pm_deps (en_manifest e)).
      \<not> dp_optional dep \<and> od_get ps (dp_name dep) = None \<and> d = dp_name dep))"
    unfolding unmet_deps_def set_concat set_map image_image UN_iff split_beta by (simp add: Bex_def image_iff)
  moreover have "(n, e) \<in> set ps \<longleftrightarrow> od_get ps n = Some e" for e using assms by (simp add: od_wf_def od_keys_def)
  ultimately show ?thesis unfolding unmet_def by metis
qed

lemma missing_none_iff:
  assumes "od_wf ps" shows "missing_dependency ps = None \<longleftrightarrow> (\<forall>n d. \<not> unmet ps n d)"
proof -
  have "missing_dependency ps = None \<longleftrightarrow> unmet_deps ps = []"
    unfolding missing_dependency_def unmet_deps_def [symmetric] by (cases "unmet_deps ps") auto
  also have "\<dots> \<longleftrightarrow> (\<forall>n d. (n, d) \<notin> set (unmet_deps ps))" by (cases "unmet_deps ps") auto
  finally show ?thesis by (simp add: unmet_deps_iff [OF assms])
qed

lemma missing_some: "od_wf ps \<Longrightarrow> missing_dependency ps = Some (n, d) \<Longrightarrow> unmet ps n d"
  unfolding missing_dependency_def unmet_deps_def [symmetric]
  by (cases "unmet_deps ps") (auto simp flip: unmet_deps_iff)

lemma drained:
  assumes wf: "od_wf ps" and graph: "fold (add_plugin_edges ps) ps (\<lambda>_. [], \<lambda>_. 0) = (adj, indeg)"
  shows "\<exists>f order. drain_queue (Suc (length ps)) adj indeg (filter (\<lambda>n. indeg n = 0) (od_keys ps)) [] = Some order \<and>
    queue_inv (od_keys ps) (plugin_deps ps) f [] order"
proof -
  note g = plugin_graph [OF wf graph]
  have "card (set (od_keys ps) - set []) < Suc (length ps)"
    using card_length [of "od_keys ps"] by (simp add: od_keys_def)
  from drain_total [OF g(1) queue_start [OF g(1,2)] this] show ?thesis by blast
qed

lemma unfinished_cyclic:
  assumes "queue_inv ids deps f [] order" and "n \<in> set ids" and "n \<notin> set order" and "\<And>m. set (deps m) \<subseteq> set ids"
  shows "\<not> acyclic (dep_rel deps)"
proof (rule rest_cyclic [of "set ids - set order"])
  show "n \<in> set ids - set order" using assms(2,3) by simp
  fix m assume "m \<in> set ids - set order"
  then have "\<not> set (deps m) \<subseteq> set order" using assms(1) by (auto simp: queue_inv_def ready_def)
  with assms(4) show "\<exists>d \<in> set ids - set order. d \<in> set (deps m)" by blast
qed simp

text \<open>C30: The load order: when every required dependency is discovered and nothing depends on itself, the registry orders
all plugins, each once, every plugin after all its discovered dependencies; otherwise it names a dependency that is really
missing, or reports a cycle when there is one.  The queue never runs out of fuel.\<close>

theorem load_order_correct:
  assumes "od_wf ps"
  shows "case resolve_load_order ps of
      Inr order \<Rightarrow> (\<forall>n d. \<not> unmet ps n d) \<and> distinct order \<and> set order = set (od_keys ps) \<and> topo (plugin_deps ps) order
    | Inl e \<Rightarrow> (case e of DependencyMissing n d \<Rightarrow> unmet ps n d
        | PluginCycle c \<Rightarrow> \<not> acyclic (dep_rel (plugin_deps ps)) | _ \<Rightarrow> False)"
proof (cases "missing_dependency ps")
  case None
  obtain adj indeg where graph: "fold (add_plugin_edges ps) ps (\<lambda>_. [], \<lambda>_. 0) = (adj, indeg)" by fastforce
  from drained [OF assms graph] obtain f order where
    run: "drain_queue (Suc (length ps)) adj indeg (filter (\<lambda>n. indeg n = 0) (od_keys ps)) [] = Some order"
    and inv: "queue_inv (od_keys ps) (plugin_deps ps) f [] order" by blast
  have order: "distinct order" "set order \<subseteq> set (od_keys ps)" "topo (plugin_deps ps) order" using inv by (simp_all add: queue_inv_def)
  have dis: "distinct (od_keys ps)" "length (od_keys ps) = length ps" using assms by (simp_all add: od_wf_def od_keys_def)
  show ?thesis
  proof (cases "length order = length ps")
    case True
    then have "set order = set (od_keys ps)" using order dis by (metis card_subset_eq distinct_card finite_set)
    moreover have "resolve_load_order ps = Inr order" using True None by (simp add: resolve_load_order_def graph run)
    moreover have "\<forall>n d. \<not> unmet ps n d" using None by (simp add: missing_none_iff [OF assms])
    ultimately show ?thesis using order by simp
  next
    case False
    then obtain n where "n \<in> set (od_keys ps)" "n \<notin> set order" using order dis by (metis distinct_card subsetI subset_antisym)
    then have "\<not> acyclic (dep_rel (plugin_deps ps))"
      using inv plugin_graph(1) [OF assms graph] unfinished_cyclic by (metis wf_graph_def)
    with False None show ?thesis by (simp add: resolve_load_order_def graph run Let_def)
  qed
next
  case (Some p)
  then obtain n d where "missing_dependency ps = Some (n, d)" by (cases p) auto
  with missing_some [OF assms this] show ?thesis by (simp add: resolve_load_order_def)
qed

definition plug :: "string \<Rightarrow> (string \<times> bool) list \<Rightarrow> plugin_entry" where
  "plug n ds = \<lparr>en_manifest = \<lparr>pm_name = n, pm_version = ''1.0.0'', pm_description = [], pm_skills = [], pm_tools = [], pm_agents = [],
     pm_hooks = [], pm_deps = List.map (\<lambda>(d, opt). \<lparr>dp_name = d, dp_constraint = ''*'', dp_optional = opt\<rparr>) ds, pm_tags = []\<rparr>,
     en_dir = n, en_state = PS_Discovered, en_instance = False, en_error = None, en_tenant = []\<rparr>"

definition catalogue :: "(string, plugin_entry) odict" where
  "catalogue = [(''c'', plug ''c'' [(''a'', False), (''b'', False)]), (''b'', plug ''b'' [(''a'', False), (''x'', True)]), (''a'', plug ''a'' [])]"

theorem load_order_correct_witness:
  "resolve_load_order catalogue = Inr [''a'', ''b'', ''c''] \<and> topo (plugin_deps catalogue) [''a'', ''b'', ''c'']"
proof -
  have order: "resolve_load_order catalogue = Inr [''a'', ''b'', ''c'']" by code_simp
  have "od_wf catalogue" by code_simp
  from load_order_correct [OF this] order show ?thesis by simp
qed

text \<open>The path of a reported cycle lists every plugin that could not be ordered, those on no cycle included.\<close>

definition two_cycle :: "(string, plugin_entry) odict" where
  "two_cycle = [(''top'', plug ''top'' [(''p'', False)]), (''p'', plug ''p'' [(''q'', False)]), (''q'', plug ''q'' [(''p'', False)])]"

theorem cycle_names_bystanders:
  "resolve_load_order two_cycle = Inl (PluginCycle [''top'', ''p'', ''q'', ''top'']) \<and>
   list_all (\<lambda>n. ''top'' \<notin> set (plugin_deps two_cycle n)) (od_keys two_cycle)"
  by code_simp

section \<open>Histories\<close>

datatype pg_op =
    PgDiscover string string
  | PgDiscoverAll "string list option"
  | PgLoad string string
  | PgLoadAll
  | PgEnable string string
  | PgDisable string string
  | PgUnload string string
  | PgUnloadAll
  | PgRemove string string
  | PgInstall string bool string bool
  | PgUpdate string string bool

fun pg_exec :: "plugin_env \<Rightarrow> (string \<Rightarrow> string) \<Rightarrow> pg_op \<Rightarrow> unit plugin_svc" where
  "pg_exec env target (PgDiscover dir t) = sv_void (discover_plugin dir t)"
| "pg_exec env target (PgDiscoverAll dirs) = sv_void (discover_plugins dirs)"
| "pg_exec env target (PgLoad n t) = load_plugin env n t"
| "pg_exec env target PgLoadAll = sv_void (load_all env)"
| "pg_exec env target (PgEnable n t) = enable_plugin env n t"
| "pg_exec env target (PgDisable n t) = disable_plugin n t"
| "pg_exec env target (PgUnload n t) = unload_plugin n t"
| "pg_exec env target PgUnloadAll = unload_all"
| "pg_exec env target (PgRemove n t) = sv_void (remove_plugin n t)"
| "pg_exec env target (PgInstall source copy who on) = sv_void (install_from_local env target source copy who on)"
| "pg_exec env target (PgUpdate n who on) = sv_void (update_plugin env n who on)"

definition pg_run :: "(string \<Rightarrow> string) \<Rightarrow> plugin_env \<times> pg_op \<Rightarrow> plugins \<Rightarrow> plugins" where
  "pg_run target x s = snd (pg_exec (fst x) target (snd x) s)"

section \<open>What the registry holds\<close>

fun entry_ok :: "string \<Rightarrow> plugin_entry \<Rightarrow> bool" where
  "entry_ok n e \<longleftrightarrow> pm_name (en_manifest e) = n \<and>
     (case en_state e of PS_Discovered \<Rightarrow> \<not> en_instance e | PS_Unloaded \<Rightarrow> \<not> en_instance e
        | PS_Loaded \<Rightarrow> en_instance e | PS_Active \<Rightarrow> en_instance e | PS_Disabled \<Rightarrow> en_instance e
        | PS_Error \<Rightarrow> en_error e \<noteq> None | _ \<Rightarrow> False)"

definition plugins_ok :: "plugins \<Rightarrow> bool" where
  "plugins_ok s \<longleftrightarrow> od_wf (pg_plugins s) \<and>
     (\<forall>n e. od_get (pg_plugins s) n = Some e \<longrightarrow> entry_ok n e \<and> is_allowed s n)"

lemma plugins_okD: "plugins_ok s \<Longrightarrow> od_get (pg_plugins s) n = Some e \<Longrightarrow> entry_ok n e \<and> is_allowed s n"
  by (simp add: plugins_ok_def)

lemma plugins_ok_put: "plugins_ok s \<Longrightarrow> entry_ok n e \<Longrightarrow> is_allowed s n \<Longrightarrow>
    plugins_ok (s\<lparr>pg_plugins := od_put n e (pg_plugins s), pg_events := x\<rparr>)"
  by (simp add: plugins_ok_def od.wf_put od.get_put is_allowed_def split: if_splits del: entry_ok.simps)

lemma plugins_ok_del: "plugins_ok s \<Longrightarrow> plugins_ok (s\<lparr>pg_plugins := od_del n (pg_plugins s), pg_events := x\<rparr>)"
  by (simp add: plugins_ok_def od.wf_del od.get_del is_allowed_def split: if_splits del: entry_ok.simps)

lemma plugins_ok_other: "plugins_ok s \<Longrightarrow> plugins_ok (s\<lparr>pg_files := fs\<rparr>)" "plugins_ok s \<Longrightarrow> plugins_ok (s\<lparr>pg_records := rs\<rparr>)"
    "plugins_ok s \<Longrightarrow> plugins_ok (s\<lparr>pg_events := es\<rparr>)"
  by (simp_all add: plugins_ok_def is_allowed_def del: entry_ok.simps)

lemma keeps_by_wp: "(\<And>s. P s \<Longrightarrow> sv_wp m (\<lambda>_. P) (\<lambda>_. P) s) \<Longrightarrow> keeps P m"
  unfolding keeps_def sv_wp_def by (fastforce split: prod.splits sum.splits)

lemma wp_require: "sv_wp (require_plugin n) Q E s =
    (case od_get (pg_plugins s) n of None \<Rightarrow> E (NotDiscovered n) s | Some e \<Rightarrow> Q e s)"
  by (simp add: require_plugin_def wp_simps split: option.split)

lemma wp_fail: "sv_wp (fail_entry n e what err x) Q E s =
    E x (s\<lparr>pg_plugins := od_put n (e\<lparr>en_state := PS_Error, en_error := Some err\<rparr>) (pg_plugins s),
      pg_events := map_option (store_event \<lparr>pv_type = ''error'', pv_plugin = n, pv_version = pm_version (en_manifest e),
        pv_details = [(''operation'', what), (''error'', err)]\<rparr>) (pg_events s)\<rparr>)"
  by (simp add: fail_entry_def put_entry_def note_event_def wp_simps)

lemma wp_tenant: "sv_wp (check_tenant_write t o' n) Q E s = (if foreign t o' then E (WrongTenant n) s else Q () s)"
  by (simp add: check_tenant_write_def wp_simps)

lemmas plugin_wp = wp_simps wp_require wp_fail wp_tenant put_entry_def note_event_def Let_def

lemma keeps_manifest [keeps_intro]: "keeps P (load_plugin_manifest dir)"
  unfolding load_plugin_manifest_def
  by (intro keeps_intro) (simp split: option.split plugin_file.split add: keeps_return keeps_raise)

lemma keeps_load: "keeps plugins_ok (load_plugin env n t)"
proof (rule keeps_by_wp)
  fix s assume ok: "plugins_ok s"
  show "sv_wp (load_plugin env n t) (\<lambda>_. plugins_ok) (\<lambda>_. plugins_ok) s"
  proof (cases "od_get (pg_plugins s) n")
    case (Some e)
    from plugins_okD [OF ok Some] have "entry_ok n e" "is_allowed s n" by simp_all
    with ok Some show ?thesis
      by (cases "px_load env (en_manifest e) (en_dir e)") (simp_all add: load_plugin_def plugin_wp plugins_ok_put)
  qed (use ok in \<open>simp add: load_plugin_def plugin_wp\<close>)
qed

lemma keeps_enable: "keeps plugins_ok (enable_plugin env n t)"
proof (rule keeps_by_wp)
  fix s assume ok: "plugins_ok s"
  show "sv_wp (enable_plugin env n t) (\<lambda>_. plugins_ok) (\<lambda>_. plugins_ok) s"
  proof (cases "od_get (pg_plugins s) n")
    case (Some e)
    from plugins_okD [OF ok Some] have e: "entry_ok n e" "is_allowed s n" by simp_all
    then have "en_state e \<in> {PS_Loaded, PS_Disabled} \<Longrightarrow> en_instance e" by auto
    with ok Some e show ?thesis
      by (cases "px_enable env (en_manifest e)") (auto simp: enable_plugin_def plugin_wp plugins_ok_put)
  qed (use ok in \<open>simp add: enable_plugin_def plugin_wp\<close>)
qed

lemma keeps_disable: "keeps plugins_ok (disable_plugin n t)"
proof (rule keeps_by_wp)
  fix s assume ok: "plugins_ok s"
  show "sv_wp (disable_plugin n t) (\<lambda>_. plugins_ok) (\<lambda>_. plugins_ok) s"
  proof (cases "od_get (pg_plugins s) n")
    case (Some e)
    from plugins_okD [OF ok Some] have "entry_ok n e" "is_allowed s n" by simp_all
    with ok Some show ?thesis by (auto simp: disable_plugin_def plugin_wp plugins_ok_put)
  qed (use ok in \<open>simp add: disable_plugin_def plugin_wp\<close>)
qed

lemma keeps_unload: "keeps plugins_ok (unload_plugin n t)"
proof (rule keeps_by_wp)
  fix s assume ok: "plugins_ok s"
  show "sv_wp (unload_plugin n t) (\<lambda>_. plugins_ok) (\<lambda>_. plugins_ok) s"
  proof (cases "od_get (pg_plugins s) n")
    case (Some e)
    from plugins_okD [OF ok Some] have "entry_ok n e" "is_allowed s n" by simp_all
    with ok Some show ?thesis by (simp add: unload_plugin_def disable_plugin_def plugin_wp plugins_ok_put foreign_def)
  qed (use ok in \<open>simp add: unload_plugin_def plugin_wp\<close>)
qed

lemma keeps_remove: "keeps plugins_ok (remove_plugin n t)"
  by (rule keeps_by_wp) (simp add: remove_plugin_def plugin_wp plugins_ok_del split: option.split)

lemma keeps_discover: "keeps plugins_ok (discover_plugin dir t)"
  unfolding discover_plugin_def
  by (intro keeps_bind keeps_manifest keeps_by_wp) (simp add: plugin_wp plugins_ok_put)

lemma keeps_discover_dirs: "keeps plugins_ok (discover_dirs ds)"
  by (induction ds) (auto intro!: keeps_intro keeps_discover split: sum.split)

lemma keeps_load_each: "keeps plugins_ok (load_each env ns)"
  by (induction ns) (auto intro!: keeps_intro keeps_load split: sum.split)

lemma keeps_unload_each: "keeps plugins_ok (unload_each ns)"
  by (induction ns) (auto intro!: keeps_intro keeps_unload split: option.split)

lemma keeps_activate: "keeps plugins_ok (activate_plugin env dir n on)"
  unfolding activate_plugin_def by (intro keeps_intro keeps_discover keeps_load keeps_enable)

lemma keeps_files: "keeps plugins_ok (set_files dir c)"
  unfolding set_files_def by (intro keeps_modify plugins_ok_other)

lemma keeps_plugin_note: "keeps plugins_ok (note_event ty n v ds)"
  unfolding note_event_def by (intro keeps_modify plugins_ok_other)

lemma keeps_install: "keeps plugins_ok (install_from_local env target source copy who on)"
  unfolding install_from_local_def Let_def
  by (intro keeps_bind keeps_get keeps_if keeps_return keeps_manifest keeps_files keeps_activate keeps_plugin_note keeps_modify plugins_ok_other(2))

lemma keeps_update: "keeps plugins_ok (update_plugin env n who on)"
  unfolding update_plugin_def Let_def
  by (intro keeps_bind keeps_get keeps_case_option keeps_if keeps_return keeps_manifest keeps_files keeps_activate keeps_plugin_note
      keeps_unload keeps_void keeps_remove keeps_modify plugins_ok_other(2))

lemma keeps_exec: "keeps plugins_ok (pg_exec env target op)"
  by (cases op) (auto simp: load_all_def unload_all_def discover_plugins_def split: option.split intro!: keeps_intro keeps_discover
      keeps_discover_dirs keeps_load keeps_load_each keeps_enable keeps_disable keeps_unload keeps_unload_each keeps_remove
      keeps_install keeps_update)

definition blank_plugins :: "string list \<Rightarrow> (string \<Rightarrow> plugin_file option) \<Rightarrow> plugins" where
  "blank_plugins allow files = \<lparr>pg_plugins = [], pg_allow = allow, pg_events = Some \<lparr>es_events = [], es_max = 500\<rparr>,
     pg_files = files, pg_records = []\<rparr>"

lemma blank_ok: "plugins_ok (blank_plugins allow files)"
  by (simp add: blank_plugins_def plugins_ok_def od_wf_def od_keys_def)

text \<open>C31: What the plugin registry holds after any history of calls, those that raise included: every plugin is stored under the
name of its manifest and allowed by the allowlist, no call leaves it in a passing state, it is loaded, active or disabled
only with an instance, discovered or unloaded only without one, and in error only with a message.\<close>

theorem plugin_registry_invariant:
  assumes "od_get (pg_plugins (fold (pg_run target) ops (blank_plugins allow files))) n = Some e"
  shows "entry_ok n e \<and> is_allowed (fold (pg_run target) ops (blank_plugins allow files)) n"
proof -
  have "plugins_ok (fold (pg_run target) ops (blank_plugins allow files))"
    using blank_ok keepsD [OF keeps_exec] by (intro fold_invariant [where P = plugins_ok]) (simp_all add: pg_run_def)
  from plugins_okD [OF this assms] show ?thesis .
qed

definition kind_env :: plugin_env where
  "kind_env = \<lparr>px_load = \<lambda>m dir. if pm_name m = ''broken'' then Some ''import failed'' else None, px_enable = \<lambda>m. None,
     px_hash = \<lambda>f. case f of Some (PluginFile m) \<Rightarrow> pm_version m | _ \<Rightarrow> []\<rparr>"

definition plug_files :: "string \<Rightarrow> plugin_file option" where
  "plug_files dir = (if dir \<in> {''a'', ''b'', ''broken''} then Some (PluginFile (en_manifest (plug dir []))) else None)"

definition plug_history :: "(plugin_env \<times> pg_op) list" where
  "plug_history = List.map (Pair kind_env) [PgDiscover ''a'' ''t1'', PgLoad ''a'' [], PgEnable ''a'' ''t2'', PgEnable ''a'' ''t1'',
     PgDiscover ''b'' [], PgDiscover ''broken'' [], PgLoad ''broken'' [], PgRemove ''a'' ''t1'', PgDisable ''a'' ''t2'']"

theorem plugin_registry_invariant_witness:
  "let s = fold (pg_run id) plug_history (blank_plugins [''a'', ''broken''] plug_files)
   in od_keys (pg_plugins s) = [''a'', ''broken''] \<and> is_allowed s ''broken'' \<and>
     map_option en_state (od_get (pg_plugins s) ''a'') = Some PS_Active"
proof -
  have broken: "od_get (pg_plugins (fold (pg_run id) plug_history (blank_plugins [''a'', ''broken''] plug_files))) ''broken'' =
      Some ((plug ''broken'' [])\<lparr>en_state := PS_Error, en_error := Some ''import failed''\<rparr>)" by code_simp
  from plugin_registry_invariant [OF this] have "is_allowed (fold (pg_run id) plug_history (blank_plugins [''a'', ''broken''] plug_files)) ''broken''" ..
  moreover have "let s = fold (pg_run id) plug_history (blank_plugins [''a'', ''broken''] plug_files)
     in od_keys (pg_plugins s) = [''a'', ''broken''] \<and> map_option en_state (od_get (pg_plugins s) ''a'') = Some PS_Active" by code_simp
  ultimately show ?thesis unfolding Let_def by blast
qed

section \<open>Tenants\<close>

text \<open>Calls by tenant \<open>t\<close> that may name any plugin, and loads of others than \<open>k\<close>\<close>

fun by_tenant :: "string \<Rightarrow> string \<Rightarrow> pg_op \<Rightarrow> bool" where
  "by_tenant t k (PgDiscover dir u) = (u = t)"
| "by_tenant t k (PgLoad n u) = (u = t \<and> n \<noteq> k)"
| "by_tenant t k (PgEnable n u) = (u = t)"
| "by_tenant t k (PgDisable n u) = (u = t)"
| "by_tenant t k (PgUnload n u) = (u = t)"
| "by_tenant t k (PgRemove n u) = (u = t)"
| "by_tenant t k op = False"

definition holds :: "string \<Rightarrow> plugin_entry \<Rightarrow> plugins \<Rightarrow> bool" where
  "holds k e s \<longleftrightarrow> od_get (pg_plugins s) k = Some e"

lemma keeps_foreign:
  assumes "foreign t (en_tenant e)" and "by_tenant t k op"
  shows "keeps (holds k e) (pg_exec env target op)"
proof (rule keeps_by_wp)
  fix s assume "holds k e s"
  then have k: "od_get (pg_plugins s) k = Some e" by (simp add: holds_def)
  show "sv_wp (pg_exec env target op) (\<lambda>_. holds k e) (\<lambda>_. holds k e) s"
  proof (cases op)
    case (PgDiscover dir u)
    with k show ?thesis
      by (auto simp: sv_void_def discover_plugin_def load_plugin_manifest_def plugin_wp holds_def od.get_put
          split: option.split plugin_file.split)
  next
    case (PgLoad n u)
    with k assms(2) show ?thesis
      by (auto simp: load_plugin_def plugin_wp holds_def od.get_put split: option.split)
  next
    case (PgEnable n u)
    with k assms show ?thesis
      by (cases "n = k") (auto simp: enable_plugin_def plugin_wp holds_def od.get_put split: option.split)
  next
    case (PgDisable n u)
    with k assms show ?thesis
      by (cases "n = k") (auto simp: disable_plugin_def plugin_wp holds_def od.get_put split: option.split)
  next
    case (PgUnload n u)
    with k assms show ?thesis
      by (cases "n = k") (auto simp: unload_plugin_def disable_plugin_def plugin_wp holds_def od.get_put split: option.split)
  next
    case (PgRemove n u)
    with k assms show ?thesis
      by (cases "n = k") (auto simp: sv_void_def remove_plugin_def plugin_wp holds_def od.get_del split: option.split)
  qed (use assms(2) in simp_all)
qed

text \<open>C32: A tenant cannot act on the plugin of another one: whatever it discovers, enables, disables, unloads, removes, or
loads under other names, the entry stays exactly as it was, and the tenant never sees it.\<close>

theorem tenants_are_isolated:
  assumes "od_get (pg_plugins s) k = Some e" and "foreign t (en_tenant e)" and "list_all (\<lambda>x. by_tenant t k (snd x)) ops"
  shows "od_get (pg_plugins (fold (pg_run target) ops s)) k = Some e \<and> get_plugin (fold (pg_run target) ops s) k t = None"
proof -
  have "holds k e (fold (pg_run target) ops s)"
    using assms keepsD [OF keeps_foreign]
    by (intro fold_invariant [where P = "holds k e"]) (auto simp: holds_def pg_run_def list_all_iff)
  then show ?thesis using assms(2) by (simp add: holds_def get_plugin_def)
qed

definition shared_plugins :: plugins where
  "shared_plugins = fold (pg_run id) (List.map (Pair kind_env) [PgDiscover ''a'' ''t1'', PgLoad ''a'' []]) (blank_plugins [] plug_files)"

theorem tenants_are_isolated_witness:
  "map_option en_state (od_get (pg_plugins (fold (pg_run id) (List.map (Pair kind_env)
     [PgEnable ''a'' ''t2'', PgDiscover ''b'' ''t2'', PgUnload ''a'' ''t2'', PgRemove ''a'' ''t2'']) shared_plugins)) ''a'') = Some PS_Loaded"
proof -
  have "od_get (pg_plugins shared_plugins) ''a'' = Some ((plug ''a'' [])\<lparr>en_state := PS_Loaded, en_instance := True, en_tenant := ''t1''\<rparr>)"
    by code_simp
  from tenants_are_isolated [OF this, of "''t2''" "List.map (Pair kind_env)
     [PgEnable ''a'' ''t2'', PgDiscover ''b'' ''t2'', PgUnload ''a'' ''t2'', PgRemove ''a'' ''t2'']" id]
  show ?thesis by (simp add: foreign_def)
qed

section \<open>Where the code departs from its words\<close>

text \<open>\<open>load\<close> hands a plugin that is not loaded to whoever loads it, the owner's tenant included.\<close>

theorem load_takes_over_plugin:
  "let s = fold (pg_run id) (List.map (Pair kind_env) [PgDiscover ''a'' ''t1'', PgLoad ''a'' ''t2'', PgEnable ''a'' ''t2'']) (blank_plugins [] plug_files)
   in map_option (\<lambda>e. (en_tenant e, en_state e)) (od_get (pg_plugins s) ''a'') = Some (''t2'', PS_Active) \<and>
      get_plugin s ''a'' ''t1'' = None \<and>
      fst (pg_exec kind_env id (PgDisable ''a'' ''t1'') s) = Inl (WrongTenant ''a'')"
  by code_simp

text \<open>A plugin is loaded although its required dependency failed to load.\<close>

definition half_broken :: plugins where
  "half_broken = (blank_plugins [] plug_files)\<lparr>pg_plugins := [(''broken'', plug ''broken'' []), (''user'', plug ''user'' [(''broken'', False)])]\<rparr>"

theorem dependent_of_failed_is_loaded:
  "map_option en_state (od_get (pg_plugins (pg_run id (kind_env, PgLoadAll) half_broken)) ''broken'') = Some PS_Error \<and>
   map_option en_state (od_get (pg_plugins (pg_run id (kind_env, PgLoadAll) half_broken)) ''user'') = Some PS_Loaded"
  by code_simp

text \<open>An installation that fails while loading leaves the copied directory and the plugin in error, and no install record:
installing again and updating are both refused.\<close>

theorem failed_install_blocks_retry:
  "let copied = (\<lambda>n. ''installed/'' @ n);
       s = pg_run copied (kind_env, PgInstall ''broken'' True ''me'' True) (blank_plugins [] plug_files)
   in fst (pg_exec kind_env copied (PgInstall ''broken'' True ''me'' True) (blank_plugins [] plug_files)) = Inl (PluginLoadFailed ''import failed'') \<and>
      pg_files s ''installed/broken'' \<noteq> None \<and> pg_records s = [] \<and>
      map_option pr_problem (case fst (install_from_local kind_env copied ''broken'' True ''me'' True s) of Inl _ \<Rightarrow> None | Inr r \<Rightarrow> Some r) =
        Some ''already installed'' \<and>
      map_option pr_problem (case fst (update_plugin kind_env ''broken'' ''me'' True s) of Inl _ \<Rightarrow> None | Inr r \<Rightarrow> Some r) =
        Some ''no install metadata''"
  by code_simp

text \<open>An unparseable constraint is accepted without an operator, and with one it aborts the whole report.\<close>

theorem bad_constraint_fails_two_ways:
  "satisfies_constraint ''2.0.0'' ''1.0'' = Inr True \<and> satisfies_constraint ''2.0.0'' ''==1.0.0'' = Inr True \<and>
   satisfies_constraint ''2.0.0'' ''>=1.0'' = Inl (BadSemver ''1.0'')"
  by code_simp

lemma dropWhile_hd: "xs = [] \<or> \<not> P (hd xs) \<Longrightarrow> dropWhile P xs = xs"
  by (cases xs) auto

lemma strip_prefixed:
  assumes "c \<noteq> []" and "\<not> py_isspace (hd c)" and "py_strip c = c" and "p = [] \<or> \<not> py_isspace (hd p)"
  shows "py_strip (p @ c) = p @ c"
proof -
  have "dropWhile py_isspace c = c" using assms(2) by (intro dropWhile_hd) simp
  with assms(3) have "dropWhile py_isspace (rev c) = rev c" unfolding py_strip_def by (metis rev_rev_ident)
  then have "\<not> py_isspace (hd (rev c))" using assms(1) by (metis hd_dropWhile rev_is_Nil_conv)
  then have "dropWhile py_isspace (rev c @ rev p) = rev c @ rev p" using assms(1) by (intro dropWhile_hd) (simp add: hd_append)
  moreover have "dropWhile py_isspace (p @ c) = p @ c" using assms(2,4) by (intro dropWhile_hd) (auto simp: hd_append)
  ultimately show ?thesis by (simp add: py_strip_def)
qed

text \<open>On version numbers the constraint operators are the order of the triples: each of \<open>>=\<close>, \<open><=\<close>, \<open>>\<close>, \<open><\<close> compares, \<open>^\<close> keeps the
major number, \<open>~\<close> the major and the minor one, and a bare version is equality.\<close>

theorem semver_operators:
  assumes "parse_semver ver = Inr actual" and "parse_semver c = Inr required" and "c \<noteq> []" and "py_isdigit (hd c)" and "py_strip c = c"
  shows "satisfies_constraint ver (''>='' @ c) = Inr (required \<le> actual) \<and> satisfies_constraint ver (''<='' @ c) = Inr (actual \<le> required) \<and>
    satisfies_constraint ver (''>'' @ c) = Inr (required < actual) \<and> satisfies_constraint ver (''<'' @ c) = Inr (actual < required) \<and>
    satisfies_constraint ver (''^'' @ c) = Inr (fst actual = fst required \<and> required \<le> actual) \<and>
    satisfies_constraint ver (''~'' @ c) = Inr (fst actual = fst required \<and> fst (snd actual) = fst (snd required) \<and> required \<le> actual) \<and>
    satisfies_constraint ver c = Inr (actual = required)"
proof -
  have strip: "py_strip (p @ c) = p @ c" if "p = [] \<or> \<not> py_isspace (hd p)" for p
    using strip_prefixed [OF assms(3) digit_not_space [OF assms(4)] assms(5) that] .
  have head: "hd c \<notin> {CHR ''*'', CHR ''>'', CHR ''<'', CHR ''^'', CHR ''~'', CHR ''=''}" using assms(4) by (auto simp: py_isdigit_def Let_def)
  then obtain h t where c: "c = h # t" "h \<notin> {CHR ''*'', CHR ''>'', CHR ''<'', CHR ''^'', CHR ''~'', CHR ''=''}"
    using assms(3) by (cases c) auto
  from strip [of "''>=''"] strip [of "''<=''"] strip [of "''>''"] strip [of "''<''"] strip [of "''^''"] strip [of "''~''"] strip [of "[]"]
    assms(1,2) c
  show ?thesis by (simp add: satisfies_constraint_def compare_with_def py_startswith_def py_isspace_def Let_def)
qed

theorem semver_operators_witness:
  "satisfies_constraint ''1.10.0'' ''^1.9.2'' = Inr True \<and> satisfies_constraint ''1.10.0'' ''~1.9.2'' = Inr False"
  using semver_operators [of "''1.10.0''" "(1, 10, 0)" "''1.9.2''" "(1, 9, 2)"] by code_simp

end
