(* ===== verification/Hooks.thy ===== *)
theory Hooks
  imports Prelude
begin

text \<open>
  Hook chains (\<open>agent33/hooks/chain.py\<close>) and the hook registry (\<open>hooks/registry.py\<close>).

  A hook gets the context and the rest of the chain and answers with the context it leaves behind, and the text of an
  exception if it raises; running over its time limit is such an exception.  The rest of a chain never raises, because
  every link catches.  \<open>'d\<close> is what the event adds to the base context.  Durations are left out, and a cancellation of
  the whole chain from outside is not modelled.
\<close>

section \<open>The chain\<close>

definition in_quotes :: "string \<Rightarrow> string" where
  "in_quotes s = CHR 0x27 # s @ [CHR 0x27]"

record hook_result =
  ht_hook :: string
  ht_success :: bool
  ht_error :: string

record 'd hook_ctx =
  hc_abort :: bool
  hc_reason :: string
  hc_results :: "hook_result list"
  hc_data :: 'd

record 'd chain_hook =
  ch_name :: string
  ch_event :: string
  ch_priority :: int
  ch_enabled :: bool
  ch_tenant :: string
  ch_exec :: "'d hook_ctx \<Rightarrow> ('d hook_ctx \<Rightarrow> 'd hook_ctx) \<Rightarrow> string option \<times> 'd hook_ctx"

definition add_result :: "string \<Rightarrow> string option \<Rightarrow> 'd hook_ctx \<Rightarrow> 'd hook_ctx" where
  "add_result n err c = c\<lparr>hc_results := hc_results c @
     [\<lparr>ht_hook = n, ht_success = (err = None), ht_error = (case err of None \<Rightarrow> [] | Some e \<Rightarrow> e)\<rparr>]\<rparr>"

definition chain_link :: "bool \<Rightarrow> 'd chain_hook \<Rightarrow> ('d hook_ctx \<Rightarrow> 'd hook_ctx) \<Rightarrow> 'd hook_ctx \<Rightarrow> 'd hook_ctx" where
  "chain_link fail_open h next_fn c =
     (if hc_abort c then c
      else case ch_exec h c next_fn of
        (None, r) \<Rightarrow> add_result (ch_name h) None r
      | (Some e, r) \<Rightarrow>
          let r = add_result (ch_name h) (Some e) r in
          if fail_open then next_fn r
          else r\<lparr>hc_abort := True, hc_reason := ''Hook '' @ in_quotes (ch_name h) @ '' failed: '' @ e\<rparr>)"

definition ordered_hooks :: "'d chain_hook list \<Rightarrow> 'd chain_hook list" where
  "ordered_hooks hs = filter ch_enabled (sort_key ch_priority hs)"

definition run_chain :: "bool \<Rightarrow> 'd chain_hook list \<Rightarrow> 'd hook_ctx \<Rightarrow> 'd hook_ctx" where
  "run_chain fail_open hs = foldr (chain_link fail_open) (ordered_hooks hs) (\<lambda>c. c)"

text \<open>All hooks on the same context object: each one sees what those before it left there.\<close>

fun run_each :: "'d chain_hook list \<Rightarrow> 'd hook_ctx \<Rightarrow> hook_result list \<times> 'd hook_ctx" where
  "run_each [] c = ([], c)"
| "run_each (h # hs) c = (let (err, c') = ch_exec h c (\<lambda>x. x); (rs, c'') = run_each hs c' in
     (\<lparr>ht_hook = ch_name h, ht_success = (err = None), ht_error = (case err of None \<Rightarrow> [] | Some e \<Rightarrow> e)\<rparr> # rs, c''))"

definition run_concurrent :: "'d chain_hook list \<Rightarrow> 'd hook_ctx \<Rightarrow> 'd hook_ctx" where
  "run_concurrent hs c = (let hs = filter ch_enabled hs in
     if hs = [] then c else case run_each hs c of (rs, c') \<Rightarrow> c'\<lparr>hc_results := hc_results c' @ rs\<rparr>)"

section \<open>The registry\<close>

record hook_def =
  hd_id :: string
  hd_name :: string
  hd_event :: string
  hd_priority :: int
  hd_enabled :: bool
  hd_tenant :: string
  hd_fail_open :: bool

record 'd hook_registry =
  hr_hooks :: "(string, 'd chain_hook list) odict"
  hr_defs :: "(string, hook_def) odict"
  hr_max :: nat

datatype hook_error = ForeignHook string | TooManyHooks string

type_synonym ('d, 'a) hook_svc = "('d hook_registry, hook_error, 'a) svc"

definition hooks_at :: "'d hook_registry \<Rightarrow> string \<Rightarrow> 'd chain_hook list" where
  "hooks_at s ev = (case od_get (hr_hooks s) ev of None \<Rightarrow> [] | Some hs \<Rightarrow> hs)"

definition check_hook_owner :: "string \<Rightarrow> string \<Rightarrow> string \<Rightarrow> ('d, unit) hook_svc" where
  "check_hook_owner caller owner n = (if caller \<noteq> [] \<and> owner \<noteq> caller then sv_raise (ForeignHook n) else sv_return ())"

definition put_hooks :: "string \<Rightarrow> 'd chain_hook list \<Rightarrow> ('d, unit) hook_svc" where
  "put_hooks ev hs = sv_modify (\<lambda>s. s\<lparr>hr_hooks := od_put ev hs (hr_hooks s)\<rparr>)"

text \<open>The list of an event is created before its length is looked at.\<close>

definition register_hook :: "'d chain_hook \<Rightarrow> hook_def option \<Rightarrow> string \<Rightarrow> ('d, unit) hook_svc" where
  "register_hook h d tenant =
     (if tenant \<noteq> [] \<and> ch_tenant h \<noteq> [] \<and> ch_tenant h \<noteq> tenant then sv_raise (ForeignHook (ch_name h))
      else sv_bind sv_get (\<lambda>s. let existing = hooks_at s (ch_event h) in
        sv_bind (put_hooks (ch_event h) existing) (\<lambda>_.
        if hr_max s \<le> length existing then sv_raise (TooManyHooks (ch_event h))
        else sv_bind (put_hooks (ch_event h) (existing @ [h])) (\<lambda>_.
          case d of None \<Rightarrow> sv_return ()
          | Some d \<Rightarrow> sv_modify (\<lambda>s. s\<lparr>hr_defs := od_put (hd_id d) d (hr_defs s)\<rparr>)))))"

definition hook_matches :: "string \<Rightarrow> string \<Rightarrow> 'd chain_hook \<Rightarrow> bool" where
  "hook_matches n tenant h \<longleftrightarrow> ch_name h = n \<and> (tenant = [] \<or> ch_tenant h = tenant)"

definition def_matches :: "string \<Rightarrow> string \<Rightarrow> hook_def \<Rightarrow> bool" where
  "def_matches n tenant d \<longleftrightarrow> hd_name d = n \<and> (tenant = [] \<or> hd_tenant d = tenant)"

definition drop_hooks :: "string \<Rightarrow> string \<Rightarrow> string list \<Rightarrow> 'd hook_registry \<Rightarrow> 'd hook_registry" where
  "drop_hooks n tenant evs s = fold (\<lambda>ev s. s\<lparr>hr_hooks := od_put ev (filter (\<lambda>h. \<not> hook_matches n tenant h) (hooks_at s ev)) (hr_hooks s)\<rparr>) evs s"

definition deregister_hook :: "string \<Rightarrow> string option \<Rightarrow> string \<Rightarrow> ('d, bool) hook_svc" where
  "deregister_hook n ev tenant = sv_bind sv_get (\<lambda>s.
     let evs = (case ev of None \<Rightarrow> od_keys (hr_hooks s) | Some e \<Rightarrow> if e = [] then od_keys (hr_hooks s) else [e]);
         removed = list_ex (\<lambda>e. list_ex (hook_matches n tenant) (hooks_at s e)) evs
     in sv_bind (sv_modify (drop_hooks n tenant evs)) (\<lambda>_.
        sv_bind (sv_modify (\<lambda>s. s\<lparr>hr_defs := filter (\<lambda>(i, d). \<not> def_matches n tenant d) (hr_defs s)\<rparr>)) (\<lambda>_.
        sv_return removed)))"

definition get_hooks :: "'d hook_registry \<Rightarrow> string \<Rightarrow> string \<Rightarrow> 'd chain_hook list" where
  "get_hooks s ev tenant = filter (\<lambda>h. ch_tenant h = [] \<or> ch_tenant h = tenant) (hooks_at s ev)"

text \<open>\<open>get_chain_runner(event, tenant).run(context)\<close> with its default \<open>fail_open=True\<close>, as every caller builds it\<close>

definition run_hooks :: "'d hook_registry \<Rightarrow> string \<Rightarrow> string \<Rightarrow> 'd hook_ctx \<Rightarrow> 'd hook_ctx" where
  "run_hooks s ev tenant = run_chain True (get_hooks s ev tenant)"

definition get_definition :: "'d hook_registry \<Rightarrow> string \<Rightarrow> string \<Rightarrow> hook_def option" where
  "get_definition s i tenant = (case od_get (hr_defs s) i of
      None \<Rightarrow> None
    | Some d \<Rightarrow> if tenant \<noteq> [] \<and> hd_tenant d \<notin> {[], tenant} then None else Some d)"

definition list_definitions :: "'d hook_registry \<Rightarrow> string option \<Rightarrow> string option \<Rightarrow> bool option \<Rightarrow> hook_def list" where
  "list_definitions s ev tenant on = filter (\<lambda>d. (ev = None \<or> ev = Some (hd_event d)) \<and> (tenant = None \<or> tenant = Some (hd_tenant d)) \<and>
     (on = None \<or> on = Some (hd_enabled d))) (od_vals (hr_defs s))"

definition put_def :: "string \<Rightarrow> hook_def \<Rightarrow> ('d, unit) hook_svc" where
  "put_def i d = sv_modify (\<lambda>s. s\<lparr>hr_defs := od_put i d (hr_defs s)\<rparr>)"

definition update_definition :: "string \<Rightarrow> (hook_def \<Rightarrow> hook_def) \<Rightarrow> string \<Rightarrow> ('d, hook_def option) hook_svc" where
  "update_definition i change tenant = sv_bind sv_get (\<lambda>s. case od_get (hr_defs s) i of
      None \<Rightarrow> sv_return None
    | Some d \<Rightarrow> sv_bind (check_hook_owner tenant (hd_tenant d) i) (\<lambda>_.
        sv_bind (put_def i (change d)) (\<lambda>_. sv_return (Some (change d)))))"

definition is_hook_of :: "hook_def \<Rightarrow> 'd chain_hook \<Rightarrow> bool" where
  "is_hook_of d h \<longleftrightarrow> ch_name h = hd_name d \<and> ch_tenant h = hd_tenant d"

text \<open>\<open>toggle\<close> changes the runtime hooks as well, if they have an \<open>_enabled\<close> field; those built on \<open>BaseHook\<close> have one.\<close>

definition toggle_hook :: "string \<Rightarrow> bool \<Rightarrow> string \<Rightarrow> ('d, hook_def option) hook_svc" where
  "toggle_hook i on tenant = sv_bind sv_get (\<lambda>s. case od_get (hr_defs s) i of
      None \<Rightarrow> sv_return None
    | Some d \<Rightarrow> sv_bind (check_hook_owner tenant (hd_tenant d) i) (\<lambda>_.
        sv_bind (put_def i (d\<lparr>hd_enabled := on\<rparr>)) (\<lambda>_.
        sv_bind (case od_get (hr_hooks s) (hd_event d) of
            None \<Rightarrow> sv_return ()
          | Some hs \<Rightarrow> put_hooks (hd_event d) (List.map (\<lambda>h. if is_hook_of d h then h\<lparr>ch_enabled := on\<rparr> else h) hs)) (\<lambda>_.
        sv_return (Some (d\<lparr>hd_enabled := on\<rparr>))))))"

definition delete_definition :: "string \<Rightarrow> string \<Rightarrow> ('d, bool) hook_svc" where
  "delete_definition i tenant = sv_bind sv_get (\<lambda>s. case od_get (hr_defs s) i of
      None \<Rightarrow> sv_return False
    | Some d \<Rightarrow> sv_bind (check_hook_owner tenant (hd_tenant d) i) (\<lambda>_.
        sv_bind (sv_modify (\<lambda>s. s\<lparr>hr_defs := od_del i (hr_defs s)\<rparr>)) (\<lambda>_.
        sv_bind (put_hooks (hd_event d) (filter (\<lambda>h. \<not> is_hook_of d h) (hooks_at s (hd_event d)))) (\<lambda>_.
        sv_return True))))"

definition hook_count :: "'d hook_registry \<Rightarrow> nat" where
  "hook_count s = sum_list (List.map length (od_vals (hr_hooks s)))"

definition active_events :: "'d hook_registry \<Rightarrow> string list" where
  "active_events s = List.map fst (filter (\<lambda>(ev, hs). hs \<noteq> []) (hr_hooks s))"

end
