(* ===== verification/Hooks_Correct.thy ===== *)
theory Hooks_Correct
  imports Hooks
begin

text \<open>
  The hook registry keeps tenants apart: what one tenant does to its own hooks changes nothing of what runs for another.
  And what the registry and the chain allow.
\<close>

section \<open>Tenants\<close>

datatype 'd hook_op =
    HRegister "'d chain_hook" "hook_def option"
  | HDeregister string "string option"
  | HUpdate string "hook_def \<Rightarrow> hook_def"
  | HToggle string bool
  | HDelete string

text \<open>Operations in the name of a tenant; an exception leaves what was changed before it.\<close>

fun hook_step :: "string \<Rightarrow> 'd hook_op \<Rightarrow> 'd hook_registry \<Rightarrow> 'd hook_registry" where
  "hook_step t (HRegister h d) s = snd (register_hook h d t s)"
| "hook_step t (HDeregister n ev) s = snd (deregister_hook n ev t s)"
| "hook_step t (HUpdate i change) s = snd (update_definition i change t s)"
| "hook_step t (HToggle i on) s = snd (toggle_hook i on t s)"
| "hook_step t (HDelete i) s = snd (delete_definition i t s)"

definition own_hook :: "string \<Rightarrow> 'd hook_op \<Rightarrow> bool" where
  "own_hook t op \<longleftrightarrow> (\<forall>h d. op = HRegister h d \<longrightarrow> ch_tenant h \<noteq> [])"

definition runs_for :: "string \<Rightarrow> (string \<Rightarrow> 'd chain_hook list) \<Rightarrow> 'd hook_registry \<Rightarrow> bool" where
  "runs_for u f s \<longleftrightarrow> (\<forall>ev. get_hooks s ev u = f ev)"

lemma hooks_at_put: "hooks_at (s\<lparr>hr_hooks := od_put e hs (hr_hooks s)\<rparr>) ev = (if ev = e then hs else hooks_at s ev)"
  by (simp add: hooks_at_def od.get_put)

lemma runs_for_defs: "runs_for u f (s\<lparr>hr_defs := d\<rparr>) = runs_for u f s"
  by (simp add: runs_for_def get_hooks_def hooks_at_def)

lemma runs_for_put: "runs_for u f s \<Longrightarrow> filter (\<lambda>h. ch_tenant h = [] \<or> ch_tenant h = u) hs = f e \<Longrightarrow>
    runs_for u f (s\<lparr>hr_hooks := od_put e hs (hr_hooks s)\<rparr>)"
  by (simp add: runs_for_def get_hooks_def hooks_at_put)

lemma runs_for_both: "runs_for u f s \<Longrightarrow> filter (\<lambda>h. ch_tenant h = [] \<or> ch_tenant h = u) hs = f e \<Longrightarrow>
    runs_for u f (s\<lparr>hr_defs := ds, hr_hooks := od_put e hs (hr_hooks s)\<rparr>)"
  using runs_for_put [of u f "s\<lparr>hr_defs := ds\<rparr>" hs e] by (simp add: runs_for_defs)

lemma runs_at: "runs_for u f s \<Longrightarrow> filter (\<lambda>h. ch_tenant h = [] \<or> ch_tenant h = u) (hooks_at s e) = f e"
  by (simp add: runs_for_def get_hooks_def)

lemma register_apart:
  assumes "u \<noteq> t" and "ch_tenant h \<noteq> []" and "t \<noteq> []" shows "keeps (runs_for u f) (register_hook h d t)"
proof (cases "ch_tenant h = t")
  case True
  then have others: "filter (\<lambda>h. ch_tenant h = [] \<or> ch_tenant h = u) (xs @ [h]) = filter (\<lambda>h. ch_tenant h = [] \<or> ch_tenant h = u) xs" for xs
    using assms by simp
  show ?thesis unfolding keeps_def
    using True others
    by (auto simp: register_hook_def sv_bind_def sv_get_def put_hooks_def sv_modify_def sv_raise_def sv_return_def Let_def
        intro!: runs_for_put runs_at split: option.split) (auto simp: runs_for_defs intro!: runs_for_put runs_at)
next
  case False
  with assms show ?thesis by (simp add: register_hook_def keeps_raise)
qed

lemma drop_apart: "u \<noteq> t \<Longrightarrow> t \<noteq> [] \<Longrightarrow> runs_for u f s \<Longrightarrow> runs_for u f (drop_hooks n t evs s)"
proof (induction evs arbitrary: s)
  case (Cons e evs)
  have "filter (\<lambda>h. ch_tenant h = [] \<or> ch_tenant h = u) (filter (\<lambda>h. \<not> hook_matches n t h) hs) = filter (\<lambda>h. ch_tenant h = [] \<or> ch_tenant h = u) hs" for hs :: "'a chain_hook list"
    using Cons.prems by (auto simp: hook_matches_def intro: filter_cong)
  then show ?case using Cons by (simp add: drop_hooks_def runs_for_put runs_at)
qed (simp add: drop_hooks_def)

lemma toggled_apart:
  assumes "u \<noteq> hd_tenant d" and "hd_tenant d \<noteq> []"
  shows "filter (\<lambda>h. ch_tenant h = [] \<or> ch_tenant h = u) (List.map (\<lambda>h. if is_hook_of d h then h\<lparr>ch_enabled := on\<rparr> else h) hs) =
    filter (\<lambda>h. ch_tenant h = [] \<or> ch_tenant h = u) hs"
    "filter (\<lambda>h. ch_tenant h = [] \<or> ch_tenant h = u) (filter (\<lambda>h. \<not> is_hook_of d h) hs) = filter (\<lambda>h. ch_tenant h = [] \<or> ch_tenant h = u) hs"
  using assms by (induction hs) (auto simp: is_hook_of_def)

lemma step_apart:
  assumes "u \<noteq> t" and "t \<noteq> []" and "own_hook t op" and "runs_for u f s" shows "runs_for u f (hook_step t op s)"
proof (cases op)
  case (HRegister h d)
  with assms show ?thesis using keepsD [OF register_apart [of u t h f d]] by (simp add: own_hook_def)
next
  case (HDeregister n ev)
  with assms show ?thesis
    by (simp add: deregister_hook_def sv_bind_def sv_get_def sv_modify_def sv_return_def Let_def runs_for_defs drop_apart)
next
  case (HUpdate i change)
  with assms show ?thesis
    by (auto simp: update_definition_def sv_bind_def sv_get_def check_hook_owner_def put_def_def sv_modify_def sv_raise_def sv_return_def
        runs_for_defs split: option.split)
next
  case (HToggle i on)
  have "hooks_at s e = hs" if "od_get (hr_hooks s) e = Some hs" for e hs using that by (simp add: hooks_at_def)
  then have at: "od_get (hr_hooks s) e = Some hs \<Longrightarrow> filter (\<lambda>h. ch_tenant h = [] \<or> ch_tenant h = u) hs = f e" for e hs
    using runs_at [OF assms(4), of e] by metis
  have "runs_for u f (s\<lparr>hr_defs := ds, hr_hooks := od_put (hd_event d) (List.map (\<lambda>h. if is_hook_of d h then h\<lparr>ch_enabled := on\<rparr> else h) hs) (hr_hooks s)\<rparr>)"
    if "hd_tenant d = t" "od_get (hr_hooks s) (hd_event d) = Some hs" for d hs ds
    using that assms(1,2) by (auto intro!: runs_for_both [OF assms(4)] simp: toggled_apart at)
  with HToggle assms show ?thesis
    by (auto simp: toggle_hook_def sv_bind_def sv_get_def check_hook_owner_def put_def_def put_hooks_def sv_modify_def sv_raise_def sv_return_def
        runs_for_defs split: option.split)
next
  case (HDelete i)
  have "runs_for u f (s\<lparr>hr_defs := ds, hr_hooks := od_put (hd_event d) (filter (\<lambda>h. \<not> is_hook_of d h) (hooks_at s (hd_event d))) (hr_hooks s)\<rparr>)"
    if "hd_tenant d = t" for d ds
    using that assms(1,2) by (auto intro!: runs_for_both [OF assms(4)] runs_at [OF assms(4)] simp: toggled_apart simp del: filter_filter)
  with HDelete assms show ?thesis
    by (auto simp: delete_definition_def sv_bind_def sv_get_def check_hook_owner_def put_hooks_def sv_modify_def sv_raise_def sv_return_def
        hooks_at_def runs_for_defs split: option.split)
qed

text \<open>C38: Whatever a tenant registers, removes, updates, switches and deletes in its own name, the hooks that run for every other
tenant, and so what a chain of that tenant makes of a context, stay as they were.\<close>

theorem tenants_hooks_apart:
  assumes "u \<noteq> t" and "t \<noteq> []" and "list_all (own_hook t) ops"
  shows "run_hooks (fold (hook_step t) ops s) ev u c = run_hooks s ev u c"
proof -
  have "runs_for u (\<lambda>ev. get_hooks s ev u) (fold (hook_step t) ops s')" if "runs_for u (\<lambda>ev. get_hooks s ev u) s'" for s'
    using assms(3) that by (induction ops arbitrary: s') (simp_all add: step_apart [OF assms(1,2)])
  then show ?thesis by (simp add: run_hooks_def runs_for_def)
qed

definition demo_hook :: "string \<Rightarrow> string \<Rightarrow> string option \<Rightarrow> nat chain_hook" where
  "demo_hook n t err = \<lparr>ch_name = n, ch_event = ''e'', ch_priority = 0, ch_enabled = True, ch_tenant = t,
     ch_exec = \<lambda>c next. (err, next (c\<lparr>hc_data := Suc (hc_data c)\<rparr>))\<rparr>"

definition demo_registry :: "nat hook_registry" where
  "demo_registry = \<lparr>hr_hooks = [(''e'', [demo_hook ''a'' ''u'' None])], hr_defs = [], hr_max = 9\<rparr>"

definition demo_ctx :: "nat hook_ctx" where
  "demo_ctx = \<lparr>hc_abort = False, hc_reason = [], hc_results = [], hc_data = 0\<rparr>"

theorem tenants_hooks_apart_witness:
  "hc_data (run_hooks (fold (hook_step ''t'') [HRegister (demo_hook ''a'' ''t'' None) None, HDeregister ''a'' None] demo_registry) ''e'' ''u'' demo_ctx) = 1"
proof -
  have "hc_data (run_hooks demo_registry ''e'' ''u'' demo_ctx) = 1" by code_simp
  then show ?thesis by (subst tenants_hooks_apart) (simp_all add: own_hook_def demo_hook_def)
qed

section \<open>What the code allows\<close>

text \<open>A tenant can register a hook of the system, which then runs for everybody.\<close>

lemma tenant_registers_system_hook:
  "hc_data (run_hooks (hook_step ''t'' (HRegister (demo_hook ''x'' [] None) None) demo_registry) ''e'' ''v'' demo_ctx) = 1"
  by code_simp

text \<open>A hook that raises after it has delegated: the rest of the chain runs twice.\<close>

lemma rest_of_chain_runs_twice:
  "hc_data (run_chain True [demo_hook ''a'' [] (Some ''late''), demo_hook ''b'' [] None] demo_ctx) = 3 \<and>
   List.map ht_hook (hc_results (run_chain True [demo_hook ''a'' [] (Some ''late''), demo_hook ''b'' [] None] demo_ctx)) = [''b'', ''a'', ''b'']"
  by code_simp

end
