(* ===== verification/Tool_Loop.thy ===== *)
theory Tool_Loop
  imports Autonomy Hooks
begin

text \<open>
  The tool-use loop of an agent (\<open>agent33/agents/tool_loop.py\<close>) with the messages and responses of \<open>llm/base.py\<close>, the
  assembly of streamed tool calls (\<open>llm/stream_assembler.py\<close>), the handoff ledger (\<open>workflows/actions/handoff.py\<close>) and
  the truncation of tool output (\<open>agents/context_manager.py\<close>).

  \<open>'w\<close> is the world outside of the loop.  The model, the tools behind the registry, governance, the context manager and
  the compressor are functions on it; JSON, redaction, the leakage detector, the text parser and the reading of a ledger
  are functions on texts.  They, the hooks, the autonomy budget and the configuration are the environment.  The enforcer
  is the one of \<open>Autonomy\<close>, the hook chains are those of \<open>Hooks\<close>.

  Contents are texts.  The values in the arguments of a call are texts.  Observations and stream events carry what the
  loop decides on, not their whole metadata, and events that a delegating tool pushes are left out.  \<open>ls_log\<close> is a history
  that the code does not keep: what the model was asked, what it answered, which tools ran, what was observed.
\<close>

section \<open>Messages, responses and results\<close>

datatype role = R_System | R_User | R_Assistant | R_Tool

record llm_call =
  lc_id :: string
  lc_name :: string
  lc_args :: string

record chat_message =
  cm_role :: role
  cm_content :: string
  cm_calls :: "llm_call list"
  cm_call_id :: string
  cm_name :: string

record llm_response =
  lr_content :: string
  lr_model :: string
  lr_prompt :: int
  lr_completion :: int
  lr_calls :: "llm_call list"
  lr_finish :: string
  lr_usage :: bool

record tool_result =
  to_success :: bool
  to_output :: string
  to_error :: string

definition tool_ok :: "string \<Rightarrow> tool_result" where
  "tool_ok output = \<lparr>to_success = True, to_output = output, to_error = []\<rparr>"

definition tool_fail :: "string \<Rightarrow> tool_result" where
  "tool_fail err = \<lparr>to_success = False, to_output = [], to_error = err\<rparr>"

definition plain :: "role \<Rightarrow> string \<Rightarrow> chat_message" where
  "plain r text = \<lparr>cm_role = r, cm_content = text, cm_calls = [], cm_call_id = [], cm_name = []\<rparr>"

text \<open>The value of \<open>json.loads\<close> on the arguments of a call\<close>

datatype call_args = ArgObject "(string, string) odict" | ArgList "string list" | ArgText string | ArgScalar string

datatype llm_failure = LlmTypeError string | LlmFailed string

definition newline :: string where
  "newline = [CHR 0x0A]"

section \<open>The handoff\<close>

record state_ledger =
  sl_source :: string
  sl_target :: string
  sl_objective :: string
  sl_context :: string
  sl_refs :: "(string \<times> string) list"

definition serialize_ledger :: "state_ledger \<Rightarrow> string" where
  "serialize_ledger l = py_join newline
     ([''# Handoff Ledger (from '' @ sl_source l @ '')'', ''**Objective**: '' @ sl_objective l,
       newline @ ''## Synthesized Context'', sl_context l] @
      (if sl_refs l = [] then []
       else (newline @ ''## Data Pointers'') # List.map (\<lambda>(k, v). ''- '' @ k @ '': '' @ v) (sl_refs l)))"

definition execute_handoff :: "state_ledger \<Rightarrow> chat_message list \<Rightarrow> chat_message list" where
  "execute_handoff l ms = (case ms of
      [] \<Rightarrow> []
    | m # _ \<Rightarrow> [if cm_role m = R_System then m else plain R_System [], plain R_User (serialize_ledger l)])"

section \<open>Texts\<close>

definition truncate_tool_output :: "string \<Rightarrow> string" where
  "truncate_tool_output output =
     (let max_chars = 15000; half = max_chars div 2 in
      if length output \<le> max_chars then output
      else take half output @ newline @ newline @ ''... [TRUNCATED: '' @ py_digits (length output - max_chars) @
        '' chars omitted] ...'' @ newline @ newline @ drop (length output - half) output)"

lemma truncate_tool_output_code [code]:
  "truncate_tool_output output = (if int (length output) \<le> 15000 then output
     else take 7500 output @ newline @ newline @ ''... [TRUNCATED: '' @ py_digits (length output - 15000) @
        '' chars omitted] ...'' @ newline @ newline @ drop (length output - 7500) output)"
  by (simp add: truncate_tool_output_def)

text \<open>\<open>\w\<close>, on the characters up to 255\<close>

definition word_char :: "char \<Rightarrow> bool" where
  "word_char c = (let n = (of_char c :: nat) in
     (48 \<le> n \<and> n \<le> 57) \<or> (65 \<le> n \<and> n \<le> 90) \<or> (97 \<le> n \<and> n \<le> 122) \<or> n = 95 \<or>
     n \<in> {170, 178, 179, 181, 185, 186, 188, 189, 190} \<or> (192 \<le> n \<and> n \<noteq> 215 \<and> n \<noteq> 247))"

text \<open>\<open>^WORD(?:\b|[:\-\s])\<close> without regard to case; the word is given in lower case.\<close>

definition starts_with_word :: "string \<Rightarrow> string \<Rightarrow> bool" where
  "starts_with_word w s \<longleftrightarrow> py_lower (take (length w) s) = w \<and>
     (drop (length w) s = [] \<or> \<not> word_char (hd (drop (length w) s)))"

definition parse_confirmation :: "string \<Rightarrow> bool option" where
  "parse_confirmation text = (let s = py_strip text in
     if starts_with_word ''continue'' s then Some False
     else if starts_with_word ''completed'' s then Some True else None)"

definition strip_completion_prefix :: "string \<Rightarrow> string" where
  "strip_completion_prefix text = (let s = py_strip text in
     if py_lower (take 9 s) = ''completed''
     then py_strip (dropWhile (\<lambda>c. c \<in> {CHR '':'', CHR ''-''} \<or> py_isspace c) (drop 9 s)) else py_strip s)"

text \<open>\<open>str.splitlines\<close>\<close>

definition line_end :: "char \<Rightarrow> bool" where
  "line_end c = (let n = (of_char c :: nat) in (10 \<le> n \<and> n \<le> 13) \<or> (28 \<le> n \<and> n \<le> 30) \<or> n = 133)"

fun split_lines :: "string \<Rightarrow> string \<Rightarrow> string list" where
  "split_lines line [] = (if line = [] then [] else [line])"
| "split_lines line [c] = (if line_end c then [line] else [line @ [c]])"
| "split_lines line (c # d # cs) =
     (if c = CHR 0x0D \<and> d = CHR 0x0A then line # split_lines [] cs
      else if line_end c then line # split_lines [] (d # cs) else split_lines (line @ [c]) (d # cs))"

fun fenced_lines :: "bool \<Rightarrow> string list \<Rightarrow> string list" where
  "fenced_lines in_block [] = []"
| "fenced_lines in_block (l # ls) =
     (if py_startswith ''```'' (py_strip l) \<and> \<not> in_block then fenced_lines True ls
      else if py_strip l = ''```'' \<and> in_block then []
      else if in_block then l # fenced_lines in_block ls else fenced_lines in_block ls)"

definition parse_output :: "(string \<Rightarrow> call_args option) \<Rightarrow> string \<Rightarrow> (string, string) odict" where
  "parse_output json raw =
     (let stripped = py_strip raw; response = [(''response'', raw)] in
      case json stripped of
        Some (ArgObject d) \<Rightarrow> d
      | _ \<Rightarrow>
          if py_startswith ''```'' stripped
          then (case json (py_strip (py_join newline (fenced_lines False (split_lines [] stripped)))) of
              Some (ArgObject d) \<Rightarrow> d | _ \<Rightarrow> response)
          else response)"

section \<open>Configuration, environment and state\<close>

record loop_config =
  lf_iterations :: int
  lf_calls :: int
  lf_errors :: int
  lf_confirm :: bool
  lf_doom :: int
  lf_evaluation :: bool
  lf_window :: int

record stream_delta =
  sd_index :: int
  sd_id :: string
  sd_name :: string
  sd_fragment :: string

record stream_chunk =
  sk_content :: string
  sk_calls :: "llm_call list"
  sk_delta :: "stream_delta option"
  sk_finish :: "string option"
  sk_model :: string
  sk_prompt :: int
  sk_completion :: int
  sk_usage :: bool

datatype stream_end = StreamDone | StreamNotImplemented | StreamTypeError string | StreamFailed string

text \<open>\<open>NoStream\<close>: the router has no \<open>stream_complete\<close>, or its result is no asynchronous iterable.\<close>

datatype stream_answer = NoStream | Streamed "stream_chunk list" stream_end

datatype compression = NotNeeded | CompressFailed string | Compressed "chat_message list"

record 'w tool_event =
  tv_tool :: string
  tv_args :: call_args
  tv_result :: "tool_result option"
  tv_world :: 'w

record 'w loop_env =
  le_config :: loop_config
  le_model :: string
  le_complete :: "chat_message list \<Rightarrow> 'w \<Rightarrow> (llm_failure + llm_response) \<times> 'w"
  le_stream :: "chat_message list \<Rightarrow> 'w \<Rightarrow> stream_answer \<times> 'w"
  le_text_calls :: "(string \<Rightarrow> llm_call list) option"
  le_json :: "string \<Rightarrow> call_args option"
  le_canon :: "string \<Rightarrow> string"
  le_ledger :: "string \<Rightarrow> state_ledger option"
  le_govern :: "(string \<Rightarrow> call_args \<Rightarrow> 'w \<Rightarrow> (string + bool) \<times> 'w) option"
  le_audit :: "string \<Rightarrow> call_args \<Rightarrow> tool_result \<Rightarrow> 'w \<Rightarrow> 'w"
  le_budget :: "((string \<Rightarrow> string \<Rightarrow> bool option) \<times> budget) option"
  le_stamp :: "'w \<Rightarrow> stamp"
  le_now :: "'w \<Rightarrow> int"
  le_pre :: "'w tool_event chain_hook list"
  le_post :: "'w tool_event chain_hook list"
  le_execute :: "string \<Rightarrow> call_args \<Rightarrow> 'w \<Rightarrow> (string + tool_result) \<times> 'w"
  le_leaks :: "string \<Rightarrow> bool"
  le_redact :: "string \<Rightarrow> string"
  le_manage :: "(chat_message list \<Rightarrow> 'w \<Rightarrow> chat_message list \<times> 'w) option"
  le_compress :: "chat_message list \<Rightarrow> 'w \<Rightarrow> compression \<times> 'w"

datatype logged = LG_Asked "chat_message list" | LG_Answer llm_response | LG_Ran string call_args | LG_Observed string

datatype stop_reason = TR_Completed | TR_MaxIterations | TR_Error | TR_Budget | TR_Loop | TR_LlmError | TR_ToolError

datatype stream_event =
    SE_Started
  | SE_Iteration nat
  | SE_Request
  | SE_Token string
  | SE_Response bool nat
  | SE_Requested "string list"
  | SE_CallStarted string string
  | SE_CallDone string bool nat
  | SE_Blocked string
  | SE_LoopDetected
  | SE_Wiped string string string
  | SE_Confirm string
  | SE_Confirmed "string option"
  | SE_Managed nat nat
  | SE_Compressed nat nat
  | SE_Error string string
  | SE_Completed stop_reason "int option" nat "string list" "(string, string) odict"

record 'w loop_state =
  ls_iteration :: nat
  ls_tokens :: int
  ls_calls :: nat
  ls_used :: "string list"
  ls_errors :: int
  ls_pending :: bool
  ls_history :: "string list"
  ls_usage :: bool
  ls_raw :: string
  ls_model :: string
  ls_messages :: "chat_message list"
  ls_enforcer :: enforcer
  ls_world :: 'w
  ls_log :: "logged list"
  ls_events :: "stream_event list"

record loop_result =
  lo_output :: "(string, string) odict"
  lo_raw :: string
  lo_tokens :: int
  lo_model :: string
  lo_iterations :: nat
  lo_calls :: nat
  lo_used :: "string list"
  lo_reason :: stop_reason
  lo_usage :: bool

datatype loop_error = LoopAutonomy autonomy_error | LoopGovernance string | LoopTypeError

type_synonym ('w, 'a) loop_svc = "('w loop_state, loop_error, 'a) svc"

definition new_loop :: "'w loop_env \<Rightarrow> chat_message list \<Rightarrow> enforcer \<Rightarrow> 'w \<Rightarrow> 'w loop_state" where
  "new_loop env ms enf w = \<lparr>ls_iteration = 0, ls_tokens = 0, ls_calls = 0, ls_used = [], ls_errors = 0, ls_pending = False,
     ls_history = [], ls_usage = True, ls_raw = [], ls_model = le_model env, ls_messages = ms, ls_enforcer = enf,
     ls_world = w, ls_log = [], ls_events = []\<rparr>"

definition with_world :: "('w \<Rightarrow> 'a \<times> 'w) \<Rightarrow> ('w, 'a) loop_svc" where
  "with_world f s = (case f (ls_world s) of (x, w) \<Rightarrow> (Inr x, s\<lparr>ls_world := w\<rparr>))"

definition log_it :: "logged \<Rightarrow> ('w, unit) loop_svc" where
  "log_it e = sv_modify (\<lambda>s. s\<lparr>ls_log := ls_log s @ [e]\<rparr>)"

definition observe :: "string \<Rightarrow> ('w, unit) loop_svc" where
  "observe ty = log_it (LG_Observed ty)"

definition emit :: "stream_event \<Rightarrow> ('w, unit) loop_svc" where
  "emit e = sv_modify (\<lambda>s. s\<lparr>ls_events := ls_events s @ [e]\<rparr>)"

definition set_messages :: "(chat_message list \<Rightarrow> chat_message list) \<Rightarrow> ('w, unit) loop_svc" where
  "set_messages f = sv_modify (\<lambda>s. s\<lparr>ls_messages := f (ls_messages s)\<rparr>)"

definition count_error :: "('w, unit) loop_svc" where
  "count_error = sv_modify (\<lambda>s. s\<lparr>ls_errors := ls_errors s + 1\<rparr>)"

definition enforced :: "enforcement enforcer_svc \<Rightarrow> ('w, enforcement) loop_svc" where
  "enforced m s = (case m (ls_enforcer s) of
      (Inl e, enf) \<Rightarrow> (Inl (LoopAutonomy e), s\<lparr>ls_enforcer := enf\<rparr>)
    | (Inr r, enf) \<Rightarrow> (Inr r, s\<lparr>ls_enforcer := enf\<rparr>))"

section \<open>Before the model is asked\<close>

text \<open>\<open>int(words * 1.3)\<close> and \<open>int(window * 0.90)\<close> in exact arithmetic\<close>

definition estimate_words :: "chat_message \<Rightarrow> int" where
  "estimate_words m = max 1 (int (length (py_words (cm_content m))) * 13 div 10)"

definition is_system :: "chat_message \<Rightarrow> bool" where
  "is_system m \<longleftrightarrow> cm_role m = R_System"

definition drop_oldest :: "chat_message list \<Rightarrow> chat_message list" where
  "drop_oldest ms = takeWhile is_system ms @ tl (dropWhile is_system ms)"

lemma drop_oldest_shorter: "2 < length (filter (\<lambda>m. \<not> is_system m) ms) \<Longrightarrow> length (drop_oldest ms) < length ms"
proof -
  assume "2 < length (filter (\<lambda>m. \<not> is_system m) ms)"
  then have "filter (\<lambda>m. \<not> is_system m) ms \<noteq> []" by auto
  then have "dropWhile is_system ms \<noteq> []" by (auto simp: filter_empty_conv dropWhile_eq_Nil_conv)
  then show ?thesis
    unfolding drop_oldest_def
    by (metis add_less_cancel_left length_append length_greater_0_conv length_tl diff_less less_one takeWhile_dropWhile_id)
qed

function evict_for_budget :: "int \<Rightarrow> chat_message list \<Rightarrow> chat_message list" where
  "evict_for_budget budget ms =
     (if sum_list (List.map estimate_words ms) \<le> budget \<or> length (filter (\<lambda>m. \<not> is_system m) ms) \<le> 2 then ms
      else evict_for_budget budget (drop_oldest ms))"
  by pat_completeness auto

termination
  by (relation "measure (\<lambda>(b, ms). length ms)") (auto simp: drop_oldest_shorter)

declare evict_for_budget.simps [simp del]

definition prepare_context :: "'w loop_env \<Rightarrow> ('w, unit) loop_svc" where
  "prepare_context env = (if lf_evaluation (le_config env)
     then set_messages (evict_for_budget (lf_window (le_config env) * 9 div 10)) else sv_return ())"

definition track_usage :: "llm_response \<Rightarrow> 'w loop_state \<Rightarrow> 'w loop_state" where
  "track_usage r s = (if lr_usage r then s\<lparr>ls_tokens := ls_tokens s + (lr_prompt r + lr_completion r)\<rparr> else s\<lparr>ls_usage := False\<rparr>)"

section \<open>Tool calls\<close>

text \<open>\<open>"command" in parsed_args\<close>; \<open>None\<close> is the \<open>TypeError\<close> of a number, a boolean or null.\<close>

definition mentions_command :: "call_args \<Rightarrow> bool option" where
  "mentions_command args = (case args of ArgObject d \<Rightarrow> Some (od_get d ''command'' \<noteq> None)
     | ArgList xs \<Rightarrow> Some (''command'' \<in> set xs) | ArgText t \<Rightarrow> Some (py_contains ''command'' t) | ArgScalar t \<Rightarrow> None)"

text \<open>\<open>EN_Allowed\<close> when no enforcer is configured; arguments that are no object make the look-ups raise.\<close>

definition enforce_call :: "'w loop_env \<Rightarrow> string \<Rightarrow> call_args \<Rightarrow> ('w, enforcement) loop_svc" where
  "enforce_call env tool args = (case le_budget env of
      None \<Rightarrow> sv_return EN_Allowed
    | Some (rematch, b) \<Rightarrow> sv_bind sv_get (\<lambda>s. case args of
        ArgObject d \<Rightarrow> enforced (enforce_tool_call rematch b (le_stamp env (ls_world s)) tool d)
      | _ \<Rightarrow>
          if tool = ''shell'' \<and> mentions_command args \<noteq> Some False then sv_raise LoopTypeError
          else if tool \<in> {''file_read'', ''file_write'', ''file_ops'', ''web_fetch''} then sv_raise LoopTypeError
          else enforced (check_command rematch b tool)))"

definition govern_call :: "'w loop_env \<Rightarrow> string \<Rightarrow> call_args \<Rightarrow> ('w, bool) loop_svc" where
  "govern_call env tool args = (case le_govern env of
      None \<Rightarrow> sv_return True
    | Some f \<Rightarrow> sv_bind (with_world (f tool args)) (\<lambda>r. case r of Inl e \<Rightarrow> sv_raise (LoopGovernance e) | Inr ok \<Rightarrow> sv_return ok))"

definition event_ctx :: "string \<Rightarrow> call_args \<Rightarrow> tool_result option \<Rightarrow> 'w \<Rightarrow> 'w tool_event hook_ctx" where
  "event_ctx tool args r w = \<lparr>hc_abort = False, hc_reason = [], hc_results = [],
     hc_data = \<lparr>tv_tool = tool, tv_args = args, tv_result = r, tv_world = w\<rparr>\<rparr>"

text \<open>\<open>Inl\<close> is an abort with its reason, \<open>Inr\<close> the arguments the hooks leave.\<close>

definition pre_hooks :: "'w loop_env \<Rightarrow> string \<Rightarrow> call_args \<Rightarrow> ('w, string + call_args) loop_svc" where
  "pre_hooks env tool args = with_world (\<lambda>w. let c = run_chain True (le_pre env) (event_ctx tool args None w) in
     (if hc_abort c then Inl (hc_reason c) else Inr (tv_args (hc_data c)), tv_world (hc_data c)))"

text \<open>The context that the post hooks leave is dropped.\<close>

definition post_hooks :: "'w loop_env \<Rightarrow> string \<Rightarrow> call_args \<Rightarrow> tool_result \<Rightarrow> ('w, unit) loop_svc" where
  "post_hooks env tool args r = with_world (\<lambda>w.
     ((), tv_world (hc_data (run_chain True (le_post env) (event_ctx tool args (Some r) w)))))"

definition note_call :: "string \<Rightarrow> ('w, unit) loop_svc" where
  "note_call tool = sv_modify (\<lambda>s. s\<lparr>ls_calls := Suc (ls_calls s),
     ls_used := (if tool \<in> set (ls_used s) then ls_used s else ls_used s @ [tool])\<rparr>)"

definition run_tool :: "'w loop_env \<Rightarrow> string \<Rightarrow> call_args \<Rightarrow> ('w, tool_result) loop_svc" where
  "run_tool env tool args = sv_bind (log_it (LG_Ran tool args)) (\<lambda>_.
     sv_bind (with_world (le_execute env tool args)) (\<lambda>answer.
     sv_bind (case answer of
         Inl e \<Rightarrow> sv_bind count_error (\<lambda>_. sv_return (tool_fail (''Tool '' @ in_quotes tool @ '' raised: '' @ e)))
       | Inr r \<Rightarrow> sv_return r) (\<lambda>r.
     sv_bind (post_hooks env tool args r) (\<lambda>_.
     sv_bind (with_world (\<lambda>w. ((), le_audit env tool args r w))) (\<lambda>_.
     sv_bind (if to_success r \<and> to_output r \<noteq> [] \<and> le_leaks env (to_output r)
         then sv_bind (observe ''leakage_detected'') (\<lambda>_.
           sv_return (tool_ok ''[Tool output filtered: potential answer leakage detected]''))
         else sv_return r) (\<lambda>r.
     sv_bind (observe ''tool_call'') (\<lambda>_. sv_bind (note_call tool) (\<lambda>_. sv_return r))))))))"

definition hooked_call :: "'w loop_env \<Rightarrow> string \<Rightarrow> call_args \<Rightarrow> ('w, tool_result) loop_svc" where
  "hooked_call env tool args = sv_bind (pre_hooks env tool args) (\<lambda>h. case h of
     Inl reason \<Rightarrow> sv_return (tool_fail (''Hook aborted: '' @ reason))
   | Inr args' \<Rightarrow> run_tool env tool args')"

text \<open>The result of a call, and whether the enforcer stopped the rest\<close>

definition execute_call :: "'w loop_env \<Rightarrow> llm_call \<Rightarrow> ('w, tool_result \<times> bool) loop_svc" where
  "execute_call env c = (let tool = lc_name c in case le_json env (lc_args c) of
      None \<Rightarrow> sv_bind count_error (\<lambda>_. sv_bind (observe ''tool_call'') (\<lambda>_.
        sv_return (tool_fail (''Invalid JSON arguments for tool '' @ in_quotes tool), False)))
    | Some args \<Rightarrow> sv_bind (govern_call env tool args) (\<lambda>allowed.
        if \<not> allowed then sv_bind (observe ''tool_call'') (\<lambda>_.
          sv_return (tool_fail (''Tool '' @ in_quotes tool @ '' blocked by governance policy''), False))
        else sv_bind (enforce_call env tool args) (\<lambda>res.
          if res = EN_Blocked then sv_return (tool_fail ''__budget_blocked__'', True)
          else sv_bind (hooked_call env tool args) (\<lambda>r. sv_return (r, False)))))"

fun execute_each :: "'w loop_env \<Rightarrow> llm_call list \<Rightarrow> ('w, tool_result list) loop_svc" where
  "execute_each env [] = sv_return []"
| "execute_each env (c # cs) = sv_bind (execute_call env c) (\<lambda>(r, stop).
     if stop then sv_return [r] else sv_bind (execute_each env cs) (\<lambda>rs. sv_return (r # rs)))"

definition execute_tool_calls :: "'w loop_env \<Rightarrow> llm_call list \<Rightarrow> ('w, tool_result list) loop_svc" where
  "execute_tool_calls env calls = execute_each env (py_take (lf_calls (le_config env)) calls)"

definition budget_blocked :: "'w loop_env \<Rightarrow> tool_result list \<Rightarrow> bool" where
  "budget_blocked env rs \<longleftrightarrow> le_budget env \<noteq> None \<and> list_ex (\<lambda>r. to_error r = ''__budget_blocked__'') rs"

definition doom_signature :: "'w loop_env \<Rightarrow> llm_call \<Rightarrow> string" where
  "doom_signature env c = lc_name c @ '':'' @ le_canon env (lc_args c)"

definition check_doom_loop :: "'w loop_env \<Rightarrow> llm_call list \<Rightarrow> ('w, bool) loop_svc" where
  "check_doom_loop env calls = (case calls of
      [] \<Rightarrow> sv_return False
    | c # _ \<Rightarrow> sv_bind (sv_modify (\<lambda>s. s\<lparr>ls_history := ls_history s @ [doom_signature env c]\<rparr>)) (\<lambda>_. sv_bind sv_get (\<lambda>s.
        let n = nat (lf_doom (le_config env)) in
        if length (ls_history s) < n then sv_return False
        else sv_return (card (set (drop (length (ls_history s) - n) (ls_history s))) = 1))))"

section \<open>What goes back to the model\<close>

definition tool_message :: "'w loop_env \<Rightarrow> llm_call \<Rightarrow> tool_result \<Rightarrow> chat_message" where
  "tool_message env c r = \<lparr>cm_role = R_Tool,
     cm_content = le_redact env (if to_success r then truncate_tool_output (to_output r)
       else ''Error: '' @ truncate_tool_output (to_error r)),
     cm_calls = [], cm_call_id = lc_id c, cm_name = lc_name c\<rparr>"

definition append_results :: "'w loop_env \<Rightarrow> string \<Rightarrow> llm_call list \<Rightarrow> tool_result list \<Rightarrow> ('w, unit) loop_svc" where
  "append_results env content calls rs = (let processed = take (length rs) calls in
     set_messages (\<lambda>ms. ms @ (plain R_Assistant content)\<lparr>cm_calls := processed\<rparr> #
       List.map (\<lambda>(c, r). tool_message env c r) (zip processed rs)))"

definition wipe_context :: "state_ledger \<Rightarrow> chat_message list \<Rightarrow> chat_message list" where
  "wipe_context l ms = execute_handoff l [plain R_System (case ms of [] \<Rightarrow> [] | m # _ \<Rightarrow> cm_content m)]"

fun handoffs :: "bool \<Rightarrow> 'w loop_env \<Rightarrow> (llm_call \<times> tool_result) list \<Rightarrow> ('w, unit) loop_svc" where
  "handoffs streaming env [] = sv_return ()"
| "handoffs streaming env ((c, r) # rest) = sv_bind
     (if lc_name c = ''handoff'' \<and> to_success r
      then (case le_ledger env (lc_args c) of
          None \<Rightarrow> sv_return ()
        | Some l \<Rightarrow> sv_bind (set_messages (wipe_context l)) (\<lambda>_.
            sv_bind (if streaming then emit (SE_Wiped (sl_source l) (sl_target l) (sl_objective l)) else sv_return ()) (\<lambda>_.
            observe ''handoff_context_wipe'')))
      else sv_return ()) (\<lambda>_. handoffs streaming env rest)"

section \<open>The loop\<close>

definition build_result :: "'w loop_env \<Rightarrow> string \<Rightarrow> string \<Rightarrow> stop_reason \<Rightarrow> 'w loop_state \<Rightarrow> loop_result" where
  "build_result env raw output reason s = \<lparr>lo_output = parse_output (le_json env) output, lo_raw = raw, lo_tokens = ls_tokens s,
     lo_model = ls_model s, lo_iterations = ls_iteration s, lo_calls = ls_calls s, lo_used = ls_used s, lo_reason = reason,
     lo_usage = ls_usage s\<rparr>"

definition stop_loop :: "'w loop_env \<Rightarrow> stop_reason \<Rightarrow> ('w, loop_result option) loop_svc" where
  "stop_loop env reason = sv_bind sv_get (\<lambda>s. sv_return (Some (build_result env (ls_raw s) (ls_raw s) reason s)))"

definition complete_loop :: "'w loop_env \<Rightarrow> string \<Rightarrow> string \<Rightarrow> ('w, loop_result option) loop_svc" where
  "complete_loop env raw final = sv_bind sv_get (\<lambda>s. sv_return (Some (build_result env raw final TR_Completed s)))"

definition confirmation_prompt :: string where
  "confirmation_prompt = ''You indicated you have completed the task. Please respond with exactly one of the following formats:'' @
     newline @ newline @ ''COMPLETED: [your final answer]'' @ newline @ ''CONTINUE: [what you still need to do]'' @ newline @ newline @
     ''If the task is not fully complete, use CONTINUE and keep working. If it is complete, use COMPLETED and restate your final answer.''"

definition ask_confirmation :: "string \<Rightarrow> ('w, unit) loop_svc" where
  "ask_confirmation content = sv_bind (sv_modify (\<lambda>s. s\<lparr>ls_pending := True\<rparr>)) (\<lambda>_.
     set_messages (\<lambda>ms. ms @ [plain R_Assistant content, plain R_User confirmation_prompt]))"

definition resume_work :: "string \<Rightarrow> ('w, unit) loop_svc" where
  "resume_work content = sv_bind (sv_modify (\<lambda>s. s\<lparr>ls_pending := False\<rparr>)) (\<lambda>_. set_messages (\<lambda>ms. ms @ [plain R_Assistant content]))"

definition manage_context :: "'w loop_env \<Rightarrow> ('w, unit) loop_svc" where
  "manage_context env = (case le_manage env of
      None \<Rightarrow> sv_return ()
    | Some f \<Rightarrow> sv_bind sv_get (\<lambda>s. sv_bind (with_world (f (ls_messages s))) (\<lambda>ms. set_messages (\<lambda>_. ms))))"

definition compress_context :: "'w loop_env \<Rightarrow> ('w, compression) loop_svc" where
  "compress_context env = sv_bind sv_get (\<lambda>s. sv_bind (with_world (le_compress env (ls_messages s))) (\<lambda>c.
     sv_bind (case c of Compressed ms \<Rightarrow> set_messages (\<lambda>_. ms) | _ \<Rightarrow> sv_return ()) (\<lambda>_. sv_return c)))"

text \<open>The checks at the end of an iteration, with the phase of a budget stop\<close>

definition check_limits :: "'w loop_env \<Rightarrow> ('w, (stop_reason \<times> string) option) loop_svc" where
  "check_limits env = sv_bind sv_get (\<lambda>s.
     if lf_errors (le_config env) \<le> ls_errors s then sv_return (Some (TR_Error, []))
     else (case le_budget env of
         None \<Rightarrow> sv_return None
       | Some (rematch, b) \<Rightarrow> sv_bind (enforced (record_iteration b (le_stamp env (ls_world s)))) (\<lambda>res.
           if res = EN_Blocked then sv_return (Some (TR_Budget, ''iteration''))
           else sv_bind (enforced (check_duration b (le_stamp env (ls_world s)) (le_now env (ls_world s)))) (\<lambda>res.
             sv_return (if res = EN_Blocked then Some (TR_Budget, ''duration'') else None)))))"

definition end_iteration :: "'w loop_env \<Rightarrow> ('w, loop_result option) loop_svc" where
  "end_iteration env = sv_bind (manage_context env) (\<lambda>_. sv_bind (compress_context env) (\<lambda>_.
     sv_bind (check_limits env) (\<lambda>r. case r of None \<Rightarrow> sv_return None | Some (reason, _) \<Rightarrow> stop_loop env reason)))"

definition calls_of :: "'w loop_env \<Rightarrow> llm_response \<Rightarrow> llm_call list" where
  "calls_of env r = (if lr_calls r \<noteq> [] then lr_calls r
     else case le_text_calls env of None \<Rightarrow> [] | Some parse \<Rightarrow> parse (lr_content r))"

definition handle_results :: "'w loop_env \<Rightarrow> llm_response \<Rightarrow> llm_call list \<Rightarrow> tool_result list \<Rightarrow> ('w, loop_result option) loop_svc" where
  "handle_results env r calls rs =
     (if budget_blocked env rs then stop_loop env TR_Budget
      else sv_bind (append_results env (lr_content r) calls rs) (\<lambda>_.
        sv_bind (handoffs False env (zip calls rs)) (\<lambda>_. end_iteration env)))"

definition handle_tools :: "'w loop_env \<Rightarrow> llm_response \<Rightarrow> llm_call list \<Rightarrow> ('w, loop_result option) loop_svc" where
  "handle_tools env r calls = sv_bind (sv_modify (\<lambda>s. s\<lparr>ls_errors := 0, ls_pending := False\<rparr>)) (\<lambda>_.
     sv_bind (if 0 < lf_doom (le_config env) then check_doom_loop env calls else sv_return False) (\<lambda>doomed.
     if doomed then stop_loop env TR_Loop
     else sv_bind (execute_tool_calls env calls) (handle_results env r calls)))"

definition handle_text :: "'w loop_env \<Rightarrow> llm_response \<Rightarrow> ('w, loop_result option) loop_svc" where
  "handle_text env r =
     (let content = lr_content r in
      if \<not> lf_confirm (le_config env) then complete_loop env content content
      else sv_bind sv_get (\<lambda>s.
        if \<not> ls_pending s then sv_bind (ask_confirmation content) (\<lambda>_. end_iteration env)
        else case parse_confirmation content of
            Some False \<Rightarrow> sv_bind (resume_work content) (\<lambda>_. sv_return None)
          | None \<Rightarrow> sv_bind (ask_confirmation content) (\<lambda>_. sv_return None)
          | Some True \<Rightarrow> complete_loop env content (strip_completion_prefix content)))"

definition handle_response :: "'w loop_env \<Rightarrow> llm_response \<Rightarrow> ('w, loop_result option) loop_svc" where
  "handle_response env r = sv_bind (sv_modify (\<lambda>s. (track_usage r s)\<lparr>ls_raw := lr_content r, ls_model := lr_model r\<rparr>)) (\<lambda>_.
     sv_bind (log_it (LG_Answer r)) (\<lambda>_. sv_bind (observe ''llm_response'') (\<lambda>_.
     let calls = calls_of env r in if calls \<noteq> [] then handle_tools env r calls else handle_text env r)))"

definition llm_failed :: "'w loop_env \<Rightarrow> ('w, loop_result option) loop_svc" where
  "llm_failed env = sv_bind count_error (\<lambda>_. sv_bind sv_get (\<lambda>s.
     if lf_errors (le_config env) \<le> ls_errors s then stop_loop env TR_Error else sv_return None))"

definition ask_model :: "'w loop_env \<Rightarrow> ('w, llm_failure + llm_response) loop_svc" where
  "ask_model env = sv_bind sv_get (\<lambda>s. sv_bind (log_it (LG_Asked (ls_messages s))) (\<lambda>_. with_world (le_complete env (ls_messages s))))"

definition loop_iteration :: "'w loop_env \<Rightarrow> ('w, loop_result option) loop_svc" where
  "loop_iteration env = sv_bind (sv_modify (\<lambda>s. s\<lparr>ls_iteration := Suc (ls_iteration s)\<rparr>)) (\<lambda>_.
     sv_bind (prepare_context env) (\<lambda>_. sv_bind (ask_model env) (\<lambda>answer.
     case answer of Inl _ \<Rightarrow> llm_failed env | Inr r \<Rightarrow> handle_response env r)))"

text \<open>The argument is the number of iterations left before \<open>max_iterations\<close>.\<close>

fun run_loop :: "'w loop_env \<Rightarrow> nat \<Rightarrow> ('w, loop_result) loop_svc" where
  "run_loop env 0 = sv_bind sv_get (\<lambda>s. sv_return (build_result env (ls_raw s) (ls_raw s) TR_MaxIterations s))"
| "run_loop env (Suc n) = sv_bind (loop_iteration env) (\<lambda>r. case r of
     None \<Rightarrow> run_loop env n | Some result \<Rightarrow> sv_return result)"

definition run :: "'w loop_env \<Rightarrow> ('w, loop_result) loop_svc" where
  "run env = run_loop env (nat (lf_iterations (le_config env)))"

section \<open>Streamed responses\<close>

record partial_call =
  pa_id :: string
  pa_name :: string
  pa_parts :: "string list"

type_synonym assembler = "(int, partial_call) odict"

definition add_delta :: "stream_delta \<Rightarrow> assembler \<Rightarrow> assembler" where
  "add_delta d ps =
     (let p = (case od_get ps (sd_index d) of None \<Rightarrow> \<lparr>pa_id = [], pa_name = [], pa_parts = []\<rparr> | Some p \<Rightarrow> p)
      in od_put (sd_index d) \<lparr>pa_id = (if sd_id d \<noteq> [] then sd_id d else pa_id p),
           pa_name = (if sd_name d \<noteq> [] then sd_name d else pa_name p),
           pa_parts = (if sd_fragment d \<noteq> [] then pa_parts p @ [sd_fragment d] else pa_parts p)\<rparr> ps)"

definition assembled_call :: "int \<Rightarrow> partial_call \<Rightarrow> llm_call" where
  "assembled_call i p = \<lparr>lc_id = (if pa_id p \<noteq> [] then pa_id p else ''call_'' @ py_str_int i), lc_name = pa_name p,
     lc_args = (let args = py_strip (List.concat (pa_parts p)) in if args = [] then ''{}'' else args)\<rparr>"

definition close_assembler :: "assembler \<Rightarrow> llm_call list" where
  "close_assembler ps = List.map (\<lambda>(i, p). assembled_call i p) (filter (\<lambda>(i, p). pa_name p \<noteq> []) (sort_key fst ps))"

record stream_acc =
  sa_partials :: assembler
  sa_tool_delta :: bool
  sa_content :: string
  sa_model :: string
  sa_prompt :: int
  sa_completion :: int
  sa_usage :: bool
  sa_finish :: "string option"

definition call_delta :: "nat \<times> llm_call \<Rightarrow> stream_delta" where
  "call_delta x = \<lparr>sd_index = int (fst x), sd_id = lc_id (snd x), sd_name = lc_name (snd x), sd_fragment = lc_args (snd x)\<rparr>"

definition chunk_deltas :: "stream_chunk \<Rightarrow> stream_delta list" where
  "chunk_deltas k = (case sk_delta k of None \<Rightarrow> [] | Some d \<Rightarrow> [d]) @ List.map call_delta (enumerate 0 (sk_calls k))"

definition absorb_chunk :: "stream_chunk \<Rightarrow> stream_acc \<Rightarrow> stream_acc" where
  "absorb_chunk k a = a\<lparr>sa_content := sa_content a @ sk_content k, sa_partials := fold add_delta (chunk_deltas k) (sa_partials a),
     sa_tool_delta := (sa_tool_delta a \<or> chunk_deltas k \<noteq> []), sa_model := (if sk_model k \<noteq> [] then sk_model k else sa_model a),
     sa_usage := (sa_usage a \<or> sk_usage k),
     sa_prompt := (if sk_usage k then max (sa_prompt a) (sk_prompt k) else sa_prompt a),
     sa_completion := (if sk_usage k then max (sa_completion a) (sk_completion k) else sa_completion a),
     sa_finish := (case sk_finish k of None \<Rightarrow> sa_finish a | Some f \<Rightarrow> Some f)\<rparr>"

definition stream_start :: "string \<Rightarrow> stream_acc" where
  "stream_start model = \<lparr>sa_partials = [], sa_tool_delta = False, sa_content = [], sa_model = model, sa_prompt = 0,
     sa_completion = 0, sa_usage = False, sa_finish = None\<rparr>"

definition stream_result :: "stream_acc \<Rightarrow> llm_response" where
  "stream_result a = (let calls = close_assembler (sa_partials a) in
     \<lparr>lr_content = sa_content a, lr_model = sa_model a, lr_prompt = sa_prompt a, lr_completion = sa_completion a, lr_calls = calls,
      lr_finish = (if calls \<noteq> [] then ''tool_calls'' else case sa_finish a of None \<Rightarrow> ''stop'' | Some f \<Rightarrow> if f = [] then ''stop'' else f),
      lr_usage = sa_usage a\<rparr>)"

definition stream_unsupported :: "string \<Rightarrow> bool" where
  "stream_unsupported msg \<longleftrightarrow> list_ex (\<lambda>m. py_contains m msg) [''__aiter__'', ''async iterable'', ''async iterator'', ''async for'']"

fun emit_tokens :: "stream_chunk list \<Rightarrow> ('w, unit) loop_svc" where
  "emit_tokens [] = sv_return ()"
| "emit_tokens (k # ks) = sv_bind (if sk_content k \<noteq> [] then emit (SE_Token (sk_content k)) else sv_return ()) (\<lambda>_. emit_tokens ks)"

definition whole_response :: "'w loop_env \<Rightarrow> chat_message list \<Rightarrow> ('w, llm_failure + llm_response) loop_svc" where
  "whole_response env ms = with_world (le_complete env ms)"

definition finish_stream :: "'w loop_env \<Rightarrow> chat_message list \<Rightarrow> stream_chunk list \<Rightarrow> stream_end \<Rightarrow> ('w, llm_failure + llm_response) loop_svc" where
  "finish_stream env ms ks ending = (case ending of
      StreamFailed e \<Rightarrow> sv_return (Inl (LlmFailed e))
    | StreamTypeError e \<Rightarrow> if ks = [] \<and> stream_unsupported e then whole_response env ms else sv_return (Inl (LlmTypeError e))
    | StreamNotImplemented \<Rightarrow> whole_response env ms
    | StreamDone \<Rightarrow>
        if ks = [] then whole_response env ms
        else let a = fold absorb_chunk ks (stream_start (le_model env)); r = stream_result a in
          if \<not> sa_tool_delta a \<and> lr_calls r = [] \<and> sa_finish a = Some ''tool_calls'' then whole_response env ms
          else sv_return (Inr r))"

definition stream_response :: "'w loop_env \<Rightarrow> ('w, llm_failure + llm_response) loop_svc" where
  "stream_response env = sv_bind sv_get (\<lambda>s. let ms = ls_messages s in
     sv_bind (with_world (le_stream env ms)) (\<lambda>answer. case answer of
         NoStream \<Rightarrow> whole_response env ms
       | Streamed ks ending \<Rightarrow> sv_bind (emit_tokens ks) (\<lambda>_. finish_stream env ms ks ending)))"

section \<open>The streaming loop\<close>

text \<open>The reason to stop, and the text of the final response where it is not the last one\<close>

type_synonym stop = "stop_reason \<times> string option"

definition stream_calls_of :: "'w loop_env \<Rightarrow> llm_response \<Rightarrow> llm_call list" where
  "stream_calls_of env r = (if lr_calls r \<noteq> [] then lr_calls r
     else case le_text_calls env of None \<Rightarrow> [] | Some parse \<Rightarrow> if lr_content r \<noteq> [] then parse (lr_content r) else [])"

fun emit_all :: "stream_event list \<Rightarrow> ('w, unit) loop_svc" where
  "emit_all [] = sv_return ()"
| "emit_all (e # es) = sv_bind (emit e) (\<lambda>_. emit_all es)"

definition call_done :: "llm_call \<times> tool_result \<Rightarrow> stream_event" where
  "call_done x = SE_CallDone (lc_name (fst x)) (to_success (snd x))
     (length (if to_success (snd x) then to_output (snd x) else to_error (snd x)))"

definition stream_end_iteration :: "'w loop_env \<Rightarrow> ('w, stop option) loop_svc" where
  "stream_end_iteration env = sv_bind sv_get (\<lambda>s. sv_bind (manage_context env) (\<lambda>_. sv_bind sv_get (\<lambda>t.
     sv_bind (if length (ls_messages t) \<noteq> length (ls_messages s)
       then emit (SE_Managed (length (ls_messages s)) (length (ls_messages t))) else sv_return ()) (\<lambda>_.
     sv_bind (compress_context env) (\<lambda>c.
     sv_bind (case c of NotNeeded \<Rightarrow> sv_return ()
       | CompressFailed e \<Rightarrow> emit (SE_Error e ''context_compression'')
       | Compressed ms \<Rightarrow> emit (SE_Compressed (length (ls_messages t)) (length ms))) (\<lambda>_.
     sv_bind (check_limits env) (\<lambda>r. case r of
         None \<Rightarrow> sv_return None
       | Some (reason, phase) \<Rightarrow> sv_bind (if reason = TR_Budget then emit (SE_Blocked phase) else sv_return ()) (\<lambda>_.
           sv_return (Some (reason, None))))))))))"

definition stream_results ::
  "'w loop_env \<Rightarrow> llm_response \<Rightarrow> llm_call list \<Rightarrow> loop_error + tool_result list \<Rightarrow> ('w, stop option) loop_svc" where
  "stream_results env r calls outcome = (case outcome of
      Inl e \<Rightarrow> sv_bind (emit (SE_Error [] ''tool_execution'')) (\<lambda>_. sv_return (Some (TR_ToolError, None)))
    | Inr rs \<Rightarrow> sv_bind (emit_all (List.map call_done (zip calls rs))) (\<lambda>_.
        if budget_blocked env rs then sv_bind (emit (SE_Blocked [])) (\<lambda>_. sv_return (Some (TR_Budget, None)))
        else sv_bind (append_results env (lr_content r) calls rs) (\<lambda>_.
          sv_bind (handoffs True env (zip calls rs)) (\<lambda>_. stream_end_iteration env))))"

definition stream_calls :: "'w loop_env \<Rightarrow> llm_response \<Rightarrow> llm_call list \<Rightarrow> ('w, stop option) loop_svc" where
  "stream_calls env r calls = sv_bind (emit_all (List.map (\<lambda>c. SE_CallStarted (lc_name c) (lc_id c)) calls)) (\<lambda>_.
     sv_bind (sv_attempt (execute_tool_calls env calls)) (stream_results env r calls))"

definition stream_tools :: "'w loop_env \<Rightarrow> llm_response \<Rightarrow> llm_call list \<Rightarrow> ('w, stop option) loop_svc" where
  "stream_tools env r calls = sv_bind (sv_modify (\<lambda>s. s\<lparr>ls_errors := 0, ls_pending := False\<rparr>)) (\<lambda>_.
     sv_bind (emit (SE_Requested (List.map lc_name calls))) (\<lambda>_.
     sv_bind (if 0 < lf_doom (le_config env) then check_doom_loop env calls else sv_return False) (\<lambda>doomed.
     if doomed then sv_bind (emit SE_LoopDetected) (\<lambda>_. sv_return (Some (TR_Loop, None))) else stream_calls env r calls)))"

definition stream_text :: "'w loop_env \<Rightarrow> llm_response \<Rightarrow> ('w, stop option) loop_svc" where
  "stream_text env r =
     (let content = lr_content r in
      if \<not> lf_confirm (le_config env) then sv_return (Some (TR_Completed, None))
      else sv_bind sv_get (\<lambda>s.
        if \<not> ls_pending s
        then sv_bind (ask_confirmation content) (\<lambda>_. sv_bind (emit (SE_Confirm content)) (\<lambda>_. sv_return None))
        else case parse_confirmation content of
            Some True \<Rightarrow> let final = strip_completion_prefix content in
              sv_bind (emit (SE_Confirmed (Some final))) (\<lambda>_. sv_return (Some (TR_Completed, Some final)))
          | Some False \<Rightarrow> sv_bind (resume_work content) (\<lambda>_. sv_bind (emit (SE_Confirmed None)) (\<lambda>_. sv_return None))
          | None \<Rightarrow> sv_bind (ask_confirmation content) (\<lambda>_. sv_bind (emit (SE_Confirm content)) (\<lambda>_. sv_return None))))"

definition stream_handle :: "'w loop_env \<Rightarrow> llm_response \<Rightarrow> ('w, stop option) loop_svc" where
  "stream_handle env r = sv_bind (sv_modify (\<lambda>s. (track_usage r s)\<lparr>ls_raw := lr_content r, ls_model := lr_model r\<rparr>)) (\<lambda>_.
     sv_bind (log_it (LG_Answer r)) (\<lambda>_.
     sv_bind (emit (SE_Response (lr_calls r \<noteq> []) (length (lr_content r)))) (\<lambda>_.
     sv_bind (observe ''llm_response'') (\<lambda>_.
     let calls = stream_calls_of env r in if calls \<noteq> [] then stream_tools env r calls else stream_text env r))))"

definition stream_failed :: "'w loop_env \<Rightarrow> llm_failure \<Rightarrow> ('w, stop option) loop_svc" where
  "stream_failed env e = (case e of
      LlmTypeError e \<Rightarrow> sv_bind (emit (SE_Error e ''llm_call'')) (\<lambda>_. sv_return (Some (TR_LlmError, None)))
    | LlmFailed e \<Rightarrow> sv_bind count_error (\<lambda>_. sv_bind (emit (SE_Error e ''llm_call'')) (\<lambda>_. sv_bind sv_get (\<lambda>s.
        sv_return (if lf_errors (le_config env) \<le> ls_errors s then Some (TR_Error, None) else None)))))"

definition stream_ask :: "'w loop_env \<Rightarrow> ('w, llm_failure + llm_response) loop_svc" where
  "stream_ask env = sv_bind sv_get (\<lambda>s. sv_bind (log_it (LG_Asked (ls_messages s))) (\<lambda>_. stream_response env))"

definition stream_iteration :: "'w loop_env \<Rightarrow> ('w, stop option) loop_svc" where
  "stream_iteration env = sv_bind (sv_modify (\<lambda>s. s\<lparr>ls_iteration := Suc (ls_iteration s)\<rparr>)) (\<lambda>_. sv_bind sv_get (\<lambda>s.
     sv_bind (emit (SE_Iteration (length (ls_messages s)))) (\<lambda>_.
     sv_bind (prepare_context env) (\<lambda>_. sv_bind (emit SE_Request) (\<lambda>_.
     sv_bind (stream_ask env) (\<lambda>answer. case answer of Inl e \<Rightarrow> stream_failed env e | Inr r \<Rightarrow> stream_handle env r))))))"

fun stream_loop :: "'w loop_env \<Rightarrow> nat \<Rightarrow> ('w, stop) loop_svc" where
  "stream_loop env 0 = sv_return (TR_MaxIterations, None)"
| "stream_loop env (Suc n) = sv_bind (sv_attempt (stream_iteration env)) (\<lambda>outcome. case outcome of
     Inl e \<Rightarrow> sv_bind (emit (SE_Error [] ''loop'')) (\<lambda>_. sv_return (TR_Error, None))
   | Inr None \<Rightarrow> stream_loop env n
   | Inr (Some stop) \<Rightarrow> sv_return stop)"

definition run_stream :: "'w loop_env \<Rightarrow> ('w, stop_reason) loop_svc" where
  "run_stream env = sv_bind (emit SE_Started) (\<lambda>_.
     sv_bind (stream_loop env (nat (lf_iterations (le_config env)))) (\<lambda>(reason, final). sv_bind sv_get (\<lambda>s.
     sv_bind (emit (SE_Completed reason (if ls_usage s then Some (ls_tokens s) else None) (ls_calls s) (ls_used s)
       (parse_output (le_json env) (case final of None \<Rightarrow> ls_raw s | Some t \<Rightarrow> t)))) (\<lambda>_. sv_return reason))))"

section \<open>Evaluation\<close>

text \<open>The equations that evaluate a service wait for its state.\<close>

lemmas lazy_services [code] =
  check_doom_loop_def [THEN fun_cong]
  run_tool_def [THEN fun_cong]
  hooked_call_def [THEN fun_cong]
  execute_call_def [THEN fun_cong]
  manage_context_def [THEN fun_cong]
  compress_context_def [THEN fun_cong]
  check_limits_def [THEN fun_cong]
  end_iteration_def [THEN fun_cong]
  handle_results_def [THEN fun_cong]
  handle_tools_def [THEN fun_cong]
  handle_text_def [THEN fun_cong]
  handle_response_def [THEN fun_cong]
  llm_failed_def [THEN fun_cong]
  ask_model_def [THEN fun_cong]
  loop_iteration_def [THEN fun_cong]
  run_def [THEN fun_cong]
  finish_stream_def [THEN fun_cong]
  stream_response_def [THEN fun_cong]
  stream_end_iteration_def [THEN fun_cong]
  stream_results_def [THEN fun_cong]
  stream_calls_def [THEN fun_cong]
  stream_tools_def [THEN fun_cong]
  stream_text_def [THEN fun_cong]
  stream_handle_def [THEN fun_cong]
  stream_failed_def [THEN fun_cong]
  stream_ask_def [THEN fun_cong]
  stream_iteration_def [THEN fun_cong]
  run_stream_def [THEN fun_cong]
  append_results_def [THEN fun_cong]
  ask_confirmation_def [THEN fun_cong]
  resume_work_def [THEN fun_cong]
  enforce_call_def [THEN fun_cong]
  govern_call_def [THEN fun_cong]
  execute_each.simps [THEN fun_cong]
  handoffs.simps [THEN fun_cong]
  run_loop.simps [THEN fun_cong]
  emit_tokens.simps [THEN fun_cong]
  emit_all.simps [THEN fun_cong]
  stream_loop.simps [THEN fun_cong]

end
