(* ===== verification/Tool_Loop_Correct.thy ===== *)
theory Tool_Loop_Correct
  imports Tool_Loop Autonomy_Correct
begin

text \<open>
  Correctness of the tool-use loop, for whole and for streamed responses: the conversation stays one a provider accepts,
  the calls are bounded and in the scope of the budget, and completion is confirmed.  The runs at the end show what the
  loop allows, among it where streaming merges calls and skips checks that the loop over whole responses makes.
\<close>

section \<open>A run to try\<close>

text \<open>The world counts the questions; the answers are read off a list.\<close>

definition demo_answer :: "string \<Rightarrow> llm_call list \<Rightarrow> llm_response" where
  "demo_answer text calls = \<lparr>lr_content = text, lr_model = ''m'', lr_prompt = 2, lr_completion = 1, lr_calls = calls,
     lr_finish = ''stop'', lr_usage = True\<rparr>"

definition demo_call :: "string \<Rightarrow> string \<Rightarrow> string \<Rightarrow> llm_call" where
  "demo_call i tool path = \<lparr>lc_id = i, lc_name = tool, lc_args = path\<rparr>"

definition demo_config :: loop_config where
  "demo_config = \<lparr>lf_iterations = 2, lf_calls = 1, lf_errors = 3, lf_confirm = True, lf_doom = 0, lf_evaluation = False, lf_window = 1000\<rparr>"

definition loop_budget :: budget where
  "loop_budget = \<lparr>bg_id = [], bg_task = [], bg_agent = [], bg_state = BS_Active, bg_created_at = 0, bg_expires_at = None,
     bg_approved_by = [], bg_in_scope = [], bg_out_of_scope = [], bg_files = \<lparr>fs_read = [''*''], fs_write = [], fs_deny = []\<rparr>,
     bg_allowed_commands = [], bg_denied_commands = [], bg_require_approval = [],
     bg_network = \<lparr>nt_enabled = False, nt_allowed = [], nt_denied = [], nt_max_requests = 0\<rparr>,
     bg_limits = \<lparr>li_iterations = 9, li_minutes = 9, li_files = 9, li_lines = 9, li_tool_calls = 9\<rparr>,
     bg_stop_conditions = [], bg_triggers = [], bg_target = []\<rparr>"

definition demo_env :: "llm_response list \<Rightarrow> nat loop_env" where
  "demo_env answers = \<lparr>le_config = demo_config, le_model = ''m'',
     le_complete = \<lambda>ms w. (if w < length answers then Inr (answers ! w) else Inl (LlmFailed []), Suc w),
     le_stream = \<lambda>ms w. (NoStream, w), le_text_calls = None, le_json = \<lambda>t. Some (ArgObject [(''path'', t)]), le_canon = \<lambda>t. t,
     le_ledger = \<lambda>t. None, le_govern = None, le_audit = \<lambda>t a r w. w,
     le_budget = Some (\<lambda>_ _. Some True, loop_budget), le_stamp = \<lambda>w. (''e'', 1), le_now = \<lambda>w. 0,
     le_pre = [], le_post = [], le_execute = \<lambda>t a w. (Inr (tool_ok ''k''), w), le_leaks = \<lambda>t. False, le_redact = \<lambda>t. t,
     le_manage = None, le_compress = \<lambda>ms w. (NotNeeded, w)\<rparr>"

definition demo_task :: "chat_message list" where
  "demo_task = [plain R_System ''w'', plain R_User ''g'']"

definition demo_answers :: "llm_response list" where
  "demo_answers = [demo_answer ''r'' [demo_call ''1'' ''file_read'' ''a'', demo_call ''2'' ''file_read'' ''b''], demo_answer ''d'' []]"

definition demo_end :: "nat loop_state" where
  "demo_end = snd (run (demo_env demo_answers) (new_loop (demo_env demo_answers) demo_task (new_enforcer 0) 0))"

lemma demo_fields [simp]:
  "le_config (demo_env as) = demo_config" "le_manage (demo_env as) = None" "le_compress (demo_env as) = (\<lambda>ms w. (NotNeeded, w))"
  "le_pre (demo_env as) = []" "le_budget (demo_env as) = Some (\<lambda>_ _. Some True, loop_budget)"
  "lf_evaluation demo_config = False" "lf_calls demo_config = 1" "lf_iterations demo_config = 2" "lf_confirm demo_config = True"
  by (simp_all add: demo_env_def demo_config_def)

definition demo_question :: "chat_message list" where
  "demo_question = demo_task @ [(plain R_Assistant ''r'')\<lparr>cm_calls := [demo_call ''1'' ''file_read'' ''a'']\<rparr>,
     tool_message (demo_env demo_answers) (demo_call ''1'' ''file_read'' ''a'') (tool_ok ''k'')]"

lemma demo_deeds:
  "LG_Asked demo_question \<in> set (ls_log demo_end)"
  "length (filter (\<lambda>e. case e of LG_Asked _ \<Rightarrow> True | _ \<Rightarrow> False) (ls_log demo_end)) = 2"
  "LG_Ran ''file_read'' (ArgObject [(''path'', ''a'')]) \<in> set (ls_log demo_end)"
proof -
  have "let l = ls_log demo_end in LG_Asked demo_question \<in> set l \<and> length (filter (\<lambda>e. case e of LG_Asked _ \<Rightarrow> True | _ \<Rightarrow> False) l) = 2 \<and>
      LG_Ran ''file_read'' (ArgObject [(''path'', ''a'')]) \<in> set l" by code_simp
  then show "LG_Asked demo_question \<in> set (ls_log demo_end)"
    "length (filter (\<lambda>e. case e of LG_Asked _ \<Rightarrow> True | _ \<Rightarrow> False) (ls_log demo_end)) = 2"
    "LG_Ran ''file_read'' (ArgObject [(''path'', ''a'')]) \<in> set (ls_log demo_end)" by (simp_all add: Let_def)
qed

section \<open>The conversation\<close>

text \<open>Every tool call is answered by exactly one tool message, in order and before anything else; \<open>ids\<close> are still open.\<close>

fun paired :: "string list \<Rightarrow> chat_message list \<Rightarrow> bool" where
  "paired ids [] = (ids = [])"
| "paired ids (m # ms) =
     (if cm_role m = R_Tool then ids \<noteq> [] \<and> hd ids = cm_call_id m \<and> paired (tl ids) ms
      else ids = [] \<and> paired (List.map lc_id (cm_calls m)) ms)"

lemma paired_append: "paired ids xs \<Longrightarrow> paired ids (xs @ ys) = paired [] ys"
  by (induction ids xs rule: paired.induct) (auto split: if_splits)

lemma paired_results: "paired (List.map lc_id (take (length rs) cs)) (List.map (\<lambda>(c, r). tool_message env c r) (zip (take (length rs) cs) rs))"
proof (induction cs arbitrary: rs)
  case (Cons c cs)
  then show ?case by (cases rs) (auto simp: tool_message_def)
qed simp

lemma paired_handoff: "paired [] (wipe_context l ms)"
  by (simp add: wipe_context_def execute_handoff_def plain_def)

definition keeps_pairs :: "'w loop_env \<Rightarrow> bool" where
  "keeps_pairs env \<longleftrightarrow> \<not> lf_evaluation (le_config env) \<and>
     (\<forall>f ms w. le_manage env = Some f \<longrightarrow> paired [] ms \<longrightarrow> paired [] (fst (f ms w))) \<and>
     (\<forall>ms w ns. paired [] ms \<longrightarrow> fst (le_compress env ms w) = Compressed ns \<longrightarrow> paired [] ns)"

definition talks_well :: "'w loop_state \<Rightarrow> bool" where
  "talks_well s \<longleftrightarrow> paired [] (ls_messages s) \<and> (\<forall>q. LG_Asked q \<in> set (ls_log s) \<longrightarrow> paired [] q)"

lemma keeps_with_world: "(\<And>s w. P s \<Longrightarrow> P (s\<lparr>ls_world := w\<rparr>)) \<Longrightarrow> keeps P (with_world f)"
  by (simp add: keeps_def with_world_def split: prod.split)

lemma keeps_enforced: "(\<And>s e. P s \<Longrightarrow> P (s\<lparr>ls_enforcer := e\<rparr>)) \<Longrightarrow> keeps P (enforced m)"
  by (simp add: keeps_def enforced_def split: prod.split sum.split)

lemma keeps_get_bind: "(\<And>s. P s \<Longrightarrow> P (snd (f s s))) \<Longrightarrow> keeps P (sv_bind sv_get f)"
  by (simp add: keeps_def sv_bind_def sv_get_def)

lemma keeps_if_value: "(b \<Longrightarrow> keeps P m) \<Longrightarrow> (\<not> b \<Longrightarrow> keeps P n) \<Longrightarrow> keeps P (if b then m else n)"
  by simp

text \<open>A predicate that looks neither at the counters nor at the world, and that accepts what the calls log\<close>

definition indifferent :: "('w loop_state \<Rightarrow> bool) \<Rightarrow> bool" where
  "indifferent P \<longleftrightarrow> (\<forall>s w. P s \<longrightarrow> P (s\<lparr>ls_world := w\<rparr>)) \<and> (\<forall>s e. P s \<longrightarrow> P (s\<lparr>ls_enforcer := e\<rparr>)) \<and>
     (\<forall>s. P s \<longrightarrow> P (s\<lparr>ls_errors := ls_errors s + 1\<rparr>)) \<and> (\<forall>s u. P s \<longrightarrow> P (s\<lparr>ls_calls := Suc (ls_calls s), ls_used := u\<rparr>)) \<and>
     (\<forall>s x. P s \<longrightarrow> P (s\<lparr>ls_events := x\<rparr>)) \<and> (\<forall>s ty. P s \<longrightarrow> P (s\<lparr>ls_log := ls_log s @ [LG_Observed ty]\<rparr>)) \<and>
     (\<forall>s h. P s \<longrightarrow> P (s\<lparr>ls_history := h\<rparr>))"

lemma keeps_small:
  assumes "indifferent P"
  shows "keeps P (with_world f)" "keeps P (enforced m)" "keeps P count_error" "keeps P (note_call t)" "keeps P (emit e)"
    "keeps P (observe ty)" "keeps P (sv_modify (\<lambda>s. s\<lparr>ls_history := h s\<rparr>))"
  using assms unfolding indifferent_def count_error_def note_call_def emit_def observe_def log_it_def
  by (auto intro!: keeps_with_world keeps_enforced keeps_modify)

lemma keeps_doom: "indifferent P \<Longrightarrow> keeps P (check_doom_loop env calls)"
  unfolding check_doom_loop_def Let_def by (intro keeps_intro keeps_cases keeps_small(7))

lemma keeps_guards:
  assumes "indifferent P"
  shows "keeps P (govern_call env t a)" "keeps P (enforce_call env t a)" "keeps P (pre_hooks env t a)"
    "keeps P (post_hooks env t a r)" "keeps P (check_limits env)"
proof -
  show "keeps P (govern_call env t a)" unfolding govern_call_def
    by (intro keeps_intro keeps_cases keeps_small [OF assms])
  show "keeps P (enforce_call env t a)" unfolding enforce_call_def
    by (intro keeps_intro keeps_cases keeps_small [OF assms]) (simp split: call_args.split add: keeps_intro keeps_small [OF assms])
  show "keeps P (pre_hooks env t a)" "keeps P (post_hooks env t a r)" unfolding pre_hooks_def post_hooks_def
    by (rule keeps_small [OF assms])+
  show "keeps P (check_limits env)" unfolding check_limits_def
    by (intro keeps_intro keeps_cases keeps_small [OF assms])
qed

lemma keeps_run_tool:
  assumes "indifferent P" and "keeps P (log_it (LG_Ran t a))"
  shows "keeps P (run_tool env t a)"
  unfolding run_tool_def by (intro keeps_intro keeps_cases keeps_small [OF assms(1)] keeps_guards [OF assms(1)] assms(2))

lemma keeps_execute:
  assumes "indifferent P" and "\<And>t a. keeps P (log_it (LG_Ran t a))"
  shows "keeps P (execute_each env cs)"
proof (induction cs)
  case (Cons c cs)
  have "keeps P (execute_call env c)" unfolding execute_call_def hooked_call_def Let_def
    by (intro keeps_intro keeps_cases keeps_small [OF assms(1)] keeps_guards [OF assms(1)] keeps_run_tool assms)
  with Cons show ?case by (auto intro!: keeps_intro)
qed (simp add: keeps_return)

lemma keeps_handoffs:
  assumes "indifferent P" and "\<And>l. keeps P (set_messages (wipe_context l))"
  shows "keeps P (handoffs b env xs)"
proof (induction xs)
  case (Cons x xs)
  obtain c r where "x = (c, r)" by (cases x)
  with Cons show ?case
    by (auto intro!: keeps_intro keeps_cases keeps_small [OF assms(1)] assms(2))
qed (simp add: keeps_return)

lemma keeps_stop: "keeps P (stop_loop env reason)" "keeps P (complete_loop env raw final)"
  unfolding stop_loop_def complete_loop_def by (intro keeps_intro)+

lemma talks_indifferent: "indifferent talks_well"
  by (auto simp: indifferent_def talks_well_def)

lemma talks_messages: "(\<And>ms. paired [] ms \<Longrightarrow> paired [] (f ms)) \<Longrightarrow> keeps talks_well (set_messages f)"
  unfolding set_messages_def by (rule keeps_modify) (simp add: talks_well_def)

lemma talks_flag: "keeps talks_well (sv_modify (\<lambda>s. s\<lparr>ls_pending := b\<rparr>))"
    "keeps talks_well (sv_modify (\<lambda>s. s\<lparr>ls_errors := 0, ls_pending := False\<rparr>))"
    "keeps talks_well (sv_modify (\<lambda>s. s\<lparr>ls_iteration := Suc (ls_iteration s)\<rparr>))"
    "keeps talks_well (sv_modify (\<lambda>s. (track_usage r s)\<lparr>ls_raw := x, ls_model := y\<rparr>))"
  by (auto intro!: keeps_modify simp: talks_well_def track_usage_def)

lemma talks_log: "keeps talks_well (log_it (LG_Ran t a))" "keeps talks_well (log_it (LG_Answer r))"
  unfolding log_it_def by (auto intro!: keeps_modify simp: talks_well_def)

lemma talks_asked: "talks_well s \<Longrightarrow> talks_well (snd (log_it (LG_Asked (ls_messages s)) s))"
  by (auto simp: log_it_def sv_modify_def talks_well_def)

lemma talks_append: "keeps talks_well (append_results env content cs rs)"
  unfolding append_results_def Let_def by (rule talks_messages) (simp add: paired_append paired_results plain_def)

lemma talks_ask: "keeps talks_well (ask_confirmation content)" "keeps talks_well (resume_work content)"
  unfolding ask_confirmation_def resume_work_def
  by (auto intro!: keeps_bind talks_flag talks_messages simp: paired_append plain_def)

lemma talks_handoffs: "keeps talks_well (handoffs b env xs)"
  by (rule keeps_handoffs [OF talks_indifferent]) (auto intro: talks_messages paired_handoff)

lemma talks_manage:
  assumes "keeps_pairs env" shows "keeps talks_well (manage_context env)"
proof (cases "le_manage env")
  case (Some f)
  then have "paired [] ms \<Longrightarrow> f ms w = (ns, w') \<Longrightarrow> paired [] ns" for ms w ns w' using assms unfolding keeps_pairs_def by (metis fst_conv)
  with Some show ?thesis
    by (auto intro!: keeps_get_bind simp: manage_context_def sv_bind_def with_world_def set_messages_def sv_modify_def talks_well_def split: prod.split)
qed (simp add: manage_context_def keeps_return)

lemma talks_compress: "keeps_pairs env \<Longrightarrow> keeps talks_well (compress_context env)"
  unfolding compress_context_def
  by (rule keeps_get_bind)
     (auto simp: sv_bind_def with_world_def set_messages_def sv_modify_def sv_return_def talks_well_def keeps_pairs_def
       split: prod.split compression.split; metis fst_conv)

lemma talks_prepare: "keeps_pairs env \<Longrightarrow> keeps talks_well (prepare_context env)"
  by (simp add: prepare_context_def keeps_pairs_def keeps_return)

lemmas talks_intros = keeps_intro keeps_cases keeps_stop keeps_small [OF talks_indifferent] keeps_guards [OF talks_indifferent]
  keeps_doom [OF talks_indifferent] talks_flag talks_log talks_append talks_ask talks_handoffs talks_manage talks_compress
  keeps_execute [OF talks_indifferent talks_log(1)]

lemma talks_end: "keeps_pairs env \<Longrightarrow> keeps talks_well (end_iteration env)"
  unfolding end_iteration_def by (intro talks_intros)

lemma talks_tools: "keeps_pairs env \<Longrightarrow> keeps talks_well (handle_tools env r cs)"
  unfolding handle_tools_def handle_results_def execute_tool_calls_def by (intro talks_intros talks_end)

lemma keeps_case_bool_option: "keeps P a \<Longrightarrow> keeps P b \<Longrightarrow> keeps P c \<Longrightarrow> keeps P (case v of Some False \<Rightarrow> a | None \<Rightarrow> b | Some True \<Rightarrow> c)"
  by (simp split: option.split bool.split)

lemma talks_text: "keeps_pairs env \<Longrightarrow> keeps talks_well (handle_text env r)"
  unfolding handle_text_def Let_def by (intro talks_intros talks_end keeps_case_bool_option; simp split: bool.split add: talks_intros)

lemma talks_asking:
  "keeps talks_well (ask_model env)"
  unfolding ask_model_def
  by (rule keeps_get_bind) (auto simp: sv_bind_def log_it_def with_world_def sv_modify_def talks_well_def split: prod.split)

lemma talks_response: "keeps_pairs env \<Longrightarrow> keeps talks_well (handle_response env r)" "keeps talks_well (llm_failed env)"
  unfolding handle_response_def llm_failed_def Let_def by (intro talks_intros talks_tools talks_text; assumption)+

lemma talks_iteration: "keeps_pairs env \<Longrightarrow> keeps talks_well (loop_iteration env)"
  unfolding loop_iteration_def by (intro talks_intros talks_prepare talks_asking talks_response)

lemma talks_loop: "keeps_pairs env \<Longrightarrow> keeps talks_well (run_loop env n)"
proof (induction n)
  case 0
  show ?case by (simp, intro talks_intros)
next
  case (Suc n)
  then show ?case by (simp, intro talks_intros talks_iteration)
qed

lemma talks_tokens: "keeps talks_well (emit_tokens ks)"
proof (induction ks)
  case (Cons k ks)
  show ?case unfolding emit_tokens.simps by (intro talks_intros Cons)
qed (simp add: keeps_return)

lemma talks_emits: "keeps talks_well (emit_all es)"
proof (induction es)
  case (Cons e es)
  show ?case unfolding emit_all.simps by (intro talks_intros Cons)
qed (simp add: keeps_return)

lemma talks_whole: "keeps talks_well (whole_response env ms)"
  unfolding whole_response_def by (rule keeps_small(1) [OF talks_indifferent])

lemma talks_finish: "keeps talks_well (finish_stream env ms ks ending)"
  by (cases ending) (simp_all add: finish_stream_def talks_whole keeps_return Let_def)

lemma talks_stream_response: "keeps talks_well (stream_response env)"
proof -
  have "keeps talks_well (case answer of NoStream \<Rightarrow> whole_response env ms
       | Streamed ks ending \<Rightarrow> sv_bind (emit_tokens ks) (\<lambda>_. finish_stream env ms ks ending))" for ms answer and env :: "'a loop_env"
    by (cases answer) (simp_all add: talks_whole keeps_bind talks_tokens talks_finish)
  then show ?thesis unfolding stream_response_def Let_def
    by (intro keeps_bind keeps_get keeps_small(1) [OF talks_indifferent])
qed

lemma talks_stream_end: "keeps_pairs env \<Longrightarrow> keeps talks_well (stream_end_iteration env)"
  unfolding stream_end_iteration_def
  by (intro talks_intros; simp split: compression.split add: talks_intros)

lemma talks_stream_tools: "keeps_pairs env \<Longrightarrow> keeps talks_well (stream_tools env r cs)"
  unfolding stream_tools_def stream_calls_def stream_results_def execute_tool_calls_def by (intro talks_intros talks_emits talks_stream_end)

lemma talks_stream_text: "keeps talks_well (stream_text env r)"
  unfolding stream_text_def Let_def by (intro talks_intros; simp split: option.split bool.split add: talks_intros)

lemma talks_stream_failed: "keeps talks_well (stream_failed env e)"
  unfolding stream_failed_def by (cases e; simp; intro talks_intros)

lemma talks_stream_ask: "keeps talks_well (stream_ask env)"
proof -
  have "talks_well s \<Longrightarrow> talks_well (snd (sv_bind (log_it (LG_Asked (ls_messages s))) (\<lambda>_. stream_response env) s))" for s :: "'a loop_state"
    using keepsD [OF talks_stream_response] talks_asked [of s] by (auto simp: sv_bind_def log_it_def sv_modify_def)
  then show ?thesis unfolding stream_ask_def by (rule keeps_get_bind)
qed

lemma talks_stream_iteration: "keeps_pairs env \<Longrightarrow> keeps talks_well (stream_iteration env)"
  unfolding stream_iteration_def stream_handle_def Let_def
  by (intro talks_intros talks_prepare talks_stream_ask talks_stream_failed talks_stream_tools talks_stream_text)

lemma talks_stream_loop: "keeps_pairs env \<Longrightarrow> keeps talks_well (stream_loop env n)"
proof (induction n)
  case (Suc n)
  then show ?case by (simp, intro talks_intros talks_stream_iteration)
qed (simp add: keeps_return)



section \<open>What is asked and what runs\<close>

definition weighty :: "logged \<Rightarrow> bool" where
  "weighty e = (case e of LG_Asked _ \<Rightarrow> True | LG_Ran _ _ \<Rightarrow> True | _ \<Rightarrow> False)"

definition deeds :: "'w loop_state \<Rightarrow> logged list" where
  "deeds s = filter weighty (ls_log s)"

definition at_deeds :: "logged list \<Rightarrow> 'w loop_state \<Rightarrow> bool" where
  "at_deeds es s \<longleftrightarrow> deeds s = es"

lemma deeds_indifferent: "indifferent (at_deeds es)"
  by (simp add: indifferent_def at_deeds_def deeds_def weighty_def)

lemma deeds_plain: "keeps (at_deeds es) (set_messages f)" "keeps (at_deeds es) (sv_modify (\<lambda>s. s\<lparr>ls_pending := b\<rparr>))"
    "keeps (at_deeds es) (sv_modify (\<lambda>s. s\<lparr>ls_errors := 0, ls_pending := False\<rparr>))"
    "keeps (at_deeds es) (sv_modify (\<lambda>s. s\<lparr>ls_iteration := Suc (ls_iteration s)\<rparr>))"
    "keeps (at_deeds es) (sv_modify (\<lambda>s. (track_usage r s)\<lparr>ls_raw := x, ls_model := y\<rparr>))"
    "keeps (at_deeds es) (log_it (LG_Answer r))"
  unfolding set_messages_def log_it_def
  by (auto intro!: keeps_modify simp: at_deeds_def deeds_def weighty_def track_usage_def)

lemmas deeds_basic = keeps_intro keeps_cases keeps_stop keeps_small [OF deeds_indifferent] keeps_guards [OF deeds_indifferent]
  keeps_doom [OF deeds_indifferent] deeds_plain keeps_handoffs [OF deeds_indifferent deeds_plain(1)]

lemma deeds_messages:
  "keeps (at_deeds es) (append_results env content cs rs)" "keeps (at_deeds es) (ask_confirmation content)"
  "keeps (at_deeds es) (resume_work content)" "keeps (at_deeds es) (manage_context env)"
  "keeps (at_deeds es) (prepare_context env)"
  unfolding append_results_def ask_confirmation_def resume_work_def manage_context_def prepare_context_def Let_def
  by (intro deeds_basic)+

lemma deeds_compress: "keeps (at_deeds es) (compress_context env)"
  unfolding compress_context_def by (intro deeds_basic) (simp split: compression.split add: deeds_plain keeps_return)

lemma deeds_end: "keeps (at_deeds es) (end_iteration env)"
  unfolding end_iteration_def by (intro deeds_basic deeds_messages deeds_compress)

lemma deeds_text: "keeps (at_deeds es) (handle_text env r)"
  unfolding handle_text_def Let_def
  by (intro deeds_basic deeds_messages deeds_end; simp split: bool.split add: deeds_messages keeps_stop keeps_bind keeps_return)

lemma deeds_failed: "keeps (at_deeds es) (llm_failed env)" "keeps (at_deeds es) (stream_failed env e)"
  unfolding llm_failed_def stream_failed_def by (intro deeds_basic) (cases e; simp; intro deeds_basic)

lemma deeds_tokens: "keeps (at_deeds es) (emit_tokens ks)"
proof (induction ks)
  case (Cons k ks)
  show ?case unfolding emit_tokens.simps by (intro deeds_basic Cons)
qed (simp add: keeps_return)

lemma deeds_emits: "keeps (at_deeds es) (emit_all xs)"
proof (induction xs)
  case (Cons e xs)
  show ?case unfolding emit_all.simps by (intro deeds_basic Cons)
qed (simp add: keeps_return)

lemma deeds_whole: "keeps (at_deeds es) (whole_response env ms)"
  unfolding whole_response_def by (rule keeps_small(1) [OF deeds_indifferent])

lemma deeds_stream_response: "keeps (at_deeds es) (stream_response env)"
proof -
  have "keeps (at_deeds es) (finish_stream env ms ks ending)" for ms ks ending and env :: "'a loop_env"
    by (cases ending) (simp_all add: finish_stream_def deeds_whole keeps_return Let_def)
  then have "keeps (at_deeds es) (case answer of NoStream \<Rightarrow> whole_response env ms
       | Streamed ks ending \<Rightarrow> sv_bind (emit_tokens ks) (\<lambda>_. finish_stream env ms ks ending))" for ms answer and env :: "'a loop_env"
    by (cases answer) (simp_all add: deeds_whole keeps_bind deeds_tokens)
  then show ?thesis unfolding stream_response_def Let_def
    by (intro keeps_bind keeps_get keeps_small(1) [OF deeds_indifferent])
qed

lemma deeds_stream_end: "keeps (at_deeds es) (stream_end_iteration env)"
  unfolding stream_end_iteration_def
  by (intro deeds_basic deeds_messages deeds_compress; simp split: compression.split add: deeds_basic)

lemma deeds_stream_text: "keeps (at_deeds es) (stream_text env r)"
  unfolding stream_text_def Let_def
  by (intro deeds_basic deeds_messages; simp split: option.split bool.split add: deeds_basic deeds_messages)

definition grows :: "(logged list \<Rightarrow> bool) \<Rightarrow> ('w, 'a) loop_svc \<Rightarrow> bool" where
  "grows P m \<longleftrightarrow> (\<forall>s. \<exists>es. deeds (snd (m s)) = deeds s @ es \<and> P es)"

lemma grows_silent: "(\<And>es. keeps (at_deeds es) m) \<Longrightarrow> P [] \<Longrightarrow> grows P m"
  unfolding grows_def keeps_def at_deeds_def by (metis append_Nil2)

lemma grows_mono: "grows P m \<Longrightarrow> (\<And>es. P es \<Longrightarrow> Q es) \<Longrightarrow> grows Q m"
  unfolding grows_def by blast

lemma grows_bind:
  assumes "grows P m" and "\<And>x. grows Q (f x)" and "\<And>es. P es \<Longrightarrow> R es" and "\<And>es fs. P es \<Longrightarrow> Q fs \<Longrightarrow> R (es @ fs)"
  shows "grows R (sv_bind m f)"
  unfolding grows_def
proof
  fix s
  obtain r t where m: "m s = (r, t)" by (cases "m s")
  with assms(1) obtain es where es: "deeds t = deeds s @ es" "P es" unfolding grows_def by (metis snd_conv)
  show "\<exists>es. deeds (snd (sv_bind m f s)) = deeds s @ es \<and> R es"
  proof (cases r)
    case (Inl e)
    with m es assms(3) show ?thesis by (auto simp: sv_bind_def)
  next
    case (Inr x)
    from assms(2) [of x] obtain fs where "deeds (snd (f x t)) = deeds t @ fs" "Q fs" unfolding grows_def by blast
    with m Inr es assms(4) show ?thesis by (auto simp: sv_bind_def)
  qed
qed

lemma grows_then: "(\<And>es. keeps (at_deeds es) m) \<Longrightarrow> (\<And>x. grows P (f x)) \<Longrightarrow> P [] \<Longrightarrow> grows P (sv_bind m f)"
  by (rule grows_bind [OF grows_silent [where P = "\<lambda>es. es = []"]]) auto

lemma grows_first: "grows P m \<Longrightarrow> (\<And>x es. keeps (at_deeds es) (f x)) \<Longrightarrow> grows P (sv_bind m f)"
  by (rule grows_bind [OF _ grows_silent [where P = "\<lambda>es. es = []"]]) auto

text \<open>A run of calls: at most \<open>n\<close>, all of them allowed\<close>

definition runs :: "(string \<Rightarrow> call_args \<Rightarrow> bool) \<Rightarrow> nat \<Rightarrow> logged list \<Rightarrow> bool" where
  "runs ok n es \<longleftrightarrow> length es \<le> n \<and> (\<forall>e \<in> set es. \<exists>t a. e = LG_Ran t a \<and> ok t a)"

text \<open>What the enforcer lets through is in the scope of the budget, unless a hook changes the arguments afterwards.\<close>

definition cleared :: "'w loop_env \<Rightarrow> string \<Rightarrow> call_args \<Rightarrow> bool" where
  "cleared env t a \<longleftrightarrow> (\<forall>rematch b d. le_pre env = [] \<longrightarrow> le_budget env = Some (rematch, b) \<longrightarrow> a = ArgObject d \<longrightarrow>
     in_scope rematch b (touches t d))"

lemma enforce_clears:
  assumes "enforce_call env t a s = (Inr res, s')" and "res \<noteq> EN_Blocked"
  shows "cleared env t a"
  unfolding cleared_def
proof (intro allI impI)
  fix rematch b d assume b: "le_budget env = Some (rematch, b)" "a = ArgObject d"
  let ?e = "enforce_tool_call rematch b (le_stamp env (ls_world s)) t d (ls_enforcer s)"
  from assms b have "fst ?e = Inr res"
    by (auto simp: enforce_call_def sv_bind_def sv_get_def enforced_def split: prod.splits sum.splits)
  with assms(2) have "tool_proceeds rematch b (le_stamp env (ls_world s)) t d (ls_enforcer s)" by (simp add: tool_proceeds_def)
  then show "in_scope rematch b (touches t d)" by (rule proceeding_scope)
qed

lemma pre_hooks_none: "le_pre env = [] \<Longrightarrow> pre_hooks env t a s = (Inr (Inr a), s)"
  by (simp add: pre_hooks_def with_world_def run_chain_def ordered_hooks_def event_ctx_def)

lemma run_tool_grows: "ok t a \<Longrightarrow> grows (runs ok (Suc 0)) (run_tool env t a)"
proof -
  assume ok: "ok t a"
  have log: "grows (runs ok (Suc 0)) (log_it (LG_Ran t a))"
    using ok by (auto simp: grows_def log_it_def sv_modify_def deeds_def weighty_def runs_def)
  show ?thesis unfolding run_tool_def by (rule grows_first [OF log]) (intro deeds_basic)
qed

lemma silent_deeds: "(\<And>es. keeps (at_deeds es) m) \<Longrightarrow> m s = (r, t) \<Longrightarrow> deeds t = deeds s"
  unfolding keeps_def at_deeds_def by (metis snd_conv)

lemma hooked_call_grows:
  assumes "cleared env t a" shows "grows (runs (cleared env) (Suc 0)) (hooked_call env t a)"
proof (cases "le_pre env = []")
  case True
  then show ?thesis using run_tool_grows [where ok = "cleared env", OF assms, of env]
    by (simp add: hooked_call_def grows_def sv_bind_def pre_hooks_none)
next
  case False
  then have "cleared env t a'" for a' by (simp add: cleared_def)
  then have "grows (runs (cleared env) (Suc 0)) (case h of Inl reason \<Rightarrow> sv_return (tool_fail (''Hook aborted: '' @ reason))
      | Inr a' \<Rightarrow> run_tool env t a')" for h :: "string + call_args"
    by (cases h) (auto intro: run_tool_grows grows_silent keeps_return simp: runs_def)
  then show ?thesis unfolding hooked_call_def
    by (rule grows_then [OF keeps_guards(3) [OF deeds_indifferent]]) (simp add: runs_def)
qed

lemma checked_call_grows:
  "grows (runs (cleared env) (Suc 0)) (sv_bind (enforce_call env t a) (\<lambda>res.
     if res = EN_Blocked then sv_return (x, True) else sv_bind (hooked_call env t a) (\<lambda>r. sv_return (r, False))))"
  unfolding grows_def
proof
  fix s
  obtain r u where e: "enforce_call env t a s = (r, u)" by (cases "enforce_call env t a s")
  have d: "deeds u = deeds s" using keeps_guards(2) [OF deeds_indifferent] e by (rule silent_deeds)
  have call: "\<exists>es. deeds (snd (sv_bind (hooked_call env t a) (\<lambda>r. sv_return (r, False)) u)) = deeds u @ es \<and> runs (cleared env) (Suc 0) es"
    if "r = Inr res" "res \<noteq> EN_Blocked" for res
  proof -
    have "cleared env t a" using e that by (auto intro: enforce_clears)
    then have "grows (runs (cleared env) (Suc 0)) (sv_bind (hooked_call env t a) (\<lambda>r. sv_return (r, False)))"
      by (intro grows_first hooked_call_grows keeps_return)
    then show ?thesis by (simp add: grows_def)
  qed
  show "\<exists>es. deeds (snd (sv_bind (enforce_call env t a) (\<lambda>res. if res = EN_Blocked then sv_return (x, True)
      else sv_bind (hooked_call env t a) (\<lambda>r. sv_return (r, False))) s)) = deeds s @ es \<and> runs (cleared env) (Suc 0) es"
    using call d by (simp add: sv_bind_def [of "enforce_call env t a"] e sv_return_def [of "(x, True)"] runs_def split: sum.split)
qed

lemma execute_call_grows: "grows (runs (cleared env) (Suc 0)) (execute_call env c)"
proof (cases "le_json env (lc_args c)")
  case None
  have "keeps (at_deeds es) (execute_call env c)" for es
    unfolding execute_call_def Let_def None option.case by (intro deeds_basic)
  then show ?thesis by (rule grows_silent) (simp add: runs_def)
next
  case (Some a)
  have refused: "grows (runs (cleared env) (Suc 0)) (sv_bind (observe ty) (\<lambda>_. sv_return x))" for ty and x :: "tool_result \<times> bool"
    by (rule grows_silent) (auto intro!: deeds_basic simp: runs_def)
  show ?thesis unfolding execute_call_def Let_def Some option.case
    by (rule grows_then [OF keeps_guards(1) [OF deeds_indifferent]]) (auto simp: refused checked_call_grows runs_def)
qed

lemma execute_each_grows: "grows (runs (cleared env) (length cs)) (execute_each env cs)"
proof (induction cs)
  case (Cons c cs)
  have "grows (runs (cleared env) (length cs)) (case p of (r, stop) \<Rightarrow>
      if stop then sv_return [r] else sv_bind (execute_each env cs) (\<lambda>rs. sv_return (r # rs)))" for p :: "tool_result \<times> bool"
  proof -
    have "grows (runs (cleared env) (length cs)) (sv_bind (execute_each env cs) (\<lambda>rs. sv_return (fst p # rs)))"
      by (intro grows_first Cons keeps_return)
    moreover have "grows (runs (cleared env) (length cs)) (sv_return [fst p] :: ('a, tool_result list) loop_svc)" by (rule grows_silent) (simp_all add: keeps_return runs_def)
    ultimately show ?thesis by (simp add: split_beta)
  qed
  then show ?case unfolding execute_each.simps
    by (rule grows_bind [OF execute_call_grows]) (auto simp: runs_def)
qed (auto intro: grows_silent keeps_return simp: runs_def)

text \<open>At most \<open>n\<close> questions to the model, at most \<open>n * k\<close> tools, all of them allowed\<close>

definition asked :: "logged list \<Rightarrow> nat" where
  "asked es = length (filter (\<lambda>e. case e of LG_Asked _ \<Rightarrow> True | _ \<Rightarrow> False) es)"

definition ran :: "logged list \<Rightarrow> nat" where
  "ran es = length (filter (\<lambda>e. case e of LG_Ran _ _ \<Rightarrow> True | _ \<Rightarrow> False) es)"

definition session :: "(string \<Rightarrow> call_args \<Rightarrow> bool) \<Rightarrow> nat \<Rightarrow> nat \<Rightarrow> logged list \<Rightarrow> bool" where
  "session ok n k es \<longleftrightarrow> asked es \<le> n \<and> ran es \<le> k \<and> (\<forall>t a. LG_Ran t a \<in> set es \<longrightarrow> ok t a)"

lemma session_runs: "runs ok k es \<Longrightarrow> session ok 0 k es"
proof -
  assume runs: "runs ok k es"
  then have "ran es \<le> k" using length_filter_le order_trans unfolding runs_def ran_def by blast
  moreover have "asked es = 0" using runs by (auto simp: runs_def asked_def filter_empty_conv split: logged.split)
  ultimately show ?thesis using runs by (auto simp: session_def runs_def)
qed

lemma session_append: "session ok n k es \<Longrightarrow> session ok m l fs \<Longrightarrow> session ok (n + m) (k + l) (es @ fs)"
  by (auto simp: session_def asked_def ran_def)

lemma session_mono: "session ok n k es \<Longrightarrow> n \<le> m \<Longrightarrow> k \<le> l \<Longrightarrow> session ok m l es"
  by (auto simp: session_def)

lemma session_nil [simp]: "session ok n k []"
  by (simp add: session_def asked_def ran_def)

definition most_calls :: "'w loop_env \<Rightarrow> nat" where
  "most_calls env = nat (lf_calls (le_config env))"

lemma execute_grows:
  assumes "0 \<le> lf_calls (le_config env)"
  shows "grows (session (cleared env) 0 (most_calls env)) (execute_tool_calls env cs)"
proof -
  have "length (py_take (lf_calls (le_config env)) cs) \<le> most_calls env"
    using length_py_take [OF assms, of cs] by (simp add: most_calls_def)
  then have "runs (cleared env) (length (py_take (lf_calls (le_config env)) cs)) es \<Longrightarrow> session (cleared env) 0 (most_calls env) es" for es
    by (meson order_refl session_mono session_runs)
  then show ?thesis unfolding execute_tool_calls_def by (rule grows_mono [OF execute_each_grows])
qed

lemma grows_quiet: "(\<And>es. keeps (at_deeds es) m) \<Longrightarrow> grows (session ok n k) m"
  by (rule grows_silent) simp_all

lemma grows_attempt: "grows P m \<Longrightarrow> grows P (sv_attempt m)"
  by (simp add: grows_def sv_attempt_def split_beta)

lemma tools_grow:
  assumes "0 \<le> lf_calls (le_config env)"
  shows "grows (session (cleared env) 0 (most_calls env)) (handle_tools env r cs)"
proof -
  have "keeps (at_deeds es) (handle_results env r cs rs)" for es rs
    unfolding handle_results_def by (intro deeds_basic deeds_messages deeds_end)
  note run = grows_first [OF execute_grows [OF assms] this]
  have "grows (session (cleared env) 0 (most_calls env)) (if doomed then stop_loop env TR_Loop
     else sv_bind (execute_tool_calls env cs) (handle_results env r cs))" for doomed
    using run by (simp add: grows_quiet keeps_stop)
  then show ?thesis unfolding handle_tools_def
    by (intro grows_then deeds_plain) (auto intro: deeds_basic)
qed

lemma stream_tools_grow:
  assumes "0 \<le> lf_calls (le_config env)"
  shows "grows (session (cleared env) 0 (most_calls env)) (stream_tools env r cs)"
proof -
  have "keeps (at_deeds es) (stream_results env r cs outcome)" for es outcome
    unfolding stream_results_def by (intro deeds_basic deeds_messages deeds_emits deeds_stream_end)
  note run = grows_first [OF grows_attempt [OF execute_grows [OF assms]] this]
  have "grows (session (cleared env) 0 (most_calls env)) (stream_calls env r cs)"
    unfolding stream_calls_def by (intro grows_then deeds_emits run) simp
  moreover have "grows (session (cleared env) 0 (most_calls env)) (sv_bind (emit SE_LoopDetected) (\<lambda>_. sv_return (Some (TR_Loop, None))) :: ('a, stop option) loop_svc)"
    by (rule grows_quiet) (intro deeds_basic)
  ultimately have "grows (session (cleared env) 0 (most_calls env))
     (if doomed then sv_bind (emit SE_LoopDetected) (\<lambda>_. sv_return (Some (TR_Loop, None))) else stream_calls env r cs)" for doomed by simp
  then show ?thesis unfolding stream_tools_def
    by (intro grows_then deeds_plain keeps_small [OF deeds_indifferent]) (auto intro: deeds_basic)
qed

lemma answered_grows:
  assumes "0 \<le> lf_calls (le_config env)"
  shows "grows (session (cleared env) 0 (most_calls env)) (handle_response env r)"
    and "grows (session (cleared env) 0 (most_calls env)) (stream_handle env r)"
proof -
  have "keeps (at_deeds es) (log_it (LG_Answer r))" for es and r :: llm_response
    by (auto intro!: keeps_modify simp: log_it_def at_deeds_def deeds_def weighty_def)
  note quiet = this deeds_plain keeps_small [OF deeds_indifferent]
  show "grows (session (cleared env) 0 (most_calls env)) (handle_response env r)"
    unfolding handle_response_def Let_def
    by (intro grows_then quiet) (auto simp: tools_grow [OF assms] intro: grows_quiet deeds_text)
  show "grows (session (cleared env) 0 (most_calls env)) (stream_handle env r)"
    unfolding stream_handle_def Let_def
    by (intro grows_then quiet) (auto simp: stream_tools_grow [OF assms] intro: grows_quiet deeds_stream_text)
qed

lemma session_asked: "session ok (Suc 0) 0 [LG_Asked q]"
  by (simp add: session_def asked_def ran_def)

lemma asking_grows:
  "grows (session ok (Suc 0) 0) (ask_model env)" "grows (session ok (Suc 0) 0) (stream_ask env)"
proof -
  have log: "grows (session ok (Suc 0) 0) (log_it (LG_Asked q) :: ('a, unit) loop_svc)" for q
    by (auto simp: grows_def log_it_def sv_modify_def deeds_def weighty_def session_asked)
  show "grows (session ok (Suc 0) 0) (ask_model env)" unfolding ask_model_def
    by (intro grows_then keeps_get grows_first [OF log] keeps_small [OF deeds_indifferent]) simp
  show "grows (session ok (Suc 0) 0) (stream_ask env)" unfolding stream_ask_def
    by (intro grows_then keeps_get grows_first [OF log] deeds_stream_response) simp
qed

lemma grows_join:
  assumes "grows (session ok n k) m" and "\<And>x. grows (session ok n' k') (f x)"
  shows "grows (session ok (n + n') (k + k')) (sv_bind m f)"
  by (rule grows_bind [where P = "session ok n k" and Q = "session ok n' k'", OF assms])
     (auto intro: session_append elim: session_mono)

lemma iteration_grows:
  assumes "0 \<le> lf_calls (le_config env)"
  shows "grows (session (cleared env) (Suc 0) (most_calls env)) (loop_iteration env)"
    and "grows (session (cleared env) (Suc 0) (most_calls env)) (stream_iteration env)"
proof -
  have prepare: "keeps (at_deeds es) (prepare_context env)" for es
    unfolding prepare_context_def by (intro deeds_basic deeds_messages)
  have "grows (session (cleared env) 0 (most_calls env)) (case answer of Inl _ \<Rightarrow> llm_failed env | Inr r \<Rightarrow> handle_response env r)" for answer :: "llm_failure + llm_response"
    by (cases answer) (auto simp: answered_grows [OF assms] intro: grows_quiet deeds_failed)
  note run = grows_join [where f = "\<lambda>answer. case answer of Inl _ \<Rightarrow> llm_failed env | Inr r \<Rightarrow> handle_response env r",
    OF asking_grows(1) [of "cleared env" env] this, simplified]
  show "grows (session (cleared env) (Suc 0) (most_calls env)) (loop_iteration env)" unfolding loop_iteration_def
    by (rule grows_then [OF deeds_plain(4) grows_then [OF prepare run]]) simp_all
  have "grows (session (cleared env) 0 (most_calls env)) (case answer of Inl e \<Rightarrow> stream_failed env e | Inr r \<Rightarrow> stream_handle env r)" for answer
    by (cases answer) (auto simp: answered_grows [OF assms] intro: grows_quiet deeds_failed)
  note run = grows_join [where f = "\<lambda>answer. case answer of Inl e \<Rightarrow> stream_failed env e | Inr r \<Rightarrow> stream_handle env r",
    OF asking_grows(2) [of "cleared env" env] this, simplified]
  note emitted = grows_then [OF keeps_small(5) [OF deeds_indifferent]]
  show "grows (session (cleared env) (Suc 0) (most_calls env)) (stream_iteration env)" unfolding stream_iteration_def
    by (rule grows_then [OF deeds_plain(4) grows_then [OF keeps_get emitted [OF grows_then [OF prepare emitted [OF run]]]]]) simp_all
qed

lemma loops_grow:
  assumes "0 \<le> lf_calls (le_config env)"
  shows "grows (session (cleared env) n (n * most_calls env)) (run_loop env n)"
    and "grows (session (cleared env) n (n * most_calls env)) (stream_loop env n)"
proof (induction n)
  case 0
  show "grows (session (cleared env) 0 (0 * most_calls env)) (run_loop env 0)" unfolding run_loop.simps by (rule grows_quiet) (intro deeds_basic)
  show "grows (session (cleared env) 0 (0 * most_calls env)) (stream_loop env 0)" by (simp add: grows_quiet keeps_return)
next
  case (Suc n)
  have "grows (session (cleared env) n (n * most_calls env)) (case r of None \<Rightarrow> run_loop env n | Some result \<Rightarrow> sv_return result)" for r
    by (cases r) (simp_all add: Suc grows_quiet keeps_return)
  from grows_join [where f = "\<lambda>r. case r of None \<Rightarrow> run_loop env n | Some result \<Rightarrow> sv_return result", OF iteration_grows(1) [OF assms] this]
  show "grows (session (cleared env) (Suc n) (Suc n * most_calls env)) (run_loop env (Suc n))" by simp
  have "grows (session (cleared env) n (n * most_calls env)) (case outcome of
       Inl e \<Rightarrow> sv_bind (emit (SE_Error [] ''loop'')) (\<lambda>_. sv_return (TR_Error, None))
     | Inr None \<Rightarrow> stream_loop env n | Inr (Some stop) \<Rightarrow> sv_return stop)" for outcome :: "loop_error + stop option"
    by (cases outcome) (auto split: option.split intro!: grows_quiet deeds_basic simp: Suc)
  from grows_join [where f = "\<lambda>outcome. case outcome of
       Inl e \<Rightarrow> sv_bind (emit (SE_Error [] ''loop'')) (\<lambda>_. sv_return (TR_Error, None))
     | Inr None \<Rightarrow> stream_loop env n | Inr (Some stop) \<Rightarrow> sv_return stop", OF grows_attempt [OF iteration_grows(2) [OF assms]] this]
  show "grows (session (cleared env) (Suc n) (Suc n * most_calls env)) (stream_loop env (Suc n))" by simp
qed

lemma session_grown: "grows (session ok n k) m \<Longrightarrow> deeds s = [] \<Longrightarrow> session ok n k (deeds (snd (m s)))"
  unfolding grows_def by (metis append_Nil)

lemma runs_are_sessions:
  assumes "0 \<le> lf_calls (le_config env)"
  defines "n \<equiv> nat (lf_iterations (le_config env))"
  shows "session (cleared env) n (n * most_calls env) (deeds (snd (run env (new_loop env ms enf w))))"
    and "session (cleared env) n (n * most_calls env) (deeds (snd (run_stream env (new_loop env ms enf w))))"
proof -
  have start: "deeds (new_loop env ms enf w) = []" by (simp add: deeds_def new_loop_def)
  show "session (cleared env) n (n * most_calls env) (deeds (snd (run env (new_loop env ms enf w))))"
    unfolding run_def n_def by (rule session_grown [OF loops_grow(1) [OF assms(1)] start])
  have "keeps (at_deeds es) (case p of (reason, final) \<Rightarrow> sv_bind sv_get (\<lambda>s.
     sv_bind (emit (SE_Completed reason (if ls_usage s then Some (ls_tokens s) else None) (ls_calls s) (ls_used s)
       (parse_output (le_json env) (case final of None \<Rightarrow> ls_raw s | Some t \<Rightarrow> t)))) (\<lambda>_. sv_return reason)))" for es p
    by (cases p) (simp, intro deeds_basic)
  then have "grows (session (cleared env) n (n * most_calls env)) (run_stream env)"
    unfolding run_stream_def n_def
    by (intro grows_then keeps_small [OF deeds_indifferent] grows_first [OF loops_grow(2) [OF assms(1)]]) simp_all
  then show "session (cleared env) n (n * most_calls env) (deeds (snd (run_stream env (new_loop env ms enf w))))"
    using start by (rule session_grown)
qed

lemma deeds_counted:
  "asked (deeds s) = asked (ls_log s)" "ran (deeds s) = ran (ls_log s)" "LG_Ran t a \<in> set (deeds s) \<longleftrightarrow> LG_Ran t a \<in> set (ls_log s)"
proof -
  have "filter (\<lambda>e. weighty e \<and> (case e of LG_Asked _ \<Rightarrow> True | _ \<Rightarrow> False)) es = filter (\<lambda>e. case e of LG_Asked _ \<Rightarrow> True | _ \<Rightarrow> False) es" for es
    by (rule filter_cong) (auto simp: weighty_def split: logged.splits)
  then show "asked (deeds s) = asked (ls_log s)" by (simp add: asked_def deeds_def conj_commute)
  have "filter (\<lambda>e. weighty e \<and> (case e of LG_Ran _ _ \<Rightarrow> True | _ \<Rightarrow> False)) es = filter (\<lambda>e. case e of LG_Ran _ _ \<Rightarrow> True | _ \<Rightarrow> False) es" for es
    by (rule filter_cong) (auto simp: weighty_def split: logged.splits)
  then show "ran (deeds s) = ran (ls_log s)" by (simp add: ran_def deeds_def conj_commute)
qed (auto simp: deeds_def weighty_def)





section \<open>Confirmation\<close>

text \<open>While a confirmation is pending, the conversation ends with the question for it.\<close>

definition prompted :: "'w loop_state \<Rightarrow> bool" where
  "prompted s \<longleftrightarrow> (ls_pending s \<longrightarrow> ls_messages s \<noteq> [] \<and> last (ls_messages s) = plain R_User confirmation_prompt)"

definition leaves_conversation :: "'w loop_env \<Rightarrow> bool" where
  "leaves_conversation env \<longleftrightarrow> \<not> lf_evaluation (le_config env) \<and> le_manage env = None \<and> (\<forall>ms w. \<exists>w'. le_compress env ms w = (NotNeeded, w'))"

definition unconfirmed :: "'w loop_state \<Rightarrow> bool" where
  "unconfirmed s \<longleftrightarrow> \<not> ls_pending s"

lemma prompted_indifferent: "indifferent prompted" "indifferent unconfirmed"
  by (simp_all add: indifferent_def prompted_def unconfirmed_def)

lemma prompted_log: "keeps prompted (log_it e)" "keeps unconfirmed (log_it e)" "keeps unconfirmed (set_messages f)"
  unfolding log_it_def set_messages_def by (auto intro!: keeps_modify simp: prompted_def unconfirmed_def)

lemma unconfirmed_prompted: "unconfirmed s \<Longrightarrow> prompted s"
  by (simp add: unconfirmed_def prompted_def)

lemmas unconfirmed_basic = keeps_intro keeps_cases keeps_stop keeps_small [OF prompted_indifferent(2)] keeps_guards [OF prompted_indifferent(2)]
  keeps_doom [OF prompted_indifferent(2)] prompted_log keeps_handoffs [OF prompted_indifferent(2) prompted_log(3)]

lemma unconfirmed_end: "keeps unconfirmed (end_iteration env)"
proof -
  have "keeps unconfirmed (compress_context env)"
    unfolding compress_context_def by (intro unconfirmed_basic) (simp split: compression.split add: prompted_log keeps_return)
  then show ?thesis unfolding end_iteration_def manage_context_def by (intro unconfirmed_basic)
qed

lemma tools_unconfirmed: "prompted s \<Longrightarrow> prompted (snd (handle_tools env r cs s))"
proof -
  have "keeps unconfirmed (execute_tool_calls env cs)" unfolding execute_tool_calls_def
    by (rule keeps_execute [OF prompted_indifferent(2) prompted_log(2)])
  moreover have "keeps unconfirmed (handle_results env r cs rs)" for rs
    unfolding handle_results_def append_results_def Let_def by (intro unconfirmed_basic unconfirmed_end)
  ultimately have "keeps unconfirmed (sv_bind (if 0 < lf_doom (le_config env) then check_doom_loop env cs else sv_return False) (\<lambda>doomed.
     if doomed then stop_loop env TR_Loop else sv_bind (execute_tool_calls env cs) (handle_results env r cs)))"
    by (intro unconfirmed_basic)
  then have "unconfirmed (snd (handle_tools env r cs s))"
    unfolding handle_tools_def by (subst sv_bind_def) (auto simp: sv_modify_def unconfirmed_def keeps_def)
  then show ?thesis by (rule unconfirmed_prompted)
qed

lemma prompted_end:
  assumes "leaves_conversation env" shows "keeps prompted (end_iteration env)"
proof -
  have "keeps prompted (compress_context env)"
    unfolding compress_context_def
  proof (rule keeps_get_bind)
    fix s assume "prompted (s :: 'a loop_state)"
    moreover obtain w where "le_compress env (ls_messages s) (ls_world s) = (NotNeeded, w)"
      using assms unfolding leaves_conversation_def by blast
    ultimately show "prompted (snd (sv_bind (with_world (le_compress env (ls_messages s)))
        (\<lambda>c. sv_bind (case c of Compressed ms \<Rightarrow> set_messages (\<lambda>_. ms) | _ \<Rightarrow> sv_return ()) (\<lambda>_. sv_return c)) s))"
      by (simp add: sv_bind_def with_world_def sv_return_def prompted_def)
  qed
  moreover have "manage_context env = sv_return ()" using assms by (simp add: manage_context_def leaves_conversation_def)
  ultimately show ?thesis unfolding end_iteration_def
    by (auto intro!: keeps_intro keeps_cases keeps_guards [OF prompted_indifferent(1)] keeps_stop)
qed

lemma prompted_ask: "keeps prompted (ask_confirmation content)" "keeps prompted (resume_work content)"
  unfolding ask_confirmation_def resume_work_def
  by (auto simp: keeps_def sv_bind_def sv_modify_def set_messages_def prompted_def)

lemma prompted_text: "leaves_conversation env \<Longrightarrow> keeps prompted (handle_text env r)"
  unfolding handle_text_def Let_def
  by (intro keeps_intro keeps_stop prompted_ask prompted_end keeps_if; simp split: option.split bool.split
      add: keeps_bind keeps_return prompted_ask keeps_stop)
text \<open>What stops the loop without completing the task\<close>

definition stops_short :: "('w, loop_result option) loop_svc \<Rightarrow> bool" where
  "stops_short m \<longleftrightarrow> (\<forall>s res t. m s = (Inr (Some res), t) \<longrightarrow> lo_reason res \<noteq> TR_Completed)"

lemma shortD: "stops_short m \<Longrightarrow> m s = (Inr (Some res), t) \<Longrightarrow> lo_reason res = TR_Completed \<Longrightarrow> False"
  unfolding stops_short_def by blast

lemma short_bind: "(\<And>x. stops_short (f x)) \<Longrightarrow> stops_short (sv_bind m f)"
  by (auto simp: stops_short_def sv_bind_def split: prod.splits sum.splits)

lemma short_base: "stops_short (sv_return None)" "reason \<noteq> TR_Completed \<Longrightarrow> stops_short (stop_loop env reason)"
  by (auto simp: stops_short_def sv_return_def stop_loop_def sv_bind_def sv_get_def build_result_def)

lemma limit_reasons: "check_limits env s = (Inr (Some (reason, phase)), t) \<Longrightarrow> reason \<noteq> TR_Completed"
  by (auto simp: check_limits_def sv_bind_def sv_get_def sv_return_def split: if_splits option.splits prod.splits sum.splits)

lemma short_end: "stops_short (end_iteration env)"
proof -
  have "stops_short (sv_bind (check_limits env) (\<lambda>r. case r of None \<Rightarrow> sv_return None | Some (reason, _) \<Rightarrow> stop_loop env reason))"
    unfolding stops_short_def
  proof (intro allI impI)
    fix s res t
    assume run: "sv_bind (check_limits env) (\<lambda>r. case r of None \<Rightarrow> sv_return None | Some (reason, _) \<Rightarrow> stop_loop env reason) s = (Inr (Some res), t)"
    then obtain r u where r: "check_limits env s = (Inr r, u)" and rest: "(case r of None \<Rightarrow> sv_return None | Some (reason, _) \<Rightarrow> stop_loop env reason) u = (Inr (Some res), t)"
      by (auto simp: sv_bind_ok_iff)
    from rest obtain reason phase where "r = Some (reason, phase)" by (auto simp: sv_return_def split: option.splits)
    with r rest limit_reasons [of env s reason phase u] short_base(2) [of reason env] show "lo_reason res \<noteq> TR_Completed"
      unfolding stops_short_def by (simp del: split_paired_All; blast)
  qed
  then show ?thesis unfolding end_iteration_def by (rule short_bind [OF short_bind])
qed

lemma short_tools: "stops_short (handle_tools env r cs)"
proof -
  have "stops_short (handle_results env r cs rs)" for rs
    by (simp add: handle_results_def short_base short_bind short_end)
  then show ?thesis unfolding handle_tools_def by (auto intro!: short_bind short_base)
qed

lemma short_failed: "stops_short (llm_failed env)"
  unfolding llm_failed_def by (auto intro!: short_bind short_base)

text \<open>The last exchange of a run that completed\<close>

definition confirmed :: "'w loop_env \<Rightarrow> loop_result \<Rightarrow> 'w loop_state \<Rightarrow> bool" where
  "confirmed env res t \<longleftrightarrow> (\<exists>pre q r. ls_log t = pre @ [LG_Asked q, LG_Answer r, LG_Observed ''llm_response''] \<and>
     q \<noteq> [] \<and> last q = plain R_User confirmation_prompt \<and> parse_confirmation (lr_content r) = Some True \<and>
     lo_raw res = lr_content r \<and> lo_output res = parse_output (le_json env) (strip_completion_prefix (lr_content r)))"

lemma text_confirmed:
  assumes "handle_text env r s = (Inr (Some res), t)" and "lo_reason res = TR_Completed" and "lf_confirm (le_config env)"
  shows "ls_pending s \<and> parse_confirmation (lr_content r) = Some True \<and> t = s \<and> lo_raw res = lr_content r \<and>
    lo_output res = parse_output (le_json env) (strip_completion_prefix (lr_content r))"
proof (cases "ls_pending s")
  case False
  with assms(1,3) have "sv_bind (ask_confirmation (lr_content r)) (\<lambda>_. end_iteration env) s = (Inr (Some res), t)"
    by (simp add: handle_text_def sv_bind_def [of sv_get] sv_get_def Let_def)
  from shortD [OF short_bind [OF short_end] this assms(2)] show ?thesis ..
next
  case True
  have quiet: "sv_bind m (\<lambda>_. sv_return None) s \<noteq> (Inr (Some res), t)" for m :: "('a, unit) loop_svc"
    using shortD [OF short_bind [OF short_base(1)] _ assms(2), of m s t] by blast
  from True assms(1,3) quiet have "parse_confirmation (lr_content r) = Some True"
    by (auto simp: handle_text_def sv_bind_def [of sv_get] sv_get_def Let_def split: option.splits bool.splits)
  with True assms(1,3) show ?thesis
    by (auto simp: handle_text_def Let_def sv_bind_def sv_get_def complete_loop_def sv_return_def build_result_def)
qed

lemma response_confirmed:
  assumes "handle_response env r s = (Inr (Some res), t)" and "lo_reason res = TR_Completed" and "lf_confirm (le_config env)"
    and "ls_log s = pre @ [LG_Asked (ls_messages s)]" and "prompted s"
  shows "confirmed env res t"
proof -
  let ?u = "(track_usage r s)\<lparr>ls_raw := lr_content r, ls_model := lr_model r, ls_log := ls_log s @ [LG_Answer r, LG_Observed ''llm_response'']\<rparr>"
  have "ls_log (track_usage r s) = ls_log s" by (simp add: track_usage_def)
  with assms(1) have "(if calls_of env r \<noteq> [] then handle_tools env r (calls_of env r) else handle_text env r) ?u = (Inr (Some res), t)"
    by (simp add: handle_response_def sv_bind_def sv_modify_def log_it_def observe_def Let_def)
  with short_tools [of env r] assms(2) have "handle_text env r ?u = (Inr (Some res), t)"
    by (auto simp: stops_short_def split: if_splits)
  from text_confirmed [OF this assms(2,3)] assms(4,5) show ?thesis
    by (auto simp: confirmed_def prompted_def track_usage_def split: if_splits)
qed

lemma iteration_confirmed:
  assumes "leaves_conversation env" and "lf_confirm (le_config env)" and "prompted s"
    and "loop_iteration env s = (Inr (Some res), t)" and "lo_reason res = TR_Completed"
  shows "confirmed env res t"
proof -
  obtain answer w where ask: "le_complete env (ls_messages s) (ls_world s) = (answer, w)" by fastforce
  let ?u = "s\<lparr>ls_iteration := Suc (ls_iteration s), ls_log := ls_log s @ [LG_Asked (ls_messages s)], ls_world := w\<rparr>"
  have "prepare_context env = sv_return ()" using assms(1) by (simp add: prepare_context_def leaves_conversation_def)
  with assms(4) ask have run: "(case answer of Inl _ \<Rightarrow> llm_failed env | Inr r \<Rightarrow> handle_response env r) ?u = (Inr (Some res), t)"
    by (simp add: loop_iteration_def ask_model_def sv_bind_def sv_modify_def sv_return_def sv_get_def log_it_def with_world_def)
  show ?thesis
  proof (cases answer)
    case (Inl e)
    with run short_failed [of env] assms(5) show ?thesis by (auto simp: stops_short_def)
  next
    case (Inr r)
    with run have "handle_response env r ?u = (Inr (Some res), t)" by simp
    then show ?thesis using assms by (auto intro!: response_confirmed simp: prompted_def)
  qed
qed

lemma prompted_iteration:
  assumes "leaves_conversation env" shows "keeps prompted (loop_iteration env)"
proof -
  have "keeps prompted (handle_tools env r cs)" for r cs using tools_unconfirmed by (auto simp: keeps_def)
  moreover have small: "keeps prompted (sv_modify (\<lambda>s. s\<lparr>ls_iteration := Suc (ls_iteration s)\<rparr>))"
    "keeps prompted (sv_modify (\<lambda>s. (track_usage r s)\<lparr>ls_raw := x, ls_model := y\<rparr>))" for r x y
    by (auto intro!: keeps_modify simp: prompted_def track_usage_def)
  moreover have "prepare_context env = sv_return ()" using assms by (simp add: prepare_context_def leaves_conversation_def)
  ultimately show ?thesis
    unfolding loop_iteration_def handle_response_def llm_failed_def ask_model_def Let_def
    by (simp only:, intro keeps_bind keeps_get keeps_return keeps_if keeps_case_sum small prompted_log(1) keeps_stop prompted_text [OF assms] keeps_small [OF prompted_indifferent(1)])
qed

lemma loop_confirmed:
  assumes "leaves_conversation env" and "lf_confirm (le_config env)" and "prompted s"
    and "run_loop env n s = (Inr res, t)" and "lo_reason res = TR_Completed"
  shows "confirmed env res t"
  using assms(3,4)
proof (induction n arbitrary: s)
  case 0
  then show ?case using assms(5) by (auto simp: sv_bind_def sv_get_def sv_return_def build_result_def)
next
  case (Suc n)
  then obtain r u where r: "loop_iteration env s = (Inr r, u)" and rest: "(case r of None \<Rightarrow> run_loop env n | Some result \<Rightarrow> sv_return result) u = (Inr res, t)"
    by (auto simp: sv_bind_ok_iff)
  have "prompted u" using prompted_iteration [OF assms(1)] Suc.prems(1) r unfolding keeps_def by (metis snd_conv)
  with r rest Suc show ?case
    by (cases r) (auto simp: sv_return_def intro: iteration_confirmed [OF assms(1,2) Suc.prems(1) _ assms(5)])
qed


definition sure_env :: "nat loop_env" where
  "sure_env = demo_env [demo_answer ''d'' [], demo_answer ''COMPLETED: d'' []]"

definition sure_run :: "(loop_error + loop_result) \<times> nat loop_state" where
  "sure_run = run sure_env (new_loop sure_env demo_task (new_enforcer 0) 0)"


section \<open>What the code allows\<close>

text \<open>A request for tools resets the count of consecutive errors: tools that fail in every iteration never reach the threshold.\<close>

definition failing_env :: "nat loop_env" where
  "failing_env = (demo_env (replicate 2 (demo_answer [] [demo_call ''1'' ''t'' []])))\<lparr>
     le_config := demo_config\<lparr>lf_errors := 2\<rparr>, le_budget := None, le_execute := \<lambda>t a w. (Inl ''e'', w)\<rparr>"

lemma failing_tools_never_stop:
  "let s = (new_loop failing_env demo_task (new_enforcer 0) 0)\<lparr>ls_errors := 1\<rparr>; (r, t) = loop_iteration failing_env s
   in r = Inr None \<and> ls_errors t = 1 \<and> ls_calls t = 1"
  by code_simp

text \<open>A pre-hook can change the arguments after governance and the budget have been asked about them.\<close>

definition rewriting_hook :: "string \<Rightarrow> nat tool_event chain_hook" where
  "rewriting_hook path = \<lparr>ch_name = [], ch_event = [], ch_priority = 0, ch_enabled = True, ch_tenant = [],
     ch_exec = \<lambda>c next. (None, next (c\<lparr>hc_data := (hc_data c)\<lparr>tv_args := ArgObject [(''path'', path)]\<rparr>\<rparr>))\<rparr>"

definition hooked_env :: "nat loop_env" where
  "hooked_env = (demo_env demo_answers)\<lparr>le_pre := [rewriting_hook ''k''],
     le_budget := Some (\<lambda>_ _. Some True, loop_budget\<lparr>bg_files := \<lparr>fs_read = [''a''], fs_write = [], fs_deny = []\<rparr>\<rparr>)\<rparr>"

lemma hook_changes_after_checks:
  "let s = new_loop hooked_env demo_task (new_enforcer 0) 0
   in LG_Ran ''file_read'' (ArgObject [(''path'', ''k'')]) \<in> set (ls_log (snd (execute_call hooked_env (demo_call ''1'' ''file_read'' ''a'') s))) \<and>
      fst (enforce_call hooked_env ''file_read'' (ArgObject [(''path'', ''k'')]) s) = Inr EN_Blocked"
  by code_simp

text \<open>A guard among the pre-hooks that fails is skipped, and the tool runs.\<close>

definition guarded_env :: "nat loop_env" where
  "guarded_env = (demo_env demo_answers)\<lparr>le_pre := [(rewriting_hook [])\<lparr>ch_exec := \<lambda>c next. (Some ''e'', c)\<rparr>]\<rparr>"

lemma failing_guard_lets_run:
  "ran (ls_log (snd (execute_call guarded_env (demo_call ''1'' ''file_read'' ''a'') (new_loop guarded_env demo_task (new_enforcer 0) 0)))) = 1"
  by code_simp

text \<open>In evaluation mode a tool message can be left without the call it answers.\<close>

lemma eviction_breaks_pairs:
  "let ms = [plain R_System [], (plain R_Assistant [])\<lparr>cm_calls := [demo_call ''1'' ''t'' []]\<rparr>,
       (plain R_Tool [])\<lparr>cm_call_id := ''1''\<rparr>, plain R_User []]
   in paired [] ms \<and> \<not> paired [] (evict_for_budget 3 ms)"
  by code_simp

text \<open>Arguments that are a list, and a budget: the exception leaves \<open>run\<close>, where a tool that is not allowed would only be refused.\<close>

definition listing_env :: "nat loop_env" where
  "listing_env = (demo_env demo_answers)\<lparr>le_json := \<lambda>t. Some (ArgList [])\<rparr>"

lemma list_arguments_raise:
  "fst (run listing_env (new_loop listing_env demo_task (new_enforcer 0) 0)) = Inl LoopTypeError"
  by code_simp

text \<open>Two chunks with one whole call each become one call.\<close>

lemma streamed_calls_merge:
  "let chunk = (\<lambda>c. \<lparr>sk_content = [], sk_calls = [c], sk_delta = None, sk_finish = None, sk_model = [], sk_prompt = 0,
       sk_completion = 0, sk_usage = False\<rparr>)
   in lr_calls (stream_result (fold absorb_chunk [chunk (demo_call ''1'' ''t'' ''x''), chunk (demo_call ''2'' ''u'' ''y'')] (stream_start []))) =
      [demo_call ''2'' ''u'' ''xy'']"
  by code_simp

text \<open>A text response ends an iteration of \<open>run\<close> with the checks of the budget, and one of \<open>run_stream\<close> without them.\<close>

lemma streaming_skips_budget:
  "let answers = [demo_answer ''d'' []]; env = demo_env answers; s = new_loop env demo_task (new_enforcer 0) 0
   in ec_iterations (en_context (ls_enforcer (snd (loop_iteration env s)))) = 1 \<and>
      ec_iterations (en_context (ls_enforcer (snd (stream_iteration env s)))) = 0"
  by code_simp

end
