(* ===== verification/Streaming_Correct.thy ===== *)
theory Streaming_Correct
  imports Tool_Loop
begin

text \<open>
  The assembly of streamed tool calls: calls that a provider splits into fragments, and sends in any interleaving, are put
  together again.
\<close>

text \<open>One delta added to what is there of its call\<close>

definition blank_call :: partial_call where
  "blank_call = \<lparr>pa_id = [], pa_name = [], pa_parts = []\<rparr>"

definition join_delta :: "stream_delta \<Rightarrow> partial_call \<Rightarrow> partial_call" where
  "join_delta d p = \<lparr>pa_id = (if sd_id d \<noteq> [] then sd_id d else pa_id p), pa_name = (if sd_name d \<noteq> [] then sd_name d else pa_name p),
     pa_parts = (if sd_fragment d \<noteq> [] then pa_parts p @ [sd_fragment d] else pa_parts p)\<rparr>"

definition found :: "partial_call option \<Rightarrow> partial_call" where
  "found q = (case q of None \<Rightarrow> blank_call | Some p \<Rightarrow> p)"

lemma add_delta_get: "od_get (add_delta d ps) i = (if i = sd_index d then Some (join_delta d (found (od_get ps i))) else od_get ps i)"
  by (cases "od_get ps (sd_index d)") (auto simp: add_delta_def join_delta_def found_def blank_call_def Let_def od.get_put)

lemma add_delta_keys: "od_wf ps \<Longrightarrow> od_wf (add_delta d ps)"
  "set (od_keys (add_delta d ps)) = insert (sd_index d) (set (od_keys ps))"
  by (auto simp: add_delta_def Let_def od.wf_put od.keys_put)

lemma fold_keys: "od_wf ps \<Longrightarrow> od_wf (fold add_delta ds ps)"
  "set (od_keys (fold add_delta ds ps)) = sd_index ` set ds \<union> set (od_keys ps)"
  by (induction ds arbitrary: ps) (auto simp: add_delta_keys)

abbreviation deltas_of :: "int \<Rightarrow> stream_delta list \<Rightarrow> stream_delta list" where
  "deltas_of i ds \<equiv> filter (\<lambda>d. sd_index d = i) ds"

lemma fold_get: "i \<in> sd_index ` set ds \<Longrightarrow> od_get (fold add_delta ds ps) i = Some (fold join_delta (deltas_of i ds) (found (od_get ps i)))"
proof (induction ds arbitrary: ps)
  case (Cons d ds)
  have rest: "od_get (fold add_delta ds qs) i = (if i \<in> sd_index ` set ds then Some (fold join_delta (deltas_of i ds) (found (od_get qs i))) else od_get qs i)" for qs
  proof (cases "i \<in> sd_index ` set ds")
    case True
    with Cons.IH show ?thesis by simp
  next
    case False
    then show ?thesis by (induction ds arbitrary: qs) (auto simp: add_delta_get)
  qed
  have "i \<notin> sd_index ` set ds \<Longrightarrow> deltas_of i ds = []" by (auto simp: filter_empty_conv)
  with Cons.prems show ?case by (auto simp: rest add_delta_get found_def)
qed simp

text \<open>The deltas of one call carry its name and id, each possibly more than once, and its arguments in pieces.\<close>

definition carries :: "llm_call \<Rightarrow> stream_delta list \<Rightarrow> bool" where
  "carries c ds \<longleftrightarrow> (\<forall>d \<in> set ds. sd_id d \<in> {[], lc_id c} \<and> sd_name d \<in> {[], lc_name c}) \<and>
     lc_id c \<in> sd_id ` set ds \<and> lc_name c \<in> sd_name ` set ds \<and> List.concat (List.map sd_fragment ds) = lc_args c"

definition well_formed_call :: "llm_call \<Rightarrow> bool" where
  "well_formed_call c \<longleftrightarrow> lc_id c \<noteq> [] \<and> lc_name c \<noteq> [] \<and> lc_args c \<noteq> [] \<and> py_strip (lc_args c) = lc_args c"

lemma joined_id: "\<forall>d \<in> set ds. sd_id d \<in> {[], n} \<Longrightarrow> n \<noteq> [] \<Longrightarrow>
    pa_id (fold join_delta ds p) = (if n \<in> sd_id ` set ds then n else pa_id p)"
  by (induction ds arbitrary: p) (auto simp: join_delta_def)

lemma joined_name: "\<forall>d \<in> set ds. sd_name d \<in> {[], n} \<Longrightarrow> n \<noteq> [] \<Longrightarrow>
    pa_name (fold join_delta ds p) = (if n \<in> sd_name ` set ds then n else pa_name p)"
  by (induction ds arbitrary: p) (auto simp: join_delta_def)

lemma joined_parts: "List.concat (pa_parts (fold join_delta ds p)) = List.concat (pa_parts p) @ List.concat (List.map sd_fragment ds)"
  by (induction ds arbitrary: p) (simp_all add: join_delta_def)

lemma carried_call:
  assumes "carries c ds" and "well_formed_call c"
  shows "assembled_call i (fold join_delta ds blank_call) = c" and "pa_name (fold join_delta ds blank_call) \<noteq> []"
proof -
  from assms have id: "pa_id (fold join_delta ds blank_call) = lc_id c" and name: "pa_name (fold join_delta ds blank_call) = lc_name c"
    and args: "List.concat (pa_parts (fold join_delta ds blank_call)) = lc_args c"
    by (simp_all add: carries_def well_formed_call_def joined_id [where n = "lc_id c"] joined_name [where n = "lc_name c"] joined_parts blank_call_def)
  with assms(2) show "assembled_call i (fold join_delta ds blank_call) = c"
    by (simp add: assembled_call_def well_formed_call_def Let_def)
  from name assms(2) show "pa_name (fold join_delta ds blank_call) \<noteq> []" by (simp add: well_formed_call_def)
qed

lemma sort_key_map: "od_wf ps \<Longrightarrow> sorted xs \<Longrightarrow> distinct xs \<Longrightarrow> set xs = set (od_keys ps) \<Longrightarrow> List.map fst (sort_key fst ps) = xs"
  by (rule sorted_distinct_set_unique) (auto simp: od_wf_def od_keys_def distinct_map)

text \<open>C37: Tool calls that a provider numbers, splits into fragments and streams in any interleaving come out of the assembler as
they were, in the order of their numbers.\<close>

theorem streamed_calls_assembled:
  assumes "sorted (List.map fst cs)" and "distinct (List.map fst cs)" and "set (List.map fst cs) = sd_index ` set ds"
    and "list_all (\<lambda>(i, c). well_formed_call c \<and> carries c (deltas_of i ds)) cs"
  shows "close_assembler (fold add_delta ds []) = List.map snd cs"
proof -
  let ?ps = "fold add_delta ds []"
  have wf: "od_wf ?ps" by (rule fold_keys) (simp add: od_wf_def od_keys_def)
  have keys: "set (od_keys ?ps) = sd_index ` set ds" by (simp add: fold_keys(2)) (simp add: od_keys_def)
  have get: "od_get ?ps i = Some (fold join_delta (deltas_of i ds) blank_call)" if "i \<in> sd_index ` set ds" for i
    using fold_get [OF that, of "[]"] by (simp add: found_def)
  have entry: "assembled_call i p = the (map_of cs i) \<and> pa_name p \<noteq> []" if "(i, p) \<in> set ?ps" for i p
  proof -
    from that have i: "i \<in> sd_index ` set ds" using keys by (force simp: od_keys_def)
    from that wf have p: "p = fold join_delta (deltas_of i ds) blank_call" using get [OF i] by (simp add: od_wf_def od_keys_def)
    from i assms(3) obtain c where c: "(i, c) \<in> set cs" by force
    with assms(4) have "well_formed_call c" "carries c (deltas_of i ds)" by (auto simp: list_all_iff)
    with carried_call p have "assembled_call i p = c" "pa_name p \<noteq> []" by simp_all
    with c assms(2) show ?thesis by simp
  qed
  have "close_assembler ?ps = List.map (\<lambda>x. the (map_of cs (fst x))) (sort_key fst ?ps)"
    using entry by (auto simp: close_assembler_def intro!: filter_True [THEN arg_cong [where f = "List.map _"], THEN trans])
  also have "\<dots> = List.map (\<lambda>i. the (map_of cs i)) (List.map fst (sort_key fst ?ps))" by simp
  also have "List.map fst (sort_key fst ?ps) = List.map fst cs"
    by (rule sort_key_map [OF wf assms(1,2)]) (use assms(3) keys in auto)
  also have "List.map (\<lambda>i. the (map_of cs i)) (List.map fst cs) = List.map snd cs" using assms(2) by auto
  finally show ?thesis .
qed

definition demo_deltas :: "stream_delta list" where
  "demo_deltas = [\<lparr>sd_index = 1, sd_id = ''b'', sd_name = ''u'', sd_fragment = ''x''\<rparr>, \<lparr>sd_index = 0, sd_id = ''a'', sd_name = ''t'', sd_fragment = []\<rparr>,
     \<lparr>sd_index = 0, sd_id = [], sd_name = [], sd_fragment = ''y''\<rparr>, \<lparr>sd_index = 1, sd_id = [], sd_name = [], sd_fragment = ''z''\<rparr>]"

theorem streamed_calls_assembled_witness:
  "close_assembler (fold add_delta demo_deltas []) =
   [\<lparr>lc_id = ''a'', lc_name = ''t'', lc_args = ''y''\<rparr>, \<lparr>lc_id = ''b'', lc_name = ''u'', lc_args = ''xz''\<rparr>]"
proof -
  have "py_strip ''y'' = ''y''" "py_strip ''xz'' = ''xz''" by code_simp+
  with streamed_calls_assembled [of "[(0, \<lparr>lc_id = ''a'', lc_name = ''t'', lc_args = ''y''\<rparr>), (1, \<lparr>lc_id = ''b'', lc_name = ''u'', lc_args = ''xz''\<rparr>)]" demo_deltas]
  show ?thesis by (auto simp: demo_deltas_def well_formed_call_def carries_def)
qed

end
