(* ===== verification/Sessions.thy ===== *)
theory Sessions
  imports Lifecycle PyText
begin

text \<open>
  Operator sessions (\<open>agent33/sessions/\<close>): the session with its tasks and its replay log (\<open>models.py\<close>), the files of a
  session (\<open>storage.py\<close>), the service with its cache of active sessions (\<open>service.py\<close>), the archive (\<open>archive.py\<close>) and
  the sessions spawned from templates (\<open>spawn.py\<close>).

  The disk outlives the process; the cache, the fired hooks and the clean-ups are those of one process.  The directories
  are listed in the order of their association list, which stands for the order of \<open>iterdir\<close>.  The text of a file stands
  for the value that is written to it, or is corrupt; files are always writable.  Times are microseconds, and one
  operation reads the clock once.  Identifiers that \<open>uuid4\<close> makes are arguments; the identifiers of events and the
  metadata of tasks are left out.  A session in the cache is the object that the operations change, so that every change
  of it shows in the cache.
\<close>

section \<open>Sessions and files\<close>

datatype session_status = OS_Active | OS_Completed | OS_Crashed | OS_Suspended | OS_Archived

datatype session_event_type =
    ET_Started | ET_Ended | ET_Resumed | ET_TaskAdded | ET_TaskUpdated | ET_AgentInvoked | ET_ToolExecuted | ET_HookFired
  | ET_Checkpoint | ET_Error | ET_UserInput

datatype task_status = TS_Pending | TS_InProgress | TS_Done | TS_Blocked

record task_entry =
  tk_id :: string
  tk_description :: string
  tk_status :: task_status
  tk_created :: int
  tk_completed :: "int option"

record session_event =
  ev_type :: session_event_type
  ev_time :: int
  ev_session :: string
  ev_data :: "(string, string) odict"

record operator_session =
  os_id :: string
  os_purpose :: string
  os_status :: session_status
  os_started :: int
  os_updated :: int
  os_ended :: "int option"
  os_tenant :: string
  os_tasks :: "task_entry list"
  os_summary :: string
  os_context :: "(string, string) odict"
  os_parent :: "string option"
  os_line :: "string option"
  os_events :: nat
  os_checkpoint :: "int option"

datatype 'a json_file = NoFile | Corrupt | Holds 'a

record session_dir =
  sd_session :: "operator_session json_file"
  sd_replay :: "session_event list option"
  sd_saved_at :: "operator_session option"
  sd_lock :: "int option"
  sd_rotated :: "(int, session_event list) odict"
  sd_mtime :: int

record sessions_st =
  ss_active :: "(string, operator_session) odict"
  ss_disk :: "(string, session_dir) odict"
  ss_fired :: "(string \<times> string \<times> session_status) list"
  ss_cleaned :: "string list"

text \<open>\<open>se_line\<close> is the status line; \<open>None\<close>: no builder is set, or it raised.  \<open>se_bytes\<close> is the size of a replay log.\<close>

record session_env =
  se_pid :: int
  se_alive :: "int \<Rightarrow> bool"
  se_line :: "operator_session \<Rightarrow> string option"
  se_bytes :: "session_event list \<Rightarrow> int"
  se_max_bytes :: int
  se_retained :: int

datatype session_error =
    SessionNotFound string
  | BadSessionId string
  | CannotEnd session_status
  | BadEndStatus session_status
  | CannotResume session_status
  | TaskNotFound string
  | BadTaskStatus string
  | CannotArchive session_status
  | TemplateNotFound string

type_synonym 'a session_svc = "(sessions_st, session_error, 'a) svc"

fun session_status_value :: "session_status \<Rightarrow> string" where
  "session_status_value OS_Active = ''active''"
| "session_status_value OS_Completed = ''completed''"
| "session_status_value OS_Crashed = ''crashed''"
| "session_status_value OS_Suspended = ''suspended''"
| "session_status_value OS_Archived = ''archived''"

definition task_status_of :: "string \<Rightarrow> task_status option" where
  "task_status_of t = (if t = ''pending'' then Some TS_Pending else if t = ''in_progress'' then Some TS_InProgress
     else if t = ''done'' then Some TS_Done else if t = ''blocked'' then Some TS_Blocked else None)"

section \<open>The storage\<close>

definition safe_char :: "char \<Rightarrow> bool" where
  "safe_char c = (let n = (of_char c :: nat) in (48 \<le> n \<and> n \<le> 57) \<or> (65 \<le> n \<and> n \<le> 90) \<or> (97 \<le> n \<and> n \<le> 122) \<or> n = 95 \<or> n = 45)"

definition validate_session_id :: "string \<Rightarrow> bool" where
  "validate_session_id sid \<longleftrightarrow> sid \<noteq> [] \<and> py_strip sid = sid \<and> list_all (\<lambda>c. c \<noteq> CHR ''/'' \<and> c \<noteq> CHR 0x5C) sid \<and>
     \<not> py_contains ''..'' sid \<and> list_all safe_char sid"

definition check_id :: "string \<Rightarrow> unit session_svc" where
  "check_id sid = (if validate_session_id sid then sv_return () else sv_raise (BadSessionId sid))"

definition new_dir :: "int \<Rightarrow> session_dir" where
  "new_dir now = \<lparr>sd_session = NoFile, sd_replay = None, sd_saved_at = None, sd_lock = None, sd_rotated = [], sd_mtime = now\<rparr>"

definition dir_entries :: "session_dir \<Rightarrow> bool \<times> bool \<times> bool \<times> bool \<times> int list" where
  "dir_entries d = (sd_session d = NoFile, sd_replay d = None, sd_saved_at d = None, sd_lock d = None, od_keys (sd_rotated d))"

text \<open>A change in a directory, which is made if it is missing; its time moves when an entry comes or goes.\<close>

definition in_dir :: "int \<Rightarrow> string \<Rightarrow> (session_dir \<Rightarrow> session_dir) \<Rightarrow> sessions_st \<Rightarrow> sessions_st" where
  "in_dir now sid f s = (let d = (case od_get (ss_disk s) sid of None \<Rightarrow> new_dir now | Some d \<Rightarrow> d); d' = f d
     in s\<lparr>ss_disk := od_put sid (if dir_entries d' = dir_entries d then d' else d'\<lparr>sd_mtime := now\<rparr>) (ss_disk s)\<rparr>)"

definition change_dir :: "int \<Rightarrow> string \<Rightarrow> (session_dir \<Rightarrow> session_dir) \<Rightarrow> unit session_svc" where
  "change_dir now sid f = sv_bind (check_id sid) (\<lambda>_. sv_modify (in_dir now sid f))"

definition save_session :: "int \<Rightarrow> operator_session \<Rightarrow> unit session_svc" where
  "save_session now x = change_dir now (os_id x) (\<lambda>d. d\<lparr>sd_session := Holds x\<rparr>)"

definition load_session :: "string \<Rightarrow> operator_session option session_svc" where
  "load_session sid = sv_bind (check_id sid) (\<lambda>_. sv_bind sv_get (\<lambda>s. sv_return
     (case od_get (ss_disk s) sid of None \<Rightarrow> None
      | Some d \<Rightarrow> (case sd_session d of Holds x \<Rightarrow> Some x | _ \<Rightarrow> None))))"

definition delete_session :: "string \<Rightarrow> bool session_svc" where
  "delete_session sid = sv_bind (check_id sid) (\<lambda>_. sv_bind sv_get (\<lambda>s.
     sv_bind (sv_modify (\<lambda>s. s\<lparr>ss_disk := od_del sid (ss_disk s)\<rparr>)) (\<lambda>_. sv_return (od_get (ss_disk s) sid \<noteq> None))))"

definition list_session_ids :: "sessions_st \<Rightarrow> string list" where
  "list_session_ids s = List.map fst (filter (\<lambda>(i, d). sd_session d \<noteq> NoFile \<and> validate_session_id i)
     (sort_key (\<lambda>(i, d). sd_mtime d) (ss_disk s)))"

definition on_disk :: "sessions_st \<Rightarrow> string \<Rightarrow> operator_session option" where
  "on_disk s i = (case od_get (ss_disk s) i of None \<Rightarrow> None | Some d \<Rightarrow> (case sd_session d of Holds x \<Rightarrow> Some x | _ \<Rightarrow> None))"

text \<open>The limit is looked at after a session has been added.\<close>

definition list_sessions :: "session_status option \<Rightarrow> int \<Rightarrow> string option \<Rightarrow> sessions_st \<Rightarrow> operator_session list" where
  "list_sessions status limit tenant s = take (nat (max 1 limit))
     (filter (\<lambda>x. (tenant = None \<or> tenant = Some (os_tenant x)) \<and> (status = None \<or> status = Some (os_status x)))
       (List.map_filter (on_disk s) (rev (list_session_ids s))))"

definition append_event :: "string \<Rightarrow> session_event \<Rightarrow> unit session_svc" where
  "append_event sid e = change_dir (ev_time e) sid (\<lambda>d. d\<lparr>sd_replay := Some ((case sd_replay d of None \<Rightarrow> [] | Some es \<Rightarrow> es) @ [e])\<rparr>)"

definition replay_of :: "sessions_st \<Rightarrow> string \<Rightarrow> session_event list" where
  "replay_of s sid = (case od_get (ss_disk s) sid of None \<Rightarrow> [] | Some d \<Rightarrow> (case sd_replay d of None \<Rightarrow> [] | Some es \<Rightarrow> es))"

definition read_events :: "string \<Rightarrow> int \<Rightarrow> int \<Rightarrow> session_event list session_svc" where
  "read_events sid offset limit = sv_bind (check_id sid) (\<lambda>_. sv_bind sv_get (\<lambda>s.
     sv_return (take (nat limit) (drop (nat offset) (replay_of s sid)))))"

definition count_events :: "string \<Rightarrow> nat session_svc" where
  "count_events sid = sv_bind (check_id sid) (\<lambda>_. sv_bind sv_get (\<lambda>s. sv_return (length (replay_of s sid))))"

text \<open>The name of a rotated log has the time in seconds; renaming replaces a file of that name.\<close>

definition rotate_replay_log :: "session_env \<Rightarrow> int \<Rightarrow> string \<Rightarrow> bool session_svc" where
  "rotate_replay_log env now sid = sv_bind (check_id sid) (\<lambda>_. sv_bind sv_get (\<lambda>s.
     case od_get (ss_disk s) sid of None \<Rightarrow> sv_return False
     | Some d \<Rightarrow> (case sd_replay d of None \<Rightarrow> sv_return False
       | Some es \<Rightarrow> if se_bytes env es < se_max_bytes env then sv_return False
         else sv_bind (sv_modify (in_dir now sid (\<lambda>d. d\<lparr>sd_replay := None, sd_rotated := od_put (now div 1000000) es (sd_rotated d)\<rparr>)))
           (\<lambda>_. sv_return True))))"

definition save_checkpoint :: "int \<Rightarrow> operator_session \<Rightarrow> unit session_svc" where
  "save_checkpoint now x = change_dir now (os_id x) (\<lambda>d. d\<lparr>sd_saved_at := Some x\<rparr>)"

definition write_lock :: "session_env \<Rightarrow> int \<Rightarrow> string \<Rightarrow> unit session_svc" where
  "write_lock env now sid = change_dir now sid (\<lambda>d. d\<lparr>sd_lock := Some (se_pid env)\<rparr>)"

definition remove_lock :: "int \<Rightarrow> string \<Rightarrow> unit session_svc" where
  "remove_lock now sid = sv_bind (check_id sid) (\<lambda>_. sv_modify (\<lambda>s. if od_get (ss_disk s) sid = None then s
     else in_dir now sid (\<lambda>d. d\<lparr>sd_lock := None\<rparr>) s))"

definition is_process_alive :: "session_env \<Rightarrow> sessions_st \<Rightarrow> string \<Rightarrow> bool" where
  "is_process_alive env s sid = (case od_get (ss_disk s) sid of None \<Rightarrow> False
     | Some d \<Rightarrow> (case sd_lock d of None \<Rightarrow> False | Some pid \<Rightarrow> se_alive env pid))"

fun delete_sessions :: "string list \<Rightarrow> nat session_svc" where
  "delete_sessions [] = sv_return 0"
| "delete_sessions (i # is) = sv_bind (delete_session i) (\<lambda>b. sv_bind (delete_sessions is) (\<lambda>n. sv_return (if b then Suc n else n)))"

definition cleanup_old_sessions :: "session_env \<Rightarrow> nat session_svc" where
  "cleanup_old_sessions env = sv_bind sv_get (\<lambda>s. let ids = list_session_ids s in
     if int (length ids) \<le> se_retained env then sv_return 0
     else delete_sessions (py_take (int (length ids) - se_retained env) ids))"

section \<open>The service\<close>

text \<open>The session of the cache, else the one on disk\<close>

definition get_session :: "string \<Rightarrow> operator_session option session_svc" where
  "get_session sid = sv_bind sv_get (\<lambda>s. case od_get (ss_active s) sid of
     Some x \<Rightarrow> sv_return (Some x) | None \<Rightarrow> load_session sid)"

definition need_session :: "string \<Rightarrow> operator_session session_svc" where
  "need_session sid = sv_bind (get_session sid) (\<lambda>x. case x of
     None \<Rightarrow> sv_raise (SessionNotFound sid) | Some x \<Rightarrow> sv_return x)"

definition put_active :: "operator_session \<Rightarrow> unit session_svc" where
  "put_active x = sv_modify (\<lambda>s. s\<lparr>ss_active := od_put (os_id x) x (ss_active s)\<rparr>)"

text \<open>The object in the cache, if there is one, is the one that was changed.\<close>

definition alias_active :: "string \<Rightarrow> operator_session \<Rightarrow> unit session_svc" where
  "alias_active sid x = sv_modify (\<lambda>s. if od_get (ss_active s) sid = None then s else s\<lparr>ss_active := od_put sid x (ss_active s)\<rparr>)"

definition fire_hooks :: "string \<Rightarrow> operator_session \<Rightarrow> unit session_svc" where
  "fire_hooks ev x = sv_modify (\<lambda>s. s\<lparr>ss_fired := ss_fired s @ [(ev, os_id x, os_status x)]\<rparr>)"

definition clear_terminal_state :: "string \<Rightarrow> unit session_svc" where
  "clear_terminal_state sid = sv_modify (\<lambda>s. s\<lparr>ss_cleaned := ss_cleaned s @ [sid]\<rparr>)"

definition refresh_line :: "session_env \<Rightarrow> operator_session \<Rightarrow> operator_session" where
  "refresh_line env x = (case se_line env x of None \<Rightarrow> x | Some l \<Rightarrow> x\<lparr>os_line := Some l\<rparr>)"

definition task_summary :: "task_entry list \<Rightarrow> string" where
  "task_summary ts =
     (let count = (\<lambda>st. length (filter (\<lambda>t. tk_status t = st) ts)); total = length ts;
          pending = total - count TS_Done - count TS_InProgress - count TS_Blocked
      in if total = 0 then ''No tasks tracked''
         else py_join '', '' ([py_digits (count TS_Done) @ ''/'' @ py_digits total @ '' done''] @
           (if count TS_InProgress = 0 then [] else [py_digits (count TS_InProgress) @ '' in progress'']) @
           (if count TS_Blocked = 0 then [] else [py_digits (count TS_Blocked) @ '' blocked'']) @
           (if pending = 0 then [] else [py_digits pending @ '' pending''])))"

definition make_event :: "session_event_type \<Rightarrow> int \<Rightarrow> string \<Rightarrow> (string, string) odict \<Rightarrow> session_event" where
  "make_event ty now sid d = \<lparr>ev_type = ty, ev_time = now, ev_session = sid, ev_data = d\<rparr>"

definition start_session ::
  "session_env \<Rightarrow> int \<Rightarrow> string \<Rightarrow> string \<Rightarrow> (string, string) odict \<Rightarrow> string \<Rightarrow> operator_session session_svc" where
  "start_session env now sid purpose context tenant =
     (let x = \<lparr>os_id = sid, os_purpose = purpose, os_status = OS_Active, os_started = now, os_updated = now, os_ended = None,
            os_tenant = tenant, os_tasks = [], os_summary = [], os_context = context, os_parent = None, os_line = None,
            os_events = 0, os_checkpoint = None\<rparr>;
          y = refresh_line env (x\<lparr>os_events := 1\<rparr>)
      in sv_bind (save_session now x) (\<lambda>_. sv_bind (write_lock env now sid) (\<lambda>_.
         sv_bind (append_event sid (make_event ET_Started now sid [(''purpose'', purpose)])) (\<lambda>_.
         sv_bind (save_session now y) (\<lambda>_. sv_bind (put_active y) (\<lambda>_.
         sv_bind (fire_hooks ''session.start'' y) (\<lambda>_. sv_return y)))))))"

definition end_session :: "session_env \<Rightarrow> int \<Rightarrow> string \<Rightarrow> session_status \<Rightarrow> operator_session session_svc" where
  "end_session env now sid status = sv_bind (need_session sid) (\<lambda>x.
     if os_status x \<notin> {OS_Active, OS_Suspended} then sv_raise (CannotEnd (os_status x))
     else if status \<notin> {OS_Completed, OS_Suspended} then sv_raise (BadEndStatus status)
     else let y = x\<lparr>os_status := status, os_ended := Some now, os_updated := now, os_summary := task_summary (os_tasks x)\<rparr> in
       sv_bind (append_event sid (make_event ET_Ended now sid [(''status'', session_status_value status), (''task_summary'', os_summary y)])) (\<lambda>_.
       sv_bind (count_events sid) (\<lambda>n. let z = refresh_line env (y\<lparr>os_events := n\<rparr>) in
       sv_bind (fire_hooks ''session.end'' z) (\<lambda>_. sv_bind (save_session now z) (\<lambda>_. sv_bind (save_checkpoint now z) (\<lambda>_.
       sv_bind (remove_lock now sid) (\<lambda>_. sv_bind (sv_modify (\<lambda>s. s\<lparr>ss_active := od_del sid (ss_active s)\<rparr>)) (\<lambda>_.
       sv_bind (if status = OS_Completed then clear_terminal_state sid else sv_return ()) (\<lambda>_. sv_return z)))))))))"

text \<open>The data of the event are made after the status has been set.\<close>

definition resume_session :: "session_env \<Rightarrow> int \<Rightarrow> string \<Rightarrow> operator_session session_svc" where
  "resume_session env now sid = sv_bind (need_session sid) (\<lambda>x.
     if os_status x \<notin> {OS_Crashed, OS_Suspended} then sv_raise (CannotResume (os_status x))
     else let y = x\<lparr>os_status := OS_Active, os_updated := now, os_ended := None\<rparr> in
       sv_bind (append_event sid (make_event ET_Resumed now sid [(''previous_status'', session_status_value (os_status y))])) (\<lambda>_.
       sv_bind (count_events sid) (\<lambda>n. let z = refresh_line env (y\<lparr>os_events := n\<rparr>) in
       sv_bind (save_session now z) (\<lambda>_. sv_bind (write_lock env now sid) (\<lambda>_. sv_bind (put_active z) (\<lambda>_.
       sv_bind (fire_hooks ''session.resume'' z) (\<lambda>_. sv_return z)))))))"

definition checkpoint_session :: "session_env \<Rightarrow> int \<Rightarrow> string \<Rightarrow> unit session_svc" where
  "checkpoint_session env now sid = sv_bind (need_session sid) (\<lambda>x. sv_bind (count_events sid) (\<lambda>n.
     sv_bind (append_event sid (make_event ET_Checkpoint now sid [(''event_count'', py_digits n)])) (\<lambda>_. sv_bind (count_events sid) (\<lambda>m.
     let z = refresh_line env (x\<lparr>os_checkpoint := Some now, os_updated := now, os_summary := task_summary (os_tasks x), os_events := m\<rparr>) in
     sv_bind (save_session now z) (\<lambda>_. sv_bind (save_checkpoint now z) (\<lambda>_. sv_bind (rotate_replay_log env now sid) (\<lambda>_.
     sv_bind (alias_active sid z) (\<lambda>_. fire_hooks ''session.checkpoint'' z))))))))"

definition add_task :: "int \<Rightarrow> string \<Rightarrow> string \<Rightarrow> string \<Rightarrow> task_entry session_svc" where
  "add_task now sid tid description = sv_bind (need_session sid) (\<lambda>x.
     let t = \<lparr>tk_id = tid, tk_description = description, tk_status = TS_Pending, tk_created = now, tk_completed = None\<rparr>;
         y = x\<lparr>os_tasks := os_tasks x @ [t], os_updated := now\<rparr>
     in sv_bind (save_session now y) (\<lambda>_.
        sv_bind (append_event sid (make_event ET_TaskAdded now sid [(''task_id'', tid), (''description'', description)])) (\<lambda>_.
        sv_bind (alias_active sid y) (\<lambda>_. sv_return t))))"

text \<open>The first task with the id is changed.\<close>

fun change_task :: "string \<Rightarrow> (task_entry \<Rightarrow> task_entry) \<Rightarrow> task_entry list \<Rightarrow> (task_entry \<times> task_entry list) option" where
  "change_task tid f [] = None"
| "change_task tid f (t # ts) = (if tk_id t = tid then Some (f t, f t # ts)
     else map_option (\<lambda>(u, us). (u, t # us)) (change_task tid f ts))"

definition update_task :: "int \<Rightarrow> string \<Rightarrow> string \<Rightarrow> string \<Rightarrow> task_entry session_svc" where
  "update_task now sid tid status = (case task_status_of status of
      None \<Rightarrow> sv_raise (BadTaskStatus status)
    | Some st \<Rightarrow> sv_bind (need_session sid) (\<lambda>x.
        case change_task tid (\<lambda>t. t\<lparr>tk_status := st, tk_completed := (if st = TS_Done then Some now else tk_completed t)\<rparr>) (os_tasks x) of
          None \<Rightarrow> sv_raise (TaskNotFound tid)
        | Some (t, ts) \<Rightarrow> let y = x\<lparr>os_tasks := ts, os_updated := now\<rparr> in
            sv_bind (save_session now y) (\<lambda>_.
            sv_bind (append_event sid (make_event ET_TaskUpdated now sid [(''task_id'', tid), (''status'', status)])) (\<lambda>_.
            sv_bind (alias_active sid y) (\<lambda>_. sv_return t)))))"

definition list_tasks :: "string \<Rightarrow> task_entry list session_svc" where
  "list_tasks sid = sv_bind (need_session sid) (\<lambda>x. sv_return (os_tasks x))"

definition log_event :: "string \<Rightarrow> session_event \<Rightarrow> unit session_svc" where
  "log_event sid e = sv_bind (append_event sid (e\<lparr>ev_session := sid\<rparr>)) (\<lambda>_. sv_bind sv_get (\<lambda>s.
     case od_get (ss_active s) sid of None \<Rightarrow> sv_return ()
     | Some x \<Rightarrow> sv_bind (count_events sid) (\<lambda>n. alias_active sid (x\<lparr>os_events := n\<rparr>))))"

definition get_replay :: "string \<Rightarrow> int \<Rightarrow> int \<Rightarrow> session_event list session_svc" where
  "get_replay sid offset limit = read_events sid offset limit"

text \<open>Sessions that say they are active and whose process is gone\<close>

definition lost_session :: "session_env \<Rightarrow> string option \<Rightarrow> sessions_st \<Rightarrow> string \<Rightarrow> operator_session option" where
  "lost_session env tenant s i = (case on_disk s i of None \<Rightarrow> None
     | Some x \<Rightarrow> if (tenant = None \<or> tenant = Some (os_tenant x)) \<and> os_status x = OS_Active \<and> \<not> is_process_alive env s i
         then Some x else None)"

fun mark_crashed :: "session_env \<Rightarrow> int \<Rightarrow> string option \<Rightarrow> string list \<Rightarrow> operator_session list session_svc" where
  "mark_crashed env now tenant [] = sv_return []"
| "mark_crashed env now tenant (i # is) = sv_bind sv_get (\<lambda>s. case lost_session env tenant s i of
     None \<Rightarrow> mark_crashed env now tenant is
   | Some x \<Rightarrow> let y = x\<lparr>os_status := OS_Crashed, os_updated := now\<rparr> in
       sv_bind (save_session now y) (\<lambda>_. sv_bind (remove_lock now i) (\<lambda>_.
       sv_bind (mark_crashed env now tenant is) (\<lambda>ys. sv_return (y # ys)))))"

definition detect_incomplete :: "session_env \<Rightarrow> int \<Rightarrow> string option \<Rightarrow> operator_session list session_svc" where
  "detect_incomplete env now tenant = sv_bind sv_get (\<lambda>s. mark_crashed env now tenant (list_session_ids s))"

text \<open>What is flushed of one session; an exception is logged and the next one is flushed.\<close>

definition flush_session :: "int \<Rightarrow> string \<times> operator_session \<Rightarrow> unit session_svc" where
  "flush_session now p = sv_bind (count_events (fst p)) (\<lambda>n.
     let y = (snd p)\<lparr>os_updated := now, os_checkpoint := Some now, os_events := n\<rparr> in
     sv_bind (save_session now y) (\<lambda>_. sv_bind (save_checkpoint now y) (\<lambda>_. remove_lock now (fst p))))"

fun flush_all :: "int \<Rightarrow> (string \<times> operator_session) list \<Rightarrow> unit session_svc" where
  "flush_all now [] = sv_return ()"
| "flush_all now (p # ps) = sv_bind (sv_attempt (flush_session now p)) (\<lambda>_. flush_all now ps)"

definition shutdown_sessions :: "int \<Rightarrow> unit session_svc" where
  "shutdown_sessions now = sv_bind sv_get (\<lambda>s. sv_bind (flush_all now (ss_active s)) (\<lambda>_.
     sv_modify (\<lambda>s. s\<lparr>ss_active := []\<rparr>)))"

text \<open>A new process on the same disk\<close>

definition restart_sessions :: "sessions_st \<Rightarrow> sessions_st" where
  "restart_sessions s = \<lparr>ss_active = [], ss_disk = ss_disk s, ss_fired = [], ss_cleaned = []\<rparr>"

section \<open>The archive\<close>

definition archive_session :: "int \<Rightarrow> string \<Rightarrow> operator_session session_svc" where
  "archive_session now sid = sv_bind (need_session sid) (\<lambda>x.
     if os_status x \<in> {OS_Active, OS_Archived} then sv_raise (CannotArchive (os_status x))
     else let y = x\<lparr>os_status := OS_Archived, os_updated := now\<rparr> in
       sv_bind (save_session now y) (\<lambda>_. sv_bind (alias_active sid y) (\<lambda>_.
       sv_bind (clear_terminal_state sid) (\<lambda>_. sv_return y))))"

fun remove_archived :: "string list \<Rightarrow> nat session_svc" where
  "remove_archived [] = sv_return 0"
| "remove_archived (i # is) = sv_bind (clear_terminal_state i) (\<lambda>_. sv_bind (delete_session i) (\<lambda>_.
     sv_bind (remove_archived is) (\<lambda>n. sv_return (Suc n))))"

definition cleanup_archived :: "int \<Rightarrow> int \<Rightarrow> nat session_svc" where
  "cleanup_archived now days = sv_bind sv_get (\<lambda>s. remove_archived (List.map os_id
     (filter (\<lambda>x. days * 86400000000 \<le> now - os_updated x) (list_sessions (Some OS_Archived) 10000 None s))))"

section \<open>Spawned sessions\<close>

record spawn_template =
  st_agent_name :: string
  st_purpose :: string
  st_model :: string
  st_effort :: string

record spawn_request =
  sq_parent :: string
  sq_template :: string
  sq_agent :: string
  sq_purpose :: string
  sq_model :: string
  sq_effort :: string

definition either_text :: "string \<Rightarrow> string \<Rightarrow> string" where
  "either_text a b = (if a \<noteq> [] then a else b)"

definition spawn_session ::
  "session_env \<Rightarrow> (string, spawn_template) odict \<Rightarrow> int \<Rightarrow> string \<Rightarrow> spawn_request \<Rightarrow> string \<Rightarrow> operator_session session_svc" where
  "spawn_session env templates now sid r tenant = sv_bind (need_session (sq_parent r)) (\<lambda>_.
     sv_bind (if sq_template r = [] then sv_return \<lparr>st_agent_name = [], st_purpose = [], st_model = [], st_effort = []\<rparr>
       else case od_get templates (sq_template r) of None \<Rightarrow> sv_raise (TemplateNotFound (sq_template r)) | Some t \<Rightarrow> sv_return t) (\<lambda>t.
     let model = either_text (sq_model r) (st_model t); effort = either_text (sq_effort r) (st_effort t);
         context = [(''agent_name'', either_text (sq_agent r) (st_agent_name t)), (''parent_session_id'', sq_parent r)] @
           (if model = [] then [] else [(''model_override'', model)]) @ (if effort = [] then [] else [(''effort_override'', effort)]) @
           (if sq_template r = [] then [] else [(''spawn_template_id'', sq_template r)])
     in sv_bind (start_session env now sid (either_text (sq_purpose r) (st_purpose t)) context tenant) (\<lambda>x.
        let y = x\<lparr>os_parent := Some (sq_parent r)\<rparr> in
        sv_bind (alias_active sid y) (\<lambda>_. sv_bind (save_session now y) (\<lambda>_. sv_return y)))))"

end
