(* ===== verification/Sessions_Correct.thy ===== *)
theory Sessions_Correct
  imports Sessions
begin

text \<open>
  Correctness of operator sessions: the status on disk moves along the lifecycle over any history with restarts and crashes,
  a session is marked as crashed only when its process is gone, and what the code allows.
\<close>

section \<open>What the operations see\<close>

definition lock_of :: "sessions_st \<Rightarrow> string \<Rightarrow> int option" where
  "lock_of s i = (case od_get (ss_disk s) i of None \<Rightarrow> None | Some d \<Rightarrow> sd_lock d)"

lemma dir_get: "od_get (ss_disk (in_dir now sid f s)) i = (if i = sid
    then Some (let d = (case od_get (ss_disk s) sid of None \<Rightarrow> new_dir now | Some d \<Rightarrow> d) in
      if dir_entries (f d) = dir_entries d then f d else (f d)\<lparr>sd_mtime := now\<rparr>) else od_get (ss_disk s) i)"
  by (auto simp: in_dir_def Let_def od.get_put)

lemma dir_other [simp]: "ss_active (in_dir now sid f s) = ss_active s" "ss_fired (in_dir now sid f s) = ss_fired s"
  "ss_cleaned (in_dir now sid f s) = ss_cleaned s"
  by (simp_all add: in_dir_def Let_def)

lemma disk_only [simp]:
  "on_disk (s\<lparr>ss_active := a\<rparr>) i = on_disk s i" "on_disk (s\<lparr>ss_fired := h\<rparr>) i = on_disk s i" "on_disk (s\<lparr>ss_cleaned := c\<rparr>) i = on_disk s i"
  "lock_of (s\<lparr>ss_active := a\<rparr>) i = lock_of s i" "lock_of (s\<lparr>ss_fired := h\<rparr>) i = lock_of s i" "lock_of (s\<lparr>ss_cleaned := c\<rparr>) i = lock_of s i"
  by (simp_all add: on_disk_def lock_of_def)

lemma dir_session:
  assumes "\<And>d. sd_lock (f d) = sd_lock d" and "\<And>d. sd_session (f d) = Holds x"
  shows "on_disk (in_dir now sid f s) i = (if i = sid then Some x else on_disk s i)" "lock_of (in_dir now sid f s) i = lock_of s i"
  by (auto simp: on_disk_def lock_of_def dir_get assms Let_def new_dir_def split: option.split)

lemma dir_lock:
  assumes "\<And>d. sd_session (f d) = sd_session d" and "\<And>d. sd_lock (f d) = l"
  shows "on_disk (in_dir now sid f s) i = on_disk s i" "lock_of (in_dir now sid f s) i = (if i = sid then l else lock_of s i)"
  by (auto simp: on_disk_def lock_of_def dir_get assms Let_def new_dir_def split: option.split)

lemma dir_rest:
  assumes "\<And>d. sd_session (f d) = sd_session d" and "\<And>d. sd_lock (f d) = sd_lock d"
  shows "on_disk (in_dir now sid f s) i = on_disk s i" "lock_of (in_dir now sid f s) i = lock_of s i"
  by (auto simp: on_disk_def lock_of_def dir_get assms Let_def new_dir_def split: option.split)

lemma wp_check [wp_simps]: "sv_wp (check_id sid) Q E s = (if validate_session_id sid then Q () s else E (BadSessionId sid) s)"
  by (simp add: check_id_def wp_return wp_raise)

lemma wp_change [wp_simps]: "sv_wp (change_dir now sid f) Q E s =
    (if validate_session_id sid then Q () (in_dir now sid f s) else E (BadSessionId sid) s)"
  by (simp add: change_dir_def wp_simps)

lemma wp_count [wp_simps]: "sv_wp (count_events sid) Q E s =
    (if validate_session_id sid then Q (length (replay_of s sid)) s else E (BadSessionId sid) s)"
  by (simp add: count_events_def wp_simps)

section \<open>The lifecycle\<close>

fun session_table :: "session_status \<Rightarrow> session_status list" where
  "session_table OS_Active = [OS_Completed, OS_Suspended, OS_Crashed]"
| "session_table OS_Suspended = [OS_Active, OS_Completed, OS_Suspended, OS_Archived]"
| "session_table OS_Crashed = [OS_Active, OS_Archived]"
| "session_table OS_Completed = [OS_Archived]"
| "session_table OS_Archived = []"

definition disk_status :: "sessions_st \<Rightarrow> string \<Rightarrow> session_status option" where
  "disk_status s i = map_option os_status (on_disk s i)"

text \<open>A session moves along the table, and is removed from the archive only.\<close>

fun moved :: "session_status option \<Rightarrow> session_status option \<Rightarrow> bool" where
  "moved None t = (t = None)"
| "moved (Some s) None = reach session_table s OS_Archived"
| "moved (Some s) (Some t) = reach session_table s t"

lemma moved_refl [simp]: "moved s s"
  by (cases s) simp_all

lemma moved_trans: "moved s t \<Longrightarrow> moved t u \<Longrightarrow> moved s u"
  by (cases s; cases t; cases u) (auto intro: reach_trans)

lemma moved_edge: "t \<in> set (session_table s) \<Longrightarrow> moved (Some s) (Some t)"
  by (simp add: reach_edge)

text \<open>What holds between the operations of the process \<open>pid\<close>: a session of the cache is active, also on disk, and locked by it.\<close>

definition steady :: "int \<Rightarrow> sessions_st \<Rightarrow> bool" where
  "steady pid s \<longleftrightarrow> (\<forall>i x. on_disk s i = Some x \<longrightarrow> os_id x = i) \<and>
     (\<forall>i x. od_get (ss_active s) i = Some x \<longrightarrow> os_id x = i \<and> os_status x = OS_Active \<and> disk_status s i = Some OS_Active \<and> lock_of s i = Some pid)"

definition good :: "int \<Rightarrow> string \<Rightarrow> sessions_st \<Rightarrow> sessions_st \<Rightarrow> bool" where
  "good pid k s t \<longleftrightarrow> (steady pid s \<longrightarrow> steady pid t \<and> moved (disk_status s k) (disk_status t k))"

lemma good_refl [simp]: "good pid k s s"
  by (simp add: good_def)

lemma good_trans: "good pid k s t \<Longrightarrow> good pid k t u \<Longrightarrow> good pid k s u"
  by (auto simp: good_def intro: moved_trans)

definition sound :: "int \<Rightarrow> string \<Rightarrow> 'a session_svc \<Rightarrow> bool" where
  "sound pid k m \<longleftrightarrow> (\<forall>s. good pid k s (snd (m s)))"

lemma sound_wp: "(\<And>s. steady pid s \<Longrightarrow> sv_wp m (\<lambda>_ t. good pid k s t) (\<lambda>_ t. good pid k s t) s) \<Longrightarrow> sound pid k m"
  unfolding sound_def sv_wp_def good_def by (fastforce split: prod.splits sum.splits)

lemma wp_need: "steady pid s \<Longrightarrow> (\<And>e. E e s) \<Longrightarrow>
    (\<And>x. os_id x = sid \<Longrightarrow> disk_status s sid = Some (os_status x) \<Longrightarrow>
       od_get (ss_active s) sid = None \<or> os_status x = OS_Active \<and> lock_of s sid = Some pid \<Longrightarrow> Q x s) \<Longrightarrow> sv_wp (need_session sid) Q E s"
proof (cases "od_get (ss_active s) sid")
  case None
  assume steady: "steady pid s" and E: "\<And>e. E e s" and Q: "\<And>x. os_id x = sid \<Longrightarrow> disk_status s sid = Some (os_status x) \<Longrightarrow>
       od_get (ss_active s) sid = None \<or> os_status x = OS_Active \<and> lock_of s sid = Some pid \<Longrightarrow> Q x s"
  have load: "sv_wp (load_session sid) Q' E' s = (if validate_session_id sid then Q' (on_disk s sid) s else E' (BadSessionId sid) s)" for Q' E'
    by (simp add: load_session_def wp_simps on_disk_def)
  show ?thesis
  proof (cases "on_disk s sid")
    case None
    with \<open>od_get (ss_active s) sid = None\<close> E show ?thesis by (simp add: need_session_def get_session_def wp_simps load)
  next
    case (Some x)
    with steady have "os_id x = sid" by (simp add: steady_def)
    with Some None Q E show ?thesis by (simp add: need_session_def get_session_def wp_simps load disk_status_def)
  qed
next
  case (Some x)
  assume steady: "steady pid s" and Q: "\<And>x. os_id x = sid \<Longrightarrow> disk_status s sid = Some (os_status x) \<Longrightarrow>
       od_get (ss_active s) sid = None \<or> os_status x = OS_Active \<and> lock_of s sid = Some pid \<Longrightarrow> Q x s"
  from steady Some have "os_id x = sid \<and> disk_status s sid = Some (os_status x) \<and> os_status x = OS_Active \<and> lock_of s sid = Some pid" by (simp add: steady_def)
  with Some Q show ?thesis by (simp add: need_session_def get_session_def wp_simps)
qed

text \<open>Effects of the writes of the operations\<close>

lemma writes [simp]:
  "on_disk (in_dir now sid (\<lambda>d. d\<lparr>sd_session := Holds x\<rparr>) s) i = (if i = sid then Some x else on_disk s i)"
  "lock_of (in_dir now sid (\<lambda>d. d\<lparr>sd_session := Holds x\<rparr>) s) i = lock_of s i"
  "on_disk (in_dir now sid (\<lambda>d. d\<lparr>sd_lock := l\<rparr>) s) i = on_disk s i"
  "lock_of (in_dir now sid (\<lambda>d. d\<lparr>sd_lock := l\<rparr>) s) i = (if i = sid then l else lock_of s i)"
  "on_disk (in_dir now sid (\<lambda>d. d\<lparr>sd_replay := r d\<rparr>) s) i = on_disk s i"
  "lock_of (in_dir now sid (\<lambda>d. d\<lparr>sd_replay := r d\<rparr>) s) i = lock_of s i"
  "on_disk (in_dir now sid (\<lambda>d. d\<lparr>sd_saved_at := c\<rparr>) s) i = on_disk s i"
  "lock_of (in_dir now sid (\<lambda>d. d\<lparr>sd_saved_at := c\<rparr>) s) i = lock_of s i"
  "on_disk (in_dir now sid (\<lambda>d. d\<lparr>sd_replay := None, sd_rotated := q d\<rparr>) s) i = on_disk s i"
  "lock_of (in_dir now sid (\<lambda>d. d\<lparr>sd_replay := None, sd_rotated := q d\<rparr>) s) i = lock_of s i"
  by (simp_all add: dir_session dir_lock dir_rest)

definition unlocked :: "int \<Rightarrow> string \<Rightarrow> sessions_st \<Rightarrow> sessions_st" where
  "unlocked now sid s = (if od_get (ss_disk s) sid = None then s else in_dir now sid (\<lambda>d. d\<lparr>sd_lock := None\<rparr>) s)"

lemma unlocked [simp]: "on_disk (unlocked now sid s) i = on_disk s i" "lock_of (unlocked now sid s) i = (if i = sid then None else lock_of s i)"
  "ss_active (unlocked now sid s) = ss_active s"
  by (auto simp: unlocked_def lock_of_def [of s])

lemma wp_unlock [wp_simps]: "sv_wp (remove_lock now sid) Q E s =
    (if validate_session_id sid then Q () (unlocked now sid s) else E (BadSessionId sid) s)"
  by (simp add: remove_lock_def wp_simps unlocked_def)

lemma wp_get_case: "sv_wp (case v of None \<Rightarrow> m | Some x \<Rightarrow> f x) Q E = (case v of None \<Rightarrow> sv_wp m Q E | Some x \<Rightarrow> sv_wp (f x) Q E)"
  by (simp split: option.split)

text \<open>The log is rotated without a trace in what matters here.\<close>

lemma wp_rotate:
  assumes "validate_session_id sid" and "\<And>b t. (\<And>i. on_disk t i = on_disk s i) \<Longrightarrow> (\<And>i. lock_of t i = lock_of s i) \<Longrightarrow> ss_active t = ss_active s \<Longrightarrow> Q b t"
  shows "sv_wp (rotate_replay_log env now sid) Q E s"
  using assms(1) by (auto simp: rotate_replay_log_def wp_simps wp_get_case split: option.split intro!: assms(2))

lemmas op_defs = save_session_def write_lock_def append_event_def save_checkpoint_def fire_hooks_def put_active_def alias_active_def
  clear_terminal_state_def

lemma sameI: "steady pid s \<Longrightarrow> (\<And>i. on_disk t i = on_disk s i) \<Longrightarrow> (\<And>i. lock_of t i = lock_of s i) \<Longrightarrow> ss_active t = ss_active s \<Longrightarrow> good pid k s t"
  by (simp add: good_def steady_def disk_status_def)

text \<open>One session changes, on disk and perhaps in the cache.\<close>

lemma oneI:
  assumes "steady pid s" and "\<And>i. i \<noteq> sid \<Longrightarrow> on_disk t i = on_disk s i \<and> lock_of t i = lock_of s i \<and> od_get (ss_active t) i = od_get (ss_active s) i"
    and "\<exists>y. on_disk t sid = Some y \<and> os_id y = sid \<and> moved (disk_status s sid) (Some (os_status y)) \<and>
      (\<forall>x. od_get (ss_active t) sid = Some x \<longrightarrow> os_id x = sid \<and> os_status x = OS_Active \<and> os_status y = OS_Active \<and> lock_of t sid = Some pid)"
  shows "good pid k s t"
proof -
  from assms(3) obtain y where y: "on_disk t sid = Some y" "os_id y = sid" "moved (disk_status s sid) (Some (os_status y))"
    "\<And>x. od_get (ss_active t) sid = Some x \<Longrightarrow> os_id x = sid \<and> os_status x = OS_Active \<and> os_status y = OS_Active \<and> lock_of t sid = Some pid" by blast
  have "steady pid t" unfolding steady_def
  proof (intro conjI allI impI)
    fix i x assume "on_disk t i = Some x"
    with assms(1,2) y show "os_id x = i" by (cases "i = sid") (auto simp: steady_def)
  next
    fix i x assume x: "od_get (ss_active t) i = Some x"
    show "os_id x = i" "os_status x = OS_Active" "disk_status t i = Some OS_Active" "lock_of t i = Some pid"
      using x assms(1,2) y by (cases "i = sid"; simp add: steady_def disk_status_def)+
  qed
  moreover have "moved (disk_status s k) (disk_status t k)"
    using assms(2) [of k] y by (cases "k = sid") (simp_all add: disk_status_def)
  ultimately show ?thesis by (simp add: good_def)
qed

lemma line_same [simp]: "os_status (refresh_line env y) = os_status y" "os_id (refresh_line env y) = os_id y"
  by (simp_all add: refresh_line_def split: option.split)

lemmas one_wp = op_defs wp_simps Let_def

lemma sound_end: "sound (se_pid env) k (end_session env now sid status)"
proof (rule sound_wp)
  fix s assume s: "steady (se_pid env) s"
  show "sv_wp (end_session env now sid status) (\<lambda>_ t. good (se_pid env) k s t) (\<lambda>_ t. good (se_pid env) k s t) s"
    unfolding end_session_def Let_def wp_bind
    by (rule wp_need [OF s]) (auto simp: one_wp od.get_del intro!: oneI [OF s, where sid = sid] reach_edge)
qed

lemma sound_resume: "sound (se_pid env) k (resume_session env now sid)"
proof (rule sound_wp)
  fix s assume s: "steady (se_pid env) s"
  show "sv_wp (resume_session env now sid) (\<lambda>_ t. good (se_pid env) k s t) (\<lambda>_ t. good (se_pid env) k s t) s"
    unfolding resume_session_def Let_def wp_bind
    by (rule wp_need [OF s]) (auto simp: one_wp od.get_put intro!: oneI [OF s, where sid = sid] reach_edge)
qed

lemma sound_add_task: "sound (se_pid env) k (add_task now sid tid description)"
proof (rule sound_wp)
  fix s assume s: "steady (se_pid env) s"
  show "sv_wp (add_task now sid tid description) (\<lambda>_ t. good (se_pid env) k s t) (\<lambda>_ t. good (se_pid env) k s t) s"
    unfolding add_task_def Let_def wp_bind
    by (rule wp_need [OF s]) (auto simp: one_wp od.get_put intro!: oneI [OF s, where sid = sid])
qed

lemma sound_update_task: "sound (se_pid env) k (update_task now sid tid status)"
proof (rule sound_wp)
  fix s assume s: "steady (se_pid env) s"
  show "sv_wp (update_task now sid tid status) (\<lambda>_ t. good (se_pid env) k s t) (\<lambda>_ t. good (se_pid env) k s t) s"
  proof (cases "task_status_of status")
    case (Some st)
    show ?thesis unfolding update_task_def Some option.case Let_def wp_bind
    proof (rule wp_need [OF s], goal_cases)
      case (2 x)
      then show ?case
        by (cases "change_task tid (\<lambda>t. t\<lparr>tk_status := st, tk_completed := (if st = TS_Done then Some now else tk_completed t)\<rparr>) (os_tasks x)")
           (auto simp: one_wp od.get_put intro!: oneI [OF s, where sid = sid])
    qed simp
  qed (simp add: update_task_def wp_raise)
qed

lemma sound_checkpoint: "sound (se_pid env) k (checkpoint_session env now sid)"
proof (rule sound_wp)
  fix s assume s: "steady (se_pid env) s"
  show "sv_wp (checkpoint_session env now sid) (\<lambda>_ t. good (se_pid env) k s t) (\<lambda>_ t. good (se_pid env) k s t) s"
    unfolding checkpoint_session_def Let_def wp_bind
    by (rule wp_need [OF s]) (auto simp: one_wp od.get_put intro!: wp_rotate oneI [OF s, where sid = sid])
qed

lemma sound_archive: "sound (se_pid env) k (archive_session now sid)"
proof (rule sound_wp)
  fix s assume s: "steady (se_pid env) s"
  show "sv_wp (archive_session now sid) (\<lambda>_ t. good (se_pid env) k s t) (\<lambda>_ t. good (se_pid env) k s t) s"
    unfolding archive_session_def Let_def wp_bind
  proof (rule wp_need [OF s], goal_cases)
    case (2 x)
    then show ?case
      by (cases "os_status x") (auto simp: one_wp od.get_put intro!: oneI [OF s, where sid = sid] reach_edge)
  qed simp
qed

lemma wp_start:
  assumes "steady (se_pid env) s" and "sid \<noteq> k" and "E (BadSessionId sid) s"
    and "\<And>y t. os_id y = sid \<Longrightarrow> os_status y = OS_Active \<Longrightarrow> validate_session_id sid \<Longrightarrow> od_get (ss_active t) sid = Some y \<Longrightarrow>
      lock_of t sid = Some (se_pid env) \<Longrightarrow> (\<And>i. i \<noteq> sid \<Longrightarrow> on_disk t i = on_disk s i \<and> lock_of t i = lock_of s i \<and> od_get (ss_active t) i = od_get (ss_active s) i) \<Longrightarrow>
      on_disk t sid = Some y \<Longrightarrow> Q y t"
  shows "sv_wp (start_session env now sid purpose ctx tenant) Q E s"
  using assms(3) by (auto simp: start_session_def one_wp od.get_put intro!: assms(4))

text \<open>A new session: its id was not in use.\<close>

lemma freshI:
  assumes "steady pid s" and "sid \<noteq> k" and "\<And>i. i \<noteq> sid \<Longrightarrow> on_disk t i = on_disk s i \<and> lock_of t i = lock_of s i \<and> od_get (ss_active t) i = od_get (ss_active s) i"
    and "on_disk t sid = Some y" and "od_get (ss_active t) sid = Some y" and "os_id y = sid" and "os_status y = OS_Active" and "lock_of t sid = Some pid"
  shows "good pid k s t"
proof -
  have "steady pid t" unfolding steady_def
  proof (intro conjI allI impI)
    fix i x assume "on_disk t i = Some x"
    with assms show "os_id x = i" by (cases "i = sid") (auto simp: steady_def)
  next
    fix i x assume x: "od_get (ss_active t) i = Some x"
    show "os_id x = i" "os_status x = OS_Active" "disk_status t i = Some OS_Active" "lock_of t i = Some pid"
      using x assms by (cases "i = sid"; simp add: steady_def disk_status_def)+
  qed
  then show ?thesis using assms(2) assms(3) [of k] by (simp add: good_def disk_status_def)
qed

lemma sound_start: "sid \<noteq> k \<Longrightarrow> sound (se_pid env) k (start_session env now sid purpose ctx tenant)"
  by (rule sound_wp, rule wp_start) (auto intro: freshI)

lemma sound_spawn:
  assumes "sid \<noteq> k" shows "sound (se_pid env) k (spawn_session env templates now sid r tenant)"
proof (rule sound_wp)
  fix s assume s: "steady (se_pid env) s"
  have started: "sv_wp (start_session env now sid purpose ctx tenant)
      (\<lambda>x. sv_wp (sv_bind (alias_active sid (x\<lparr>os_parent := Some p\<rparr>)) (\<lambda>_. sv_bind (save_session now (x\<lparr>os_parent := Some p\<rparr>)) (\<lambda>_. sv_return (x\<lparr>os_parent := Some p\<rparr>))))
        (\<lambda>_ t. good (se_pid env) k s t) (\<lambda>_ t. good (se_pid env) k s t)) (\<lambda>_ t. good (se_pid env) k s t) s" for purpose ctx p
    by (rule wp_start [OF s assms]) (auto simp: one_wp od.get_put intro!: freshI [OF s assms])
  show "sv_wp (spawn_session env templates now sid r tenant) (\<lambda>_ t. good (se_pid env) k s t) (\<lambda>_ t. good (se_pid env) k s t) s"
    unfolding spawn_session_def Let_def wp_bind
    by (rule wp_need [OF s]) (auto simp: wp_if wp_return wp_raise wp_get_case started [unfolded wp_bind wp_return] split: option.split)
qed

lemma sound_log: "sound (se_pid env) k (log_event sid e)"
proof (rule sound_wp)
  fix s assume s: "steady (se_pid env) s"
  show "sv_wp (log_event sid e) (\<lambda>_ t. good (se_pid env) k s t) (\<lambda>_ t. good (se_pid env) k s t) s"
  proof (cases "od_get (ss_active s) sid")
    case None
    then show ?thesis by (auto simp: log_event_def one_wp wp_get_case intro!: sameI [OF s])
  next
    case (Some x)
    with s have "os_id x = sid" "os_status x = OS_Active" "lock_of s sid = Some (se_pid env)" "disk_status s sid = Some OS_Active"
      by (simp_all add: steady_def)
    moreover from this(4) obtain y where "on_disk s sid = Some y" "os_status y = OS_Active" by (auto simp: disk_status_def)
    moreover from this s have "os_id y = sid" by (simp add: steady_def)
    ultimately show ?thesis using Some
      by (auto simp: log_event_def one_wp wp_get_case od.get_put intro!: oneI [OF s, where sid = sid])
  qed
qed
section \<open>Crashes, clean-up and shutdown\<close>

lemma lost_fields:
  assumes "steady pid s" and "lost_session env tenant s i = Some x" and "se_alive env pid"
  shows "on_disk s i = Some x" "os_id x = i" "os_status x = OS_Active" "od_get (ss_active s) i = None"
    "\<not> (\<exists>p. lock_of s i = Some p \<and> se_alive env p)"
proof -
  from assms(2) show x: "on_disk s i = Some x" "os_status x = OS_Active" and dead: "\<not> (\<exists>p. lock_of s i = Some p \<and> se_alive env p)"
    by (auto simp: lost_session_def is_process_alive_def lock_of_def split: option.splits if_splits)
  from x assms(1) show "os_id x = i" by (simp add: steady_def)
  from dead assms(1,3) show "od_get (ss_active s) i = None" unfolding steady_def by (cases "od_get (ss_active s) i") auto
qed

lemma sound_crashed:
  assumes "se_alive env pid"
  shows "sound pid k (mark_crashed env now tenant is)"
proof (induction "is")
  case (Cons i "is")
  show ?case
  proof (rule sound_wp)
    fix s assume s: "steady pid s"
    show "sv_wp (mark_crashed env now tenant (i # is)) (\<lambda>_ t. good pid k s t) (\<lambda>_ t. good pid k s t) s"
    proof (cases "lost_session env tenant s i")
      case None
      have "good pid k s (snd (mark_crashed env now tenant is s))" using Cons unfolding sound_def by blast
      with None show ?thesis by (simp add: wp_simps) (auto simp: sv_wp_def split: prod.split sum.split)
    next
      case (Some x)
      note x = lost_fields [OF s Some assms]
      let ?t = "unlocked now i (in_dir now i (\<lambda>d. d\<lparr>sd_session := Holds (x\<lparr>os_status := OS_Crashed, os_updated := now\<rparr>)\<rparr>) s)"
      have "good pid k s ?t" using x by (intro oneI [OF s, where sid = i]) (auto simp: disk_status_def intro!: reach_edge)
      moreover have "good pid k ?t (snd (mark_crashed env now tenant is ?t))" using Cons unfolding sound_def by blast
      ultimately have "good pid k s (snd (mark_crashed env now tenant is ?t))" by (rule good_trans)
      then have "sv_wp (mark_crashed env now tenant is) (\<lambda>_ t. good pid k s t) (\<lambda>_ t. good pid k s t) ?t"
        by (auto simp: sv_wp_def split: prod.split sum.split)
      with Some x show ?thesis by (simp add: wp_simps Let_def save_session_def)
    qed
  qed
qed (simp add: sound_def sv_return_def)

lemma sound_detect: "se_alive env pid \<Longrightarrow> sound pid k (detect_incomplete env now tenant)"
  using sound_crashed [of env pid k now tenant] by (simp add: detect_incomplete_def sound_def sv_bind_def sv_get_def)

lemma on_disk_deleted: "on_disk (s\<lparr>ss_disk := od_del j (ss_disk s)\<rparr>) i = (if i = j then None else on_disk s i)"
  "lock_of (s\<lparr>ss_disk := od_del j (ss_disk s)\<rparr>) i = (if i = j then None else lock_of s i)"
  by (simp_all add: on_disk_def lock_of_def od.get_del)

lemma removed_good:
  assumes "steady pid s" and "disk_status s i \<in> {None, Some OS_Archived}" and "\<And>j. on_disk t j = (if j = i then None else on_disk s j)"
    and "\<And>j. lock_of t j = (if j = i then None else lock_of s j)" and "ss_active t = ss_active s"
  shows "good pid k s t"
proof -
  have none: "od_get (ss_active s) i = None" using assms(1,2) unfolding steady_def by (cases "od_get (ss_active s) i") auto
  have "steady pid t" using assms none unfolding steady_def disk_status_def by auto
  moreover have "moved (disk_status s k) (disk_status t k)"
    using assms(2,3) by (cases "k = i") (auto simp: disk_status_def)
  ultimately show ?thesis by (simp add: good_def)
qed

lemma sound_removed:
  "steady pid s \<Longrightarrow> \<forall>i \<in> set is. disk_status s i \<in> {None, Some OS_Archived} \<Longrightarrow> good pid k s (snd (remove_archived is s))"
proof (induction "is" arbitrary: s)
  case (Cons i "is")
  let ?s = "s\<lparr>ss_cleaned := ss_cleaned s @ [i]\<rparr>"
  let ?t = "?s\<lparr>ss_disk := od_del i (ss_disk s)\<rparr>"
  have same: "good pid k s ?s" using Cons.prems(1) by (rule sameI) simp_all
  have disk: "on_disk ?t j = (if j = i then None else on_disk s j)" "lock_of ?t j = (if j = i then None else lock_of s j)" for j
    using on_disk_deleted [where s = ?s and j = i and i = j] by simp_all
  then have step: "good pid k s ?t" using Cons.prems by (intro removed_good [where i = i]) auto
  with Cons.prems(1) have "steady pid ?t" by (simp add: good_def)
  moreover have "\<forall>j \<in> set is. disk_status ?t j \<in> {None, Some OS_Archived}" using Cons.prems(2) by (auto simp: disk_status_def disk)
  ultimately have "good pid k ?t (snd (remove_archived is ?t))" by (rule Cons.IH)
  with step have "good pid k s (snd (remove_archived is ?t))" by (rule good_trans)
  with same show ?case
    by (auto simp: clear_terminal_state_def delete_session_def check_id_def sv_bind_def sv_modify_def sv_get_def sv_return_def sv_raise_def
        split: prod.split sum.split)
qed (simp add: sv_return_def)

lemma listed: "x \<in> set (list_sessions st limit tenant s) \<Longrightarrow> \<exists>i. on_disk s i = Some x \<and> (st = None \<or> st = Some (os_status x))"
  unfolding list_sessions_def by (drule in_set_takeD) (auto simp: map_filter_def)

lemma sound_clean_archive: "sound pid k (cleanup_archived now days)"
proof -
  have "steady pid s \<Longrightarrow> \<forall>x \<in> set (list_sessions (Some OS_Archived) 10000 None s). disk_status s (os_id x) = Some OS_Archived" for s
    by (auto dest!: listed simp: steady_def disk_status_def)
  then have "steady pid s \<Longrightarrow> good pid k s (snd (cleanup_archived now days s))" for s
    unfolding cleanup_archived_def sv_bind_def sv_get_def by (auto intro!: sound_removed)
  then show ?thesis unfolding sound_def good_def by blast
qed

text \<open>Shutting down leaves every session as active as it was, without its lock.\<close>

definition kept :: "sessions_st \<Rightarrow> bool" where
  "kept s \<longleftrightarrow> (\<forall>i x. on_disk s i = Some x \<longrightarrow> os_id x = i)"

lemma flush_status:
  assumes "kept s" and "os_id x = i" and "disk_status s i = Some (os_status x)"
  shows "kept (snd (flush_session now (i, x) s)) \<and> disk_status (snd (flush_session now (i, x) s)) = disk_status s"
proof -
  have "sv_wp (flush_session now (i, x)) (\<lambda>_ t. kept t \<and> disk_status t = disk_status s) (\<lambda>_ t. kept t \<and> disk_status t = disk_status s) s"
    using assms by (auto simp: flush_session_def one_wp kept_def disk_status_def fun_eq_iff)
  then show ?thesis by (auto simp: sv_wp_def split: prod.splits sum.splits)
qed

lemma flush_all_status: "kept s \<Longrightarrow> \<forall>(i, x) \<in> set ps. os_id x = i \<and> disk_status s i = Some (os_status x) \<Longrightarrow>
    kept (snd (flush_all now ps s)) \<and> disk_status (snd (flush_all now ps s)) = disk_status s"
proof (induction ps arbitrary: s)
  case (Cons p ps)
  obtain i x where p: "p = (i, x)" by (cases p)
  let ?t = "snd (flush_session now (i, x) s)"
  from Cons.prems p have t: "kept ?t" "disk_status ?t = disk_status s" using flush_status [of s x i now] by auto
  with Cons.prems have "kept (snd (flush_all now ps ?t)) \<and> disk_status (snd (flush_all now ps ?t)) = disk_status ?t"
    by (intro Cons.IH) auto
  with t p show ?case by (cases "flush_session now (i, x) s") (simp add: sv_bind_def sv_attempt_def)
qed (simp add: sv_return_def)

lemma flush_all_ok: "fst (flush_all now ps s) = Inr ()"
  by (induction ps arbitrary: s) (simp_all add: sv_return_def sv_bind_def sv_attempt_def split: prod.split)

definition wf_active :: "sessions_st \<Rightarrow> bool" where
  "wf_active s \<longleftrightarrow> od_wf (ss_active s)"

lemma active_entries:
  assumes "steady pid s" and "wf_active s" and "(i, x) \<in> set (ss_active s)"
  shows "os_id x = i \<and> disk_status s i = Some (os_status x)"
proof -
  from assms(2,3) have "od_get (ss_active s) i = Some x" by (simp add: wf_active_def od_wf_def od_keys_def)
  with assms(1) show ?thesis by (simp add: steady_def)
qed

lemma idle_steady: "ss_active s = [] \<Longrightarrow> kept s \<Longrightarrow> steady pid s"
  unfolding steady_def kept_def by simp

lemma steady_kept: "steady pid s \<Longrightarrow> kept s"
  unfolding steady_def kept_def by blast

lemma kept_active: "kept (s\<lparr>ss_active := a\<rparr>) = kept s" "disk_status (s\<lparr>ss_active := a\<rparr>) = disk_status s"
  by (simp_all add: kept_def disk_status_def fun_eq_iff)

lemma sound_shutdown:
  assumes "wf_active s" shows "good pid k s (snd (shutdown_sessions now s))"
proof (cases "flush_all now (ss_active s) s")
  case (Pair r t)
  then have t: "flush_all now (ss_active s) s = (Inr (), t)" using flush_all_ok [of now "ss_active s" s] by simp
  have stop: "shutdown_sessions now s = (Inr (), t\<lparr>ss_active := []\<rparr>)"
    using t by (simp add: shutdown_sessions_def sv_bind_def sv_get_def sv_modify_def)
  have "steady pid (t\<lparr>ss_active := []\<rparr>) \<and> disk_status (t\<lparr>ss_active := []\<rparr>) = disk_status s" if s: "steady pid s"
  proof -
    have "kept (snd (flush_all now (ss_active s) s)) \<and> disk_status (snd (flush_all now (ss_active s) s)) = disk_status s"
      by (rule flush_all_status [OF steady_kept [OF s]]) (use active_entries [OF s assms] in blast)
    then have "kept t" "disk_status t = disk_status s" unfolding t snd_conv by blast+
    then show ?thesis by (intro conjI idle_steady) (simp_all add: kept_active)
  qed
  with stop show ?thesis by (simp add: good_def)
qed

lemma wf_steps: "keeps wf_active (change_dir now sid f)" "keeps wf_active (check_id sid)" "keeps wf_active (count_events sid)"
  "keeps wf_active (put_active x)" "keeps wf_active (alias_active sid x)" "keeps wf_active (fire_hooks ev x)"
  "keeps wf_active (clear_terminal_state sid)" "keeps wf_active (remove_lock now sid)" "keeps wf_active (rotate_replay_log env now sid)"
  "keeps wf_active (need_session sid)" "keeps wf_active (delete_session sid)"
  "keeps wf_active (sv_modify (\<lambda>s. s\<lparr>ss_active := od_del sid (ss_active s)\<rparr>))"
  unfolding change_dir_def check_id_def count_events_def put_active_def alias_active_def fire_hooks_def clear_terminal_state_def
    remove_lock_def rotate_replay_log_def need_session_def get_session_def load_session_def delete_session_def
  by (intro keeps_intro keeps_cases; simp add: wf_active_def od.wf_put od.wf_del)+

lemma wf_writes: "keeps wf_active (save_session now x)" "keeps wf_active (write_lock env now sid)" "keeps wf_active (append_event sid e)"
  "keeps wf_active (save_checkpoint now x)"
  unfolding save_session_def write_lock_def append_event_def save_checkpoint_def by (rule wf_steps)+

lemmas wf_intros = keeps_intro keeps_cases wf_steps wf_writes

lemma wf_operations:
  "keeps wf_active (start_session env now sid purpose ctx tenant)" "keeps wf_active (end_session env now sid st)"
  "keeps wf_active (resume_session env now sid)" "keeps wf_active (checkpoint_session env now sid)"
  "keeps wf_active (add_task now sid tid description)" "keeps wf_active (update_task now sid tid status)"
  "keeps wf_active (log_event sid e)" "keeps wf_active (archive_session now sid)"
  unfolding start_session_def end_session_def resume_session_def checkpoint_session_def add_task_def update_task_def log_event_def
    archive_session_def Let_def
  by (intro wf_intros)+

lemma wf_spawn: "keeps wf_active (spawn_session env templates now sid r tenant)"
  unfolding spawn_session_def Let_def by (intro wf_intros wf_operations)

lemma wf_crashed: "keeps wf_active (mark_crashed env now tenant is)"
proof (induction "is")
  case (Cons i "is")
  show ?case unfolding mark_crashed.simps Let_def by (intro wf_intros Cons)
qed (simp add: keeps_return)

lemma wf_removed: "keeps wf_active (remove_archived is)"
proof (induction "is")
  case (Cons i "is")
  show ?case unfolding remove_archived.simps by (intro wf_intros Cons)
qed (simp add: keeps_return)

lemma wf_flushed: "keeps wf_active (flush_all now ps)"
proof (induction ps)
  case (Cons p ps)
  show ?case unfolding flush_all.simps flush_session_def Let_def by (intro wf_intros Cons)
qed (simp add: keeps_return)

lemma wf_rest: "keeps wf_active (detect_incomplete env now tenant)" "keeps wf_active (cleanup_archived now days)"
  "keeps wf_active (shutdown_sessions now)"
  unfolding detect_incomplete_def cleanup_archived_def shutdown_sessions_def
  by (intro wf_intros wf_crashed wf_removed wf_flushed; simp add: wf_active_def od_wf_def od_keys_def)+
section \<open>Histories\<close>

datatype session_op =
    SsStart int string string "(string, string) odict" string
  | SsEnd int string session_status
  | SsResume int string
  | SsCheckpoint int string
  | SsAddTask int string string string
  | SsUpdateTask int string string string
  | SsLog string session_event
  | SsDetect int "string option" "int list"
  | SsArchive int string
  | SsCleanArchive int int
  | SsSpawn "(string, spawn_template) odict" int string spawn_request string
  | SsShutdown int
  | SsRetain
  | SsProcess int

text \<open>
  \<open>SsProcess pid\<close>: the process ends, with or without a shutdown before, and a new one with the identifier \<open>pid\<close> starts on
  the same disk.  \<open>SsDetect\<close> has the processes that run; the own one is among them.
\<close>

fun session_run :: "session_env \<Rightarrow> session_op \<Rightarrow> int \<times> sessions_st \<Rightarrow> int \<times> sessions_st" where
  "session_run env (SsStart now sid purpose ctx tenant) (pid, s) = (pid, snd (start_session (env\<lparr>se_pid := pid\<rparr>) now sid purpose ctx tenant s))"
| "session_run env (SsEnd now sid status) (pid, s) = (pid, snd (end_session (env\<lparr>se_pid := pid\<rparr>) now sid status s))"
| "session_run env (SsResume now sid) (pid, s) = (pid, snd (resume_session (env\<lparr>se_pid := pid\<rparr>) now sid s))"
| "session_run env (SsCheckpoint now sid) (pid, s) = (pid, snd (checkpoint_session (env\<lparr>se_pid := pid\<rparr>) now sid s))"
| "session_run env (SsAddTask now sid tid description) (pid, s) = (pid, snd (add_task now sid tid description s))"
| "session_run env (SsUpdateTask now sid tid status) (pid, s) = (pid, snd (update_task now sid tid status s))"
| "session_run env (SsLog sid e) (pid, s) = (pid, snd (log_event sid e s))"
| "session_run env (SsDetect now tenant running) (pid, s) =
     (pid, snd (detect_incomplete (env\<lparr>se_pid := pid, se_alive := \<lambda>p. p = pid \<or> p \<in> set running\<rparr>) now tenant s))"
| "session_run env (SsArchive now sid) (pid, s) = (pid, snd (archive_session now sid s))"
| "session_run env (SsCleanArchive now days) (pid, s) = (pid, snd (cleanup_archived now days s))"
| "session_run env (SsSpawn templates now sid r tenant) (pid, s) = (pid, snd (spawn_session (env\<lparr>se_pid := pid\<rparr>) templates now sid r tenant s))"
| "session_run env (SsShutdown now) (pid, s) = (pid, snd (shutdown_sessions now s))"
| "session_run env SsRetain (pid, s) = (pid, snd (cleanup_old_sessions env s))"
| "session_run env (SsProcess new) (pid, s) = (new, restart_sessions s)"

text \<open>No clean-up of old sessions, and \<open>k\<close> is not the identifier of a new session.\<close>

fun leaves_id :: "string \<Rightarrow> session_op \<Rightarrow> bool" where
  "leaves_id k (SsStart now sid purpose ctx tenant) = (sid \<noteq> k)"
| "leaves_id k (SsSpawn templates now sid r tenant) = (sid \<noteq> k)"
| "leaves_id k SsRetain = False"
| "leaves_id k _ = True"

definition settled :: "int \<times> sessions_st \<Rightarrow> bool" where
  "settled p \<longleftrightarrow> steady (fst p) (snd p) \<and> wf_active (snd p)"

lemma soundD: "sound pid k m \<Longrightarrow> steady pid s \<Longrightarrow> steady pid (snd (m s)) \<and> moved (disk_status s k) (disk_status (snd (m s)) k)"
  by (simp add: sound_def good_def)

lemma sound_at: "sound (se_pid (env\<lparr>se_pid := pid\<rparr>)) k m \<Longrightarrow> sound pid k m"
  by simp

lemma session_step:
  assumes "settled (pid, s)" and "leaves_id k op"
  shows "settled (session_run env op (pid, s)) \<and> moved (disk_status s k) (disk_status (snd (session_run env op (pid, s))) k)"
proof -
  have s: "steady pid s" "wf_active s" using assms(1) by (simp_all add: settled_def)
  have alive: "se_alive (env\<lparr>se_pid := pid, se_alive := \<lambda>p. p = pid \<or> p \<in> set running\<rparr>) pid" for running by simp
  have fresh: "settled (q, restart_sessions s)" "disk_status (restart_sessions s) = disk_status s" for q
    using steady_kept [OF s(1)]
    by (auto simp: settled_def restart_sessions_def wf_active_def od_wf_def od_keys_def kept_def on_disk_def disk_status_def fun_eq_iff intro!: idle_steady)
  note sounds = sound_at [OF sound_end] sound_at [OF sound_resume] sound_at [OF sound_checkpoint] sound_at [OF sound_add_task]
    sound_at [OF sound_update_task] sound_at [OF sound_log] sound_at [OF sound_archive] sound_clean_archive sound_detect [OF alive]
    sound_at [OF sound_start] sound_at [OF sound_spawn]
  note wfs = keepsD [OF wf_operations(1) s(2)] keepsD [OF wf_operations(2) s(2)] keepsD [OF wf_operations(3) s(2)]
    keepsD [OF wf_operations(4) s(2)] keepsD [OF wf_operations(5) s(2)] keepsD [OF wf_operations(6) s(2)] keepsD [OF wf_operations(7) s(2)]
    keepsD [OF wf_operations(8) s(2)] keepsD [OF wf_spawn s(2)] keepsD [OF wf_rest(1) s(2)] keepsD [OF wf_rest(2) s(2)] keepsD [OF wf_rest(3) s(2)]
  have shut: "steady pid (snd (shutdown_sessions now s)) \<and> moved (disk_status s k) (disk_status (snd (shutdown_sessions now s)) k)" for now
    using sound_shutdown [OF s(2), of pid k now] s(1) by (simp add: good_def)
  show ?thesis
    using assms(2) fresh shut wfs
    by (cases op) (simp_all add: settled_def soundD [OF sounds(1) s(1)] soundD [OF sounds(2) s(1)] soundD [OF sounds(3) s(1)]
      soundD [OF sounds(4) s(1)] soundD [OF sounds(5) s(1)] soundD [OF sounds(6) s(1)] soundD [OF sounds(7) s(1)] soundD [OF sounds(8) s(1)]
      soundD [OF sounds(9) s(1)] soundD [OF sounds(10) s(1)] soundD [OF sounds(11) s(1)])
qed

definition demo_session_env :: session_env where
  "demo_session_env = \<lparr>se_pid = 1, se_alive = \<lambda>p. p = 1, se_line = \<lambda>x. None, se_bytes = \<lambda>es. int (length es), se_max_bytes = 3, se_retained = 1\<rparr>"

definition demo_session :: operator_session where
  "demo_session = \<lparr>os_id = ''a'', os_purpose = [], os_status = OS_Active, os_started = 1, os_updated = 1, os_ended = None, os_tenant = [],
     os_tasks = [], os_summary = [], os_context = [], os_parent = None, os_line = None, os_events = 0, os_checkpoint = None\<rparr>"

text \<open>The process that started the session is gone.\<close>

definition one_session :: sessions_st where
  "one_session = \<lparr>ss_active = [], ss_disk = [(''a'', (new_dir 1)\<lparr>sd_session := Holds demo_session, sd_lock := Some 1\<rparr>)],
     ss_fired = [], ss_cleaned = []\<rparr>"

definition demo_history :: "session_op list" where
  "demo_history = [SsDetect 2 None [], SsArchive 5 ''a'']"


section \<open>Crash detection\<close>

text \<open>What one session of the list contributes\<close>

lemma marked_elsewhere:
  assumes "steady pid s" and "i \<noteq> j"
  shows "lost_session env tenant (unlocked now j (in_dir now j (\<lambda>d. d\<lparr>sd_session := Holds y\<rparr>) s)) i = lost_session env tenant s i"
proof -
  have "lost_session env tenant t i = (case on_disk t i of None \<Rightarrow> None | Some x \<Rightarrow>
      if (tenant = None \<or> tenant = Some (os_tenant x)) \<and> os_status x = OS_Active \<and> \<not> (case lock_of t i of None \<Rightarrow> False | Some p \<Rightarrow> se_alive env p)
      then Some x else None)" for t
    by (auto simp: lost_session_def is_process_alive_def lock_of_def split: option.split)
  with assms(2) show ?thesis by (simp cong: option.case_cong if_cong)
qed

lemma marked_lost:
  assumes "steady pid s" and "se_alive env pid" and "list_all validate_session_id is"
    and "mark_crashed env now tenant is s = (r, t)"
  shows "(\<exists>ys. r = Inr ys) \<and> disk_status t i = (if i \<in> set is \<and> lost_session env tenant s i \<noteq> None then Some OS_Crashed else disk_status s i)"
  using assms(1,3,4)
proof (induction "is" arbitrary: s r t)
  case (Cons j "is")
  show ?case
  proof (cases "lost_session env tenant s j")
    case None
    with Cons.prems have "mark_crashed env now tenant is s = (r, t)" by (simp add: sv_bind_def sv_get_def)
    with Cons.IH [OF Cons.prems(1) _ this] Cons.prems(2) None show ?thesis by auto
  next
    case (Some x)
    note x = lost_fields [OF Cons.prems(1) Some assms(2)]
    let ?y = "x\<lparr>os_status := OS_Crashed, os_updated := now\<rparr>"
    let ?u = "unlocked now j (in_dir now j (\<lambda>d. d\<lparr>sd_session := Holds ?y\<rparr>) s)"
    have "good pid i s ?u" using x by (intro oneI [OF Cons.prems(1), where sid = j]) (auto simp: disk_status_def intro!: reach_edge)
    with Cons.prems(1) have u: "steady pid ?u" by (simp add: good_def)
    have valid: "validate_session_id j" "list_all validate_session_id is" using Cons.prems(2) by simp_all
    obtain q v where rest: "mark_crashed env now tenant is ?u = (q, v)" by fastforce
    from Cons.IH [OF u valid(2) rest] obtain ys where q: "q = Inr ys"
      and v: "disk_status v i = (if i \<in> set is \<and> lost_session env tenant ?u i \<noteq> None then Some OS_Crashed else disk_status ?u i)" by blast
    from Cons.prems(3) Some rest q valid(1) x(2) have "r = Inr (?y # ys)" "t = v"
      by (simp_all add: sv_bind_def sv_get_def Let_def save_session_def change_dir_def check_id_def remove_lock_def sv_modify_def sv_return_def
          unlocked_def split: if_splits)
    moreover have "lost_session env tenant ?u j = None" using x by (simp add: lost_session_def)
    moreover have "i \<noteq> j \<Longrightarrow> lost_session env tenant ?u i = lost_session env tenant s i" by (rule marked_elsewhere [OF Cons.prems(1)])
    ultimately show ?thesis using v Some by (cases "i = j") (auto simp: disk_status_def)
  qed
qed (auto simp: sv_return_def)

lemma lost_listed: "lost_session env tenant s i \<noteq> None \<Longrightarrow> i \<in> set (list_session_ids s) \<longleftrightarrow> validate_session_id i"
proof -
  assume "lost_session env tenant s i \<noteq> None"
  then obtain d where "od_get (ss_disk s) i = Some d" "sd_session d \<noteq> NoFile"
    by (auto simp: lost_session_def on_disk_def split: option.splits json_file.splits)
  then have "(i, d) \<in> set (ss_disk s)" "sd_session d \<noteq> NoFile" by (auto dest: map_of_SomeD)
  then show ?thesis by (force simp: list_session_ids_def)
qed

text \<open>C40: The search for incomplete sessions marks exactly the sessions on disk that say they are active and whose lock is missing
or names a process that does not run; every other session keeps its status.\<close>

theorem detect_marks_exactly_lost:
  assumes "steady pid s" and "se_alive env pid"
  shows "disk_status (snd (detect_incomplete env now None s)) i =
    (if validate_session_id i \<and> disk_status s i = Some OS_Active \<and> \<not> (\<exists>p. lock_of s i = Some p \<and> se_alive env p)
     then Some OS_Crashed else disk_status s i)"
proof -
  obtain r t where run: "mark_crashed env now None (list_session_ids s) s = (r, t)" by fastforce
  have "list_all validate_session_id (list_session_ids s)" by (auto simp: list_session_ids_def list_all_iff)
  from marked_lost [OF assms this run] have
    "disk_status t i = (if i \<in> set (list_session_ids s) \<and> lost_session env None s i \<noteq> None then Some OS_Crashed else disk_status s i)" by blast
  moreover have "lost_session env None s i \<noteq> None \<longleftrightarrow> disk_status s i = Some OS_Active \<and> \<not> (\<exists>p. lock_of s i = Some p \<and> se_alive env p)"
    by (auto simp: lost_session_def disk_status_def is_process_alive_def lock_of_def split: option.split)
  ultimately show ?thesis using run lost_listed [of env None s i] by (auto simp: detect_incomplete_def sv_bind_def sv_get_def)
qed

theorem detect_marks_exactly_lost_witness:
  "disk_status (snd (detect_incomplete (demo_session_env\<lparr>se_alive := \<lambda>p. p = 2\<rparr>) 7 None one_session)) ''a'' = Some OS_Crashed"
proof -
  have "kept one_session" by (auto simp: kept_def on_disk_def one_session_def demo_session_def split: if_splits)
  then have steady: "steady 2 one_session" by (rule idle_steady [rotated]) (simp add: one_session_def)
  have "validate_session_id ''a''" "disk_status one_session ''a'' = Some OS_Active" "lock_of one_session ''a'' = Some 1" by code_simp+
  with detect_marks_exactly_lost [OF steady, of "demo_session_env\<lparr>se_alive := \<lambda>p. p = 2\<rparr>" 7 "''a''"] show ?thesis by simp
qed

section \<open>What the code allows\<close>

text \<open>A resumed session says that it was active before.\<close>

lemma previous_status_lost:
  "let s = one_session\<lparr>ss_disk := [(''a'', (new_dir 1)\<lparr>sd_session := Holds (demo_session\<lparr>os_status := OS_Suspended\<rparr>)\<rparr>)]\<rparr>
   in List.map ev_data (replay_of (snd (resume_session demo_session_env 3 ''a'' s)) ''a'') = [[(''previous_status'', ''active'')]]"
  by code_simp

text \<open>A session that was active when its process shut down in good order is a crashed one for the next process.\<close>

lemma clean_shutdown_is_crash:
  "let s = one_session\<lparr>ss_active := [(''a'', demo_session)]\<rparr>; t = restart_sessions (snd (shutdown_sessions 2 s))
   in disk_status (snd (detect_incomplete (demo_session_env\<lparr>se_alive := \<lambda>p. True\<rparr>) 3 None t)) ''a'' = Some OS_Crashed"
  by code_simp

text \<open>The clean-up of old sessions takes active ones as well, and they stay in the cache.\<close>

lemma cleanup_takes_active:
  "let s = one_session\<lparr>ss_active := [(''a'', demo_session)]\<rparr>; t = snd (cleanup_old_sessions (demo_session_env\<lparr>se_retained := 0\<rparr>) s)
   in disk_status t ''a'' = None \<and> od_get (ss_active t) ''a'' \<noteq> None"
  by code_simp

text \<open>A session is spawned from a parent in any status.\<close>

lemma any_parent_spawns:
  assumes "od_get (ss_active s) (sq_parent r) = None" and "on_disk s (sq_parent r) = Some x" and "sq_template r = []"
    and "validate_session_id (sq_parent r)" and "validate_session_id sid"
  shows "sv_wp (spawn_session env templates now sid r tenant) (\<lambda>_ t. disk_status t sid = Some OS_Active) (\<lambda>_ _. False) s"
proof -
  have load: "sv_wp (load_session i) Q E s = (if validate_session_id i then Q (on_disk s i) s else E (BadSessionId i) s)" for i Q E
    by (simp add: load_session_def wp_simps on_disk_def)
  show ?thesis using assms
    by (simp add: spawn_session_def need_session_def get_session_def start_session_def one_wp load disk_status_def)
qed

text \<open>When the log is rotated the count of events starts again.\<close>

lemma rotation_restarts_count:
  assumes "od_get (ss_disk s) sid = Some d" and "sd_replay d = Some es" and "se_max_bytes env \<le> se_bytes env es" and "validate_session_id sid"
  shows "fst (count_events sid (snd (rotate_replay_log env now sid s))) = Inr 0"
  using assms
  by (simp add: rotate_replay_log_def count_events_def check_id_def sv_bind_def sv_get_def sv_modify_def sv_return_def replay_of_def dir_get Let_def)

end
