(* ===== verification/Spec2Isabelle.thy ===== *)
theory Spec2Isabelle
  imports Review_Correct Executor_Correct Release_Correct Autonomy_Correct Connector_Correct Governance_Correct Pack_Registry_Correct Ingestion_Correct Plugins_Correct Hooks_Correct Tool_Loop_Correct Streaming_Correct Sessions_Correct
begin

text \<open>
  AGENT-33 is an engine for language-model agents.  This development models the parts of it, under
  \<open>src/engine/src/agent33/\<close>, that decide: which steps of a workflow run and in which order, which calls an agent may make,
  which releases, packs, plugins and assets come into use, who has to approve what, and how the state of all this survives
  a restart.  Files below are named relative to that directory.

  \<^bold>\<open>How the parts interact.\<close>

  An agent runs the tool loop (\<open>agents/tool_loop.py\<close>): it puts the conversation to a model and executes the tool calls of
  the answer.  A call passes the governance check (\<open>tools/governance.py\<close>), which reads permissions and consumes approvals
  (\<open>tools/approvals.py\<close>) and approval tokens (\<open>security/approval_tokens.py\<close>); the enforcer of an autonomy budget
  (\<open>autonomy/enforcement.py\<close>); and the hooks registered for the tenant (\<open>hooks/\<close>).  Calls that leave the process go through
  the connector boundary and its circuit breaker (\<open>connectors/\<close>).  A workflow (\<open>workflows/\<close>) is a graph of steps that the
  DAG builder orders and the executor runs.  What agents can use comes from packs (\<open>packs/\<close>), plugins (\<open>plugins/\<close>) and
  ingested assets (\<open>ingestion/\<close>); the review workflow (\<open>review/\<close>) and release automation (\<open>release/\<close>) guard changes to the
  system itself, and operator sessions (\<open>sessions/\<close>) record the work of its users.

  \<^bold>\<open>The theories.\<close>

  A component \<open>X\<close> has its state and operations in \<open>X.thy\<close> and what is proved of it in \<open>X_Correct.thy\<close>.

  \<^item> \<open>Prelude\<close>: the collections of simplification rules; Python dictionaries as association lists with the order of
    insertion; the monad \<open>('s, 'e, 'a) svc\<close> of calls that change a state and may raise, where a raise keeps the changes
    made before it, as in Python; the locales \<open>dict_store\<close> and \<open>meter\<close>.  \<open>PyText\<close>: the string methods of Python, \<open>fnmatch\<close>
    and the like.  \<open>Lifecycle\<close>: the locales \<open>transition_table\<close>, \<open>lifecycle_service\<close> and \<open>write_through\<close>.
  \<^item> \<open>Review\<close>: \<open>risk.py\<close>, \<open>assignment.py\<close>, \<open>state_machine.py\<close>, \<open>service.py\<close>.
  \<^item> \<open>Workflow_Def\<close>, \<open>Dag\<close>, \<open>Executor\<close>: \<open>definition.py\<close>, \<open>dag.py\<close>, and \<open>executor.py\<close> with the expressions and the composite
    actions \<open>conditional.py\<close> and \<open>parallel_group.py\<close>.
  \<^item> \<open>Release\<close>: \<open>checklist.py\<close>, \<open>sync.py\<close>, \<open>rollback.py\<close>, \<open>service.py\<close>, and the gate of \<open>security_gate.py\<close>.
  \<^item> \<open>Autonomy\<close>: \<open>enforcement.py\<close>, \<open>preflight.py\<close>, \<open>levels.py\<close>, \<open>service.py\<close>.
  \<^item> \<open>Breaker\<close>, \<open>Connector\<close>: \<open>circuit_breaker.py\<close>; governance, monitoring, middleware, executor and boundary of connectors.
  \<^item> \<open>Approvals\<close>, \<open>ApprovalTokens\<close>, \<open>Governance\<close>: \<open>tools/approvals.py\<close> with \<open>security/permissions.py\<close>;
    \<open>security/approval_tokens.py\<close> with \<open>arg_hash.py\<close>; \<open>tools/governance.py\<close>.
  \<^item> \<open>Pack_Version\<close>, \<open>Packs\<close>, \<open>Pack_Registry\<close>: \<open>packs/version.py\<close>; loading, trust and the local marketplace;
    \<open>packs/registry.py\<close> with the part of \<open>skills/registry.py\<close> it uses.
  \<^item> \<open>Ingestion\<close>: the asset service with its table, journal, intake, mailbox, validators and doctor.
  \<^item> \<open>Plugins\<close>: versions, registry, events, installer and configuration store of \<open>plugins/\<close>.
  \<^item> \<open>Hooks\<close>, \<open>Tool_Loop\<close>: the hook registry and its chains; the loop of \<open>tool_loop.py\<close> over whole responses (\<open>run_loop\<close>) and
    over streamed ones (\<open>stream_loop\<close>) with the assembly of streamed calls, of which \<open>Streaming_Correct\<close> treats.
  \<^item> \<open>Sessions\<close>: models, storage, service, archive and spawning of \<open>sessions/\<close>.

  A class with state is a record, and its instance variables are the fields; a method is a function into \<open>svc\<close> or one that
  returns the new state, with the guards, early returns and exceptions of the source in their order.  Enumerations are
  datatypes, exceptions are values of an error datatype, a durable store is a field beside the memory.  Functions of other
  packages and of the outside world (language models, tools, regular expressions, hashes, clocks, files, templates,
  databases) are arguments or fields of an environment record, about which nothing is assumed but what a theorem states.
  Time is a number, floating-point arithmetic is exact except where its overflow matters (the cooldown of the breaker).

  \<^bold>\<open>What is shown.\<close>

  \<^item> Lifecycles.  \<open>transition_table\<close> gives reachability along a table of statuses, and \<open>lifecycle_service\<close> lifts it to
    histories of calls: whatever calls are made, an entry moves only along its table and is not lost.  Both are
    interpreted for reviews, releases, budgets and approvals, the first also for candidate assets; packs, plugins and sessions have their own
    invariants, sessions over processes that stop, crash and restart.
  \<^item> Durability.  \<open>write_through\<close> states that an operation leaves the durable copy equal to the memory; it is interpreted for
    reviews, releases, budgets and approval tokens, and the restart of a service then gives back what it had.  Assets and
    mailbox are treated in the same way over their table (locale \<open>asset_calls\<close>).
  \<^item> Bounds.  \<open>meter\<close> bounds what a sequence of steps grants by what each step adds below a limit; it is interpreted for the
    five counters of an enforcer.  Connector calls, rate windows, iterations and tool starts are bounded as well.
  \<^item> Safety: what a call that passed the check satisfies; approvals and tokens are consumed once; tenants are apart in hooks
    and plugins; only a promotion activates a skill; a release is published from validation with its checks done.
  \<^item> Algorithms: the layers of a graph and its cycles, the load order of plugins, the choice of the resolver, the ranges of
    constraints, the assembly of streamed calls, the conversation in which each call has its answer.
  \<^item> Findings: lemmas at the end of most \<open>_Correct\<close> theories run the code at a concrete input and show where it differs from
    what its comments say or from what it seems meant to do.

  \<^bold>\<open>Fuel and bounds.\<close>

  The loop of Kahn's algorithm has fuel for one round more than there are steps, and the depth-first search for one level
  more; both are proved never to run out of it (\<open>DagOutOfFuel\<close>) on validated steps.  \<open>execute\<close> starts with more
  fuel than the steps of the definition have parts and the exception \<open>ExFuel\<close> is proved not to occur, so that each run
  ends.  The queue of the plugin loader has fuel for one round per plugin and one more.  The argument of \<open>run_loop\<close> and
  \<open>stream_loop\<close> is not fuel but the number of iterations left, \<open>max_iterations\<close> of the configuration; the eviction loop
  ends because each round shortens the conversation.  All other recursion is structural or has a termination proof.

  \<^bold>\<open>What is not modelled.\<close>

  The HTTP interface, the command line, the clients of models, voice and media, memory and retrieval, and improvement and
  evaluation: input and output, or numerical code in floating point.  The built-in hooks, hub clients, rollout and trust
  managers, plugin contexts and capabilities, skill matching.  The worker queue, the distributed lock and webhook delivery.
  Within the modelled parts: logging, metrics and detail texts; the field checks of Pydantic where no operation depends on
  them; the tasks of asyncio other than the order in which parallel results arrive; the context manager and the delegation
  events of the tool loop; templates, catalogue and lineage of sessions.  An operation is one atomic step.
\<close>

end
